(* ===== verification/HubPrelude.thy ===== *)
theory HubPrelude
  imports Main
begin

text \<open>
  Shared vocabulary of the development: the string functions of JavaScript the program uses,
  positions in lists as the program computes them (findIndex, slice), and the contract of a
  store whose mutations are serialised and written to disk before readers see them.

  A JavaScript string is a list of UTF-16 code units. The model's \<open>string\<close> is the part of it whose
  code units are below 256, each the \<open>char\<close> of the same number; the program's own validation
  patterns (control characters, identifiers, hexadecimal digests) speak about that part only.
  A timestamp is the number of milliseconds since the epoch, of type \<open>int\<close>, where the program
  stores the ISO text that \<open>toISOString\<close> gives for it.
\<close>

named_theorems hub_defs \<open>definitions unfolded by the component proofs\<close>

type_synonym time = int

text \<open>The range of \<open>Date\<close>: outside it \<open>toISOString\<close> throws and no canonical text exists.\<close>

definition date_range :: "time \<Rightarrow> bool" where
  "date_range t \<longleftrightarrow> abs t \<le> 8640000000000000"

definition safe_integer :: "int \<Rightarrow> bool" where
  "safe_integer n \<longleftrightarrow> abs n \<le> 9007199254740991"

section \<open>Strings\<close>

definition code_unit :: "char \<Rightarrow> nat" where
  "code_unit c = of_char c"

text \<open>White space of \<open>String.prototype.trim\<close> below code unit 256.\<close>

definition js_space :: "char \<Rightarrow> bool" where
  "js_space c \<longleftrightarrow> code_unit c \<in> {9, 10, 11, 12, 13, 32, 160}"

definition js_trim :: "string \<Rightarrow> string" where
  "js_trim s = rev (dropWhile js_space (rev (dropWhile js_space s)))"

definition blank :: "string \<Rightarrow> bool" where
  "blank s \<longleftrightarrow> js_trim s = []"

text \<open>The two control character classes of the program: the first leaves tab, newline and
  carriage return alone, the second is the whole C0, delete and C1 range.\<close>

definition text_control :: "char \<Rightarrow> bool" where
  "text_control c \<longleftrightarrow> (let n = code_unit c in n \<le> 8 \<or> n = 11 \<or> n = 12 \<or> (14 \<le> n \<and> n \<le> 31) \<or> (127 \<le> n \<and> n \<le> 159))"

definition any_control :: "char \<Rightarrow> bool" where
  "any_control c \<longleftrightarrow> (let n = code_unit c in n \<le> 31 \<or> (127 \<le> n \<and> n \<le> 159))"

definition hex_char :: "char \<Rightarrow> bool" where
  "hex_char c \<longleftrightarrow> c \<in> set ''0123456789abcdef''"

definition hex_text :: "nat \<Rightarrow> string \<Rightarrow> bool" where
  "hex_text n s \<longleftrightarrow> length s = n \<and> list_all hex_char s"

text \<open>The pattern of a lowercase UUID: groups of 8, 4, 4, 4 and 12 digits.\<close>

definition uuid_text :: "string \<Rightarrow> bool" where
  "uuid_text s \<longleftrightarrow> length s = 36
     \<and> (\<forall>i \<in> set [0..<36]. if i \<in> set [8, 13, 18, 23] then s ! i = CHR ''-'' else hex_char (s ! i))"

definition alnum_char :: "char \<Rightarrow> bool" where
  "alnum_char c \<longleftrightarrow> c \<in> set ''ABCDEFGHIJKLMNOPQRSTUVWXYZabcdefghijklmnopqrstuvwxyz0123456789''"

text \<open>\<open>toLocaleLowerCase\<close> on code units below 256, and \<open>includes\<close>.\<close>

definition lower_char :: "char \<Rightarrow> char" where
  "lower_char c = (let n = code_unit c in
     if (65 \<le> n \<and> n \<le> 90) \<or> (192 \<le> n \<and> n \<le> 222 \<and> n \<noteq> 215) then char_of (n + 32) else c)"

definition lower_text :: "string \<Rightarrow> string" where
  "lower_text s = map lower_char s"

definition includes_text :: "string \<Rightarrow> string \<Rightarrow> bool" where
  "includes_text s needle \<longleftrightarrow>
     list_ex (\<lambda>k. take (length needle) (drop k s) = needle) [0..<Suc (length s)]"

text \<open>\<open>toString(36)\<close>.\<close>

definition base36_digit :: "nat \<Rightarrow> char" where
  "base36_digit n = ''0123456789abcdefghijklmnopqrstuvwxyz'' ! n"

fun base36 :: "nat \<Rightarrow> string" where
  "base36 n = (if n < 36 then [base36_digit n] else base36 (n div 36) @ [base36_digit (n mod 36)])"

declare base36.simps [simp del]

lemma dropWhile_idem [simp]: "dropWhile P (dropWhile P xs) = dropWhile P xs"
  by (induction xs) auto

lemma length_js_trim: "length (js_trim s) \<le> length s"
proof -
  have "length (js_trim s) \<le> length (dropWhile js_space s)"
    unfolding js_trim_def by (metis length_dropWhile_le length_rev)
  also have "\<dots> \<le> length s" by (rule length_dropWhile_le)
  finally show ?thesis .
qed

lemma dropWhile_rev_first:
  assumes "xs \<noteq> []" and "\<not> P (hd xs)"
  shows "\<exists>ys. rev (dropWhile P (rev xs)) = hd xs # ys"
proof -
  obtain x xs' where xs: "xs = x # xs'" using assms(1) by (cases xs) auto
  have "dropWhile P (zs @ [x]) = dropWhile P zs @ [x]" for zs
    using assms(2) xs by (induction zs) auto
  then show ?thesis using xs by simp
qed

lemma js_trim_idem [simp]: "js_trim (js_trim s) = js_trim s"
proof (cases "dropWhile js_space s = []")
  case True
  have "js_trim s = []" unfolding js_trim_def True by simp
  then show ?thesis by (simp add: js_trim_def [of "[]"])
next
  case False
  have hd: "\<not> js_space (hd (dropWhile js_space s))" using False by (rule hd_dropWhile)
  obtain ys where ys: "js_trim s = hd (dropWhile js_space s) # ys"
    using dropWhile_rev_first [of "dropWhile js_space s" js_space] False hd by (auto simp: js_trim_def)
  then have "dropWhile js_space (js_trim s) = js_trim s" using hd by simp
  then have "js_trim (js_trim s) = rev (dropWhile js_space (rev (js_trim s)))"
    by (simp add: js_trim_def)
  also have "\<dots> = js_trim s" by (simp add: js_trim_def)
  finally show ?thesis .
qed

lemma blank_Nil [simp]: "blank []"
  by (simp add: blank_def js_trim_def)

lemma set_js_trim: "set (js_trim s) \<subseteq> set s"
  unfolding js_trim_def by (metis set_rev set_dropWhileD subsetI)

section \<open>Operations that throw\<close>

text \<open>Sequencing of operations that throw: the first error ends the sequence.\<close>

definition chain :: "'e + 'a \<Rightarrow> ('a \<Rightarrow> 'e + 'b) \<Rightarrow> 'e + 'b" where
  "chain x f = (case x of Inl e \<Rightarrow> Inl e | Inr a \<Rightarrow> f a)"

lemma chain_simps [simp]:
  "chain (Inl e) f = Inl e" "chain (Inr a) f = f a"
  by (simp_all add: chain_def)

lemma chain_Inr: "chain x f = Inr y \<longleftrightarrow> (\<exists>a. x = Inr a \<and> f a = Inr y)"
  by (cases x) auto

lemma chainE:
  "chain x f = Inr y \<Longrightarrow> (\<And>a. x = Inr a \<Longrightarrow> f a = Inr y \<Longrightarrow> P) \<Longrightarrow> P"
  by (auto simp: chain_Inr)

lemma chain_pairE:
  "chain x (case_prod g) = Inr y \<Longrightarrow> (\<And>a b. x = Inr (a, b) \<Longrightarrow> g a b = Inr y \<Longrightarrow> P) \<Longrightarrow> P"
  by (auto simp: chain_Inr)

lemma chain_tripleE:
  "chain x (\<lambda>(a, b, c). g a b c) = Inr y
     \<Longrightarrow> (\<And>a b c. x = Inr (a, b, c) \<Longrightarrow> g a b c = Inr y \<Longrightarrow> P) \<Longrightarrow> P"
  by (auto simp: chain_Inr)

section \<open>Positions in lists\<close>

text \<open>\<open>findIndex\<close>, with \<open>None\<close> for the source's \<open>-1\<close>.\<close>

fun find_index :: "('a \<Rightarrow> bool) \<Rightarrow> 'a list \<Rightarrow> nat option" where
  "find_index P [] = None"
| "find_index P (x # xs) = (if P x then Some 0 else map_option Suc (find_index P xs))"

text \<open>\<open>slice(-n)\<close>.\<close>

definition last_n :: "nat \<Rightarrow> 'a list \<Rightarrow> 'a list" where
  "last_n n xs = drop (length xs - n) xs"

lemma find_index_None: "find_index P xs = None \<longleftrightarrow> (\<forall>x \<in> set xs. \<not> P x)"
  by (induction xs) auto

lemma find_index_Some:
  "find_index P xs = Some i \<Longrightarrow> i < length xs \<and> P (xs ! i) \<and> (\<forall>k < i. \<not> P (xs ! k))"
proof (induction xs arbitrary: i)
  case Nil
  then show ?case by simp
next
  case (Cons x xs)
  show ?case
  proof (cases "P x")
    case True
    with Cons.prems show ?thesis by simp
  next
    case False
    with Cons.prems obtain k where k: "find_index P xs = Some k" "i = Suc k" by auto
    with Cons.IH [OF k(1)] False show ?thesis
      by (auto simp: less_Suc_eq_0_disj nth_Cons split: nat.splits)
  qed
qed

lemmas find_index_bound = find_index_Some [THEN conjunct1]
lemmas find_index_holds = find_index_Some [THEN conjunct2, THEN conjunct1]

lemma find_find_index: "find P xs = map_option ((!) xs) (find_index P xs)"
  by (induction xs) (auto simp: option.map_comp o_def)

lemma find_index_mem: "find_index P xs = Some i \<Longrightarrow> xs ! i \<in> set xs"
  by (auto dest: find_index_bound)

lemma length_last_n: "length (last_n n xs) = min n (length xs)"
  by (auto simp: last_n_def)

lemma set_last_n: "set (last_n n xs) \<subseteq> set xs"
  by (simp add: last_n_def set_drop_subset)

text \<open>A replacement that the test \<open>Q\<close> does not see, neither before nor after, changes no
  answer of \<open>Q\<close>: the two facts behind every isolation lemma.\<close>

lemma find_update_unseen:
  "\<not> Q (xs ! i) \<Longrightarrow> \<not> Q v \<Longrightarrow> find Q (xs[i := v]) = find Q xs"
proof (induction xs arbitrary: i)
  case Nil
  then show ?case by simp
next
  case (Cons x xs)
  then show ?case by (cases i) auto
qed

lemma filter_update_unseen:
  "\<not> Q (xs ! i) \<Longrightarrow> \<not> Q v \<Longrightarrow> filter Q (xs[i := v]) = filter Q xs"
proof (induction xs arbitrary: i)
  case Nil
  then show ?case by simp
next
  case (Cons x xs)
  then show ?case by (cases i) auto
qed

lemma map_update_same: "f v = f (xs ! i) \<Longrightarrow> map f (xs[i := v]) = map f xs"
  by (metis list_update_id map_update)

lemma find_Some_mem: "find P xs = Some x \<Longrightarrow> x \<in> set xs \<and> P x"
  by (induction xs) (auto split: if_splits)

lemma find_append: "find P (xs @ ys) = (case find P xs of None \<Rightarrow> find P ys | Some x \<Rightarrow> Some x)"
  by (induction xs) auto

section \<open>Serialised durable mutations\<close>

text \<open>
  The file-backed stores of the program share one protocol. Mutations run one at a time; each
  computes a new state from the one readers see, and a changed state is written to disk before
  readers see it (an operation that changes nothing may skip the write). An exception of the
  operation or of the write leaves both as they were.
  \<open>commit ok op st\<close> is the outcome of one mutation, with \<open>ok\<close> telling whether the write succeeds.
\<close>

locale durable_mutation =
  fixes commit :: "bool \<Rightarrow> ('s \<Rightarrow> 'e + 's \<times> 'a) \<Rightarrow> 'st \<Rightarrow> 'st \<times> ('e + 'a)"
    and view :: "'st \<Rightarrow> 's"
    and saved :: "'st \<Rightarrow> 's"
  assumes commit_op_error:
      "op (view st) = Inl e \<Longrightarrow> view (fst (commit ok op st)) = view st
         \<and> saved (fst (commit ok op st)) = saved st \<and> snd (commit ok op st) = Inl e"
    and commit_write_error:
      "op (view st) = Inr (s, a) \<Longrightarrow> view (fst (commit False op st)) = view st
         \<and> saved (fst (commit False op st)) = saved st
         \<and> (s \<noteq> view st \<longrightarrow> isl (snd (commit False op st)))"
    and commit_success:
      "op (view st) = Inr (s, a) \<Longrightarrow> view (fst (commit True op st)) = s
         \<and> (view st = saved st \<longrightarrow> saved (fst (commit True op st)) = s) \<and> snd (commit True op st) = Inr a"
begin

text \<open>A history: the outcomes of the writes and the operations, oldest first.\<close>

fun run_all :: "(bool \<times> ('s \<Rightarrow> 'e + 's \<times> 'a)) list \<Rightarrow> 'st \<Rightarrow> 'st" where
  "run_all [] st = st"
| "run_all ((ok, op) # h) st = run_all h (fst (commit ok op st))"

lemma commit_failed_unchanged:
  assumes "isl (snd (commit ok op st))"
  shows "view (fst (commit ok op st)) = view st" and "saved (fst (commit ok op st)) = saved st"
proof -
  have "view (fst (commit ok op st)) = view st \<and> saved (fst (commit ok op st)) = saved st"
  proof (cases "op (view st)")
    case (Inl e)
    then show ?thesis using commit_op_error by blast
  next
    case (Inr p)
    obtain s a where p: "p = (s, a)" by (cases p)
    show ?thesis
    proof (cases ok)
      case True
      with Inr p assms show ?thesis using commit_success [of op st s a] by auto
    next
      case False
      with Inr p show ?thesis using commit_write_error [of op st s a] by auto
    qed
  qed
  then show "view (fst (commit ok op st)) = view st"
    and "saved (fst (commit ok op st)) = saved st" by auto
qed

lemma commit_cases:
  "view (fst (commit ok op st)) = view st \<and> saved (fst (commit ok op st)) = saved st
   \<or> (\<exists>s a. op (view st) = Inr (s, a) \<and> view (fst (commit ok op st)) = s
        \<and> (view st = saved st \<longrightarrow> saved (fst (commit ok op st)) = s))"
proof (cases "op (view st)")
  case (Inl e)
  then show ?thesis using commit_op_error by blast
next
  case (Inr p)
  obtain s a where p: "p = (s, a)" by (cases p)
  with Inr show ?thesis
    by (cases ok) (use commit_success [of op st s a] commit_write_error [of op st s a] in auto)
qed

lemma commit_synced: "view st = saved st \<Longrightarrow> view (fst (commit ok op st)) = saved (fst (commit ok op st))"
  using commit_cases [of ok op st] by auto

lemma run_all_synced: "view st = saved st \<Longrightarrow> view (run_all h st) = saved (run_all h st)"
  by (induction h st rule: run_all.induct) (auto intro: commit_synced)

text \<open>What it takes for an operation to keep an invariant, or to respect a relation.\<close>

definition keeps :: "('s \<Rightarrow> bool) \<Rightarrow> ('s \<Rightarrow> 'e + 's \<times> 'a) \<Rightarrow> bool" where
  "keeps I op \<longleftrightarrow> (\<forall>s s' a. I s \<longrightarrow> op s = Inr (s', a) \<longrightarrow> I s')"

definition obeys :: "('s \<Rightarrow> 's \<Rightarrow> bool) \<Rightarrow> ('s \<Rightarrow> 'e + 's \<times> 'a) \<Rightarrow> bool" where
  "obeys R op \<longleftrightarrow> (\<forall>s s' a. op s = Inr (s', a) \<longrightarrow> R s s')"

lemma commit_invariant:
  "I (view st) \<Longrightarrow> keeps I op \<Longrightarrow> I (view (fst (commit ok op st)))"
  using commit_cases [of ok op st] unfolding keeps_def by metis

lemma run_all_invariant:
  "\<forall>x \<in> set h. keeps I (snd x) \<Longrightarrow> I (view st) \<Longrightarrow> I (view (run_all h st))"
proof (induction h arbitrary: st)
  case Nil
  then show ?case by simp
next
  case (Cons x h)
  obtain ok op where x: "x = (ok, op)" by (cases x)
  have "I (view (fst (commit ok op st)))"
    using Cons.prems x by (simp add: commit_invariant)
  with Cons x show ?case by simp
qed

text \<open>A relation every successful operation obeys holds between the states before and after
  a history, when it is reflexive and transitive.\<close>

lemma run_all_relation:
  assumes "\<forall>x \<in> set h. obeys R (snd x)" and refl: "reflp R" and trans: "transp R"
  shows "R (view st) (view (run_all h st))"
  using assms(1)
proof (induction h arbitrary: st)
  case Nil
  then show ?case using refl by (simp add: reflpD)
next
  case (Cons x h)
  obtain ok op where x: "x = (ok, op)" by (cases x)
  have "obeys R op" using Cons.prems x by simp
  then have "R (view st) (view (fst (commit ok op st)))"
    using commit_cases [of ok op st] reflpD [OF refl] unfolding obeys_def by metis
  moreover have "R (view (fst (commit ok op st))) (view (run_all h (fst (commit ok op st))))"
    using Cons by simp
  ultimately show ?case using transpD [OF trans] x by (metis run_all.simps(2))
qed

end

section \<open>Executions of a step relation\<close>

inductive steps_of :: "('s \<Rightarrow> 'ev \<Rightarrow> 's \<Rightarrow> bool) \<Rightarrow> 's \<Rightarrow> 'ev list \<Rightarrow> 's \<Rightarrow> bool"
  for step :: "'s \<Rightarrow> 'ev \<Rightarrow> 's \<Rightarrow> bool" where
  steps_nil: "steps_of step s [] s"
| steps_cons: "step s ev s' \<Longrightarrow> steps_of step s' evs s'' \<Longrightarrow> steps_of step s (ev # evs) s''"

inductive_simps steps_of_Nil [simp]: "steps_of step s [] s'"
inductive_simps steps_of_Cons [simp]: "steps_of step s (ev # evs) s'"

lemma steps_of_append:
  "steps_of step s (xs @ ys) s'' \<longleftrightarrow> (\<exists>s'. steps_of step s xs s' \<and> steps_of step s' ys s'')"
  by (induction xs arbitrary: s) auto

lemma steps_of_invariant:
  "steps_of step s evs s' \<Longrightarrow> (\<And>s ev s'. step s ev s' \<Longrightarrow> I s \<Longrightarrow> I s') \<Longrightarrow> I s \<Longrightarrow> I s'"
  by (induction rule: steps_of.induct) auto

lemma steps_of_relation:
  assumes "steps_of step s evs s'" and "\<And>s ev s'. step s ev s' \<Longrightarrow> I s \<Longrightarrow> I s' \<and> R s s'"
    and "I s" and refl: "\<And>s. R s s" and trans: "\<And>a b c. R a b \<Longrightarrow> R b c \<Longrightarrow> R a c"
  shows "R s s'"
  using assms(1,3)
proof (induction rule: steps_of.induct)
  case (steps_nil s)
  show ?case by (rule refl)
next
  case (steps_cons s ev s' evs s'')
  then show ?case using assms(2) [of s ev s'] trans by blast
qed

lemma steps_one: "step s ev s' \<Longrightarrow> steps_of step s [ev] s'"
  by (rule steps_cons [OF _ steps_nil])

lemma steps_of_invariant_on:
  "steps_of step s evs s' \<Longrightarrow> \<forall>ev \<in> set evs. Q ev
     \<Longrightarrow> (\<And>s ev s'. step s ev s' \<Longrightarrow> Q ev \<Longrightarrow> I s \<Longrightarrow> I s') \<Longrightarrow> I s \<Longrightarrow> I s'"
  by (induction rule: steps_of.induct) auto

text \<open>
  Effects that happen at most once. \<open>spent\<close> is a mark the state keeps: an event that \<open>fires\<close>
  finds it absent and sets it, and no event removes it.
\<close>

locale one_shot =
  fixes step :: "'s \<Rightarrow> 'ev \<Rightarrow> 's \<Rightarrow> bool"
    and good :: "'s \<Rightarrow> bool"
    and fires :: "'ev \<Rightarrow> bool"
    and spent :: "'s \<Rightarrow> bool"
  assumes good_step: "step s ev s' \<Longrightarrow> good s \<Longrightarrow> good s'"
    and spent_step: "step s ev s' \<Longrightarrow> good s \<Longrightarrow> spent s \<Longrightarrow> spent s'"
    and fires_fresh: "step s ev s' \<Longrightarrow> good s \<Longrightarrow> fires ev \<Longrightarrow> \<not> spent s \<and> spent s'"
begin

lemma steps_good: "steps_of step s evs s' \<Longrightarrow> good s \<Longrightarrow> good s'"
  by (induction rule: steps_of.induct) (auto intro: good_step)

lemma steps_spent: "steps_of step s evs s' \<Longrightarrow> good s \<Longrightarrow> spent s \<Longrightarrow> spent s'"
  by (induction rule: steps_of.induct) (auto intro: good_step spent_step)

lemma fires_none: "steps_of step s evs s' \<Longrightarrow> good s \<Longrightarrow> spent s \<Longrightarrow> filter fires evs = []"
  by (induction rule: steps_of.induct) (auto intro: good_step spent_step dest: fires_fresh)

lemma fires_once: "steps_of step s evs s' \<Longrightarrow> good s \<Longrightarrow> length (filter fires evs) \<le> 1"
proof (induction rule: steps_of.induct)
  case (steps_nil s)
  show ?case by simp
next
  case (steps_cons s ev s' evs s'')
  note good' = good_step [OF steps_cons.hyps(1) steps_cons.prems]
  show ?case
  proof (cases "fires ev")
    case True
    then have "spent s'" using fires_fresh steps_cons by blast
    then have "filter fires evs = []" using fires_none steps_cons.hyps(2) good' by blast
    then show ?thesis by simp
  next
    case False
    then show ?thesis using steps_cons.IH [OF good'] by simp
  qed
qed

end

lemma steps_of_split_two:
  assumes "steps_of step s evs s'" and "i < k" and "k < length evs"
  obtains s0 s1 s2 s3 where "steps_of step s (take i evs) s0" "step s0 (evs ! i) s1"
    "steps_of step s1 (drop (Suc i) (take k evs)) s2" "step s2 (evs ! k) s3"
proof -
  have k: "evs = take k evs @ evs ! k # drop (Suc k) evs" using assms(3) by (rule id_take_nth_drop)
  have i: "take k evs = take i evs @ evs ! i # drop (Suc i) (take k evs)"
    using id_take_nth_drop [of i "take k evs"] assms(2,3) by simp
  have "steps_of step s ((take i evs @ evs ! i # drop (Suc i) (take k evs)) @ evs ! k # drop (Suc k) evs) s'"
    using assms(1) k i by metis
  then show thesis
    by (auto simp: steps_of_append intro: that)
qed

end
