(* ===== verification/JobModel.thy ===== *)
theory JobModel
  imports HubPrelude
begin

text \<open>
  The data of an agent job as \<open>server/agent-job-store.ts\<close> and \<open>shared/core-orchestration.ts\<close>
  declare it: the job record with its approval, origin, publication, receipts, tool observations
  and token counts, the owner scope, and the patches an update may carry. Optional properties are
  \<open>option\<close> fields. Together with them the validators of the parts: execution receipts, command
  line receipts, token counts, model selections and idempotency input, and the merge of tool
  observations.
\<close>

section \<open>Enumerations\<close>

datatype job_mode = ReadOnly | WorkspaceWrite
datatype job_status = JQueued | JAwaiting | JRunning | JCompleted | JFailed | JCancelled
datatype provider = Codex | Copilot
datatype exec_env = LocalMacos | LocalLinux | LocalWindows | ExternalWorker
datatype effort = EffMinimal | EffLow | EffMedium | EffHigh | EffXhigh | EffMax | EffUltra
datatype platform = Darwin | Linux | Win32
datatype approval_state = ApPending | ApAccepted | ApDenied | ApExpired
datatype publication_state = PubPreview | PubSending | PubAccepted | PubFailed | PubAmbiguous
datatype publication_failure = ConnectorRejected | OutcomeUnknown | InvalidReceipt | SendingAfterRestart
datatype conversation_type = Personal | GroupChat | Channel
datatype tool_category = TSkill | TPlugin | TMcp | TCli | TBuiltin
datatype exec_status = XInProgress | XCompleted | XFailed | XDeclined
datatype notify_status = NRunning | NCompleted | NFailed | NCancelled

section \<open>Records\<close>

record approval =
  ap_id :: string
  ap_revision :: string
  ap_approver :: string
  ap_tenant :: string
  ap_deadline :: time
  ap_state :: approval_state
  ap_decided :: "time option"
  ap_settled_status :: "job_status option"
  ap_settled_at :: "time option"

record result_origin =
  or_tenant :: string
  or_requester :: string
  or_conversation :: string
  or_conversation_type :: conversation_type
  or_service_url :: string
  or_activity :: string
  or_thread :: "string option"

record publication =
  pub_operation :: string
  pub_job :: string
  pub_tenant :: string
  pub_requester :: string
  pub_origin :: result_origin
  pub_result_digest :: string
  pub_result_revision :: string
  pub_text_digest :: string
  pub_state :: publication_state
  pub_previewed :: time
  pub_sending :: "time option"
  pub_settled :: "time option"
  pub_activity :: "string option"
  pub_failure :: "publication_failure option"

record exec_receipt =
  er_observed :: time
  er_platform :: "platform option"
  er_model :: "string option"
  er_effort :: "effort option"

record cli_receipt =
  cr_observed :: time
  cr_model :: string
  cr_effort :: effort
  cr_version_observed :: bool
  cr_version :: "string option"

record token_usage =
  tk_input :: int
  tk_cached :: int
  tk_cache_write :: "int option"
  tk_output :: int
  tk_reasoning :: int

record tool_exec =
  te_item :: string
  te_status :: exec_status
  te_observed :: "time option"
  te_exit :: "int option"
  te_output :: "string option"
  te_truncated :: "bool option"

record tool_usage =
  tu_category :: tool_category
  tu_name :: string
  tu_observed :: time
  tu_exec :: "tool_exec option"

record notifications =
  nt_enabled :: bool
  nt_delivered :: "notify_status list"

record scope =
  sc_requester :: string
  sc_conversation :: string
  sc_tenant :: string

record principal =
  pr_requester :: string
  pr_tenant :: string

record job =
  job_id :: string
  job_prompt :: string
  job_provider :: "provider option"
  job_mode :: job_mode
  job_status :: job_status
  job_notifications :: "notifications option"
  job_approval :: "approval option"
  job_origin :: "result_origin option"
  job_publication :: "publication option"
  job_conversation :: string
  job_requester :: string
  job_tenant :: "string option"
  job_key :: "string option"
  job_hash :: "string option"
  job_parent :: "string option"
  job_thread :: "string option"
  job_result :: "string option"
  job_tokens :: "token_usage option"
  job_commit :: "string option"
  job_commit_message :: "string option"
  job_changed :: "string list option"
  job_error :: "string option"
  job_progress :: "string list"
  job_tools :: "tool_usage list option"
  job_model :: "string option"
  job_effort :: "effort option"
  job_catalog :: "string option"
  job_env :: "exec_env option"
  job_receipt :: "exec_receipt option"
  job_cli :: "cli_receipt option"
  job_created :: time
  job_updated :: "time option"
  job_started :: "time option"
  job_finished :: "time option"
  job_cancel_requested :: "time option"

section \<open>Scopes\<close>

definition matches_scope :: "job \<Rightarrow> scope \<Rightarrow> bool" where
  "matches_scope j sc \<longleftrightarrow> job_requester j = sc_requester sc
     \<and> job_conversation j = sc_conversation sc \<and> job_tenant j = Some (sc_tenant sc)"

definition matches_principal :: "job \<Rightarrow> principal \<Rightarrow> bool" where
  "matches_principal j p \<longleftrightarrow> job_requester j = pr_requester p \<and> job_tenant j = Some (pr_tenant p)"

definition terminal_status :: "job_status \<Rightarrow> bool" where
  "terminal_status s \<longleftrightarrow> s = JCompleted \<or> s = JFailed \<or> s = JCancelled"

definition active_status :: "job_status \<Rightarrow> bool" where
  "active_status s \<longleftrightarrow> s = JQueued \<or> s = JAwaiting \<or> s = JRunning"

lemma active_not_terminal: "active_status s \<longleftrightarrow> \<not> terminal_status s"
  by (cases s) (auto simp: active_status_def terminal_status_def)

lemma matches_scope_principal:
  "matches_scope j sc \<Longrightarrow> matches_principal j \<lparr>pr_requester = sc_requester sc, pr_tenant = sc_tenant sc\<rparr>"
  by (simp add: matches_scope_def matches_principal_def)

lemma matches_scope_unique: "matches_scope j sc \<Longrightarrow> matches_scope j sc' \<Longrightarrow> sc = sc'"
  by (simp add: matches_scope_def)

section \<open>Patches\<close>

text \<open>The properties of \<open>Partial<Omit<AgentJob, keyof AgentJobScope>>\<close>, each key present in the
  object being one entry; an entry whose value is \<open>undefined\<close> carries \<open>None\<close>.\<close>

datatype (discs_sels) patch_field =
    PId string
  | PPrompt string
  | PProvider "provider option"
  | PMode job_mode
  | PStatus job_status
  | PNotifications "notifications option"
  | PApproval "approval option"
  | POrigin "result_origin option"
  | PPublication "publication option"
  | PKey "string option"
  | PHash "string option"
  | PParent "string option"
  | PThread "string option"
  | PResult "string option"
  | PTokens "token_usage option"
  | PCommit "string option"
  | PCommitMessage "string option"
  | PChanged "string list option"
  | PError "string option"
  | PProgress "string list"
  | PTools "tool_usage list option"
  | PModel "string option"
  | PEffort "effort option"
  | PCatalog "string option"
  | PEnv "exec_env option"
  | PReceipt "exec_receipt option"
  | PCli "cli_receipt option"
  | PCreated time
  | PUpdated "time option"
  | PStarted "time option"
  | PFinished "time option"
  | PCancelRequested "time option"

fun patch_one :: "patch_field \<Rightarrow> job \<Rightarrow> job" where
  "patch_one (PId v) j = j\<lparr>job_id := v\<rparr>"
| "patch_one (PPrompt v) j = j\<lparr>job_prompt := v\<rparr>"
| "patch_one (PProvider v) j = j\<lparr>job_provider := v\<rparr>"
| "patch_one (PMode v) j = j\<lparr>job_mode := v\<rparr>"
| "patch_one (PStatus v) j = j\<lparr>job_status := v\<rparr>"
| "patch_one (PNotifications v) j = j\<lparr>job_notifications := v\<rparr>"
| "patch_one (PApproval v) j = j\<lparr>job_approval := v\<rparr>"
| "patch_one (POrigin v) j = j\<lparr>job_origin := v\<rparr>"
| "patch_one (PPublication v) j = j\<lparr>job_publication := v\<rparr>"
| "patch_one (PKey v) j = j\<lparr>job_key := v\<rparr>"
| "patch_one (PHash v) j = j\<lparr>job_hash := v\<rparr>"
| "patch_one (PParent v) j = j\<lparr>job_parent := v\<rparr>"
| "patch_one (PThread v) j = j\<lparr>job_thread := v\<rparr>"
| "patch_one (PResult v) j = j\<lparr>job_result := v\<rparr>"
| "patch_one (PTokens v) j = j\<lparr>job_tokens := v\<rparr>"
| "patch_one (PCommit v) j = j\<lparr>job_commit := v\<rparr>"
| "patch_one (PCommitMessage v) j = j\<lparr>job_commit_message := v\<rparr>"
| "patch_one (PChanged v) j = j\<lparr>job_changed := v\<rparr>"
| "patch_one (PError v) j = j\<lparr>job_error := v\<rparr>"
| "patch_one (PProgress v) j = j\<lparr>job_progress := v\<rparr>"
| "patch_one (PTools v) j = j\<lparr>job_tools := v\<rparr>"
| "patch_one (PModel v) j = j\<lparr>job_model := v\<rparr>"
| "patch_one (PEffort v) j = j\<lparr>job_effort := v\<rparr>"
| "patch_one (PCatalog v) j = j\<lparr>job_catalog := v\<rparr>"
| "patch_one (PEnv v) j = j\<lparr>job_env := v\<rparr>"
| "patch_one (PReceipt v) j = j\<lparr>job_receipt := v\<rparr>"
| "patch_one (PCli v) j = j\<lparr>job_cli := v\<rparr>"
| "patch_one (PCreated v) j = j\<lparr>job_created := v\<rparr>"
| "patch_one (PUpdated v) j = j\<lparr>job_updated := v\<rparr>"
| "patch_one (PStarted v) j = j\<lparr>job_started := v\<rparr>"
| "patch_one (PFinished v) j = j\<lparr>job_finished := v\<rparr>"
| "patch_one (PCancelRequested v) j = j\<lparr>job_cancel_requested := v\<rparr>"

text \<open>Object spread: \<open>{ ...job, ...patch }\<close>.\<close>

definition apply_patch :: "patch_field list \<Rightarrow> job \<Rightarrow> job" where
  "apply_patch p j = fold patch_one p j"

lemma apply_patch_simps [simp]:
  "apply_patch [] j = j"
  "apply_patch (f # p) j = apply_patch p (patch_one f j)"
  by (simp_all add: apply_patch_def)

text \<open>A patch cannot name the owner scope: those keys are not in its type.\<close>

lemma patch_one_scope [simp]:
  "job_tenant (patch_one f j) = job_tenant j" "job_requester (patch_one f j) = job_requester j"
  "job_conversation (patch_one f j) = job_conversation j"
  by (cases f; simp)+

lemma apply_patch_scope [simp]:
  "job_tenant (apply_patch p j) = job_tenant j" "job_requester (apply_patch p j) = job_requester j"
  "job_conversation (apply_patch p j) = job_conversation j"
  by (induction p arbitrary: j) auto

text \<open>A key the patch does not carry keeps its value.\<close>

lemma patch_one_absent:
  "\<not> is_PApproval f \<Longrightarrow> job_approval (patch_one f j) = job_approval j"
  "\<not> is_POrigin f \<Longrightarrow> job_origin (patch_one f j) = job_origin j"
  "\<not> is_PPublication f \<Longrightarrow> job_publication (patch_one f j) = job_publication j"
  "\<not> is_PNotifications f \<Longrightarrow> job_notifications (patch_one f j) = job_notifications j"
  "\<not> is_PReceipt f \<Longrightarrow> job_receipt (patch_one f j) = job_receipt j"
  "\<not> is_PCli f \<Longrightarrow> job_cli (patch_one f j) = job_cli j"
  "\<not> is_PTokens f \<Longrightarrow> job_tokens (patch_one f j) = job_tokens j"
  "\<not> is_PCancelRequested f \<Longrightarrow> job_cancel_requested (patch_one f j) = job_cancel_requested j"
  "\<not> is_PId f \<Longrightarrow> job_id (patch_one f j) = job_id j"
  "\<not> is_PKey f \<Longrightarrow> job_key (patch_one f j) = job_key j"
  "\<not> is_PHash f \<Longrightarrow> job_hash (patch_one f j) = job_hash j"
  "\<not> is_PCreated f \<Longrightarrow> job_created (patch_one f j) = job_created j"
  by (cases f; simp)+

lemma apply_patch_absent:
  "\<not> list_ex is_PApproval p \<Longrightarrow> job_approval (apply_patch p j) = job_approval j"
  "\<not> list_ex is_POrigin p \<Longrightarrow> job_origin (apply_patch p j) = job_origin j"
  "\<not> list_ex is_PPublication p \<Longrightarrow> job_publication (apply_patch p j) = job_publication j"
  "\<not> list_ex is_PNotifications p \<Longrightarrow> job_notifications (apply_patch p j) = job_notifications j"
  "\<not> list_ex is_PReceipt p \<Longrightarrow> job_receipt (apply_patch p j) = job_receipt j"
  "\<not> list_ex is_PCli p \<Longrightarrow> job_cli (apply_patch p j) = job_cli j"
  "\<not> list_ex is_PTokens p \<Longrightarrow> job_tokens (apply_patch p j) = job_tokens j"
  "\<not> list_ex is_PCancelRequested p \<Longrightarrow> job_cancel_requested (apply_patch p j) = job_cancel_requested j"
  "\<not> list_ex is_PId p \<Longrightarrow> job_id (apply_patch p j) = job_id j"
  "\<not> list_ex is_PKey p \<Longrightarrow> job_key (apply_patch p j) = job_key j"
  "\<not> list_ex is_PHash p \<Longrightarrow> job_hash (apply_patch p j) = job_hash j"
  "\<not> list_ex is_PCreated p \<Longrightarrow> job_created (apply_patch p j) = job_created j"
  by (induction p arbitrary: j) (auto simp: patch_one_absent)

section \<open>Validated values\<close>

definition model_char :: "char \<Rightarrow> bool" where
  "model_char c \<longleftrightarrow> alnum_char c \<or> c \<in> set ''._-''"

definition model_text :: "string \<Rightarrow> bool" where
  "model_text s \<longleftrightarrow> (case s of [] \<Rightarrow> False
     | c # cs \<Rightarrow> alnum_char c \<and> length cs \<le> 127 \<and> list_all model_char cs)"

definition lower_alnum :: "char \<Rightarrow> bool" where
  "lower_alnum c \<longleftrightarrow> c \<in> set ''abcdefghijklmnopqrstuvwxyz0123456789''"

definition catalog_model_text :: "string \<Rightarrow> bool" where
  "catalog_model_text s \<longleftrightarrow> (case s of [] \<Rightarrow> False
     | c # cs \<Rightarrow> lower_alnum c \<and> length cs \<le> 127 \<and> list_all (\<lambda>d. lower_alnum d \<or> d \<in> set ''._-'') cs)"

definition read_exec_receipt :: "exec_receipt option \<Rightarrow> exec_receipt option option" where
  "read_exec_receipt v = (case v of None \<Rightarrow> Some None
     | Some r \<Rightarrow>
         if \<not> date_range (er_observed r)
            \<or> (case er_model r of None \<Rightarrow> False | Some m \<Rightarrow> \<not> model_text m)
            \<or> (er_platform r = None \<and> er_model r = None \<and> er_effort r = None)
         then None else Some (Some r))"

definition same_exec_receipt :: "exec_receipt \<Rightarrow> exec_receipt option \<Rightarrow> bool" where
  "same_exec_receipt a b = (case b of None \<Rightarrow> False
     | Some b \<Rightarrow> er_observed a = er_observed b \<and> er_platform a = er_platform b
         \<and> er_model a = er_model b \<and> er_effort a = er_effort b)"

definition digits :: "string \<Rightarrow> bool" where
  "digits s \<longleftrightarrow> 1 \<le> length s \<and> length s \<le> 4 \<and> list_all (\<lambda>c. c \<in> set ''0123456789'') s"

text \<open>\<open>codex-cli N.N.N\<close> with an optional \<open>-suffix\<close>.\<close>

definition cli_version_text :: "string \<Rightarrow> bool" where
  "cli_version_text s \<longleftrightarrow> take 10 s = ''codex-cli ''
     \<and> (let body = drop 10 s;
            major = takeWhile (\<lambda>c. c \<noteq> CHR ''.'') body;
            rest1 = drop (length major + 1) body;
            minor = takeWhile (\<lambda>c. c \<noteq> CHR ''.'') rest1;
            rest2 = drop (length minor + 1) rest1;
            fix_part = takeWhile (\<lambda>c. c \<noteq> CHR ''-'') rest2;
            suffix = drop (length fix_part) rest2
        in length major < length body \<and> length minor < length rest1
           \<and> digits major \<and> digits minor \<and> digits fix_part
           \<and> (case suffix of [] \<Rightarrow> True | _ # [] \<Rightarrow> False
                | _ # c # cs \<Rightarrow> alnum_char c \<and> length cs \<le> 63
                    \<and> list_all (\<lambda>d. alnum_char d \<or> d \<in> set ''.-'') cs))"

definition read_cli_receipt :: "cli_receipt option \<Rightarrow> cli_receipt option option" where
  "read_cli_receipt v = (case v of None \<Rightarrow> Some None
     | Some r \<Rightarrow>
         if \<not> date_range (cr_observed r) \<or> \<not> model_text (cr_model r)
            \<or> (if cr_version_observed r
               then (case cr_version r of None \<Rightarrow> True | Some s \<Rightarrow> \<not> cli_version_text s)
               else cr_version r \<noteq> None)
         then None else Some (Some r))"

definition same_cli_receipt :: "cli_receipt \<Rightarrow> cli_receipt option \<Rightarrow> bool" where
  "same_cli_receipt a b = (case b of None \<Rightarrow> False
     | Some b \<Rightarrow> cr_observed a = cr_observed b \<and> cr_model a = cr_model b \<and> cr_effort a = cr_effort b
         \<and> cr_version_observed a = cr_version_observed b \<and> cr_version a = cr_version b)"

lemma same_receipts [simp]:
  "same_exec_receipt a b \<longleftrightarrow> b = Some a" "same_cli_receipt c d \<longleftrightarrow> d = Some c"
  by (auto simp: same_exec_receipt_def same_cli_receipt_def split: option.splits)

lemma read_receipts_id:
  "read_exec_receipt v = Some r \<Longrightarrow> r = v" "read_cli_receipt w = Some s \<Longrightarrow> s = w"
  by (auto simp: read_exec_receipt_def read_cli_receipt_def split: option.splits if_splits)

definition token_count :: "int \<Rightarrow> bool" where
  "token_count n \<longleftrightarrow> safe_integer n \<and> 0 \<le> n"

definition valid_tokens :: "token_usage \<Rightarrow> bool" where
  "valid_tokens t \<longleftrightarrow> token_count (tk_input t) \<and> token_count (tk_cached t)
     \<and> (case tk_cache_write t of None \<Rightarrow> True | Some n \<Rightarrow> token_count n)
     \<and> token_count (tk_output t) \<and> token_count (tk_reasoning t)"

definition same_tokens :: "token_usage \<Rightarrow> token_usage option \<Rightarrow> bool" where
  "same_tokens a b = (case b of None \<Rightarrow> False
     | Some b \<Rightarrow> tk_input a = tk_input b \<and> tk_cached a = tk_cached b
         \<and> tk_cache_write a = tk_cache_write b \<and> tk_output a = tk_output b
         \<and> tk_reasoning a = tk_reasoning b)"

lemma same_tokens_iff [simp]: "same_tokens a b \<longleftrightarrow> b = Some a"
  by (auto simp: same_tokens_def split: option.splits)

text \<open>A model selection is complete or absent.\<close>

definition read_selection ::
  "string option \<Rightarrow> effort option \<Rightarrow> string option \<Rightarrow> (string \<times> effort \<times> string) option option" where
  "read_selection m e c = (case (m, e, c) of
       (None, None, None) \<Rightarrow> Some None
     | (Some m, Some e, Some c) \<Rightarrow>
         if catalog_model_text m \<and> hex_text 64 c then Some (Some (m, e, c)) else None
     | _ \<Rightarrow> None)"

definition read_notifications :: "notifications option \<Rightarrow> notifications option option" where
  "read_notifications v = (case v of None \<Rightarrow> Some None
     | Some n \<Rightarrow> if 4 < length (nt_delivered n) \<or> \<not> distinct (nt_delivered n)
                then None else Some (Some n))"

lemma read_notifications_id: "read_notifications v = Some r \<Longrightarrow> r = v"
  by (auto simp: read_notifications_def split: option.splits if_splits)

text \<open>The key and the request digest come together; an empty text counts as absent.\<close>

definition present :: "string option \<Rightarrow> bool" where
  "present v \<longleftrightarrow> (case v of None \<Rightarrow> False | Some s \<Rightarrow> s \<noteq> [])"

definition valid_idempotency_input :: "string option \<Rightarrow> string option \<Rightarrow> bool" where
  "valid_idempotency_input k h \<longleftrightarrow>
     (if present k \<noteq> present h then False
      else if \<not> present k then True
      else length (the k) \<le> 200 \<and> js_trim (the k) = the k \<and> \<not> list_ex text_control (the k)
           \<and> hex_text 64 (the h))"

lemma presentD: "present v \<Longrightarrow> \<exists>s. v = Some s \<and> s \<noteq> []"
  by (auto simp: present_def split: option.splits)

lemma present_Some [simp]: "present (Some s) \<longleftrightarrow> s \<noteq> []" "\<not> present None"
  by (auto simp: present_def)

end
