(* ===== verification/Approval.thy ===== *)
theory Approval
  imports JobModel
begin

text \<open>
  The durable approval of a workspace-writing job (\<open>server/core-approval-recovery.ts\<close>) and the
  revision it is bound to (\<open>server/personal-approval-projection.ts\<close>).

  The parameter \<open>sha\<close> stands for SHA-256 of the JSON text of the argument tuple, which Node's
  crypto module computes; no lemma assumes anything about it.
\<close>

datatype approval_error = ApUnsupported | ApInvalid | ApMismatch | ApConflict

type_synonym revision_input =
  "string \<times> string \<times> job_mode \<times> provider option \<times> exec_env option \<times> string option
     \<times> effort option \<times> string option \<times> string option"

type_synonym digest_fn = "revision_input \<Rightarrow> string"

definition revision_input :: "job \<Rightarrow> revision_input" where
  "revision_input j = (job_id j, job_prompt j, job_mode j, job_provider j, job_env j, job_model j,
     job_effort j, job_catalog j, job_parent j)"

definition revision :: "digest_fn \<Rightarrow> job \<Rightarrow> string" where
  "revision sha j = sha (revision_input j)"

definition approval_id_text :: "string \<Rightarrow> bool" where
  "approval_id_text s \<longleftrightarrow> take 9 s = ''approval-'' \<and> uuid_text (drop 9 s)"

definition bounded_text :: "string \<Rightarrow> bool" where
  "bounded_text s \<longleftrightarrow> s \<noteq> [] \<and> length s \<le> 256 \<and> js_trim s = s \<and> \<not> list_ex any_control s"

definition approval_ttl :: int where
  "approval_ttl = 15 * 60 * 1000"

text \<open>\<open>uuid\<close> is the text \<open>randomUUID\<close> returns.\<close>

definition create_approval :: "digest_fn \<Rightarrow> string \<Rightarrow> job \<Rightarrow> int \<Rightarrow> approval_error + approval" where
  "create_approval sha uuid j ttl =
     (if job_mode j \<noteq> WorkspaceWrite \<or> job_status j \<noteq> JAwaiting
         \<or> (case job_tenant j of None \<Rightarrow> True | Some t \<Rightarrow> \<not> bounded_text t)
         \<or> \<not> bounded_text (job_requester j)
         \<or> \<not> date_range (job_created j) \<or> \<not> safe_integer ttl \<or> ttl \<le> 0
         \<or> \<not> date_range (job_created j + ttl)
      then Inl ApInvalid
      else Inr \<lparr>ap_id = ''approval-'' @ uuid, ap_revision = revision sha j,
                ap_approver = job_requester j, ap_tenant = the (job_tenant j),
                ap_deadline = job_created j + ttl, ap_state = ApPending, ap_decided = None,
                ap_settled_status = None, ap_settled_at = None\<rparr>)"

section \<open>Reading persisted authority\<close>

text \<open>The conditions of \<open>readDurableApproval\<close>, one definition per group of the source.\<close>

definition approval_identity_ok :: "digest_fn \<Rightarrow> approval \<Rightarrow> job \<Rightarrow> bool" where
  "approval_identity_ok sha a j \<longleftrightarrow>
     approval_id_text (ap_id a) \<and> hex_text 64 (ap_revision a)
     \<and> bounded_text (ap_approver a) \<and> ap_approver a = job_requester j
     \<and> bounded_text (ap_tenant a) \<and> Some (ap_tenant a) = job_tenant j
     \<and> job_mode j = WorkspaceWrite \<and> ap_revision a = revision sha j
     \<and> date_range (ap_deadline a) \<and> job_created j < ap_deadline a"

definition approval_decision_ok :: "approval \<Rightarrow> job \<Rightarrow> bool" where
  "approval_decision_ok a j \<longleftrightarrow>
     (case ap_decided a of
        None \<Rightarrow> ap_state a = ApPending
      | Some d \<Rightarrow> ap_state a \<noteq> ApPending \<and> date_range d \<and> job_created j \<le> d
          \<and> (if ap_state a = ApExpired then ap_deadline a \<le> d else d < ap_deadline a))"

definition approval_settlement_ok :: "approval \<Rightarrow> job \<Rightarrow> bool" where
  "approval_settlement_ok a j \<longleftrightarrow>
     (case (ap_settled_status a, ap_settled_at a) of
        (None, None) \<Rightarrow> True
      | (Some s, Some t) \<Rightarrow> terminal_status s \<and> date_range t
          \<and> (case ap_decided a of None \<Rightarrow> job_created j | Some d \<Rightarrow> d) \<le> t
      | _ \<Rightarrow> False)"

definition approval_status_ok :: "approval \<Rightarrow> job \<Rightarrow> bool" where
  "approval_status_ok a j \<longleftrightarrow>
     (ap_state a = ApDenied \<or> ap_state a = ApExpired \<longrightarrow>
        ap_settled_status a = Some JCancelled \<and> job_status j = JCancelled)
     \<and> \<not> (ap_state a = ApPending \<and> \<not> terminal_status (job_status j) \<and> job_status j \<noteq> JAwaiting)
     \<and> \<not> (ap_state a = ApAccepted \<and> job_status j = JAwaiting)
     \<and> (\<forall>s \<in> set_option (ap_settled_status a). s = job_status j)"

definition approval_ok :: "digest_fn \<Rightarrow> approval \<Rightarrow> job \<Rightarrow> bool" where
  "approval_ok sha a j \<longleftrightarrow> approval_identity_ok sha a j \<and> approval_decision_ok a j
     \<and> approval_settlement_ok a j \<and> approval_status_ok a j"

definition read_approval :: "digest_fn \<Rightarrow> approval option \<Rightarrow> job \<Rightarrow> approval_error + approval option" where
  "read_approval sha v j = (case v of None \<Rightarrow> Inr None
     | Some a \<Rightarrow> if approval_ok sha a j then Inr (Some a) else Inl ApInvalid)"

section \<open>Decisions\<close>

datatype decision = Accept | Deny | Expire

record approval_request =
  rq_id :: string
  rq_revision :: string

definition assert_identity :: "approval_request \<Rightarrow> bool" where
  "assert_identity r \<longleftrightarrow> approval_id_text (rq_id r) \<and> hex_text 64 (rq_revision r)"

record transition =
  tr_patch :: "patch_field list"
  tr_dispatch :: bool
  tr_replayed :: bool

text \<open>\<open>new Date(now).toISOString()\<close> throws outside the range of dates; the model gives the
  error \<open>ApInvalid\<close> there.\<close>

definition transition_approval ::
  "digest_fn \<Rightarrow> job \<Rightarrow> scope \<Rightarrow> approval_request \<Rightarrow> decision \<Rightarrow> time \<Rightarrow> approval_error + transition" where
  "transition_approval sha j sc r d now =
     (if \<not> assert_identity r then Inl ApInvalid
      else case read_approval sha (job_approval j) j of
        Inl e \<Rightarrow> Inl e
      | Inr None \<Rightarrow> Inl ApUnsupported
      | Inr (Some a) \<Rightarrow>
          if job_tenant j \<noteq> Some (sc_tenant sc) \<or> job_requester j \<noteq> sc_requester sc
             \<or> job_conversation j \<noteq> sc_conversation sc \<or> ap_approver a \<noteq> sc_requester sc
             \<or> ap_tenant a \<noteq> sc_tenant sc \<or> ap_id a \<noteq> rq_id r \<or> ap_revision a \<noteq> rq_revision r
          then Inl ApMismatch
          else if ap_state a \<noteq> ApPending then
            (if d = Accept \<and> ap_state a = ApAccepted \<or> d = Deny \<and> ap_state a = ApDenied
                \<or> ap_state a = ApExpired
             then Inr \<lparr>tr_patch = [], tr_dispatch = False, tr_replayed = True\<rparr>
             else Inl ApConflict)
          else if job_status j \<noteq> JAwaiting \<or> ap_settled_status a \<noteq> None then Inl ApConflict
          else
            let expired = (ap_deadline a \<le> now) in
            if d = Expire \<and> \<not> expired
            then Inr \<lparr>tr_patch = [], tr_dispatch = False, tr_replayed = True\<rparr>
            else if \<not> date_range now then Inl ApInvalid
            else if expired \<or> d = Deny then
              Inr \<lparr>tr_patch = [PStatus JCancelled, PFinished (Some now),
                     PApproval (Some (a\<lparr>ap_state := (if expired then ApExpired else ApDenied),
                       ap_decided := Some now, ap_settled_status := Some JCancelled,
                       ap_settled_at := Some now\<rparr>))],
                   tr_dispatch = False, tr_replayed = False\<rparr>
            else
              Inr \<lparr>tr_patch = [PStatus JQueued, PError None,
                     PApproval (Some (a\<lparr>ap_state := ApAccepted, ap_decided := Some now\<rparr>))],
                   tr_dispatch = True, tr_replayed = False\<rparr>)"

definition settle_approval :: "digest_fn \<Rightarrow> job \<Rightarrow> approval_error + approval option" where
  "settle_approval sha j = (case read_approval sha (job_approval j) j of
       Inl e \<Rightarrow> Inl e
     | Inr None \<Rightarrow> Inr None
     | Inr (Some a) \<Rightarrow>
         if \<not> terminal_status (job_status j) then Inr (Some a)
         else case ap_settled_status a of
           Some s \<Rightarrow> if s \<noteq> job_status j then Inl ApConflict else Inr (Some a)
         | None \<Rightarrow>
             (case job_finished j of
                None \<Rightarrow> Inl ApInvalid
              | Some f \<Rightarrow>
                  if \<not> date_range f then Inl ApInvalid
                  else if ap_state a = ApPending \<and> job_status j = JCancelled then
                    read_approval sha (Some (a\<lparr>
                      ap_state := (if ap_deadline a \<le> f then ApExpired else ApDenied),
                      ap_decided := Some f, ap_settled_status := Some JCancelled,
                      ap_settled_at := Some f\<rparr>)) j
                  else read_approval sha (Some (a\<lparr>
                      ap_settled_status := Some (job_status j), ap_settled_at := Some f\<rparr>)) j))"

lemmas approval_ok_defs = approval_ok_def approval_identity_ok_def approval_decision_ok_def
  approval_settlement_ok_def approval_status_ok_def

subsection \<open>Lemmas\<close>

lemma read_approval_id: "read_approval sha v j = Inr r \<Longrightarrow> r = v"
  by (auto simp: read_approval_def split: option.splits if_splits)

lemma read_approval_Some:
  "read_approval sha v j = Inr (Some a) \<longleftrightarrow> v = Some a \<and> approval_ok sha a j"
  by (auto simp: read_approval_def split: option.splits)

lemma read_approval_Inl:
  "read_approval sha v j = Inl e \<longleftrightarrow> e = ApInvalid \<and> (\<exists>a. v = Some a \<and> \<not> approval_ok sha a j)"
  by (auto simp: read_approval_def split: option.splits)

text \<open>Validity looks at these properties of the job only.\<close>

lemma approval_ok_cong:
  assumes "job_requester j = job_requester j'" "job_tenant j = job_tenant j'"
    "revision_input j = revision_input j'" "job_created j = job_created j'"
    "job_status j = job_status j'"
  shows "approval_ok sha a j \<longleftrightarrow> approval_ok sha a j'"
proof -
  have "job_mode j = job_mode j'" using assms(3) by (simp add: revision_input_def)
  then show ?thesis using assms by (simp add: approval_ok_defs revision_def cong: option.case_cong)
qed

text \<open>Work that is queued or runs has the consent it needs.\<close>

lemma approval_ok_active:
  "approval_ok sha a j \<Longrightarrow> job_status j = JQueued \<or> job_status j = JRunning \<Longrightarrow> ap_state a = ApAccepted"
  by (cases "ap_state a") (auto simp: approval_ok_defs terminal_status_def)

lemma create_approval_ok:
  assumes "create_approval sha uuid j ttl = Inr a" and "uuid_text uuid"
    and "hex_text 64 (revision sha j)"
  shows "approval_ok sha a j"
proof -
  have "job_mode j = WorkspaceWrite" "job_status j = JAwaiting" "bounded_text (job_requester j)"
    "\<exists>t. job_tenant j = Some t \<and> bounded_text t" "0 < ttl" "date_range (job_created j + ttl)"
    using assms(1) by (auto simp: create_approval_def split: if_splits option.splits)
  moreover have "a = \<lparr>ap_id = ''approval-'' @ uuid, ap_revision = revision sha j,
      ap_approver = job_requester j, ap_tenant = the (job_tenant j),
      ap_deadline = job_created j + ttl, ap_state = ApPending, ap_decided = None,
      ap_settled_status = None, ap_settled_at = None\<rparr>"
    using assms(1) by (auto simp: create_approval_def split: if_splits)
  ultimately show ?thesis
    using assms(2,3) by (auto simp: approval_ok_defs approval_id_text_def terminal_status_def)
qed

text \<open>The four ways a decision succeeds.\<close>

definition matches_request :: "job \<Rightarrow> scope \<Rightarrow> approval_request \<Rightarrow> approval \<Rightarrow> bool" where
  "matches_request j sc r a \<longleftrightarrow> matches_scope j sc \<and> ap_approver a = sc_requester sc
     \<and> ap_tenant a = sc_tenant sc \<and> ap_id a = rq_id r \<and> ap_revision a = rq_revision r"

lemma transition_cases:
  assumes "transition_approval sha j sc r d now = Inr t"
  obtains (replay) a where "job_approval j = Some a" "approval_ok sha a j" "matches_request j sc r a"
      "t = \<lparr>tr_patch = [], tr_dispatch = False, tr_replayed = True\<rparr>"
      "ap_state a = ApPending \<longrightarrow> d = Expire \<and> now < ap_deadline a"
  | (cancel) a where "job_approval j = Some a" "approval_ok sha a j" "matches_request j sc r a"
      "ap_state a = ApPending" "job_status j = JAwaiting" "ap_settled_status a = None" "date_range now"
      "ap_deadline a \<le> now \<or> d = Deny"
      "t = \<lparr>tr_patch = [PStatus JCancelled, PFinished (Some now),
          PApproval (Some (a\<lparr>ap_state := (if ap_deadline a \<le> now then ApExpired else ApDenied),
            ap_decided := Some now, ap_settled_status := Some JCancelled, ap_settled_at := Some now\<rparr>))],
          tr_dispatch = False, tr_replayed = False\<rparr>"
  | (accept) a where "job_approval j = Some a" "approval_ok sha a j" "matches_request j sc r a"
      "ap_state a = ApPending" "job_status j = JAwaiting" "ap_settled_status a = None" "date_range now"
      "now < ap_deadline a" "d = Accept"
      "t = \<lparr>tr_patch = [PStatus JQueued, PError None,
          PApproval (Some (a\<lparr>ap_state := ApAccepted, ap_decided := Some now\<rparr>))],
          tr_dispatch = True, tr_replayed = False\<rparr>"
proof -
  note defs = transition_approval_def
  obtain v where v: "read_approval sha (job_approval j) j = Inr v"
    using assms by (auto simp: defs split: if_splits sum.splits)
  obtain a where a: "v = Some a"
    using assms v by (cases v) (auto simp: defs split: if_splits)
  have ok: "job_approval j = Some a" "approval_ok sha a j"
    using v a by (auto simp: read_approval_Some)
  have req: "matches_request j sc r a"
    using assms v a by (auto simp: defs matches_request_def matches_scope_def split: if_splits)
  show thesis
  proof (cases "ap_state a = ApPending")
    case False
    then have "t = \<lparr>tr_patch = [], tr_dispatch = False, tr_replayed = True\<rparr>"
      using assms v a by (auto simp: defs split: if_splits)
    with ok req False replay show ?thesis by blast
  next
    case True
    then have st: "job_status j = JAwaiting" "ap_settled_status a = None"
      using assms v a by (auto simp: defs split: if_splits)
    show ?thesis
    proof (cases "d = Expire \<and> now < ap_deadline a")
      case True
      then have "t = \<lparr>tr_patch = [], tr_dispatch = False, tr_replayed = True\<rparr>"
        using assms v a \<open>ap_state a = ApPending\<close> st by (auto simp: defs split: if_splits)
      with ok req True replay show ?thesis by blast
    next
      case F: False
      then have range: "date_range now"
        using assms v a True st by (auto simp: defs Let_def split: if_splits)
      show ?thesis
      proof (cases "ap_deadline a \<le> now \<or> d = Deny")
        case C: True
        have "t = \<lparr>tr_patch = [PStatus JCancelled, PFinished (Some now),
          PApproval (Some (a\<lparr>ap_state := (if ap_deadline a \<le> now then ApExpired else ApDenied),
            ap_decided := Some now, ap_settled_status := Some JCancelled, ap_settled_at := Some now\<rparr>))],
          tr_dispatch = False, tr_replayed = False\<rparr>"
          using assms v a True st F C range by (auto simp: defs Let_def split: if_splits)
        with ok req True st range C cancel show ?thesis by blast
      next
        case C: False
        then have "d = Accept" "now < ap_deadline a" using F by (cases d; auto)+
        moreover have "t = \<lparr>tr_patch = [PStatus JQueued, PError None,
          PApproval (Some (a\<lparr>ap_state := ApAccepted, ap_decided := Some now\<rparr>))],
          tr_dispatch = True, tr_replayed = False\<rparr>"
          using assms v a True st F C range by (auto simp: defs Let_def split: if_splits)
        ultimately show ?thesis using ok req True st range accept by blast
      qed
    qed
  qed
qed

text \<open>The patch of a decision leaves the record valid, when the clock has not gone back behind
  the creation of the job.\<close>

lemma transition_patch_ok:
  assumes "transition_approval sha j sc r d now = Inr t" and "job_created j \<le> now"
  shows "\<exists>a. job_approval (apply_patch (tr_patch t) j) = Some a
    \<and> approval_ok sha a (apply_patch (tr_patch t) j)"
  using assms(1)
proof (cases rule: transition_cases)
  case (replay a)
  then show ?thesis by simp
next
  case (cancel a)
  with assms(2) show ?thesis
    by (auto simp: approval_ok_defs revision_def revision_input_def terminal_status_def)
next
  case (accept a)
  with assms(2) show ?thesis
    by (auto simp: approval_ok_defs revision_def revision_input_def terminal_status_def)
qed

lemma transition_dispatch:
  assumes "transition_approval sha j sc r d now = Inr t" and "tr_dispatch t"
  shows "d = Accept \<and> (\<exists>a. job_approval j = Some a \<and> approval_ok sha a j \<and> matches_request j sc r a
    \<and> ap_state a = ApPending \<and> now < ap_deadline a \<and> job_status j = JAwaiting
    \<and> job_approval (apply_patch (tr_patch t) j)
        = Some (a\<lparr>ap_state := ApAccepted, ap_decided := Some now\<rparr>)
    \<and> job_status (apply_patch (tr_patch t) j) = JQueued)"
  using assms(1) by (cases rule: transition_cases) (use assms(2) in auto)

text \<open>Settling: the result is valid, carries the status of a terminal job, and settling again
  changes nothing.\<close>

lemma settle_approval_ok:
  "settle_approval sha j = Inr (Some a) \<Longrightarrow> approval_ok sha a j"
  by (auto simp: settle_approval_def read_approval_Some Let_def
      split: sum.splits option.splits if_splits)

lemma settle_approval_None: "settle_approval sha j = Inr None \<longleftrightarrow> job_approval j = None"
  by (auto simp: settle_approval_def read_approval_def
      split: sum.splits option.splits if_splits)

lemma settle_approval_terminal:
  "settle_approval sha j = Inr (Some a) \<Longrightarrow> terminal_status (job_status j)
    \<Longrightarrow> ap_settled_status a = Some (job_status j)"
  by (auto simp: settle_approval_def read_approval_Some
      split: sum.splits option.splits if_splits)

lemma settle_approval_idem:
  assumes "settle_approval sha j = Inr v"
  shows "settle_approval sha (j\<lparr>job_approval := v\<rparr>) = Inr v"
proof (cases v)
  case None
  then show ?thesis by (simp add: settle_approval_def read_approval_def)
next
  case (Some a)
  have ok: "approval_ok sha a (j\<lparr>job_approval := v\<rparr>)"
    using settle_approval_ok [OF assms [unfolded Some]]
    by (subst approval_ok_cong [of _ j]) (auto simp: revision_input_def)
  show ?thesis
  proof (cases "terminal_status (job_status j)")
    case True
    then show ?thesis using ok settle_approval_terminal [OF assms [unfolded Some]] Some
      by (simp add: settle_approval_def read_approval_def)
  next
    case False
    then show ?thesis using ok Some by (simp add: settle_approval_def read_approval_def)
  qed
qed

text \<open>Settling an approval that was decided keeps the decision.\<close>

lemma settle_approval_keeps:
  assumes "settle_approval sha j = Inr (Some a)" and "job_approval j = Some b"
  shows "ap_id a = ap_id b" "ap_revision a = ap_revision b" "ap_approver a = ap_approver b"
    "ap_tenant a = ap_tenant b" "ap_deadline a = ap_deadline b"
    "ap_state b \<noteq> ApPending \<Longrightarrow> ap_state a = ap_state b \<and> ap_decided a = ap_decided b"
    "ap_state b = ApPending \<Longrightarrow> ap_state a \<noteq> ApAccepted"
  using assms by (auto simp: settle_approval_def read_approval_def Let_def
      split: sum.splits option.splits if_splits)

text \<open>Settling a live job succeeds when its end is not before the decision: the one way it can
  fail on a valid record is a clock that went back.\<close>

lemma settle_approval_succeeds:
  assumes "approval_ok sha a (j\<lparr>job_status := s0\<rparr>)" and "\<not> terminal_status s0"
    and "terminal_status (job_status j)" and "job_approval j = Some a"
    and "job_finished j = Some f" and "date_range f" and "job_created j \<le> f"
    and "\<forall>d \<in> set_option (ap_decided a). d \<le> f"
  shows "\<exists>b. settle_approval sha j = Inr (Some b)"
proof -
  have unsettled: "ap_settled_status a = None"
    using assms(1,2) by (auto simp: approval_ok_defs split: option.splits)
  have st: "ap_state a \<noteq> ApDenied" "ap_state a \<noteq> ApExpired"
    using assms(1,2) by (auto simp: approval_ok_defs terminal_status_def)
  have ok: "approval_ok sha a j"
    using assms(1-3) st unsettled
    by (auto simp: approval_ok_defs revision_def revision_input_def terminal_status_def cong: option.case_cong)
  show ?thesis
    using ok unsettled st assms(3-8)
    by (cases "ap_state a") (auto simp: settle_approval_def read_approval_def approval_ok_defs
        revision_def split: option.splits)
qed

end
