(* ===== verification/Publication.thy ===== *)
theory Publication
  imports JobModel
begin

text \<open>
  The publication of a completed result to its Teams conversation
  (\<open>server/core-result-publication.ts\<close>): validation of the persisted origin and publication,
  the exact text that preview and connector share, and the three reducers the service runs inside
  the job store's mutation queue: preview, claim (the first half of \<open>confirm\<close>) and settlement (its
  second half). The connector call between claim and settlement is an outcome value.

  Digests are parameters collected in a record; \<open>url_ok\<close> stands for the check of the service
  address, which the platform's URL parser makes.
\<close>

datatype pub_error = PubInvalid | PubUnsupportedOrigin | PubNotCompleted | PubMismatch | PubStale | PubMissing

type_synonym rendered = "string \<times> bool"

record digests =
  dg_result :: "string \<Rightarrow> string"
  dg_revision :: "string \<times> string \<times> time option \<Rightarrow> string"
  dg_text :: "rendered \<Rightarrow> string"

definition pub_text :: "string \<Rightarrow> bool" where
  "pub_text s \<longleftrightarrow> s \<noteq> [] \<and> length s \<le> 256 \<and> js_trim s = s \<and> \<not> list_ex any_control s"

definition nonce_text :: "string \<Rightarrow> bool" where
  "nonce_text s \<longleftrightarrow> take 12 s = ''publication-'' \<and> uuid_text (drop 12 s)"

section \<open>Validation\<close>

definition read_origin ::
  "(string \<Rightarrow> bool) \<Rightarrow> result_origin option \<Rightarrow> string \<Rightarrow> string \<Rightarrow> pub_error + result_origin option" where
  "read_origin url_ok v tenant requester = (case v of None \<Rightarrow> Inr None
     | Some r \<Rightarrow>
         if \<not> pub_text (or_tenant r) \<or> or_tenant r \<noteq> tenant
            \<or> \<not> pub_text (or_requester r) \<or> or_requester r \<noteq> requester
            \<or> \<not> pub_text (or_conversation r) \<or> \<not> pub_text (or_activity r)
            \<or> (case or_thread r of None \<Rightarrow> False | Some t \<Rightarrow> \<not> pub_text t)
            \<or> \<not> url_ok (or_service_url r)
         then Inl PubInvalid else Inr (Some r))"

definition required_origin :: "(string \<Rightarrow> bool) \<Rightarrow> job \<Rightarrow> pub_error + result_origin" where
  "required_origin url_ok j = (case job_tenant j of
       None \<Rightarrow> Inl PubUnsupportedOrigin
     | Some t \<Rightarrow>
         if t = [] then Inl PubUnsupportedOrigin
         else case read_origin url_ok (job_origin j) t (job_requester j) of
           Inl e \<Rightarrow> Inl e
         | Inr None \<Rightarrow> Inl PubUnsupportedOrigin
         | Inr (Some r) \<Rightarrow> Inr r)"

definition pub_shape_ok :: "publication \<Rightarrow> bool" where
  "pub_shape_ok p \<longleftrightarrow>
     (let preview = (pub_state p = PubPreview); sending = (pub_state p = PubSending) in
      \<not> (preview \<and> (pub_sending p \<noteq> None \<or> pub_settled p \<noteq> None \<or> pub_activity p \<noteq> None \<or> pub_failure p \<noteq> None))
      \<and> \<not> (\<not> preview \<and> (case pub_sending p of None \<Rightarrow> True
                | Some t \<Rightarrow> \<not> date_range t \<or> t < pub_previewed p))
      \<and> \<not> (sending \<and> (pub_settled p \<noteq> None \<or> pub_activity p \<noteq> None \<or> pub_failure p \<noteq> None))
      \<and> \<not> (\<not> preview \<and> \<not> sending \<and> (case pub_settled p of None \<Rightarrow> True
                | Some t \<Rightarrow> \<not> date_range t \<or> t < the (pub_sending p)))
      \<and> (if pub_state p = PubAccepted
         then (case pub_activity p of None \<Rightarrow> False | Some s \<Rightarrow> pub_text s) \<and> pub_failure p = None
         else pub_activity p = None)
      \<and> \<not> (pub_state p = PubFailed \<and> pub_failure p \<noteq> Some ConnectorRejected)
      \<and> \<not> (pub_state p = PubAmbiguous
           \<and> pub_failure p \<notin> set [Some OutcomeUnknown, Some InvalidReceipt, Some SendingAfterRestart]))"

definition read_publication ::
  "(string \<Rightarrow> bool) \<Rightarrow> publication option \<Rightarrow> job \<Rightarrow> pub_error + publication option" where
  "read_publication url_ok v j = (case v of None \<Rightarrow> Inr None
     | Some p \<Rightarrow>
         (case required_origin url_ok j of Inl e \<Rightarrow> Inl e
          | Inr origin \<Rightarrow>
              (case read_origin url_ok (Some (pub_origin p)) (or_tenant origin) (or_requester origin) of
                 Inl e \<Rightarrow> Inl e
               | Inr _ \<Rightarrow>
                   if \<not> nonce_text (pub_operation p) \<or> pub_job p \<noteq> job_id j
                      \<or> Some (pub_tenant p) \<noteq> job_tenant j \<or> pub_requester p \<noteq> job_requester j
                      \<or> pub_origin p \<noteq> origin
                      \<or> \<not> hex_text 64 (pub_result_digest p) \<or> \<not> hex_text 64 (pub_result_revision p)
                      \<or> \<not> hex_text 64 (pub_text_digest p) \<or> \<not> date_range (pub_previewed p)
                      \<or> \<not> pub_shape_ok p
                   then Inl PubInvalid else Inr (Some p))))"

lemma read_publication_id: "read_publication url_ok v j = Inr r \<Longrightarrow> r = v"
  by (auto simp: read_publication_def split: option.splits sum.splits if_splits)

section \<open>The published text\<close>

text \<open>UTF-8 length of a code unit below 256. The truncation notice is 72 bytes long; the model
  writes a truncated text as its content with the flag \<open>True\<close>.\<close>

definition utf8_size :: "char \<Rightarrow> nat" where
  "utf8_size c = (if code_unit c < 128 then 1 else 2)"

definition byte_length :: "string \<Rightarrow> nat" where
  "byte_length s = sum_list (map utf8_size s)"

definition max_bytes :: nat where "max_bytes = 24000"
definition notice_bytes :: nat where "notice_bytes = 72"

fun take_bytes :: "nat \<Rightarrow> nat \<Rightarrow> string \<Rightarrow> string" where
  "take_bytes budget used [] = []"
| "take_bytes budget used (c # cs) =
     (if used + utf8_size c > budget then [] else c # take_bytes budget (used + utf8_size c) cs)"

definition render_text :: "string \<Rightarrow> rendered" where
  "render_text s = (if byte_length s \<le> max_bytes then (s, False)
     else (take_bytes (max_bytes - notice_bytes) 0 s, True))"

definition rendered_bytes :: "rendered \<Rightarrow> nat" where
  "rendered_bytes r = byte_length (fst r) + (if snd r then notice_bytes else 0)"

lemma take_bytes_bound: "used \<le> budget \<Longrightarrow> used + byte_length (take_bytes budget used s) \<le> budget"
  by (induction budget used s rule: take_bytes.induct) (auto simp: byte_length_def)

lemma take_bytes_prefix: "\<exists>zs. s = take_bytes budget used s @ zs"
  by (induction budget used s rule: take_bytes.induct) auto

text \<open>Truncation stops only where the next character would not fit.\<close>

lemma take_bytes_maximal:
  "s = take_bytes budget used s @ c # zs \<Longrightarrow>
     budget < used + byte_length (take_bytes budget used s) + utf8_size c"
  by (induction budget used s rule: take_bytes.induct)
    (auto simp: byte_length_def split: if_splits)

section \<open>Reducers\<close>

definition result_identity :: "digests \<Rightarrow> job \<Rightarrow> pub_error + string \<times> string" where
  "result_identity dg j = (case job_result j of
       None \<Rightarrow> Inl PubNotCompleted
     | Some r \<Rightarrow> if blank r then Inl PubNotCompleted
         else Inr (dg_result dg r, dg_revision dg (job_id j, dg_result dg r, job_finished j)))"

definition assert_owner :: "job \<Rightarrow> principal \<Rightarrow> bool" where
  "assert_owner j p \<longleftrightarrow> job_tenant j = Some (pr_tenant p) \<and> job_requester j = pr_requester p"

definition assert_completed :: "job \<Rightarrow> bool" where
  "assert_completed j \<longleftrightarrow> job_status j = JCompleted
     \<and> (case job_result j of None \<Rightarrow> False | Some r \<Rightarrow> \<not> blank r)"

definition assert_pub_request :: "principal \<Rightarrow> string \<Rightarrow> bool" where
  "assert_pub_request p jid \<longleftrightarrow> pub_text (pr_tenant p) \<and> pub_text (pr_requester p) \<and> pub_text jid"

type_synonym 'v reducer = "job \<Rightarrow> pub_error + publication \<times> 'v"

definition preview_reducer ::
  "digests \<Rightarrow> (string \<Rightarrow> bool) \<Rightarrow> principal \<Rightarrow> string \<Rightarrow> time \<Rightarrow> (publication \<times> rendered) reducer" where
  "preview_reducer dg url_ok p uuid now j =
     (if \<not> assert_owner j p then Inl PubMismatch
      else if \<not> assert_completed j then Inl PubNotCompleted
      else case required_origin url_ok j of Inl e \<Rightarrow> Inl e
      | Inr origin \<Rightarrow>
        (case result_identity dg j of Inl e \<Rightarrow> Inl e
         | Inr (digest, rvn) \<Rightarrow>
           (let txt = render_text (the (job_result j)) in
            case read_publication url_ok (job_publication j) j of Inl e \<Rightarrow> Inl e
            | Inr prev \<Rightarrow>
              let fresh = \<lparr>pub_operation = ''publication-'' @ uuid, pub_job = job_id j,
                    pub_tenant = pr_tenant p, pub_requester = pr_requester p, pub_origin = origin,
                    pub_result_digest = digest, pub_result_revision = rvn,
                    pub_text_digest = dg_text dg txt, pub_state = PubPreview, pub_previewed = now,
                    pub_sending = None, pub_settled = None, pub_activity = None, pub_failure = None\<rparr>
              in (case prev of
                   None \<Rightarrow> Inr (fresh, (fresh, txt))
                 | Some q \<Rightarrow>
                     if pub_state q \<noteq> PubPreview then
                       (if pub_result_revision q \<noteq> rvn \<or> pub_text_digest q \<noteq> dg_text dg txt
                        then Inl PubStale else Inr (q, (q, txt)))
                     else if pub_result_revision q = rvn \<and> pub_text_digest q = dg_text dg txt
                     then Inr (q, (q, txt)) else Inr (fresh, (fresh, txt))))))"

record claim =
  cl_publication :: publication
  cl_send :: bool
  cl_text :: rendered

definition claim_reducer ::
  "digests \<Rightarrow> (string \<Rightarrow> bool) \<Rightarrow> principal \<Rightarrow> string \<Rightarrow> string \<Rightarrow> time \<Rightarrow> claim reducer" where
  "claim_reducer dg url_ok p operation rvn now j =
     (if \<not> assert_owner j p then Inl PubMismatch
      else if \<not> assert_completed j then Inl PubNotCompleted
      else case read_publication url_ok (job_publication j) j of
        Inl e \<Rightarrow> Inl e
      | Inr None \<Rightarrow> Inl PubMissing
      | Inr (Some q) \<Rightarrow>
          if pub_operation q \<noteq> operation \<or> pub_result_revision q \<noteq> rvn then Inl PubMismatch
          else let txt = render_text (the (job_result j)) in
          (case result_identity dg j of Inl e \<Rightarrow> Inl e
           | Inr (_, current) \<Rightarrow>
               if current \<noteq> pub_result_revision q \<or> pub_text_digest q \<noteq> dg_text dg txt
               then Inl PubStale
               else if pub_state q \<noteq> PubPreview
               then Inr (q, \<lparr>cl_publication = q, cl_send = False, cl_text = txt\<rparr>)
               else let q' = q\<lparr>pub_state := PubSending, pub_sending := Some now\<rparr>
                    in Inr (q', \<lparr>cl_publication = q', cl_send = True, cl_text = txt\<rparr>)))"

text \<open>What the connector call ended with: a receipt (with the activity it names, when it is a
  connector receipt with a valid one), an observed rejection, or any other exception.\<close>

datatype connector_outcome = Receipt "string option" | Rejected | Raised

definition outcome_of ::
  "connector_outcome \<Rightarrow> publication_state \<times> string option \<times> publication_failure option" where
  "outcome_of c = (case c of
       Receipt (Some a) \<Rightarrow> if pub_text a then (PubAccepted, Some a, None)
                          else (PubAmbiguous, None, Some InvalidReceipt)
     | Receipt None \<Rightarrow> (PubAmbiguous, None, Some InvalidReceipt)
     | Rejected \<Rightarrow> (PubFailed, None, Some ConnectorRejected)
     | Raised \<Rightarrow> (PubAmbiguous, None, Some OutcomeUnknown))"

definition settle_reducer ::
  "(string \<Rightarrow> bool) \<Rightarrow> principal \<Rightarrow> string \<Rightarrow> connector_outcome \<Rightarrow> time \<Rightarrow> publication reducer" where
  "settle_reducer url_ok p operation c now j =
     (if \<not> assert_owner j p then Inl PubMismatch
      else case read_publication url_ok (job_publication j) j of
        Inl e \<Rightarrow> Inl e
      | Inr None \<Rightarrow> Inl PubMismatch
      | Inr (Some q) \<Rightarrow>
          if pub_operation q \<noteq> operation \<or> pub_state q \<noteq> PubSending then Inl PubMismatch
          else (case outcome_of c of (s, a, f) \<Rightarrow>
            let q' = q\<lparr>pub_state := s, pub_activity := (if a = None then pub_activity q else a),
                       pub_failure := (if f = None then pub_failure q else f),
                       pub_settled := Some now\<rparr>
            in Inr (q', q')))"

definition status_view ::
  "(string \<Rightarrow> bool) \<Rightarrow> principal \<Rightarrow> job \<Rightarrow> time \<Rightarrow> pub_error + publication option" where
  "status_view url_ok p j now =
     (if \<not> assert_owner j p then Inl PubMismatch
      else case read_publication url_ok (job_publication j) j of
        Inl e \<Rightarrow> Inl e
      | Inr None \<Rightarrow> Inr None
      | Inr (Some q) \<Rightarrow> Inr (Some (if pub_state q = PubSending
            then q\<lparr>pub_state := PubAmbiguous, pub_failure := Some OutcomeUnknown,
                   pub_settled := Some now\<rparr>
            else q)))"

subsection \<open>The life of a publication\<close>

text \<open>A publication moves from preview through sending to a settled state and never back.\<close>

fun pub_rank :: "publication option \<Rightarrow> nat" where
  "pub_rank None = 0"
| "pub_rank (Some p) = (case pub_state p of PubPreview \<Rightarrow> 1 | PubSending \<Rightarrow> 2 | _ \<Rightarrow> 3)"

lemma preview_reducer_rank:
  assumes "preview_reducer dg url_ok p uuid now j = Inr (q, v)"
  shows "pub_rank (job_publication j) \<le> pub_rank (Some q)"
    and "pub_rank (job_publication j) \<le> 1 \<Longrightarrow> pub_state q = PubPreview"
    and "2 \<le> pub_rank (job_publication j) \<Longrightarrow> job_publication j = Some q"
proof -
  obtain prev where prev: "read_publication url_ok (job_publication j) j = Inr prev"
    using assms by (auto simp: preview_reducer_def Let_def split: if_splits sum.splits option.splits)
  have pj: "prev = job_publication j" using read_publication_id [OF prev] .
  consider "prev = None" "pub_state q = PubPreview"
    | r where "prev = Some r" "pub_state r \<noteq> PubPreview" "q = r"
    | r where "prev = Some r" "pub_state r = PubPreview" "pub_state q = PubPreview"
    using assms prev
    by (auto simp: preview_reducer_def Let_def split: if_splits sum.splits option.splits prod.splits)
  then show "pub_rank (job_publication j) \<le> pub_rank (Some q)"
    and "pub_rank (job_publication j) \<le> 1 \<Longrightarrow> pub_state q = PubPreview"
    and "2 \<le> pub_rank (job_publication j) \<Longrightarrow> job_publication j = Some q"
    by (cases; auto simp: pj [symmetric] split: publication_state.splits)+
qed

lemma claim_reducer_cases:
  assumes "claim_reducer dg url_ok p operation rvn now j = Inr (q', c)"
  obtains (send) q where "job_publication j = Some q" "pub_state q = PubPreview"
      "pub_operation q = operation" "q' = q\<lparr>pub_state := PubSending, pub_sending := Some now\<rparr>"
      "cl_send c" "cl_publication c = q'" "cl_text c = render_text (the (job_result j))"
      "pub_text_digest q = dg_text dg (cl_text c)" "assert_owner j p" "assert_completed j"
  | (replay) "job_publication j = Some q'" "pub_state q' \<noteq> PubPreview" "\<not> cl_send c"
proof -
  obtain q where q: "read_publication url_ok (job_publication j) j = Inr (Some q)"
    using assms by (auto simp: claim_reducer_def split: if_splits sum.splits option.splits)
  have pj: "job_publication j = Some q" using read_publication_id [OF q] by simp
  show thesis
  proof (cases "pub_state q = PubPreview")
    case True
    with assms q pj send show ?thesis
      by (auto simp: claim_reducer_def Let_def split: if_splits sum.splits)
  next
    case False
    with assms q pj replay show ?thesis
      by (auto simp: claim_reducer_def Let_def split: if_splits sum.splits)
  qed
qed

lemma settle_reducer_cases:
  assumes "settle_reducer url_ok p operation c now j = Inr (q', v)"
  obtains q where "job_publication j = Some q" "pub_state q = PubSending" "pub_operation q = operation"
    "pub_state q' = fst (outcome_of c)" "pub_rank (Some q') = 3" "pub_operation q' = operation"
proof -
  obtain q where q: "read_publication url_ok (job_publication j) j = Inr (Some q)"
    using assms by (auto simp: settle_reducer_def split: if_splits sum.splits option.splits)
  have pj: "job_publication j = Some q" using read_publication_id [OF q] by simp
  have "pub_rank (Some q') = 3"
    using assms q by (auto simp: settle_reducer_def outcome_of_def Let_def
        split: if_splits prod.splits connector_outcome.splits option.splits)
  with assms q pj that show thesis
    by (auto simp: settle_reducer_def Let_def split: if_splits prod.splits)
qed

lemma claim_reducer_sends:
  assumes "claim_reducer dg url_ok p operation rvn now j = Inr (q', c)" and "cl_send c"
  shows "\<exists>q text. job_status j = JCompleted \<and> job_publication j = Some q \<and> pub_state q = PubPreview
    \<and> pub_operation q = operation \<and> pub_result_revision q = rvn \<and> job_result j = Some text
    \<and> cl_text c = render_text text \<and> dg_text dg (cl_text c) = pub_text_digest q
    \<and> dg_revision dg (job_id j, dg_result dg text, job_finished j) = rvn"
proof -
  obtain r where r: "read_publication url_ok (job_publication j) j = Inr r"
    using assms by (auto simp: claim_reducer_def split: if_split_asm sum.splits)
  note id = read_publication_id [OF r]
  show ?thesis
    using assms r id
    by (auto simp: claim_reducer_def Let_def assert_completed_def result_identity_def
        split: if_split_asm sum.splits option.splits)
qed

end
