(* ===== verification/ToolObservation.thy ===== *)
theory ToolObservation
  imports JobModel
begin

text \<open>
  The merge of observed tool usage (\<open>server/agent-tool-observation.ts\<close>) with the validation of
  command executions it relies on (\<open>server/agent-tool-execution.ts\<close>). The text rewriting that
  hides credentials, addresses and paths in an output excerpt is the parameter \<open>redact\<close>: it returns
  the rewritten excerpt and whether it was cut. Its regular expressions are not modelled.
\<close>

section \<open>Names\<close>

text \<open>The characters of a tool name part. Compatibility normalisation maps five characters below
  code unit 256 into the class; every other one it changes leaves the class.\<close>

definition nfkc_char :: "char \<Rightarrow> char" where
  "nfkc_char c = (let n = code_unit c in
     if n = 170 then CHR ''a'' else if n = 178 then CHR ''2'' else if n = 179 then CHR ''3''
     else if n = 185 then CHR ''1'' else if n = 186 then CHR ''o'' else c)"

definition safe_part :: "string \<Rightarrow> string option" where
  "safe_part v = (let s = map nfkc_char (js_trim v) in
     case s of [] \<Rightarrow> None
     | c # cs \<Rightarrow> if alnum_char c \<and> length cs \<le> 79
                     \<and> list_all (\<lambda>d. alnum_char d \<or> d \<in> set ''._:+-'') cs
                then Some s else None)"

fun split_on :: "char \<Rightarrow> string \<Rightarrow> string list" where
  "split_on sep [] = [[]]"
| "split_on sep (c # cs) = (if c = sep then [] # split_on sep cs
     else (case split_on sep cs of [] \<Rightarrow> [[c]] | p # ps \<Rightarrow> (c # p) # ps))"

section \<open>Command executions\<close>

definition item_id_text :: "string \<Rightarrow> bool" where
  "item_id_text s \<longleftrightarrow> take 5 s = ''item_'' \<and> (let d = drop 5 s in
     1 \<le> length d \<and> length d \<le> 10 \<and> list_all (\<lambda>c. c \<in> set ''0123456789'') d)"

definition exit_code_ok :: "int option \<Rightarrow> bool" where
  "exit_code_ok v \<longleftrightarrow> (case v of None \<Rightarrow> True | Some n \<Rightarrow> - 2147483648 \<le> n \<and> n \<le> 2147483647)"

text \<open>The terminal branch of \<open>projectCommandExecution\<close>, reached with \<open>item.completed\<close>.\<close>

definition project_completed ::
  "(string \<Rightarrow> string \<times> bool) \<Rightarrow> string \<Rightarrow> exec_status \<Rightarrow> int option \<Rightarrow> string option \<Rightarrow> time
     \<Rightarrow> tool_exec option" where
  "project_completed redact item status exit output observed =
     (if \<not> item_id_text item \<or> status = XInProgress \<or> \<not> exit_code_ok exit then None
      else Some \<lparr>te_item = item, te_status = status, te_observed = Some observed, te_exit = exit,
                 te_output = map_option (fst \<circ> redact) output,
                 te_truncated = map_option (snd \<circ> redact) output\<rparr>)"

definition read_execution ::
  "(string \<Rightarrow> string \<times> bool) \<Rightarrow> tool_exec option \<Rightarrow> tool_exec option" where
  "read_execution redact v = (case v of None \<Rightarrow> None
     | Some r \<Rightarrow>
         if \<not> item_id_text (te_item r) then None
         else if te_status r = XInProgress then
           (if te_exit r \<noteq> None \<or> te_output r \<noteq> None \<or> te_truncated r \<noteq> None \<or> te_observed r \<noteq> None
            then None
            else Some \<lparr>te_item = te_item r, te_status = XInProgress, te_observed = None,
                       te_exit = None, te_output = None, te_truncated = None\<rparr>)
         else case te_observed r of None \<Rightarrow> None
         | Some observed \<Rightarrow>
             if (case te_output r of None \<Rightarrow> False | Some s \<Rightarrow> 1024 < length s) then None
             else case project_completed redact (te_item r) (te_status r) (te_exit r) (te_output r) observed of
               None \<Rightarrow> None
             | Some p \<Rightarrow> Some (case te_truncated r of None \<Rightarrow> p
                 | Some b \<Rightarrow> p\<lparr>te_truncated := Some (b \<or> te_truncated p = Some True)\<rparr>))"

section \<open>The merge\<close>

definition safe_usage :: "(string \<Rightarrow> string \<times> bool) \<Rightarrow> tool_usage \<Rightarrow> tool_usage option" where
  "safe_usage redact u =
     (if 120 < length (tu_name u) \<or> list_ex (\<lambda>p. safe_part p = None) (split_on (CHR ''/'') (tu_name u))
      then None
      else let execution = (if tu_category u = TCli then read_execution redact (tu_exec u) else None)
           in if tu_exec u \<noteq> None \<and> execution = None then None
              else Some (u\<lparr>tu_exec := execution\<rparr>))"

definition same_slot :: "tool_usage \<Rightarrow> tool_usage \<Rightarrow> bool" where
  "same_slot safe c \<longleftrightarrow> tu_category c = tu_category safe
     \<and> (case tu_exec safe of
          Some x \<Rightarrow> map_option te_item (tu_exec c) = Some (te_item x)
        | None \<Rightarrow> tu_exec c = None \<and> tu_name c = tu_name safe)"

definition merge_one :: "(string \<Rightarrow> string \<times> bool) \<Rightarrow> tool_usage \<Rightarrow> tool_usage list \<Rightarrow> tool_usage list" where
  "merge_one redact u merged = (case safe_usage redact u of None \<Rightarrow> merged
     | Some safe \<Rightarrow>
         (case find_index (same_slot safe) merged of
            Some i \<Rightarrow>
              (let current = merged ! i in
               if map_option te_status (tu_exec current) = Some XInProgress
                  \<and> map_option te_status (tu_exec safe) \<noteq> Some XInProgress
               then merged[i := safe\<lparr>tu_name := tu_name current, tu_observed := tu_observed current\<rparr>]
               else merged)
          | None \<Rightarrow> if length merged < 32 then merged @ [safe] else merged))"

definition merge_tools ::
  "(string \<Rightarrow> string \<times> bool) \<Rightarrow> tool_usage list \<Rightarrow> tool_usage list \<Rightarrow> tool_usage list" where
  "merge_tools redact existing incoming = fold (merge_one redact) (existing @ incoming) []"

subsection \<open>What the merge keeps\<close>

text \<open>Two entries never describe one slot: one execution of a category, or one name without an
  execution.\<close>

definition slot :: "tool_usage \<Rightarrow> tool_category \<times> (string + string)" where
  "slot u = (tu_category u, case tu_exec u of Some x \<Rightarrow> Inl (te_item x) | None \<Rightarrow> Inr (tu_name u))"

definition merge_ok :: "tool_usage list \<Rightarrow> bool" where
  "merge_ok us \<longleftrightarrow> length us \<le> 32 \<and> distinct (map slot us)
     \<and> (\<forall>u \<in> set us. length (tu_name u) \<le> 120 \<and> (tu_exec u \<noteq> None \<longrightarrow> tu_category u = TCli))"

lemma same_slot_iff: "same_slot safe c \<longleftrightarrow> slot c = slot safe"
  by (auto simp: same_slot_def slot_def split: option.splits)

lemma safe_usage_ok:
  "safe_usage redact u = Some s \<Longrightarrow> length (tu_name s) \<le> 120 \<and> (tu_exec s \<noteq> None \<longrightarrow> tu_category s = TCli)"
  by (auto simp: safe_usage_def Let_def split: if_splits)

lemma merge_one_ok: "merge_ok merged \<Longrightarrow> merge_ok (merge_one redact u merged)"
proof (cases "safe_usage redact u")
  case (Some safe)
  assume ok: "merge_ok merged"
  note s = safe_usage_ok [OF Some]
  show ?thesis
  proof (cases "find_index (same_slot safe) merged")
    case None
    then have "slot safe \<notin> slot ` set merged"
      by (auto simp: find_index_None same_slot_iff)
    with ok s Some None show ?thesis
      by (auto simp: merge_one_def merge_ok_def)
  next
    case (Some i)
    note i = find_index_bound [OF Some] find_index_holds [OF Some]
    let ?c = "merged ! i"
    let ?n = "safe\<lparr>tu_name := tu_name ?c, tu_observed := tu_observed ?c\<rparr>"
    have c: "?c \<in> set merged" using i by simp
    have same: "slot ?n = slot ?c"
      using i(2) by (auto simp: same_slot_def slot_def split: option.splits)
    have "merge_ok (merged[i := ?n])"
      using ok c s map_update_same [of slot ?n merged i, OF same]
      by (auto simp: merge_ok_def dest!: set_update_subset_insert [THEN subsetD])
    with ok Some \<open>safe_usage redact u = Some safe\<close> show ?thesis
      by (simp add: merge_one_def Let_def)
  qed
qed (simp add: merge_one_def)

lemma merge_fold_ok: "merge_ok acc \<Longrightarrow> merge_ok (fold (merge_one redact) us acc)"
  by (induction us arbitrary: acc) (auto intro: merge_one_ok)

lemma merge_tools_ok: "merge_ok (merge_tools redact existing incoming)"
  unfolding merge_tools_def by (rule merge_fold_ok) (simp add: merge_ok_def)

text \<open>Merging keeps every slot it holds, in order: later entries are only ever added behind.\<close>

lemma merge_one_prefix: "\<exists>zs. map slot (merge_one redact u merged) = map slot merged @ zs"
proof (cases "safe_usage redact u")
  case (Some safe)
  show ?thesis
  proof (cases "find_index (same_slot safe) merged")
    case (Some i)
    then have "slot (safe\<lparr>tu_name := tu_name (merged ! i), tu_observed := tu_observed (merged ! i)\<rparr>)
        = slot (merged ! i)"
      using find_index_holds [OF Some] by (auto simp: same_slot_def slot_def split: option.splits)
    with \<open>safe_usage redact u = Some safe\<close> Some show ?thesis
      by (auto simp: merge_one_def Let_def map_update_same)
  qed (use Some in \<open>auto simp: merge_one_def\<close>)
qed (simp add: merge_one_def)

lemma merge_fold_prefix: "\<exists>zs. map slot (fold (merge_one redact) us acc) = map slot acc @ zs"
proof (induction us arbitrary: acc)
  case (Cons u us)
  then show ?case using merge_one_prefix [of redact u acc] by (metis append.assoc fold_simps(2))
qed simp

end
