(* ===== verification/JobStore.thy ===== *)
theory JobStore
  imports Approval Publication ToolObservation
begin

text \<open>
  The owner-scoped job store (\<open>server/agent-job-store.ts\<close>). The list of jobs is newest first.
  Each mutation is a function of the staged list and the clock that returns the new list with its
  result, or the exception it throws; \<open>enqueue_mutation\<close> is the protocol around it: the staged
  list is written to disk and only then shown to readers. Readers are functions of the list.
  A cloned job is an equal value, so \<open>cloneAgentJob\<close> does not appear.
\<close>

datatype job_error =
    NotInitialized | WriteFailed
  | ReplayOf job | KeyConflict string
  | BadKeyInput | BadSelection | BadNotifications | BadTimestamp
  | ApprovalRefused approval_error | PublicationRefused pub_error | PublicationMissing
  | ApprovalElsewhere | ResultAuthorityElsewhere
  | NotifyIntentImmutable | ProviderImmutable | SelectionImmutable | EnvironmentImmutable
  | BadCliReceipt | CliReceiptImmutable | BadReceipt | ReceiptImmutable
  | BadTokens | TokensImmutable | CompletedWithoutResult | CancelRequestImmutable
  | BadPage

section \<open>The mutation queue\<close>

record job_store =
  js_jobs :: "job list"
  js_disk :: "job list"

definition enqueue_mutation ::
  "bool \<Rightarrow> bool \<Rightarrow> (job list \<Rightarrow> job_error + job list \<times> 'a) \<Rightarrow> job_store \<Rightarrow> job_store \<times> (job_error + 'a)" where
  "enqueue_mutation initialized ok mutate st =
     (if \<not> initialized then (st, Inl NotInitialized)
      else case mutate (js_jobs st) of
        Inl e \<Rightarrow> (st, Inl e)
      | Inr (next, a) \<Rightarrow>
          if ok then (st\<lparr>js_jobs := next, js_disk := next\<rparr>, Inr a) else (st, Inl WriteFailed))"

interpretation jobs_tx: durable_mutation "enqueue_mutation True" js_jobs js_disk
  by unfold_locales (auto simp: enqueue_mutation_def)

section \<open>Creation\<close>

record create_input =
  ci_prompt :: string
  ci_provider :: provider
  ci_mode :: job_mode
  ci_scope :: scope
  ci_origin :: "result_origin option"
  ci_env :: "exec_env option"
  ci_notifications :: "notifications option"
  ci_parent :: "string option"
  ci_thread :: "string option"
  ci_key :: "string option"
  ci_hash :: "string option"
  ci_model :: "string option"
  ci_effort :: "effort option"
  ci_catalog :: "string option"

definition task_id :: "time \<Rightarrow> string \<Rightarrow> string" where
  "task_id clock uuid = ''task-'' @ base36 (nat clock) @ ''-'' @ take 8 uuid"

definition initial_job :: "create_input \<Rightarrow> string \<Rightarrow> time \<Rightarrow> (string \<times> effort \<times> string) option \<Rightarrow> job" where
  "initial_job i new_id now sel =
     \<lparr>job_id = new_id, job_prompt = ci_prompt i, job_provider = Some (ci_provider i),
      job_mode = ci_mode i,
      job_status = (if ci_mode i = WorkspaceWrite then JAwaiting else JQueued),
      job_notifications = ci_notifications i, job_approval = None, job_origin = None,
      job_publication = None, job_conversation = sc_conversation (ci_scope i),
      job_requester = sc_requester (ci_scope i), job_tenant = Some (sc_tenant (ci_scope i)),
      job_key = (if present (ci_key i) then ci_key i else None),
      job_hash = (if present (ci_key i) then ci_hash i else None),
      job_parent = ci_parent i, job_thread = ci_thread i, job_result = None, job_tokens = None,
      job_commit = None, job_commit_message = None, job_changed = None, job_error = None,
      job_progress = [], job_tools = Some [],
      job_model = map_option fst sel, job_effort = map_option (fst \<circ> snd) sel,
      job_catalog = map_option (snd \<circ> snd) sel, job_env = ci_env i, job_receipt = None,
      job_cli = None, job_created = now, job_updated = Some now, job_started = None,
      job_finished = None, job_cancel_requested = None\<rparr>"

text \<open>The part of \<open>create\<close> before the queue: it builds the record or throws.\<close>

definition build_job ::
  "digest_fn \<Rightarrow> (string \<Rightarrow> bool) \<Rightarrow> create_input \<Rightarrow> string \<Rightarrow> string \<Rightarrow> time \<Rightarrow> job_error + job" where
  "build_job sha url_ok i new_id uuid now =
     (if \<not> valid_idempotency_input (ci_key i) (ci_hash i) then Inl BadKeyInput
      else case read_selection (ci_model i) (ci_effort i) (ci_catalog i) of
        None \<Rightarrow> Inl BadSelection
      | Some sel \<Rightarrow>
        (case read_notifications (ci_notifications i) of
           None \<Rightarrow> Inl BadNotifications
         | Some _ \<Rightarrow>
           (let j = initial_job i new_id now sel in
            case (if job_mode j = WorkspaceWrite
                  then map_sum id Some (create_approval sha uuid j approval_ttl)
                  else Inr None) of
              Inl e \<Rightarrow> Inl (ApprovalRefused e)
            | Inr ap \<Rightarrow>
              (case read_origin url_ok (ci_origin i) (sc_tenant (ci_scope i)) (sc_requester (ci_scope i)) of
                 Inl e \<Rightarrow> Inl (PublicationRefused e)
               | Inr origin \<Rightarrow> Inr (j\<lparr>job_approval := ap, job_origin := origin\<rparr>)))))"

definition same_key :: "scope \<Rightarrow> string option \<Rightarrow> job \<Rightarrow> bool" where
  "same_key sc k c \<longleftrightarrow> matches_scope c sc \<and> job_key c = k"

definition insert_job :: "create_input \<Rightarrow> job \<Rightarrow> job list \<Rightarrow> job_error + job list \<times> job" where
  "insert_job i j jobs =
     (case (if present (ci_key i) then find (same_key (ci_scope i) (ci_key i)) jobs else None) of
        Some existing \<Rightarrow> if job_hash existing = ci_hash i then Inl (ReplayOf existing)
                         else Inl (KeyConflict (the (ci_key i)))
      | None \<Rightarrow> Inr (j # jobs, j))"

definition create_job ::
  "digest_fn \<Rightarrow> (string \<Rightarrow> bool) \<Rightarrow> create_input \<Rightarrow> string \<Rightarrow> string \<Rightarrow> time \<Rightarrow> bool \<Rightarrow> bool \<Rightarrow> job_store
     \<Rightarrow> job_store \<times> (job_error + job)" where
  "create_job sha url_ok i new_id uuid now initialized ok st =
     (case build_job sha url_ok i new_id uuid now of
        Inl e \<Rightarrow> (st, Inl e)
      | Inr j \<Rightarrow> enqueue_mutation initialized ok (insert_job i j) st)"

section \<open>Readers\<close>

definition get_job :: "string \<Rightarrow> scope \<Rightarrow> job list \<Rightarrow> job option" where
  "get_job i sc jobs = find (\<lambda>c. job_id c = i \<and> matches_scope c sc) jobs"

definition find_idempotent ::
  "scope \<Rightarrow> string option \<Rightarrow> string option \<Rightarrow> bool \<Rightarrow> job list \<Rightarrow> job_error + job option" where
  "find_idempotent sc k h initialized jobs =
     (if \<not> initialized then Inl NotInitialized
      else if \<not> valid_idempotency_input k h then Inl BadKeyInput
      else if \<not> present k then Inr None
      else case find (same_key sc k) jobs of
        Some e \<Rightarrow> if job_hash e \<noteq> h then Inl (KeyConflict (the k)) else Inr (Some e)
      | None \<Rightarrow> Inr None)"

definition resolve_idempotent ::
  "scope \<Rightarrow> string \<Rightarrow> string \<Rightarrow> job list \<Rightarrow> job_error + job option" where
  "resolve_idempotent sc k h jobs =
     (if \<not> valid_idempotency_input (Some k) (Some h) then Inl BadKeyInput
      else case find (same_key sc (Some k)) jobs of
        None \<Rightarrow> Inr None
      | Some e \<Rightarrow> if job_hash e \<noteq> Some h then Inl (KeyConflict k) else Inr (Some e))"

definition get_for_principal :: "string \<Rightarrow> principal \<Rightarrow> job list \<Rightarrow> job option" where
  "get_for_principal i p jobs = find (\<lambda>c. job_id c = i \<and> matches_principal c p) jobs"

definition list_for_principal :: "principal \<Rightarrow> nat \<Rightarrow> job list \<Rightarrow> job list" where
  "list_for_principal p limit jobs = take limit (filter (\<lambda>j. matches_principal j p) jobs)"

definition list_pending_for_principal :: "principal \<Rightarrow> nat \<Rightarrow> job list \<Rightarrow> job list" where
  "list_pending_for_principal p limit jobs =
     take limit (filter (\<lambda>j. matches_principal j p \<and> job_status j = JAwaiting
                              \<and> job_mode j = WorkspaceWrite) jobs)"

definition list_jobs :: "scope \<Rightarrow> nat \<Rightarrow> job list \<Rightarrow> job list" where
  "list_jobs sc limit jobs = take limit (filter (\<lambda>j. matches_scope j sc) jobs)"

definition latest_completed_with_thread :: "scope \<Rightarrow> job list \<Rightarrow> job option" where
  "latest_completed_with_thread sc jobs =
     find (\<lambda>j. matches_scope j sc \<and> job_status j = JCompleted \<and> present (job_thread j)) jobs"

definition count_active :: "scope \<Rightarrow> job list \<Rightarrow> nat" where
  "count_active sc jobs = length (filter (\<lambda>j. matches_scope j sc \<and> active_status (job_status j)) jobs)"

definition get_local_only :: "string \<Rightarrow> job list \<Rightarrow> job option" where
  "get_local_only i jobs = find (\<lambda>c. job_id c = i) jobs"

definition list_local_only :: "nat \<Rightarrow> job list \<Rightarrow> job list" where
  "list_local_only limit jobs = take limit jobs"

definition count_active_local_only :: "job list \<Rightarrow> nat" where
  "count_active_local_only jobs = length (filter (\<lambda>j. active_status (job_status j)) jobs)"

section \<open>Mutations\<close>

text \<open>The job a scoped mutation works on.\<close>

definition scoped_index :: "string \<Rightarrow> scope \<Rightarrow> job list \<Rightarrow> nat option" where
  "scoped_index i sc jobs = find_index (\<lambda>j. job_id j = i \<and> matches_scope j sc) jobs"

record decision_result =
  dr_job :: job
  dr_replayed :: bool
  dr_dispatch :: bool

definition decide_job ::
  "digest_fn \<Rightarrow> job \<Rightarrow> scope \<Rightarrow> approval_request \<Rightarrow> decision \<Rightarrow> time \<Rightarrow> job_error + decision_result" where
  "decide_job sha j sc r d now = (case transition_approval sha j sc r d now of
       Inl e \<Rightarrow> Inl (ApprovalRefused e)
     | Inr t \<Rightarrow>
         (let u = apply_patch (tr_patch t @ (if tr_replayed t then [] else [PUpdated (Some now)])) j
          in case read_approval sha (job_approval u) u of
               Inl e \<Rightarrow> Inl (ApprovalRefused e)
             | Inr a \<Rightarrow> Inr \<lparr>dr_job = u\<lparr>job_approval := a\<rparr>, dr_replayed = tr_replayed t,
                             dr_dispatch = tr_dispatch t\<rparr>))"

definition decide_approval ::
  "digest_fn \<Rightarrow> string \<Rightarrow> scope \<Rightarrow> approval_request \<Rightarrow> decision \<Rightarrow> time \<Rightarrow> job list
     \<Rightarrow> job_error + job list \<times> decision_result option" where
  "decide_approval sha i sc r d now jobs = (case scoped_index i sc jobs of
       None \<Rightarrow> Inr (jobs, None)
     | Some k \<Rightarrow>
         (case decide_job sha (jobs ! k) sc r d now of
            Inl e \<Rightarrow> Inl e
          | Inr res \<Rightarrow> Inr (jobs[k := dr_job res], Some res)))"

definition mutate_publication ::
  "(string \<Rightarrow> bool) \<Rightarrow> string \<Rightarrow> principal \<Rightarrow> 'v reducer \<Rightarrow> job list \<Rightarrow> job_error + job list \<times> 'v option" where
  "mutate_publication url_ok i p reducer jobs =
     (case find_index (\<lambda>j. job_id j = i \<and> matches_principal j p) jobs of
        None \<Rightarrow> Inr (jobs, None)
      | Some k \<Rightarrow>
          (case reducer (jobs ! k) of
             Inl e \<Rightarrow> Inl (PublicationRefused e)
           | Inr (q, v) \<Rightarrow>
               (let u = (jobs ! k)\<lparr>job_publication := Some q\<rparr> in
                case read_publication url_ok (job_publication u) u of
                  Inl e \<Rightarrow> Inl (PublicationRefused e)
                | Inr None \<Rightarrow> Inl PublicationMissing
                | Inr (Some q') \<Rightarrow> Inr (jobs[k := u\<lparr>job_publication := Some q'\<rparr>], Some v))))"

text \<open>\<open>update\<close>, check by check in the order of the source. A check of the form
  \<open>field in patch && patch[field] !== job[field]\<close> compares the patched record with the old one:
  without the key they agree. \<open>update_refusal\<close> is the error of the first check that fails, after
  the authority checks and the settlement of the approval.\<close>

definition update_refusal :: "job \<Rightarrow> patch_field list \<Rightarrow> job \<Rightarrow> job_error option" where
  "update_refusal j patch u =
     (if list_ex is_PNotifications patch \<and> read_notifications (job_notifications u) = None
      then Some BadNotifications
      else if list_ex is_PNotifications patch \<and> job_notifications j \<noteq> None
           \<and> map_option nt_enabled (job_notifications u) \<noteq> map_option nt_enabled (job_notifications j)
      then Some NotifyIntentImmutable
      else if job_provider u \<noteq> job_provider j then Some ProviderImmutable
      else if job_model u \<noteq> job_model j \<or> job_effort u \<noteq> job_effort j \<or> job_catalog u \<noteq> job_catalog j
      then Some SelectionImmutable
      else if job_env u \<noteq> job_env j then Some EnvironmentImmutable
      else if list_ex is_PCli patch \<and> read_cli_receipt (job_cli u) = None then Some BadCliReceipt
      else if list_ex is_PCli patch \<and> job_cli j \<noteq> None \<and> \<not> same_cli_receipt (the (job_cli j)) (job_cli u)
      then Some CliReceiptImmutable
      else if list_ex is_PReceipt patch \<and> read_exec_receipt (job_receipt u) = None then Some BadReceipt
      else if list_ex is_PReceipt patch \<and> job_receipt j \<noteq> None
           \<and> \<not> same_exec_receipt (the (job_receipt j)) (job_receipt u)
      then Some ReceiptImmutable
      else if list_ex is_PTokens patch \<and> (\<exists>t \<in> set_option (job_tokens u). \<not> valid_tokens t)
      then Some BadTokens
      else if list_ex is_PTokens patch \<and> job_tokens j \<noteq> None
           \<and> \<not> same_tokens (the (job_tokens j)) (job_tokens u)
      then Some TokensImmutable
      else if job_status u = JCompleted \<and> (case job_result u of None \<Rightarrow> True | Some r \<Rightarrow> blank r)
      then Some CompletedWithoutResult
      else if list_ex is_PCancelRequested patch \<and> job_cancel_requested j \<noteq> None
           \<and> job_cancel_requested u \<noteq> job_cancel_requested j
      then Some CancelRequestImmutable
      else None)"

definition update_job :: "digest_fn \<Rightarrow> job \<Rightarrow> patch_field list \<Rightarrow> time \<Rightarrow> job_error + job" where
  "update_job sha j patch now =
     (let w = (apply_patch patch j)\<lparr>job_updated := Some now\<rparr> in
      if list_ex is_PApproval patch then Inl ApprovalElsewhere
      else if list_ex is_POrigin patch \<or> list_ex is_PPublication patch then Inl ResultAuthorityElsewhere
      else case (if job_approval w = None then Inr None else settle_approval sha w) of
        Inl e \<Rightarrow> Inl (ApprovalRefused e)
      | Inr settled \<Rightarrow>
        (let u = w\<lparr>job_approval := settled\<rparr> in
         case update_refusal j patch u of Some e \<Rightarrow> Inl e | None \<Rightarrow> Inr u))"

definition update_jobs ::
  "digest_fn \<Rightarrow> string \<Rightarrow> scope \<Rightarrow> patch_field list \<Rightarrow> time \<Rightarrow> job list \<Rightarrow> job_error + job list \<times> job option" where
  "update_jobs sha i sc patch now jobs = (case scoped_index i sc jobs of
       None \<Rightarrow> Inr (jobs, None)
     | Some k \<Rightarrow>
         (case update_job sha (jobs ! k) patch now of
            Inl e \<Rightarrow> Inl e
          | Inr u \<Rightarrow> Inr (jobs[k := u], Some u)))"

definition append_progress ::
  "string \<Rightarrow> scope \<Rightarrow> string \<Rightarrow> time \<Rightarrow> job list \<Rightarrow> job_error + job list \<times> job option" where
  "append_progress i sc message now jobs = (case scoped_index i sc jobs of
       None \<Rightarrow> Inr (jobs, None)
     | Some k \<Rightarrow>
         (let j = jobs ! k in
          if job_progress j \<noteq> [] \<and> last (job_progress j) = message then Inr (jobs, Some j)
          else let u = j\<lparr>job_progress := last_n 7 (job_progress j) @ [message], job_updated := Some now\<rparr>
               in Inr (jobs[k := u], Some u)))"

definition tools_of :: "job \<Rightarrow> tool_usage list" where
  "tools_of j = (case job_tools j of None \<Rightarrow> [] | Some us \<Rightarrow> us)"

definition append_tool_usage ::
  "(string \<Rightarrow> string \<times> bool) \<Rightarrow> string \<Rightarrow> scope \<Rightarrow> tool_usage list \<Rightarrow> time \<Rightarrow> job list
     \<Rightarrow> job_error + job list \<times> job option" where
  "append_tool_usage redact i sc observed now jobs = (case scoped_index i sc jobs of
       None \<Rightarrow> Inr (jobs, None)
     | Some k \<Rightarrow>
         (let j = jobs ! k; tools = merge_tools redact (tools_of j) observed in
          if tools = tools_of j then Inr (jobs, Some j)
          else let u = j\<lparr>job_tools := Some tools, job_updated := Some now\<rparr>
               in Inr (jobs[k := u], Some u)))"

definition interrupted_text :: string where
  "interrupted_text = ''The server restarted and the job was interrupted.''"

definition recover_job :: "digest_fn \<Rightarrow> time \<Rightarrow> job \<Rightarrow> job_error + job" where
  "recover_job sha now j =
     (if job_status j \<noteq> JQueued \<and> job_status j \<noteq> JRunning then Inr j
      else let r = j\<lparr>job_status := JFailed, job_error := Some interrupted_text,
                     job_finished := Some now, job_updated := Some now\<rparr>
           in if job_approval r = None then Inr r
              else case settle_approval sha r of
                Inl e \<Rightarrow> Inl (ApprovalRefused e)
              | Inr a \<Rightarrow> Inr (r\<lparr>job_approval := a\<rparr>))"

text \<open>\<open>jobs.map\<close> with a function that may throw.\<close>

fun map_throw :: "('a \<Rightarrow> 'e + 'b) \<Rightarrow> 'a list \<Rightarrow> 'e + 'b list" where
  "map_throw f [] = Inr []"
| "map_throw f (x # xs) = (case f x of Inl e \<Rightarrow> Inl e
     | Inr y \<Rightarrow> (case map_throw f xs of Inl e \<Rightarrow> Inl e | Inr ys \<Rightarrow> Inr (y # ys)))"

definition recover_interrupted :: "digest_fn \<Rightarrow> time \<Rightarrow> job list \<Rightarrow> job_error + job list \<times> unit" where
  "recover_interrupted sha now jobs = map_sum id (\<lambda>js. (js, ())) (map_throw (recover_job sha now) jobs)"

section \<open>Keyset paging\<close>

text \<open>The cursor is the JSON object its base64url text holds. \<open>cursor_length\<close> is the length of
  that text: 29 bytes of frame, the UTF-8 bytes of the identifier and one more for each character
  JSON escapes.\<close>

record cursor =
  cu_version :: int
  cu_after :: string

definition encode_cursor :: "string \<Rightarrow> cursor" where
  "encode_cursor after = \<lparr>cu_version = 1, cu_after = after\<rparr>"

definition cursor_length :: "cursor \<Rightarrow> nat" where
  "cursor_length c = (let n = 29 + byte_length (cu_after c)
      + length (filter (\<lambda>d. d = CHR 0x22 \<or> d = CHR 0x5C) (cu_after c))
    in (4 * n + 2) div 3)"

definition valid_page_id :: "string \<Rightarrow> bool" where
  "valid_page_id s \<longleftrightarrow> \<not> blank s \<and> length s \<le> 200 \<and> \<not> list_ex any_control s"

definition decode_cursor :: "cursor \<Rightarrow> string option" where
  "decode_cursor c = (if 512 < cursor_length c \<or> cu_version c \<noteq> 1 \<or> \<not> valid_page_id (cu_after c)
     then None else Some (cu_after c))"

datatype page_status = StatusIs job_status | InputRequired

record page_request =
  pq_limit :: int
  pq_cursor :: "cursor option"
  pq_search :: "string option"
  pq_status :: "page_status option"
  pq_ids :: "string list option"

record page =
  pg_jobs :: "job list"
  pg_more :: bool
  pg_next :: "cursor option"

definition page_search :: "page_request \<Rightarrow> string option" where
  "page_search q = map_option (lower_text \<circ> js_trim) (pq_search q)"

definition page_query :: "page_request \<Rightarrow> job \<Rightarrow> bool" where
  "page_query q j \<longleftrightarrow>
     (\<not> present (page_search q) \<or> includes_text (lower_text (job_prompt j)) (the (page_search q)))
     \<and> (case pq_status q of None \<Rightarrow> True | Some InputRequired \<Rightarrow> False
         | Some (StatusIs s) \<Rightarrow> job_status j = s)
     \<and> (case pq_ids q of None \<Rightarrow> True | Some ids \<Rightarrow> job_id j \<in> set ids)"

definition page_request_ok :: "page_request \<Rightarrow> bool" where
  "page_request_ok q \<longleftrightarrow> 1 \<le> pq_limit q \<and> pq_limit q \<le> 100
     \<and> (case page_search q of None \<Rightarrow> True | Some s \<Rightarrow> length s \<le> 200)
     \<and> (case pq_ids q of None \<Rightarrow> True
         | Some ids \<Rightarrow> length ids \<le> 50 \<and> list_all valid_page_id ids)"

definition page_candidates ::
  "page_request \<Rightarrow> job list \<Rightarrow> job_error + job list" where
  "page_candidates q owned = (case pq_cursor q of
       None \<Rightarrow> Inr (filter (page_query q) owned)
     | Some c \<Rightarrow>
         (case decode_cursor c of None \<Rightarrow> Inl BadPage
          | Some after \<Rightarrow>
              (case find_index (\<lambda>j. job_id j = after) owned of None \<Rightarrow> Inl BadPage
               | Some k \<Rightarrow> Inr (filter (page_query q) (drop (k + 1) owned)))))"

definition list_page :: "principal \<Rightarrow> page_request \<Rightarrow> job list \<Rightarrow> job_error + page" where
  "list_page p q jobs =
     (if \<not> page_request_ok q then Inl BadPage
      else case page_candidates q (filter (\<lambda>j. matches_principal j p) jobs) of
        Inl e \<Rightarrow> Inl e
      | Inr candidates \<Rightarrow>
          (let limit = nat (pq_limit q);
               plus_one = take (limit + 1) candidates;
               more = limit < length plus_one;
               rows = take limit plus_one
           in Inr \<lparr>pg_jobs = rows, pg_more = more,
                pg_next = (if more \<and> rows \<noteq> [] then Some (encode_cursor (job_id (last rows))) else None)\<rparr>))"

text \<open>Reading on from a page: the request of the first page with the cursor it returned.
  \<open>fuel\<close> bounds the number of pages.\<close>

fun read_pages :: "nat \<Rightarrow> principal \<Rightarrow> page_request \<Rightarrow> job list \<Rightarrow> job_error + job list" where
  "read_pages 0 p q jobs = Inr []"
| "read_pages (Suc n) p q jobs = (case list_page p q jobs of Inl e \<Rightarrow> Inl e
     | Inr pg \<Rightarrow> (case pg_next pg of None \<Rightarrow> Inr (pg_jobs pg)
         | Some c \<Rightarrow> map_sum id (\<lambda>rest. pg_jobs pg @ rest) (read_pages n p (q\<lparr>pq_cursor := Some c\<rparr>) jobs)))"

lemma find_index_nth_distinct:
  "distinct (map f xs) \<Longrightarrow> k < length xs \<Longrightarrow> find_index (\<lambda>x. f x = f (xs ! k)) xs = Some k"
proof (induction xs arbitrary: k)
  case Nil
  then show ?case by simp
next
  case (Cons x xs)
  then show ?case by (cases k) auto
qed

text \<open>The rows after a row of the filtered list are the filtered rows after it.\<close>

lemma filter_drop_after:
  assumes "filter P xs = us @ v # ws"
  shows "\<exists>k < length xs. xs ! k = v \<and> filter P (drop (k + 1) xs) = ws"
  using assms
proof (induction xs arbitrary: us)
  case Nil
  then show ?case by simp
next
  case (Cons x xs)
  show ?case
  proof (cases "P x \<and> us = []")
    case True
    with Cons.prems show ?thesis by (intro exI [of _ 0]) simp
  next
    case False
    with Cons.prems obtain us' where "filter P xs = us' @ v # ws"
      by (cases us) (auto split: if_splits)
    from Cons.IH [OF this] obtain k where "k < length xs" "xs ! k = v" "filter P (drop (k + 1) xs) = ws"
      by blast
    then show ?thesis by (intro exI [of _ "Suc k"]) simp
  qed
qed

definition page_ids_ok :: "job list \<Rightarrow> bool" where
  "page_ids_ok jobs \<longleftrightarrow> distinct (map job_id jobs)
     \<and> (\<forall>j \<in> set jobs. valid_page_id (job_id j) \<and> cursor_length (encode_cursor (job_id j)) \<le> 512)"

lemma decode_encode:
  "page_ids_ok jobs \<Longrightarrow> j \<in> set jobs \<Longrightarrow> decode_cursor (encode_cursor (job_id j)) = Some (job_id j)"
  by (auto simp: page_ids_ok_def decode_cursor_def encode_cursor_def)

lemma page_query_cursor [simp]: "page_query (q\<lparr>pq_cursor := c\<rparr>) = page_query q"
  by (rule ext) (simp add: page_query_def page_search_def cong: option.case_cong)

lemma page_request_cursor [simp]: "page_request_ok (q\<lparr>pq_cursor := c\<rparr>) = page_request_ok q"
  by (simp add: page_request_ok_def page_search_def)

lemma page_candidates_after:
  assumes "page_ids_ok owned" "k < length owned"
  shows "page_candidates (q\<lparr>pq_cursor := Some (encode_cursor (job_id (owned ! k)))\<rparr>) owned
    = Inr (filter (page_query q) (drop (k + 1) owned))"
proof -
  have "find_index (\<lambda>j. job_id j = job_id (owned ! k)) owned = Some k"
    using assms find_index_nth_distinct [of job_id owned k] by (simp add: page_ids_ok_def)
  with assms decode_encode [of owned "owned ! k"] show ?thesis
    by (simp add: page_candidates_def)
qed

text \<open>One page is a prefix of the candidates, and when it says there is more, its cursor selects
  exactly the candidates behind it.\<close>

lemma list_page_split:
  assumes "page_request_ok q" and cand: "page_candidates q (filter (\<lambda>j. matches_principal j p) jobs) = Inr cs"
    and ids: "page_ids_ok jobs"
    and sub: "\<exists>n. cs = filter (page_query q) (drop n (filter (\<lambda>j. matches_principal j p) jobs))"
  obtains (last_page) pg where "list_page p q jobs = Inr pg" "pg_next pg = None" "pg_jobs pg = cs"
      "length cs \<le> nat (pq_limit q)"
  | (more) pg c where "list_page p q jobs = Inr pg" "pg_next pg = Some c"
      "pg_jobs pg = take (nat (pq_limit q)) cs" "nat (pq_limit q) < length cs"
      "page_candidates (q\<lparr>pq_cursor := Some c\<rparr>) (filter (\<lambda>j. matches_principal j p) jobs)
         = Inr (drop (nat (pq_limit q)) cs)"
proof (cases "nat (pq_limit q) < length cs")
  case False
  then show thesis
    using assms(1) cand last_page [of "\<lparr>pg_jobs = cs, pg_more = False, pg_next = None\<rparr>"]
    by (auto simp: list_page_def Let_def)
next
  case True
  let ?o = "filter (\<lambda>j. matches_principal j p) jobs"
  let ?l = "nat (pq_limit q)"
  have l: "0 < ?l" using assms(1) by (simp add: page_request_ok_def)
  let ?c = "encode_cursor (job_id (last (take ?l cs)))"
  have lp: "list_page p q jobs = Inr \<lparr>pg_jobs = take ?l cs, pg_more = True, pg_next = Some ?c\<rparr>"
    using assms(1) cand True l by (auto simp: list_page_def Let_def min_def)
  have oids: "page_ids_ok ?o"
    using ids by (auto simp: page_ids_ok_def intro: distinct_map_filter)
  obtain n where n: "cs = filter (page_query q) (drop n ?o)" using sub by blast
  have "cs = take (?l - 1) cs @ last (take ?l cs) # drop ?l cs"
    using True l by (metis Suc_diff_1 append_take_drop_id take_Suc_conv_app_nth append.assoc append_Cons
        append_Nil last_snoc less_imp_diff_less less_or_eq_imp_le Suc_le_lessD)
  then obtain k where k: "k < length (drop n ?o)" "drop n ?o ! k = last (take ?l cs)"
      "filter (page_query q) (drop (k + 1) (drop n ?o)) = drop ?l cs"
    using filter_drop_after [of "page_query q" "drop n ?o"] n by metis
  have "?o ! (n + k) = last (take ?l cs)" "n + k < length ?o"
    using k by (auto simp: nth_drop)
  then have "page_candidates (q\<lparr>pq_cursor := Some ?c\<rparr>) ?o
      = Inr (filter (page_query q) (drop (n + k + 1) ?o))"
    using page_candidates_after [OF oids, of "n + k" q] by simp
  also have "drop (n + k + 1) ?o = drop (k + 1) (drop n ?o)" by (simp add: add.commute add.left_commute)
  finally have "page_candidates (q\<lparr>pq_cursor := Some ?c\<rparr>) ?o = Inr (drop ?l cs)" using k(3) by simp
  with lp True more show thesis by simp
qed

lemma page_candidates_sub:
  "page_candidates q owned = Inr cs \<Longrightarrow> \<exists>n. cs = filter (page_query q) (drop n owned)"
  by (auto simp: page_candidates_def split: option.splits intro: exI [of _ 0])

lemma read_pages_candidates:
  assumes "page_request_ok q" "page_ids_ok jobs"
    and "page_candidates q (filter (\<lambda>j. matches_principal j p) jobs) = Inr cs" "length cs < fuel"
  shows "read_pages fuel p q jobs = Inr cs"
  using assms
proof (induction fuel arbitrary: q cs)
  case 0
  then show ?case by simp
next
  case (Suc fuel)
  note sub = page_candidates_sub [OF Suc.prems(3)]
  from Suc.prems(1,3,2) sub show ?case
  proof (cases rule: list_page_split)
    case (last_page pg)
    then show ?thesis by simp
  next
    case (more pg c)
    have l: "0 < nat (pq_limit q)" using Suc.prems(1) by (simp add: page_request_ok_def)
    have "read_pages fuel p (q\<lparr>pq_cursor := Some c\<rparr>) jobs = Inr (drop (nat (pq_limit q)) cs)"
      using Suc.IH [of "q\<lparr>pq_cursor := Some c\<rparr>"] Suc.prems l more by simp
    with more show ?thesis by simp
  qed
qed

text \<open>Insertions in front of the store do not move the rows behind a cursor.\<close>

lemma find_index_skip:
  "\<forall>x \<in> set xs. \<not> P x \<Longrightarrow> find_index P (xs @ ys) = map_option (\<lambda>k. length xs + k) (find_index P ys)"
  by (cases "find_index P ys"; induction xs) auto

lemma list_page_insert:
  assumes "pq_cursor q = Some c" and "\<forall>n \<in> set new. job_id n \<noteq> cu_after c"
  shows "list_page p q (new @ jobs) = list_page p q jobs"
proof -
  let ?f = "filter (\<lambda>j. matches_principal j p)"
  have "page_candidates q (?f new @ ?f jobs) = page_candidates q (?f jobs)"
    using assms find_index_skip [of "?f new" "\<lambda>j. job_id j = cu_after c" "?f jobs"]
    by (auto simp: page_candidates_def decode_cursor_def split: option.splits if_splits)
  then show ?thesis by (simp add: list_page_def)
qed

end
