(* ===== verification/JobHistory.thy ===== *)
theory JobHistory
  imports JobStore
begin

text \<open>
  Histories of the job store: the mutations as one type of operations, each run through the
  mutation queue, and what every history keeps. The publication operations are the reducers of
  \<open>server/core-result-publication.ts\<close> as its service hands them to \<open>mutateResultPublication\<close>.
\<close>

section \<open>Operations\<close>

record host =
  h_sha :: digest_fn
  h_url :: "string \<Rightarrow> bool"
  h_digests :: digests
  h_redact :: "string \<Rightarrow> string \<times> bool"

datatype store_op =
    OpCreate create_input string string time
  | OpDecide string scope approval_request decision time
  | OpUpdate string scope "patch_field list" time
  | OpProgress string scope string time
  | OpTools string scope "tool_usage list" time
  | OpPreview string principal string time
  | OpClaim string principal string string time
  | OpSettle string principal string connector_outcome time
  | OpRecover time

datatype store_result =
    RJob "job option"
  | RDecision "decision_result option"
  | RPreview "(publication \<times> rendered) option"
  | RClaim "claim option"
  | RSettled "publication option"
  | RUnit

definition returning :: "('a \<Rightarrow> 'b) \<Rightarrow> job_error + job list \<times> 'a \<Rightarrow> job_error + job list \<times> 'b" where
  "returning f = map_sum id (map_prod id f)"

text \<open>\<open>preview\<close>, \<open>confirm\<close> and the settlement check their request before they enter the queue.\<close>

fun exec_op :: "host \<Rightarrow> store_op \<Rightarrow> job list \<Rightarrow> job_error + job list \<times> store_result" where
  "exec_op h (OpCreate i new_id uuid now) jobs =
     (case build_job (h_sha h) (h_url h) i new_id uuid now of Inl e \<Rightarrow> Inl e
      | Inr j \<Rightarrow> returning (RJob \<circ> Some) (insert_job i j jobs))"
| "exec_op h (OpDecide i sc r d now) jobs = returning RDecision (decide_approval (h_sha h) i sc r d now jobs)"
| "exec_op h (OpUpdate i sc patch now) jobs = returning RJob (update_jobs (h_sha h) i sc patch now jobs)"
| "exec_op h (OpProgress i sc message now) jobs = returning RJob (append_progress i sc message now jobs)"
| "exec_op h (OpTools i sc us now) jobs = returning RJob (append_tool_usage (h_redact h) i sc us now jobs)"
| "exec_op h (OpPreview i p uuid now) jobs =
     (if \<not> assert_pub_request p i then Inl (PublicationRefused PubInvalid)
      else returning RPreview (mutate_publication (h_url h) i p
             (preview_reducer (h_digests h) (h_url h) p uuid now) jobs))"
| "exec_op h (OpClaim i p operation rvn now) jobs =
     (if \<not> assert_pub_request p i \<or> \<not> nonce_text operation \<or> \<not> hex_text 64 rvn
      then Inl (PublicationRefused PubInvalid)
      else returning RClaim (mutate_publication (h_url h) i p
             (claim_reducer (h_digests h) (h_url h) p operation rvn now) jobs))"
| "exec_op h (OpSettle i p operation c now) jobs =
     returning RSettled (mutate_publication (h_url h) i p
       (settle_reducer (h_url h) p operation c now) jobs)"
| "exec_op h (OpRecover now) jobs = returning (\<lambda>_. RUnit) (recover_interrupted (h_sha h) now jobs)"

lemma returning_Inr [simp]:
  "returning f x = Inr (jobs', r) \<longleftrightarrow> (\<exists>a. x = Inr (jobs', a) \<and> r = f a)"
  by (cases x) (auto simp: returning_def map_prod_def split: prod.splits)

section \<open>What a job keeps\<close>

text \<open>The part of a job that no mutation changes, once it is there: owner, execution choices,
  origin, receipts, token counts, the identity and the decision of its approval, and the stage of
  its publication.\<close>

definition kept :: "'a option \<Rightarrow> 'a option \<Rightarrow> bool" where
  "kept a b \<longleftrightarrow> a = None \<or> a = b"

fun approval_kept :: "approval option \<Rightarrow> approval option \<Rightarrow> bool" where
  "approval_kept None b \<longleftrightarrow> b = None"
| "approval_kept (Some a) None \<longleftrightarrow> False"
| "approval_kept (Some a) (Some b) \<longleftrightarrow> ap_id b = ap_id a \<and> ap_revision b = ap_revision a
     \<and> ap_approver b = ap_approver a \<and> ap_tenant b = ap_tenant a \<and> ap_deadline b = ap_deadline a
     \<and> (ap_state a \<noteq> ApPending \<longrightarrow> ap_state b = ap_state a \<and> ap_decided b = ap_decided a)"

definition job_extends :: "job \<Rightarrow> job \<Rightarrow> bool" where
  "job_extends j j' \<longleftrightarrow>
     job_tenant j' = job_tenant j \<and> job_requester j' = job_requester j
     \<and> job_conversation j' = job_conversation j
     \<and> job_provider j' = job_provider j \<and> job_model j' = job_model j \<and> job_effort j' = job_effort j
     \<and> job_catalog j' = job_catalog j \<and> job_env j' = job_env j \<and> job_origin j' = job_origin j
     \<and> kept (job_receipt j) (job_receipt j') \<and> kept (job_cli j) (job_cli j')
     \<and> kept (job_tokens j) (job_tokens j') \<and> kept (job_cancel_requested j) (job_cancel_requested j')
     \<and> kept (map_option nt_enabled (job_notifications j)) (map_option nt_enabled (job_notifications j'))
     \<and> approval_kept (job_approval j) (job_approval j')
     \<and> pub_rank (job_publication j) \<le> pub_rank (job_publication j')"

lemma kept_simps [simp]: "kept a a" "kept None b" "kept (Some x) b \<longleftrightarrow> b = Some x"
  by (auto simp: kept_def)

lemma kept_trans: "kept a b \<Longrightarrow> kept b c \<Longrightarrow> kept a c"
  by (auto simp: kept_def)

lemma approval_kept_refl [simp]: "approval_kept a a"
  by (cases a) auto

lemma approval_kept_trans: "approval_kept a b \<Longrightarrow> approval_kept b c \<Longrightarrow> approval_kept a c"
  by (cases a; cases b; cases c) auto

lemma job_extends_refl [simp]: "job_extends j j"
  by (simp add: job_extends_def)

lemma job_extends_trans: "job_extends a b \<Longrightarrow> job_extends b c \<Longrightarrow> job_extends a c"
  unfolding job_extends_def by (auto intro: kept_trans approval_kept_trans)

lemma job_extends_matches:
  "job_extends j j' \<Longrightarrow> matches_scope j' sc \<longleftrightarrow> matches_scope j sc"
  "job_extends j j' \<Longrightarrow> matches_principal j' p \<longleftrightarrow> matches_principal j p"
  by (auto simp: job_extends_def matches_scope_def matches_principal_def)

subsection \<open>Each job-level operation extends its job\<close>

lemma decide_job_extends:
  assumes "decide_job sha j sc r d now = Inr res"
  shows "job_extends j (dr_job res)" and "job_id (dr_job res) = job_id j"
    and "job_key (dr_job res) = job_key j" and "job_hash (dr_job res) = job_hash j"
proof -
  obtain t where t: "transition_approval sha j sc r d now = Inr t"
    using assms by (auto simp: decide_job_def split: sum.splits)
  let ?u = "apply_patch (tr_patch t @ (if tr_replayed t then [] else [PUpdated (Some now)])) j"
  obtain v where v: "read_approval sha (job_approval ?u) ?u = Inr v"
    using assms t by (auto simp: decide_job_def Let_def split: sum.splits)
  have res: "dr_job res = ?u"
    using assms t v read_approval_id [OF v] by (auto simp: decide_job_def Let_def)
  from t have "job_extends j ?u \<and> job_id ?u = job_id j \<and> job_key ?u = job_key j \<and> job_hash ?u = job_hash j"
    by (cases rule: transition_cases) (auto simp: job_extends_def)
  then show "job_extends j (dr_job res)" and "job_id (dr_job res) = job_id j"
    and "job_key (dr_job res) = job_key j" and "job_hash (dr_job res) = job_hash j"
    using res by auto
qed

lemma settled_kept:
  assumes "(if a = None then Inr None else settle_approval sha u) = Inr v" and "job_approval u = a"
  shows "approval_kept a v"
proof (cases a)
  case None
  with assms show ?thesis by simp
next
  case (Some b)
  with assms have s: "settle_approval sha u = Inr v" and u: "job_approval u = Some b" by auto
  from s u obtain c where "v = Some c" using settle_approval_None [of sha u] by (cases v) auto
  with s u Some show ?thesis using settle_approval_keeps [of sha u c b] by auto
qed

lemma if_Some_None: "(if b then Some e else x) = None \<longleftrightarrow> \<not> b \<and> x = None"
  by simp

lemma update_refusal_None:
  assumes "update_refusal j patch u = None"
  shows "job_provider u = job_provider j" "job_model u = job_model j" "job_effort u = job_effort j"
    "job_catalog u = job_catalog j" "job_env u = job_env j"
    "list_ex is_PNotifications patch \<Longrightarrow>
       kept (map_option nt_enabled (job_notifications j)) (map_option nt_enabled (job_notifications u))"
    "list_ex is_PCli patch \<Longrightarrow> kept (job_cli j) (job_cli u)"
    "list_ex is_PReceipt patch \<Longrightarrow> kept (job_receipt j) (job_receipt u)"
    "list_ex is_PTokens patch \<Longrightarrow> kept (job_tokens j) (job_tokens u)"
    "list_ex is_PCancelRequested patch \<Longrightarrow> kept (job_cancel_requested j) (job_cancel_requested u)"
    "job_status u = JCompleted \<Longrightarrow> \<exists>r. job_result u = Some r \<and> \<not> blank r"
proof -
  note ok = assms [unfolded update_refusal_def if_Some_None]
  show "job_provider u = job_provider j" using ok by blast
  show "job_model u = job_model j" using ok by blast
  show "job_effort u = job_effort j" using ok by blast
  show "job_catalog u = job_catalog j" using ok by blast
  show "job_env u = job_env j" using ok by blast
  show "list_ex is_PNotifications patch \<Longrightarrow>
       kept (map_option nt_enabled (job_notifications j)) (map_option nt_enabled (job_notifications u))"
    using ok unfolding kept_def option.map_disc_iff by metis
  show "list_ex is_PCli patch \<Longrightarrow> kept (job_cli j) (job_cli u)"
    using ok unfolding kept_def same_receipts by (metis option.collapse)
  show "list_ex is_PReceipt patch \<Longrightarrow> kept (job_receipt j) (job_receipt u)"
    using ok unfolding kept_def same_receipts by (metis option.collapse)
  show "list_ex is_PTokens patch \<Longrightarrow> kept (job_tokens j) (job_tokens u)"
    using ok unfolding kept_def same_tokens_iff by (metis option.collapse)
  show "list_ex is_PCancelRequested patch \<Longrightarrow> kept (job_cancel_requested j) (job_cancel_requested u)"
    using ok unfolding kept_def by metis
  have "\<not> (job_status u = JCompleted \<and> (case job_result u of None \<Rightarrow> True | Some r \<Rightarrow> blank r))"
    using ok by blast
  then show "job_status u = JCompleted \<Longrightarrow> \<exists>r. job_result u = Some r \<and> \<not> blank r"
    by (cases "job_result u") auto
qed

text \<open>The shape of a successful update.\<close>

lemma update_job_Inr:
  assumes "update_job sha j patch now = Inr u"
  obtains v where "\<not> list_ex is_PApproval patch" "\<not> list_ex is_POrigin patch" "\<not> list_ex is_PPublication patch"
    "(if job_approval j = None then Inr None
      else settle_approval sha ((apply_patch patch j)\<lparr>job_updated := Some now\<rparr>)) = Inr v"
    "u = (apply_patch patch j)\<lparr>job_updated := Some now, job_approval := v\<rparr>"
    "update_refusal j patch u = None"
proof -
  let ?w = "(apply_patch patch j)\<lparr>job_updated := Some now\<rparr>"
  have no: "\<not> list_ex is_PApproval patch" "\<not> list_ex is_POrigin patch" "\<not> list_ex is_PPublication patch"
    using assms by (auto simp: update_job_def Let_def split: if_split_asm)
  have ap: "job_approval ?w = job_approval j" using apply_patch_absent(1) [OF no(1), of j] by simp
  obtain v where v: "(if job_approval j = None then Inr None else settle_approval sha ?w) = Inr v"
    using assms no ap by (cases "if job_approval j = None then Inr None else settle_approval sha ?w")
      (auto simp: update_job_def Let_def simp del: if_split)
  show thesis
    using that [OF no v] assms no ap v
    by (auto simp: update_job_def Let_def split: option.splits)
qed

lemma update_job_extends:
  assumes "update_job sha j patch now = Inr u"
  shows "job_extends j u"
  using assms
proof (cases rule: update_job_Inr)
  case (1 v)
  note no = 1(1-3) and u = 1(5) and ok = update_refusal_None [OF 1(6)]
  have ap: "approval_kept (job_approval j) (job_approval u)"
    using settled_kept [OF 1(4)] apply_patch_absent(1) [OF no(1), of j] u by simp
  have nt: "kept (map_option nt_enabled (job_notifications j)) (map_option nt_enabled (job_notifications u))"
    using ok(6) apply_patch_absent(4) [of patch j] u by (cases "list_ex is_PNotifications patch") auto
  have cli: "kept (job_cli j) (job_cli u)"
    using ok(7) apply_patch_absent(6) [of patch j] u by (cases "list_ex is_PCli patch") auto
  have rc: "kept (job_receipt j) (job_receipt u)"
    using ok(8) apply_patch_absent(5) [of patch j] u by (cases "list_ex is_PReceipt patch") auto
  have tk: "kept (job_tokens j) (job_tokens u)"
    using ok(9) apply_patch_absent(7) [of patch j] u by (cases "list_ex is_PTokens patch") auto
  have cq: "kept (job_cancel_requested j) (job_cancel_requested u)"
    using ok(10) apply_patch_absent(8) [of patch j] u by (cases "list_ex is_PCancelRequested patch") auto
  have scope: "job_tenant u = job_tenant j" "job_requester u = job_requester j"
    "job_conversation u = job_conversation j"
    by (simp_all add: u)
  have auth: "job_origin u = job_origin j" "job_publication u = job_publication j"
    using apply_patch_absent(2) [OF no(2), of j] apply_patch_absent(3) [OF no(3), of j] by (simp_all add: u)
  show ?thesis
    unfolding job_extends_def using scope auth ap ok(1-5) nt cli rc tk cq by simp
qed

lemma recover_job_extends:
  assumes "recover_job sha now j = Inr u"
  shows "job_extends j u" and "job_id u = job_id j" and "job_key u = job_key j" and "job_hash u = job_hash j"
proof -
  let ?r = "j\<lparr>job_status := JFailed, job_error := Some interrupted_text,
                     job_finished := Some now, job_updated := Some now\<rparr>"
  consider "u = j" | v where "u = ?r\<lparr>job_approval := v\<rparr>" "approval_kept (job_approval j) v"
  proof (cases "job_status j \<noteq> JQueued \<and> job_status j \<noteq> JRunning")
    case True
    then show thesis using assms that(1) by (simp add: recover_job_def)
  next
    case False
    obtain v where v: "(if job_approval ?r = None then Inr None else settle_approval sha ?r) = Inr v"
      and u: "u = ?r\<lparr>job_approval := v\<rparr>"
      using assms False by (auto simp: recover_job_def Let_def split: if_split_asm sum.splits)
    then show thesis using that(2) settled_kept [OF v] by simp
  qed
  then show "job_extends j u" and "job_id u = job_id j" and "job_key u = job_key j" and "job_hash u = job_hash j"
    by (cases; simp add: job_extends_def)+
qed

lemma publication_job_extends:
  assumes "pub_rank (job_publication j) \<le> pub_rank (Some q)"
  shows "job_extends j (j\<lparr>job_publication := Some q\<rparr>)"
  using assms by (simp add: job_extends_def)

section \<open>What the list keeps\<close>

definition same_ids :: "job \<Rightarrow> job \<Rightarrow> bool" where
  "same_ids j u \<longleftrightarrow> job_id u = job_id j \<and> job_key u = job_key j \<and> job_hash u = job_hash j"

text \<open>Every job of the list has its successor at the same distance from the end; new jobs are in
  front.\<close>

definition evolves :: "(job \<Rightarrow> job \<Rightarrow> bool) \<Rightarrow> job list \<Rightarrow> job list \<Rightarrow> job list \<Rightarrow> bool" where
  "evolves R new jobs jobs' \<longleftrightarrow> (\<exists>rest. jobs' = new @ rest \<and> list_all2 R jobs rest)"

lemma evolves_refl: "(\<And>j. R j j) \<Longrightarrow> evolves R [] jobs jobs"
  by (simp add: evolves_def list_all2_refl)

lemma evolves_update:
  "(\<And>j. R j j) \<Longrightarrow> k < length jobs \<Longrightarrow> R (jobs ! k) u \<Longrightarrow> evolves R [] jobs (jobs[k := u])"
  by (auto simp: evolves_def list_all2_conv_all_nth nth_list_update)

lemma list_all2_mem1: "list_all2 R xs ys \<Longrightarrow> x \<in> set xs \<Longrightarrow> \<exists>y \<in> set ys. R x y"
  by (induction rule: list_all2_induct) auto

lemma list_all2_mem2: "list_all2 R xs ys \<Longrightarrow> y \<in> set ys \<Longrightarrow> \<exists>x \<in> set xs. R x y"
  by (induction rule: list_all2_induct) auto

lemma evolves_mem:
  "evolves R new jobs jobs' \<Longrightarrow> j \<in> set jobs \<Longrightarrow> \<exists>u \<in> set jobs'. R j u"
  unfolding evolves_def using list_all2_mem1 by fastforce

lemma evolves_back:
  "evolves R new jobs jobs' \<Longrightarrow> u \<in> set jobs' \<Longrightarrow> u \<in> set new \<or> (\<exists>j \<in> set jobs. R j u)"
  unfolding evolves_def using list_all2_mem2 by fastforce

lemma map_throw_all2: "map_throw f xs = Inr ys \<Longrightarrow> list_all2 (\<lambda>x y. f x = Inr y) xs ys"
  by (induction xs arbitrary: ys) (auto split: sum.splits)

definition plain_patch :: "patch_field list \<Rightarrow> bool" where
  "plain_patch p \<longleftrightarrow> \<not> list_ex is_PId p \<and> \<not> list_ex is_PKey p \<and> \<not> list_ex is_PHash p"

fun plain_op :: "store_op \<Rightarrow> bool" where
  "plain_op (OpUpdate i sc patch now) = plain_patch patch"
| "plain_op _ = True"

definition job_step :: "bool \<Rightarrow> job \<Rightarrow> job \<Rightarrow> bool" where
  "job_step plain j u \<longleftrightarrow> job_extends j u \<and> (plain \<longrightarrow> same_ids j u)"

lemma job_step_refl [simp]: "job_step b j j"
  by (simp add: job_step_def same_ids_def)

lemma update_job_step:
  assumes "update_job sha j patch now = Inr u"
  shows "job_step (plain_patch patch) j u"
proof -
  have "plain_patch patch \<Longrightarrow> same_ids j u"
    using assms by (cases rule: update_job_Inr) (simp add: plain_patch_def same_ids_def apply_patch_absent)
  then show ?thesis using update_job_extends [OF assms] by (simp add: job_step_def)
qed

lemma scoped_index_Some:
  "scoped_index i sc jobs = Some k \<Longrightarrow> k < length jobs \<and> job_id (jobs ! k) = i \<and> matches_scope (jobs ! k) sc"
  unfolding scoped_index_def using find_index_Some by blast

lemma mutate_publication_evolves:
  assumes "mutate_publication url_ok i p reducer jobs = Inr (jobs', v)"
    and "\<And>j q v. reducer j = Inr (q, v) \<Longrightarrow> pub_rank (job_publication j) \<le> pub_rank (Some q)"
  shows "evolves (job_step plain) [] jobs jobs'"
proof (cases "find_index (\<lambda>j. job_id j = i \<and> matches_principal j p) jobs")
  case None
  with assms show ?thesis by (simp add: mutate_publication_def evolves_refl)
next
  case (Some k)
  then obtain q w where q: "reducer (jobs ! k) = Inr (q, w)"
    "jobs' = jobs[k := (jobs ! k)\<lparr>job_publication := Some q\<rparr>]"
    using assms(1) by (auto simp: mutate_publication_def Let_def split: sum.splits option.splits
        dest!: read_publication_id)
  have "job_step plain (jobs ! k) ((jobs ! k)\<lparr>job_publication := Some q\<rparr>)"
    using publication_job_extends assms(2) [OF q(1)] by (simp add: job_step_def same_ids_def)
  then show ?thesis using q find_index_bound [OF Some] by (auto intro: evolves_update)
qed

fun created :: "host \<Rightarrow> store_op \<Rightarrow> job list" where
  "created h (OpCreate i new_id uuid now) =
     (case build_job (h_sha h) (h_url h) i new_id uuid now of Inr j \<Rightarrow> [j] | Inl e \<Rightarrow> [])"
| "created h _ = []"

lemma exec_op_evolves:
  assumes "exec_op h op jobs = Inr (jobs', r)"
  shows "evolves (job_step (plain_op op)) (created h op) jobs jobs'"
proof (cases op)
  case (OpCreate i new_id uuid now)
  then show ?thesis using assms
    by (auto simp: insert_job_def evolves_def list_all2_refl split: sum.splits option.splits if_splits)
next
  case (OpDecide i sc rq d now)
  show ?thesis
  proof (cases "scoped_index i sc jobs")
    case None
    then show ?thesis using assms OpDecide by (auto simp: decide_approval_def evolves_refl)
  next
    case (Some k)
    then obtain res where "decide_job (h_sha h) (jobs ! k) sc rq d now = Inr res" "jobs' = jobs[k := dr_job res]"
      using assms OpDecide by (auto simp: decide_approval_def split: sum.splits)
    then show ?thesis using scoped_index_Some [OF Some] decide_job_extends OpDecide
      by (auto intro!: evolves_update simp: job_step_def same_ids_def)
  qed
next
  case (OpUpdate i sc patch now)
  show ?thesis
  proof (cases "scoped_index i sc jobs")
    case None
    then show ?thesis using assms OpUpdate by (auto simp: update_jobs_def evolves_refl)
  next
    case (Some k)
    then obtain u where "update_job (h_sha h) (jobs ! k) patch now = Inr u" "jobs' = jobs[k := u]"
      using assms OpUpdate by (auto simp: update_jobs_def split: sum.splits)
    then show ?thesis using scoped_index_Some [OF Some] update_job_step OpUpdate
      by (auto intro!: evolves_update)
  qed
next
  case (OpProgress i sc m now)
  show ?thesis
  proof (cases "scoped_index i sc jobs")
    case (Some k)
    have "job_step True j (j\<lparr>job_progress := ps, job_updated := t\<rparr>)" for j ps t
      by (simp add: job_step_def same_ids_def job_extends_def)
    then show ?thesis using assms OpProgress Some scoped_index_Some [OF Some]
      by (auto simp: append_progress_def Let_def evolves_refl intro!: evolves_update split: if_splits)
  qed (use assms OpProgress in \<open>auto simp: append_progress_def evolves_refl\<close>)
next
  case (OpTools i sc us now)
  show ?thesis
  proof (cases "scoped_index i sc jobs")
    case (Some k)
    have "job_step True j (j\<lparr>job_tools := ts, job_updated := t\<rparr>)" for j ts t
      by (simp add: job_step_def same_ids_def job_extends_def)
    then show ?thesis using assms OpTools Some scoped_index_Some [OF Some]
      by (auto simp: append_tool_usage_def Let_def evolves_refl intro!: evolves_update split: if_splits)
  qed (use assms OpTools in \<open>auto simp: append_tool_usage_def evolves_refl\<close>)
next
  case (OpPreview i p uuid now)
  then show ?thesis using assms
    by (auto split: if_splits intro!: mutate_publication_evolves intro: preview_reducer_rank(1))
next
  case (OpClaim i p operation rvn now)
  have "pub_rank (job_publication j) \<le> pub_rank (Some q)"
    if "claim_reducer (h_digests h) (h_url h) p operation rvn now j = Inr (q, v)" for j q v
    using that by (cases rule: claim_reducer_cases) auto
  then show ?thesis using assms OpClaim
    by (auto split: if_splits intro!: mutate_publication_evolves)
next
  case (OpSettle i p operation c now)
  have "pub_rank (job_publication j) \<le> pub_rank (Some q)"
    if "settle_reducer (h_url h) p operation c now j = Inr (q, v)" for j q v
    using that by (cases rule: settle_reducer_cases) auto
  then show ?thesis using assms OpSettle by (auto intro!: mutate_publication_evolves)
next
  case (OpRecover now)
  then have "map_throw (recover_job (h_sha h) now) jobs = Inr jobs'"
    using assms by (cases "map_throw (recover_job (h_sha h) now) jobs") (auto simp: recover_interrupted_def)
  then have "list_all2 (job_step True) jobs jobs'"
    by (rule list_all2_mono [OF map_throw_all2])
      (auto simp: job_step_def same_ids_def recover_job_extends)
  then show ?thesis using OpRecover by (simp add: evolves_def)
qed

section \<open>Executions\<close>

type_synonym store_event = "store_op \<times> (job_error + store_result)"

text \<open>A job identifier is drawn at random when a job is created; updates never carry an
  identifier or a request key. A step runs one operation through the queue, its write succeeding
  or failing.\<close>

fun fresh_op :: "store_op \<Rightarrow> job list \<Rightarrow> bool" where
  "fresh_op (OpCreate i new_id uuid now) jobs \<longleftrightarrow> new_id \<notin> set (map job_id jobs)"
| "fresh_op _ jobs \<longleftrightarrow> True"

inductive store_step :: "host \<Rightarrow> job_store \<Rightarrow> store_event \<Rightarrow> job_store \<Rightarrow> bool" for h :: host where
  queued: "plain_op op \<Longrightarrow> fresh_op op (js_jobs st)
     \<Longrightarrow> enqueue_mutation True ok (exec_op h op) st = (st', r) \<Longrightarrow> store_step h st (op, r) st'"

inductive_cases store_stepE [elim!]: "store_step h st ev st'"

definition store_good :: "job_store \<Rightarrow> bool" where
  "store_good st \<longleftrightarrow> distinct (map job_id (js_jobs st)) \<and> js_disk st = js_jobs st"

lemma build_job_id: "build_job sha url_ok i new_id uuid now = Inr j \<Longrightarrow> job_id j = new_id"
  by (auto simp: build_job_def Let_def initial_job_def split: if_splits option.splits sum.splits)

text \<open>A step either leaves the store as it was, and then its result is an error, or commits the
  operation's result.\<close>

lemma store_step_cases:
  assumes "store_step h st (op, r) st'"
  obtains (failed) e where "st' = st" "r = Inl e"
  | (committed) a where "exec_op h op (js_jobs st) = Inr (js_jobs st', a)" "r = Inr a"
      "js_disk st' = js_jobs st'" "plain_op op" "fresh_op op (js_jobs st)"
  using assms by (auto simp: enqueue_mutation_def split: sum.splits prod.splits if_splits)

lemma created_fresh:
  "fresh_op op jobs \<Longrightarrow> distinct (map job_id (created h op))
     \<and> set (map job_id (created h op)) \<inter> set (map job_id jobs) = {}"
  by (cases op) (auto dest: build_job_id split: sum.splits)

lemma evolves_ids:
  assumes "evolves (job_step True) new jobs jobs'"
  shows "map job_id jobs' = map job_id new @ map job_id jobs"
proof -
  obtain rest where rest: "jobs' = new @ rest" "list_all2 (job_step True) jobs rest"
    using assms by (auto simp: evolves_def)
  from rest(2) have "map job_id rest = map job_id jobs"
    by (induction rule: list_all2_induct) (auto simp: job_step_def same_ids_def)
  with rest(1) show ?thesis by simp
qed

lemma store_step_evolves:
  assumes "store_step h st ev st'"
  obtains new where "evolves (job_step True) new (js_jobs st) (js_jobs st')"
    "distinct (map job_id new)" "set (map job_id new) \<inter> set (map job_id (js_jobs st)) = {}"
proof -
  obtain op r where "ev = (op, r)" by (cases ev)
  with assms have "store_step h st (op, r) st'" by simp
  then show thesis
  proof (cases rule: store_step_cases)
    case (failed e)
    then show ?thesis using that [of "[]"] evolves_refl [of "job_step True"] by simp
  next
    case (committed a)
    then show ?thesis
      using that [of "created h op"] exec_op_evolves [OF committed(1)] created_fresh [OF committed(5)]
      by simp
  qed
qed

lemma store_step_good:
  assumes step: "store_step h st ev st'" and good: "store_good st"
  shows "store_good st'"
proof -
  obtain new where new: "evolves (job_step True) new (js_jobs st) (js_jobs st')"
    "distinct (map job_id new)" "set (map job_id new) \<inter> set (map job_id (js_jobs st)) = {}"
    using store_step_evolves [OF step] .
  have ids: "distinct (map job_id (js_jobs st'))"
    unfolding evolves_ids [OF new(1)] distinct_append using new(2,3) good by (simp add: store_good_def)
  obtain op r where "ev = (op, r)" by (cases ev)
  with step have "store_step h st (op, r) st'" by simp
  then have "js_disk st' = js_jobs st'"
    by (cases rule: store_step_cases) (use good in \<open>auto simp: store_good_def\<close>)
  with ids show ?thesis by (simp add: store_good_def)
qed

lemma store_step_mem:
  assumes "store_step h st ev st'" and "j \<in> set (js_jobs st)"
  shows "\<exists>u \<in> set (js_jobs st'). job_step True j u"
  using store_step_evolves [OF assms(1)] evolves_mem [OF _ assms(2)] by metis

lemma distinct_ids_same:
  "distinct (map job_id jobs) \<Longrightarrow> j \<in> set jobs \<Longrightarrow> j' \<in> set jobs \<Longrightarrow> job_id j = job_id j' \<Longrightarrow> j = j'"
  by (metis distinct_map inj_onD)

subsection \<open>Dispatch\<close>

fun dispatches :: "string \<Rightarrow> scope \<Rightarrow> store_event \<Rightarrow> bool" where
  "dispatches i sc (OpDecide i' sc' rq d now, Inr (RDecision (Some res))) \<longleftrightarrow> i' = i \<and> sc' = sc \<and> dr_dispatch res"
| "dispatches i sc _ \<longleftrightarrow> False"

definition approval_decided :: "string \<Rightarrow> scope \<Rightarrow> job_store \<Rightarrow> bool" where
  "approval_decided i sc st \<longleftrightarrow> (\<exists>j \<in> set (js_jobs st). job_id j = i \<and> matches_scope j sc
     \<and> (\<exists>a. job_approval j = Some a \<and> ap_state a \<noteq> ApPending))"

lemma approval_decided_step:
  assumes "store_step h st ev st'" and "approval_decided i sc st"
  shows "approval_decided i sc st'"
proof -
  obtain j a where j: "j \<in> set (js_jobs st)" "job_id j = i" "matches_scope j sc"
    "job_approval j = Some a" "ap_state a \<noteq> ApPending"
    using assms(2) by (auto simp: approval_decided_def)
  obtain u where u: "u \<in> set (js_jobs st')" "job_step True j u"
    using store_step_mem [OF assms(1) j(1)] by blast
  then have "job_id u = i" "matches_scope u sc" "approval_kept (Some a) (job_approval u)"
    using j job_extends_matches(1) [of j u sc] by (auto simp: job_step_def same_ids_def job_extends_def)
  with u(1) j(5) show ?thesis
    unfolding approval_decided_def by (cases "job_approval u") auto
qed

lemma decide_job_dispatch:
  assumes "decide_job sha j sc rq d now = Inr res" and "dr_dispatch res"
  shows "\<exists>a b. job_approval j = Some a \<and> ap_state a = ApPending \<and> approval_ok sha a j
     \<and> matches_request j sc rq a \<and> d = Accept \<and> now < ap_deadline a
     \<and> job_approval (dr_job res) = Some b \<and> ap_state b = ApAccepted \<and> job_status (dr_job res) = JQueued"
proof -
  obtain t where t: "transition_approval sha j sc rq d now = Inr t"
    using assms by (auto simp: decide_job_def split: sum.splits)
  let ?u = "apply_patch (tr_patch t @ (if tr_replayed t then [] else [PUpdated (Some now)])) j"
  obtain v where v: "read_approval sha (job_approval ?u) ?u = Inr v"
    using assms t by (auto simp: decide_job_def Let_def split: sum.splits)
  have res: "dr_job res = ?u" "dr_dispatch res = tr_dispatch t"
    using assms t v read_approval_id [OF v] by (auto simp: decide_job_def Let_def)
  from t show ?thesis
    by (cases rule: transition_cases) (use assms(2) res in auto)
qed

lemma dispatch_step:
  assumes "store_step h st ev st'" and "store_good st" and "dispatches i sc ev"
  shows "\<not> approval_decided i sc st \<and> approval_decided i sc st'"
proof -
  obtain rq d now res where ev: "ev = (OpDecide i sc rq d now, Inr (RDecision (Some res)))"
    and disp: "dr_dispatch res"
    using assms(3) by (cases "(i, sc, ev)" rule: dispatches.cases) auto
  from assms(1) [unfolded ev]
  have ex: "exec_op h (OpDecide i sc rq d now) (js_jobs st) = Inr (js_jobs st', RDecision (Some res))"
    by (cases rule: store_step_cases) auto
  then obtain k where k: "scoped_index i sc (js_jobs st) = Some k"
    by (auto simp: decide_approval_def split: option.splits)
  with ex have dec: "decide_job (h_sha h) (js_jobs st ! k) sc rq d now = Inr res"
    and jobs': "js_jobs st' = (js_jobs st)[k := dr_job res]"
    by (auto simp: decide_approval_def split: sum.splits)
  note k' = scoped_index_Some [OF k]
  obtain a b where a: "job_approval (js_jobs st ! k) = Some a" "ap_state a = ApPending"
    and b: "job_approval (dr_job res) = Some b" "ap_state b = ApAccepted"
    using decide_job_dispatch [OF dec disp] by blast
  have "j = js_jobs st ! k" if "j \<in> set (js_jobs st)" "job_id j = i" for j
    using distinct_ids_same [of "js_jobs st" j "js_jobs st ! k"] assms(2) that k'
    by (auto simp: store_good_def)
  then have "\<not> approval_decided i sc st" using a by (auto simp: approval_decided_def)
  moreover have "approval_decided i sc st'"
    unfolding approval_decided_def jobs'
    using k' b decide_job_extends [OF dec] job_extends_matches(1) [of "js_jobs st ! k" "dr_job res" sc]
    by (intro bexI [of _ "dr_job res"]) (auto simp: set_update_memI)
  ultimately show ?thesis by blast
qed

interpretation dispatch_once: one_shot "store_step h" store_good "dispatches i sc" "approval_decided i sc"
  for h i sc
proof unfold_locales
  fix st ev st'
  assume step: "store_step h st ev st'" and good: "store_good st"
  show "store_good st'" using store_step_good [OF step good] .
  show "approval_decided i sc st \<Longrightarrow> approval_decided i sc st'" using approval_decided_step [OF step] .
  show "dispatches i sc ev \<Longrightarrow> \<not> approval_decided i sc st \<and> approval_decided i sc st'"
    using dispatch_step [OF step good] .
qed

subsection \<open>Sending\<close>

fun sends :: "string \<Rightarrow> principal \<Rightarrow> store_event \<Rightarrow> bool" where
  "sends i p (OpClaim i' p' operation rvn now, Inr (RClaim (Some c))) \<longleftrightarrow> i' = i \<and> p' = p \<and> cl_send c"
| "sends i p _ \<longleftrightarrow> False"

definition publication_sent :: "string \<Rightarrow> principal \<Rightarrow> job_store \<Rightarrow> bool" where
  "publication_sent i p st \<longleftrightarrow> (\<exists>j \<in> set (js_jobs st). job_id j = i \<and> matches_principal j p
     \<and> 2 \<le> pub_rank (job_publication j))"

lemma publication_sent_step:
  assumes "store_step h st ev st'" and "publication_sent i p st"
  shows "publication_sent i p st'"
proof -
  obtain j where j: "j \<in> set (js_jobs st)" "job_id j = i" "matches_principal j p"
    "2 \<le> pub_rank (job_publication j)"
    using assms(2) by (auto simp: publication_sent_def)
  obtain u where u: "u \<in> set (js_jobs st')" "job_step True j u"
    using store_step_mem [OF assms(1) j(1)] by blast
  then have "job_id u = i" "matches_principal u p" "2 \<le> pub_rank (job_publication u)"
    using j job_extends_matches(2) [of j u p] by (auto simp: job_step_def same_ids_def job_extends_def)
  with u(1) show ?thesis unfolding publication_sent_def by blast
qed

lemma mutate_publication_Some:
  assumes "mutate_publication url_ok i p reducer jobs = Inr (jobs', Some v)"
  obtains k q where "k < length jobs" "job_id (jobs ! k) = i" "matches_principal (jobs ! k) p"
    "reducer (jobs ! k) = Inr (q, v)" "jobs' = jobs[k := (jobs ! k)\<lparr>job_publication := Some q\<rparr>]"
proof -
  obtain k where k: "find_index (\<lambda>j. job_id j = i \<and> matches_principal j p) jobs = Some k"
    using assms by (auto simp: mutate_publication_def split: option.splits)
  with assms obtain q where "reducer (jobs ! k) = Inr (q, v)"
      "jobs' = jobs[k := (jobs ! k)\<lparr>job_publication := Some q\<rparr>]"
    by (auto simp: mutate_publication_def Let_def split: sum.splits option.splits dest!: read_publication_id)
  with find_index_Some [OF k] that show thesis by blast
qed

lemma send_step:
  assumes "store_step h st ev st'" and "store_good st" and "sends i p ev"
  shows "\<not> publication_sent i p st \<and> publication_sent i p st'"
proof -
  obtain operation rvn now c where ev: "ev = (OpClaim i p operation rvn now, Inr (RClaim (Some c)))"
    and snd_c: "cl_send c"
    using assms(3) by (cases "(i, p, ev)" rule: sends.cases) auto
  let ?red = "claim_reducer (h_digests h) (h_url h) p operation rvn now"
  from assms(1) [unfolded ev]
  have "exec_op h (OpClaim i p operation rvn now) (js_jobs st) = Inr (js_jobs st', RClaim (Some c))"
    by (cases rule: store_step_cases) auto
  then have "mutate_publication (h_url h) i p ?red (js_jobs st) = Inr (js_jobs st', Some c)"
    by (auto split: if_splits)
  then obtain k q where k: "k < length (js_jobs st)" "job_id (js_jobs st ! k) = i"
      "matches_principal (js_jobs st ! k) p" and red: "?red (js_jobs st ! k) = Inr (q, c)"
    and jobs': "js_jobs st' = (js_jobs st)[k := (js_jobs st ! k)\<lparr>job_publication := Some q\<rparr>]"
    by (rule mutate_publication_Some)
  from red snd_c have rank: "pub_rank (job_publication (js_jobs st ! k)) = 1" "pub_rank (Some q) = 2"
    by (cases rule: claim_reducer_cases; simp)+
  have "j = js_jobs st ! k" if "j \<in> set (js_jobs st)" "job_id j = i" for j
    using distinct_ids_same [of "js_jobs st" j "js_jobs st ! k"] assms(2) that k
    by (auto simp: store_good_def)
  then have "\<not> publication_sent i p st" using rank by (auto simp: publication_sent_def)
  moreover have "publication_sent i p st'"
    unfolding publication_sent_def jobs' using k rank
    by (intro bexI [of _ "(js_jobs st ! k)\<lparr>job_publication := Some q\<rparr>"])
      (auto simp: set_update_memI matches_principal_def)
  ultimately show ?thesis by blast
qed

interpretation send_once: one_shot "store_step h" store_good "sends i p" "publication_sent i p"
  for h i p
proof unfold_locales
  fix st ev st'
  assume step: "store_step h st ev st'" and good: "store_good st"
  show "store_good st'" using store_step_good [OF step good] .
  show "publication_sent i p st \<Longrightarrow> publication_sent i p st'" using publication_sent_step [OF step] .
  show "sends i p ev \<Longrightarrow> \<not> publication_sent i p st \<and> publication_sent i p st'"
    using send_step [OF step good] .
qed

section \<open>Immutability over histories\<close>

lemma history_extends:
  assumes "steps_of (store_step h) st evs st'" and "j \<in> set (js_jobs st)"
  shows "\<exists>u \<in> set (js_jobs st'). job_extends j u \<and> same_ids j u"
  using assms
proof (induction arbitrary: j rule: steps_of.induct)
  case (steps_nil s)
  then show ?case by (intro bexI [of _ j]) (auto simp: same_ids_def)
next
  case (steps_cons st ev st1 evs st2)
  obtain u where u: "u \<in> set (js_jobs st1)" "job_extends j u" "same_ids j u"
    using store_step_mem [OF steps_cons.hyps(1) steps_cons.prems] by (auto simp: job_step_def)
  obtain w where "w \<in> set (js_jobs st2)" "job_extends u w" "same_ids u w"
    using steps_cons.IH [OF u(1)] by blast
  with u show ?case by (auto simp: same_ids_def intro: job_extends_trans)
qed

section \<open>Request keys\<close>

definition owner_key :: "job \<Rightarrow> string option \<times> string \<times> string \<times> string option" where
  "owner_key j = (job_tenant j, job_requester j, job_conversation j, job_key j)"

definition scoped_key :: "string option \<times> string \<times> string \<times> string option \<Rightarrow> bool" where
  "scoped_key x \<longleftrightarrow> fst x \<noteq> None \<and> present (snd (snd (snd x)))"

definition keys_unique :: "job list \<Rightarrow> bool" where
  "keys_unique jobs \<longleftrightarrow> distinct (filter scoped_key (map owner_key jobs))"

lemma same_key_iff:
  "same_key sc k j \<longleftrightarrow> owner_key j = (Some (sc_tenant sc), sc_requester sc, sc_conversation sc, k)"
  by (auto simp: same_key_def matches_scope_def owner_key_def)

lemma step_owner_keys:
  "list_all2 (job_step True) jobs rest \<Longrightarrow> map owner_key rest = map owner_key jobs"
  by (induction rule: list_all2_induct)
    (auto simp: owner_key_def job_step_def same_ids_def job_extends_def)

lemma build_job_fields:
  assumes "build_job sha url_ok i new_id uuid now = Inr j"
  shows "job_id j = new_id" "matches_scope j (ci_scope i)" "job_hash j = (if present (ci_key i) then ci_hash i else None)"
    "job_key j = (if present (ci_key i) then ci_key i else None)"
    "job_status j = (if job_mode j = WorkspaceWrite then JAwaiting else JQueued)"
    "job_mode j = ci_mode i" "job_prompt j = ci_prompt i" "job_provider j = Some (ci_provider i)"
    "job_created j = now" "job_progress j = []" "job_publication j = None"
    "valid_idempotency_input (ci_key i) (ci_hash i)"
  using assms
  by (auto simp: build_job_def Let_def initial_job_def matches_scope_def split: if_splits option.splits sum.splits)

lemma insert_job_Inr:
  "insert_job i j jobs = Inr (jobs', a) \<longleftrightarrow> jobs' = j # jobs \<and> a = j
     \<and> (present (ci_key i) \<longrightarrow> (\<forall>c \<in> set jobs. \<not> same_key (ci_scope i) (ci_key i) c))"
  by (auto simp: insert_job_def find_None_iff split: option.splits if_splits dest: find_Some_mem)

lemma exec_op_keys_unique:
  assumes "exec_op h op jobs = Inr (jobs', r)" and "plain_op op" and "keys_unique jobs"
  shows "keys_unique jobs'"
proof -
  obtain rest where rest: "jobs' = created h op @ rest" "list_all2 (job_step True) jobs rest"
    using exec_op_evolves [OF assms(1)] assms(2) by (auto simp: evolves_def)
  note keys = step_owner_keys [OF rest(2)]
  show ?thesis
  proof (cases "\<exists>i new_id uuid now. op = OpCreate i new_id uuid now")
    case False
    then have "created h op = []" by (cases op) auto
    with rest keys assms(3) show ?thesis by (simp add: keys_unique_def)
  next
    case True
    then obtain i new_id uuid now where op: "op = OpCreate i new_id uuid now" by blast
    then obtain j where j: "build_job (h_sha h) (h_url h) i new_id uuid now = Inr j"
      and ins: "insert_job i j jobs = Inr (jobs', j)"
      using assms(1) by (auto simp: insert_job_Inr split: sum.splits)
    note f = build_job_fields [OF j]
    have "owner_key j \<notin> set (map owner_key jobs)" if "scoped_key (owner_key j)"
    proof -
      have "present (ci_key i)" using that f(4) by (auto simp: scoped_key_def owner_key_def split: if_splits)
      moreover have "same_key (ci_scope i) (ci_key i) j"
        using f(2,4) calculation by (simp add: same_key_def)
      ultimately show ?thesis using ins by (auto simp: insert_job_Inr same_key_iff)
    qed
    with assms(3) ins show ?thesis by (auto simp: insert_job_Inr keys_unique_def)
  qed
qed

section \<open>Isolation of owners\<close>

text \<open>The principal on whose behalf an operation runs; the recovery at start-up has none.\<close>

definition scope_principal :: "scope \<Rightarrow> principal" where
  "scope_principal sc = \<lparr>pr_requester = sc_requester sc, pr_tenant = sc_tenant sc\<rparr>"

fun op_principal :: "store_op \<Rightarrow> principal option" where
  "op_principal (OpCreate i new_id uuid now) = Some (scope_principal (ci_scope i))"
| "op_principal (OpDecide i sc rq d now) = Some (scope_principal sc)"
| "op_principal (OpUpdate i sc patch now) = Some (scope_principal sc)"
| "op_principal (OpProgress i sc m now) = Some (scope_principal sc)"
| "op_principal (OpTools i sc us now) = Some (scope_principal sc)"
| "op_principal (OpPreview i p uuid now) = Some p"
| "op_principal (OpClaim i p operation rvn now) = Some p"
| "op_principal (OpSettle i p operation c now) = Some p"
| "op_principal (OpRecover now) = None"

definition owned_by :: "principal \<Rightarrow> job list \<Rightarrow> job list" where
  "owned_by p jobs = filter (\<lambda>j. matches_principal j p) jobs"

lemma matches_scope_owner: "matches_scope j sc \<Longrightarrow> matches_principal j p \<Longrightarrow> p = scope_principal sc"
  by (auto simp: matches_scope_def matches_principal_def scope_principal_def)

lemma matches_principal_unique: "matches_principal j p \<Longrightarrow> matches_principal j q \<Longrightarrow> p = q"
  by (auto simp: matches_principal_def)

text \<open>An operation leaves alone, replaces one job of its principal, or puts one in front.\<close>

lemma owned_by_update:
  assumes "matches_principal (jobs ! k) q" and "job_extends (jobs ! k) u" and "p \<noteq> q"
  shows "owned_by p (jobs[k := u]) = owned_by p jobs"
proof -
  have "matches_principal u q" using assms(1) job_extends_matches(2) [OF assms(2)] by blast
  then have "\<not> matches_principal (jobs ! k) p" "\<not> matches_principal u p"
    using assms(1,3) matches_principal_unique by blast+
  then show ?thesis unfolding owned_by_def by (rule filter_update_unseen)
qed

lemma scoped_isolated:
  assumes "scoped_index i sc jobs = Some k" and "job_extends (jobs ! k) u" and "p \<noteq> scope_principal sc"
  shows "owned_by p (jobs[k := u]) = owned_by p jobs"
  using owned_by_update [OF _ assms(2,3)] scoped_index_Some [OF assms(1)]
  by (simp add: matches_scope_def matches_principal_def scope_principal_def)

lemma publication_isolated:
  assumes "mutate_publication url_ok i q reducer jobs = Inr (jobs', v)" and "p \<noteq> q"
  shows "owned_by p jobs' = owned_by p jobs"
proof (cases v)
  case None
  with assms(1) show ?thesis
    by (auto simp: mutate_publication_def Let_def split: option.splits sum.splits)
next
  case (Some w)
  from assms(1) [unfolded this] obtain k r where k: "matches_principal (jobs ! k) q"
    and jobs': "jobs' = jobs[k := (jobs ! k)\<lparr>job_publication := Some r\<rparr>]"
    by (rule mutate_publication_Some)
  have "\<not> matches_principal (jobs ! k) p" "\<not> matches_principal ((jobs ! k)\<lparr>job_publication := Some r\<rparr>) p"
    using k assms(2) by (auto simp: matches_principal_def)
  then show ?thesis unfolding owned_by_def jobs' by (rule filter_update_unseen)
qed

lemma exec_op_isolated:
  assumes "exec_op h op jobs = Inr (jobs', r)" and "op_principal op = Some q" and "p \<noteq> q"
  shows "owned_by p jobs' = owned_by p jobs"
proof (cases op)
  case (OpCreate i new_id uuid now)
  then obtain j where j: "build_job (h_sha h) (h_url h) i new_id uuid now = Inr j" "jobs' = j # jobs"
    using assms(1) by (auto simp: insert_job_Inr split: sum.splits)
  then have "\<not> matches_principal j p"
    using build_job_fields(2) [OF j(1)] matches_scope_owner assms(2,3) OpCreate by auto
  with j show ?thesis by (simp add: owned_by_def)
next
  case (OpDecide i sc rq d now)
  show ?thesis
  proof (cases "scoped_index i sc jobs")
    case (Some k)
    then obtain res where "decide_job (h_sha h) (jobs ! k) sc rq d now = Inr res" "jobs' = jobs[k := dr_job res]"
      using assms(1) OpDecide by (auto simp: decide_approval_def split: sum.splits)
    then show ?thesis using scoped_isolated [OF Some] decide_job_extends(1) assms(2,3) OpDecide by simp
  qed (use assms OpDecide in \<open>auto simp: decide_approval_def\<close>)
next
  case (OpUpdate i sc patch now)
  show ?thesis
  proof (cases "scoped_index i sc jobs")
    case (Some k)
    then obtain u where "update_job (h_sha h) (jobs ! k) patch now = Inr u" "jobs' = jobs[k := u]"
      using assms(1) OpUpdate by (auto simp: update_jobs_def split: sum.splits)
    then show ?thesis using scoped_isolated [OF Some] update_job_extends assms(2,3) OpUpdate by simp
  qed (use assms OpUpdate in \<open>auto simp: update_jobs_def\<close>)
next
  case (OpProgress i sc m now)
  show ?thesis
  proof (cases "scoped_index i sc jobs")
    case (Some k)
    have "job_extends j (j\<lparr>job_progress := ps, job_updated := t\<rparr>)" for j ps t
      by (simp add: job_extends_def)
    then show ?thesis using assms OpProgress Some scoped_isolated [OF Some]
      by (auto simp: append_progress_def Let_def split: if_splits)
  qed (use assms OpProgress in \<open>auto simp: append_progress_def\<close>)
next
  case (OpTools i sc us now)
  show ?thesis
  proof (cases "scoped_index i sc jobs")
    case (Some k)
    have "job_extends j (j\<lparr>job_tools := ts, job_updated := t\<rparr>)" for j ts t
      by (simp add: job_extends_def)
    then show ?thesis using assms OpTools Some scoped_isolated [OF Some]
      by (auto simp: append_tool_usage_def Let_def split: if_splits)
  qed (use assms OpTools in \<open>auto simp: append_tool_usage_def\<close>)
qed (use assms in \<open>auto split: if_splits dest: publication_isolated\<close>)

section \<open>Validity of stored jobs\<close>

text \<open>What the loader of the store demands of approvals and of completed jobs.\<close>

definition job_valid :: "digest_fn \<Rightarrow> job \<Rightarrow> bool" where
  "job_valid sha j \<longleftrightarrow> (\<forall>a \<in> set_option (job_approval j). approval_ok sha a j)
     \<and> (job_status j = JCompleted \<longrightarrow> (\<exists>r. job_result j = Some r \<and> \<not> blank r))"

fun good_random :: "host \<Rightarrow> store_op \<Rightarrow> bool" where
  "good_random h (OpCreate i new_id uuid now) \<longleftrightarrow> uuid_text uuid \<and>
     (\<forall>j. build_job (h_sha h) (h_url h) i new_id uuid now = Inr j \<longrightarrow> hex_text 64 (revision (h_sha h) j))"
| "good_random h _ \<longleftrightarrow> True"

lemma build_job_valid:
  assumes "build_job sha url_ok i new_id uuid now = Inr j" and "uuid_text uuid" and "hex_text 64 (revision sha j)"
  shows "job_valid sha j"
proof -
  obtain sel ap orig where j: "j = (initial_job i new_id now sel)\<lparr>job_approval := ap, job_origin := orig\<rparr>"
    and ap: "(if job_mode (initial_job i new_id now sel) = WorkspaceWrite
        then map_sum id Some (create_approval sha uuid (initial_job i new_id now sel) approval_ttl)
        else Inr None) = Inr ap"
    using assms(1) by (auto simp: build_job_def Let_def split: if_split_asm option.splits sum.splits)
  let ?j0 = "initial_job i new_id now sel"
  have same: "job_requester j = job_requester ?j0" "job_tenant j = job_tenant ?j0"
    "revision_input j = revision_input ?j0" "job_created j = job_created ?j0" "job_status j = job_status ?j0"
    using j by (simp_all add: revision_input_def)
  have "approval_ok sha a j" if "ap = Some a" for a
  proof -
    have "create_approval sha uuid ?j0 approval_ttl = Inr a"
      using ap that by (cases "create_approval sha uuid ?j0 approval_ttl") (auto split: if_split_asm)
    moreover have "hex_text 64 (revision sha ?j0)" using assms(3) same(3) by (simp add: revision_def)
    ultimately have "approval_ok sha a ?j0" using create_approval_ok assms(2) by blast
    then show ?thesis using approval_ok_cong [OF same] by simp
  qed
  moreover have "job_status j \<noteq> JCompleted" using j by (simp add: initial_job_def)
  ultimately show ?thesis using j by (auto simp: job_valid_def)
qed

lemma decide_job_valid:
  assumes "decide_job sha j sc rq d now = Inr res" and "job_valid sha j"
  shows "job_valid sha (dr_job res)"
proof -
  obtain t where t: "transition_approval sha j sc rq d now = Inr t"
    using assms by (auto simp: decide_job_def split: sum.splits)
  let ?u = "apply_patch (tr_patch t @ (if tr_replayed t then [] else [PUpdated (Some now)])) j"
  obtain v where v: "read_approval sha (job_approval ?u) ?u = Inr v"
    using assms t by (auto simp: decide_job_def Let_def split: sum.splits)
  have res: "dr_job res = ?u"
    using assms t v read_approval_id [OF v] by (auto simp: decide_job_def Let_def)
  have ap: "\<forall>a \<in> set_option (job_approval ?u). approval_ok sha a ?u"
    using v by (auto simp: read_approval_def split: if_split_asm option.splits)
  have "job_status ?u = JCompleted \<Longrightarrow> \<exists>r. job_result ?u = Some r \<and> \<not> blank r"
    using t by (cases rule: transition_cases) (use assms(2) in \<open>auto simp: job_valid_def\<close>)
  with ap show ?thesis by (simp add: job_valid_def res)
qed

lemma settled_valid:
  assumes "(if job_approval j = None then Inr None else settle_approval sha w) = Inr (Some a)"
  shows "approval_ok sha a (w\<lparr>job_approval := v\<rparr>)"
proof -
  have "approval_ok sha a w" using assms settle_approval_ok by (auto split: if_split_asm)
  then show ?thesis by (subst approval_ok_cong [of _ w]) (auto simp: revision_input_def)
qed

lemma update_job_valid:
  assumes "update_job sha j patch now = Inr u"
  shows "job_valid sha u"
  using assms
proof (cases rule: update_job_Inr)
  case (1 v)
  have "approval_ok sha a u" if "v = Some a" for a
    using settled_valid [OF 1(4) [unfolded that], of v] 1(5) that by simp
  then show ?thesis
    using update_refusal_None(11) [OF 1(6)] 1(5) by (auto simp: job_valid_def)
qed

lemma recover_job_valid:
  assumes "recover_job sha now j = Inr u" and "job_valid sha j"
  shows "job_valid sha u"
proof (cases "job_status j \<noteq> JQueued \<and> job_status j \<noteq> JRunning")
  case True
  then show ?thesis using assms by (simp add: recover_job_def)
next
  case False
  let ?r = "j\<lparr>job_status := JFailed, job_error := Some interrupted_text,
                     job_finished := Some now, job_updated := Some now\<rparr>"
  obtain v where v: "(if job_approval j = None then Inr None else settle_approval sha ?r) = Inr v"
    and u: "u = ?r\<lparr>job_approval := v\<rparr>"
    using assms False by (auto simp: recover_job_def Let_def split: if_split_asm sum.splits)
  have "approval_ok sha a u" if "v = Some a" for a
    using settled_valid [OF v [unfolded that], of v] u that by simp
  then show ?thesis using u by (auto simp: job_valid_def)
qed

lemma job_valid_cong:
  assumes "job_valid sha j" "job_approval u = job_approval j" "job_requester u = job_requester j"
    "job_tenant u = job_tenant j" "revision_input u = revision_input j" "job_created u = job_created j"
    "job_status u = job_status j" "job_result u = job_result j"
  shows "job_valid sha u"
  using assms approval_ok_cong [OF assms(3-7)] by (auto simp: job_valid_def)

lemma valid_update:
  assumes "\<forall>j \<in> set jobs. job_valid sha j" and "k < length jobs \<Longrightarrow> job_valid sha u"
  shows "\<forall>j \<in> set (jobs[k := u]). job_valid sha j"
proof (cases "k < length jobs")
  case True
  then show ?thesis using assms set_update_subset_insert [of jobs k u] by blast
next
  case False
  then show ?thesis using assms(1) by (simp add: list_update_beyond)
qed

lemma publication_valid:
  assumes "mutate_publication url_ok i q reducer jobs = Inr (jobs', v)" and "\<forall>j \<in> set jobs. job_valid sha j"
  shows "\<forall>j \<in> set jobs'. job_valid sha j"
proof (cases v)
  case None
  with assms show ?thesis
    by (auto simp: mutate_publication_def Let_def split: option.splits sum.splits)
next
  case (Some w)
  from assms(1) [unfolded this] show ?thesis
  proof (rule mutate_publication_Some)
    fix k r
    assume k: "k < length jobs" and jobs': "jobs' = jobs[k := (jobs ! k)\<lparr>job_publication := Some r\<rparr>]"
    have "job_valid sha ((jobs ! k)\<lparr>job_publication := Some r\<rparr>)"
      by (rule job_valid_cong [of _ "jobs ! k"]) (use k assms(2) in \<open>auto simp: revision_input_def\<close>)
    then show ?thesis using valid_update [OF assms(2)] jobs' by blast
  qed
qed

lemma map_throw_mem: "map_throw f xs = Inr ys \<Longrightarrow> y \<in> set ys \<Longrightarrow> \<exists>x \<in> set xs. f x = Inr y"
  by (induction xs arbitrary: ys) (auto split: sum.splits)

lemma exec_recover:
  "exec_op h (OpRecover now) jobs = Inr (jobs', r) \<Longrightarrow> map_throw (recover_job (h_sha h) now) jobs = Inr jobs'"
  by (cases "map_throw (recover_job (h_sha h) now) jobs") (auto simp: recover_interrupted_def)

lemma exec_op_valid:
  assumes "exec_op h op jobs = Inr (jobs', r)" and "\<forall>j \<in> set jobs. job_valid (h_sha h) j" and "good_random h op"
  shows "\<forall>j \<in> set jobs'. job_valid (h_sha h) j"
proof (cases op)
  case (OpCreate i new_id uuid now)
  then show ?thesis using assms by (auto simp: insert_job_Inr split: sum.splits intro: build_job_valid)
next
  case (OpDecide i sc rq d now)
  show ?thesis
  proof (cases "scoped_index i sc jobs")
    case (Some k)
    then obtain res where res: "decide_job (h_sha h) (jobs ! k) sc rq d now = Inr res" "jobs' = jobs[k := dr_job res]"
      using assms(1) OpDecide by (auto simp: decide_approval_def split: sum.splits)
    have "job_valid (h_sha h) (dr_job res)"
      using decide_job_valid [OF res(1)] assms(2) scoped_index_Some [OF Some] by simp
    then show ?thesis unfolding res(2) using valid_update [OF assms(2)] by blast
  qed (use assms OpDecide in \<open>auto simp: decide_approval_def\<close>)
next
  case (OpUpdate i sc patch now)
  show ?thesis
  proof (cases "scoped_index i sc jobs")
    case (Some k)
    then obtain u where u: "update_job (h_sha h) (jobs ! k) patch now = Inr u" "jobs' = jobs[k := u]"
      using assms(1) OpUpdate by (auto simp: update_jobs_def split: sum.splits)
    show ?thesis unfolding u(2) using valid_update [OF assms(2)] update_job_valid [OF u(1)] by blast
  qed (use assms OpUpdate in \<open>auto simp: update_jobs_def\<close>)
next
  case (OpProgress i sc m now)
  show ?thesis
  proof (cases "scoped_index i sc jobs")
    case (Some k)
    have "job_valid (h_sha h) ((jobs ! k)\<lparr>job_progress := ps, job_updated := t\<rparr>)" for ps t
      by (rule job_valid_cong [of _ "jobs ! k"])
        (use assms(2) scoped_index_Some [OF Some] in \<open>auto simp: revision_input_def\<close>)
    moreover have "jobs' = jobs \<or> (\<exists>ps t. jobs' = jobs[k := (jobs ! k)\<lparr>job_progress := ps, job_updated := t\<rparr>])"
      using assms(1) OpProgress Some by (auto simp: append_progress_def Let_def split: if_splits)
    ultimately show ?thesis using valid_update [OF assms(2)] assms(2) by metis
  qed (use assms OpProgress in \<open>auto simp: append_progress_def\<close>)
next
  case (OpTools i sc us now)
  show ?thesis
  proof (cases "scoped_index i sc jobs")
    case (Some k)
    have "job_valid (h_sha h) ((jobs ! k)\<lparr>job_tools := ts, job_updated := t\<rparr>)" for ts t
      by (rule job_valid_cong [of _ "jobs ! k"])
        (use assms(2) scoped_index_Some [OF Some] in \<open>auto simp: revision_input_def\<close>)
    moreover have "jobs' = jobs \<or> (\<exists>ts t. jobs' = jobs[k := (jobs ! k)\<lparr>job_tools := ts, job_updated := t\<rparr>])"
      using assms(1) OpTools Some by (auto simp: append_tool_usage_def Let_def split: if_splits)
    ultimately show ?thesis using valid_update [OF assms(2)] assms(2) by metis
  qed (use assms OpTools in \<open>auto simp: append_tool_usage_def\<close>)
next
  case (OpRecover now)
  have m: "map_throw (recover_job (h_sha h) now) jobs = Inr jobs'"
    using assms(1) unfolding OpRecover by (rule exec_recover)
  show ?thesis
  proof
    fix u assume "u \<in> set jobs'"
    from map_throw_mem [OF m this] obtain j where "j \<in> set jobs" "recover_job (h_sha h) now j = Inr u" by blast
    then show "job_valid (h_sha h) u" using recover_job_valid assms(2) by blast
  qed
next
  case (OpPreview i p uuid now)
  with assms(1) obtain v where m: "mutate_publication (h_url h) i p
      (preview_reducer (h_digests h) (h_url h) p uuid now) jobs = Inr (jobs', v)"
    by (auto split: if_splits)
  show ?thesis by (rule publication_valid [OF m assms(2)])
next
  case (OpClaim i p operation rvn now)
  with assms(1) obtain v where m: "mutate_publication (h_url h) i p
      (claim_reducer (h_digests h) (h_url h) p operation rvn now) jobs = Inr (jobs', v)"
    by (auto split: if_splits)
  show ?thesis by (rule publication_valid [OF m assms(2)])
next
  case (OpSettle i p operation c now)
  with assms(1) obtain v where m: "mutate_publication (h_url h) i p
      (settle_reducer (h_url h) p operation c now) jobs = Inr (jobs', v)"
    by auto
  show ?thesis by (rule publication_valid [OF m assms(2)])
qed

lemma recovered_inactive:
  assumes "exec_op h (OpRecover now) jobs = Inr (jobs', r)" and "u \<in> set jobs'"
  shows "job_status u \<noteq> JQueued \<and> job_status u \<noteq> JRunning"
proof -
  from map_throw_mem [OF exec_recover [OF assms(1)] assms(2)]
  obtain j where "recover_job (h_sha h) now j = Inr u" by blast
  then show ?thesis by (auto simp: recover_job_def Let_def split: if_split_asm sum.splits)
qed

text \<open>Recovery never fails on valid jobs when the clock reads a time of the supported range that
  is not before any creation or decision.\<close>

lemma recover_job_succeeds:
  assumes "job_valid sha j" and "date_range now" and "job_created j \<le> now"
    and "\<forall>a \<in> set_option (job_approval j). \<forall>d \<in> set_option (ap_decided a). d \<le> now"
  shows "\<exists>u. recover_job sha now j = Inr u"
proof (cases "(job_status j \<noteq> JQueued \<and> job_status j \<noteq> JRunning) \<or> job_approval j = None")
  case True
  then show ?thesis by (auto simp: recover_job_def Let_def)
next
  case False
  let ?r = "j\<lparr>job_status := JFailed, job_error := Some interrupted_text,
                     job_finished := Some now, job_updated := Some now\<rparr>"
  obtain a where a: "job_approval j = Some a" using False by auto
  have "approval_ok sha a (?r\<lparr>job_status := job_status j\<rparr>)"
    using assms(1) a by (subst approval_ok_cong [of _ j]) (auto simp: job_valid_def revision_input_def)
  moreover have "\<not> terminal_status (job_status j)" using False by (auto simp: terminal_status_def)
  ultimately have "\<exists>b. settle_approval sha ?r = Inr (Some b)"
    using assms(2-4) a by (intro settle_approval_succeeds) (auto simp: terminal_status_def)
  then show ?thesis using False by (auto simp: recover_job_def Let_def)
qed

lemma map_throw_succeeds: "\<forall>x \<in> set xs. \<exists>y. f x = Inr y \<Longrightarrow> \<exists>ys. map_throw f xs = Inr ys"
  by (induction xs) auto

section \<open>Whole histories\<close>

lemma store_steps_valid:
  assumes "steps_of (store_step h) st evs st'" and "\<forall>ev \<in> set evs. good_random h (fst ev)"
    and "\<forall>j \<in> set (js_jobs st). job_valid (h_sha h) j"
  shows "\<forall>j \<in> set (js_jobs st'). job_valid (h_sha h) j"
proof (rule steps_of_invariant_on [OF assms(1,2), where I = "\<lambda>st. \<forall>j \<in> set (js_jobs st). job_valid (h_sha h) j"])
  show "\<forall>j \<in> set (js_jobs s'). job_valid (h_sha h) j"
    if "store_step h s ev s'" and "good_random h (fst ev)" and v: "\<forall>j \<in> set (js_jobs s). job_valid (h_sha h) j" for s ev s'
  proof -
    obtain op r where ev: "ev = (op, r)" by (cases ev)
    from that(1) [unfolded ev] show ?thesis
      by (cases rule: store_step_cases) (use v that(2) ev exec_op_valid in auto)
  qed
qed (use assms(3) in auto)

lemma store_steps_keys:
  assumes "steps_of (store_step h) st evs st'" and "keys_unique (js_jobs st)"
  shows "keys_unique (js_jobs st')"
proof (rule steps_of_invariant [OF assms(1), where I = "\<lambda>st. keys_unique (js_jobs st)"])
  show "keys_unique (js_jobs s')" if "store_step h s ev s'" and v: "keys_unique (js_jobs s)" for s ev s'
  proof -
    obtain op r where ev: "ev = (op, r)" by (cases ev)
    from that(1) [unfolded ev] show ?thesis
      by (cases rule: store_step_cases) (use v exec_op_keys_unique in auto)
  qed
qed (use assms(2) in auto)

lemma store_steps_isolated:
  assumes "steps_of (store_step h) st evs st'" and "\<forall>ev \<in> set evs. \<exists>q. op_principal (fst ev) = Some q \<and> q \<noteq> p"
  shows "owned_by p (js_jobs st') = owned_by p (js_jobs st)"
proof (rule steps_of_invariant_on [OF assms, where I = "\<lambda>s. owned_by p (js_jobs s) = owned_by p (js_jobs st)"])
  show "owned_by p (js_jobs s') = owned_by p (js_jobs st)"
    if "store_step h s ev s'" and "\<exists>q. op_principal (fst ev) = Some q \<and> q \<noteq> p"
      and v: "owned_by p (js_jobs s) = owned_by p (js_jobs st)" for s ev s'
  proof -
    obtain op r where ev: "ev = (op, r)" by (cases ev)
    from that(1) [unfolded ev] show ?thesis
      by (cases rule: store_step_cases) (use v that(2) ev exec_op_isolated in auto)
  qed
qed simp

lemma store_steps_good: "steps_of (store_step h) st evs st' \<Longrightarrow> store_good st \<Longrightarrow> store_good st'"
  by (rule dispatch_once.steps_good)

lemma keys_uniqueD:
  assumes "keys_unique jobs" and "i < length jobs" and "k < length jobs" and "present key"
    and "same_key sc key (jobs ! i)" and "same_key sc key (jobs ! k)"
  shows "i = k"
proof (rule ccontr)
  have pick: "False" if u: "keys_unique jobs" and ik: "a < b" "b < length jobs"
    and s: "same_key sc key (jobs ! a)" "same_key sc key (jobs ! b)" for a b
  proof -
    let ?f = "filter scoped_key \<circ> map owner_key"
    have "jobs = take b jobs @ jobs ! b # drop (Suc b) jobs" using ik(2) by (rule id_take_nth_drop)
    then have d: "distinct (?f (take b jobs) @ ?f (jobs ! b # drop (Suc b) jobs))"
      using u unfolding keys_unique_def by (metis comp_apply filter_append map_append)
    have m: "jobs ! a \<in> set (take b jobs)" using ik by (metis in_set_conv_nth length_take min.absorb4 nth_take)
    have "owner_key (jobs ! a) = owner_key (jobs ! b)" "scoped_key (owner_key (jobs ! b))"
      using s assms(4) by (auto simp: same_key_iff scoped_key_def)
    moreover from m have "owner_key (jobs ! a) \<in> owner_key ` set (take b jobs)" by simp
    ultimately show False using d by simp
  qed
  assume "i \<noteq> k"
  then consider "i < k" | "k < i" by linarith
  then show False by cases (use pick assms in blast)+
qed

lemma recover_job_shape:
  assumes "recover_job sha now j = Inr u"
  shows "if job_status j = JQueued \<or> job_status j = JRunning
    then job_status u = JFailed \<and> job_error u = Some interrupted_text \<and> job_extends j u else u = j"
  using assms recover_job_extends(1) [OF assms]
  by (auto simp: recover_job_def Let_def split: if_split_asm sum.splits)

end
