(* ===== verification/Admission.thy ===== *)
theory Admission
  imports JobModel "HOL-Library.AList" "HOL-Library.Multiset"
begin

text \<open>
  The admission controller (\<open>server/agent-admission-controller.ts\<close>): reservations of capacity
  with a limit per requester, per tenant and for the whole process, bound to jobs, kept in a
  journal. A JavaScript \<open>Map\<close> that is iterated is an association list in insertion order
  (\<open>AList.update\<close> keeps the place of a key, as \<open>Map.set\<close> does); the map from jobs to tokens is
  only looked up and is a HOL map. Every public method first awaits the load of the journal; the
  operations below start from a loaded controller.
\<close>

datatype dimension = DimGlobal | DimTenant | DimRequester | DimClosing
datatype rejection_code = CapacityExceeded | AdmissionClosed
datatype phase = Reserved | Bound | TerminalPending | Unresolved

record rejection =
  rj_code :: rejection_code
  rj_dimension :: dimension
  rj_limit :: nat
  rj_retryable :: bool

record adm_scope =
  as_tenant :: string
  as_requester :: string

record reservation =
  rs_scope :: adm_scope
  rs_job :: "string option"
  rs_phase :: phase
  rs_attempts :: int
  rs_failure :: "string option"
  rs_retry :: "time option"

record adm_state =
  ad_res :: "(string \<times> reservation) list"
  ad_jobs :: "string \<rightharpoonup> string"
  ad_closing :: bool

record limits =
  lm_global :: nat
  lm_tenant :: nat
  lm_requester :: nat

datatype adm_error = LeaseInactive | LeaseBound | JobLeaseInactive | JournalWriteFailed | LimitsInvalid

section \<open>Configuration\<close>

definition assert_limit :: "int \<Rightarrow> int \<Rightarrow> bool" where
  "assert_limit v maximum \<longleftrightarrow> safe_integer v \<and> 0 < v \<and> v \<le> maximum"

definition make_limits :: "int \<Rightarrow> int \<Rightarrow> int \<Rightarrow> int option \<Rightarrow> adm_error + limits" where
  "make_limits g t r retry =
     (if \<not> assert_limit g 64 \<or> \<not> assert_limit t 32 \<or> \<not> assert_limit r 16
         \<or> r > t \<or> t > g
         \<or> (case retry of None \<Rightarrow> False | Some ms \<Rightarrow> \<not> safe_integer ms \<or> ms \<le> 0 \<or> 60000 < ms)
      then Inl LimitsInvalid
      else Inr \<lparr>lm_global = nat g, lm_tenant = nat t, lm_requester = nat r\<rparr>)"

definition retry_lease :: "int option \<Rightarrow> int" where
  "retry_lease retry = (case retry of None \<Rightarrow> 30000 | Some ms \<Rightarrow> ms)"

section \<open>Operations on the reservations\<close>

definition count_res :: "(reservation \<Rightarrow> bool) \<Rightarrow> adm_state \<Rightarrow> nat" where
  "count_res P s = length (filter (\<lambda>(tok, r). P r) (ad_res s))"

definition capacity_rejection :: "dimension \<Rightarrow> nat \<Rightarrow> rejection" where
  "capacity_rejection d l = \<lparr>rj_code = CapacityExceeded, rj_dimension = d, rj_limit = l, rj_retryable = True\<rparr>"

definition admission_token :: "string \<Rightarrow> string" where
  "admission_token uuid = ''admission-'' @ uuid"

definition recovered_token :: "string \<Rightarrow> string" where
  "recovered_token jid = ''recovered:'' @ jid"

definition try_acquire ::
  "limits \<Rightarrow> adm_scope \<Rightarrow> string \<Rightarrow> adm_state \<Rightarrow> adm_error + adm_state \<times> (rejection + string)" where
  "try_acquire lim sc uuid s =
     (if ad_closing s
      then Inr (s, Inl \<lparr>rj_code = AdmissionClosed, rj_dimension = DimClosing, rj_limit = 0, rj_retryable = False\<rparr>)
      else if lm_requester lim \<le> count_res (\<lambda>r. rs_scope r = sc) s
      then Inr (s, Inl (capacity_rejection DimRequester (lm_requester lim)))
      else if lm_tenant lim \<le> count_res (\<lambda>r. as_tenant (rs_scope r) = as_tenant sc) s
      then Inr (s, Inl (capacity_rejection DimTenant (lm_tenant lim)))
      else if lm_global lim \<le> length (ad_res s)
      then Inr (s, Inl (capacity_rejection DimGlobal (lm_global lim)))
      else Inr (s\<lparr>ad_res := AList.update (admission_token uuid)
                  \<lparr>rs_scope = sc, rs_job = None, rs_phase = Reserved, rs_attempts = 0,
                   rs_failure = None, rs_retry = None\<rparr> (ad_res s)\<rparr>,
                Inr (admission_token uuid)))"

definition bind_job :: "string \<Rightarrow> string \<Rightarrow> adm_state \<Rightarrow> adm_error + adm_state \<times> unit" where
  "bind_job tok jid s = (case map_of (ad_res s) tok of
       None \<Rightarrow> Inl LeaseInactive
     | Some r \<Rightarrow>
         if rs_job r = Some jid then Inr (s, ())
         else if present (rs_job r) \<or> ad_jobs s jid \<noteq> None then Inl LeaseBound
         else Inr (s\<lparr>ad_res := AList.update tok (r\<lparr>rs_job := Some jid, rs_phase := Bound\<rparr>) (ad_res s),
                     ad_jobs := (ad_jobs s)(jid \<mapsto> tok)\<rparr>, ()))"

definition mark_terminal_token :: "string \<Rightarrow> adm_state \<Rightarrow> adm_error + adm_state \<times> unit" where
  "mark_terminal_token tok s = (case map_of (ad_res s) tok of
       None \<Rightarrow> Inl LeaseInactive
     | Some r \<Rightarrow>
         if rs_phase r = Unresolved then Inr (s, ())
         else Inr (s\<lparr>ad_res := AList.update tok (r\<lparr>rs_phase := TerminalPending\<rparr>) (ad_res s)\<rparr>, ()))"

definition failure_char :: "char \<Rightarrow> bool" where
  "failure_char c \<longleftrightarrow> alnum_char c \<or> c \<in> set ''_.-''"

definition sanitize_failure :: "string \<Rightarrow> string" where
  "sanitize_failure v = (let n = take 120 (map (\<lambda>c. if failure_char c then c else CHR ''_'') v)
     in if n = [] then ''UNKNOWN_CLEANUP_FAILURE'' else n)"

definition mark_unresolved_token ::
  "string \<Rightarrow> string \<Rightarrow> int \<Rightarrow> time \<Rightarrow> adm_state \<Rightarrow> adm_error + adm_state \<times> unit" where
  "mark_unresolved_token tok failure retry now s = (case map_of (ad_res s) tok of
       None \<Rightarrow> Inl LeaseInactive
     | Some r \<Rightarrow>
         Inr (s\<lparr>ad_res := AList.update tok
                (r\<lparr>rs_phase := Unresolved, rs_failure := Some (sanitize_failure failure),
                   rs_attempts := rs_attempts r + 1, rs_retry := Some (now + retry)\<rparr>) (ad_res s)\<rparr>, ()))"

definition release_token :: "string \<Rightarrow> adm_state \<Rightarrow> adm_error + adm_state \<times> unit" where
  "release_token tok s = (case map_of (ad_res s) tok of
       None \<Rightarrow> Inr (s, ())
     | Some r \<Rightarrow>
         Inr (s\<lparr>ad_res := AList.delete tok (ad_res s),
                ad_jobs := (if present (rs_job r) \<and> ad_jobs s (the (rs_job r)) = Some tok
                            then (ad_jobs s)(the (rs_job r) := None) else ad_jobs s)\<rparr>, ()))"

definition close_admission :: "adm_state \<Rightarrow> adm_error + adm_state \<times> unit" where
  "close_admission s = Inr (s\<lparr>ad_closing := True\<rparr>, ())"

section \<open>Operations by job\<close>

text \<open>They look the token up before they enter the mutation queue.\<close>

definition token_of_job :: "string \<Rightarrow> adm_state \<Rightarrow> string option" where
  "token_of_job jid s = (case ad_jobs s jid of None \<Rightarrow> None | Some tok \<Rightarrow> if tok = [] then None else Some tok)"

definition mark_terminal_job :: "string \<Rightarrow> adm_state \<Rightarrow> adm_error + adm_state \<times> unit" where
  "mark_terminal_job jid s = (case token_of_job jid s of
       None \<Rightarrow> Inl JobLeaseInactive | Some tok \<Rightarrow> mark_terminal_token tok s)"

definition mark_unresolved_job ::
  "string \<Rightarrow> string \<Rightarrow> int \<Rightarrow> time \<Rightarrow> adm_state \<Rightarrow> adm_error + adm_state \<times> unit" where
  "mark_unresolved_job jid failure retry now s = (case token_of_job jid s of
       None \<Rightarrow> Inl JobLeaseInactive | Some tok \<Rightarrow> mark_unresolved_token tok failure retry now s)"

definition release_job :: "string \<Rightarrow> adm_state \<Rightarrow> adm_error + adm_state \<times> unit" where
  "release_job jid s = (case token_of_job jid s of
       None \<Rightarrow> Inr (s, ()) | Some tok \<Rightarrow> release_token tok s)"

definition recover_unresolved :: "string \<Rightarrow> adm_state \<Rightarrow> adm_error + adm_state \<times> unit" where
  "recover_unresolved jid s = (case token_of_job jid s of
       None \<Rightarrow> Inl JobLeaseInactive | Some tok \<Rightarrow> release_token tok s)"

definition requires_reconciliation :: "string \<Rightarrow> adm_state \<Rightarrow> bool" where
  "requires_reconciliation jid s = (case token_of_job jid s of None \<Rightarrow> False
     | Some tok \<Rightarrow> (case map_of (ad_res s) tok of None \<Rightarrow> False
         | Some r \<Rightarrow> rs_phase r = Unresolved \<or> rs_phase r = TerminalPending))"

definition snapshot_tenants :: "adm_state \<Rightarrow> string \<Rightarrow> nat" where
  "snapshot_tenants s t = count_res (\<lambda>r. as_tenant (rs_scope r) = t) s"

definition snapshot_requesters :: "adm_state \<Rightarrow> adm_scope \<Rightarrow> nat" where
  "snapshot_requesters s sc = count_res (\<lambda>r. rs_scope r = sc) s"

section \<open>Reconstruction after a restart\<close>

record adm_record =
  rc_id :: string
  rc_tenant :: string
  rc_requester :: string
  rc_status :: job_status

definition orphan_reservation :: "string set \<Rightarrow> int \<Rightarrow> time \<Rightarrow> reservation \<Rightarrow> reservation" where
  "orphan_reservation active retry now r =
     (if present (rs_job r) \<and> the (rs_job r) \<notin> active \<and> rs_phase r = Bound
      then r\<lparr>rs_phase := Unresolved, rs_failure := Some ''RESTART_RECONCILIATION_REQUIRED'',
             rs_attempts := rs_attempts r + 1, rs_retry := Some (now + retry)\<rparr>
      else r)"

definition recovered_reservation :: "adm_record \<Rightarrow> reservation" where
  "recovered_reservation rc =
     \<lparr>rs_scope = \<lparr>as_tenant = rc_tenant rc, as_requester = rc_requester rc\<rparr>, rs_job = Some (rc_id rc),
      rs_phase = Bound, rs_attempts = 0, rs_failure = None, rs_retry = None\<rparr>"

definition reconstruct_one :: "adm_record \<Rightarrow> adm_state \<Rightarrow> adm_state" where
  "reconstruct_one rc s =
     (if \<not> active_status (rc_status rc) \<or> rc_tenant rc = [] \<or> rc_requester rc = [] \<or> rc_id rc = [] then s
      else case (case token_of_job (rc_id rc) s of None \<Rightarrow> None
                 | Some tok \<Rightarrow> map_option (Pair tok) (map_of (ad_res s) tok)) of
        Some (tok, r) \<Rightarrow>
          s\<lparr>ad_res := AList.update tok
             (r\<lparr>rs_scope := \<lparr>as_tenant = rc_tenant rc, as_requester = rc_requester rc\<rparr>, rs_phase := Bound\<rparr>)
             (ad_res s)\<rparr>
      | None \<Rightarrow>
          s\<lparr>ad_res := AList.update (recovered_token (rc_id rc)) (recovered_reservation rc) (ad_res s),
            ad_jobs := (ad_jobs s)(rc_id rc \<mapsto> recovered_token (rc_id rc))\<rparr>)"

definition active_ids :: "adm_record list \<Rightarrow> string set" where
  "active_ids records = set (map rc_id (filter (\<lambda>rc. active_status (rc_status rc)) records))"

definition reconstruct ::
  "adm_record list \<Rightarrow> int \<Rightarrow> time \<Rightarrow> adm_state \<Rightarrow> adm_error + adm_state \<times> unit" where
  "reconstruct records retry now s =
     (let s1 = s\<lparr>ad_res := map (\<lambda>(tok, r). (tok, orphan_reservation (active_ids records) retry now r)) (ad_res s)\<rparr>
      in Inr (fold reconstruct_one records s1, ()))"

section \<open>The journal\<close>

datatype journal_phase = Live phase | Released

record journal_entry =
  je_token :: string
  je_scope :: adm_scope
  je_job :: "string option"
  je_phase :: journal_phase
  je_attempts :: int
  je_failure :: "string option"
  je_retry :: "time option"
  je_updated :: time

record journal =
  jn_closing :: bool
  jn_entries :: "journal_entry list"

definition nonempty :: "string option \<Rightarrow> string option" where
  "nonempty v = (if present v then v else None)"

definition live_entry :: "time \<Rightarrow> string \<times> reservation \<Rightarrow> journal_entry" where
  "live_entry now x = (case x of (tok, r) \<Rightarrow>
     \<lparr>je_token = tok, je_scope = rs_scope r, je_job = nonempty (rs_job r), je_phase = Live (rs_phase r),
      je_attempts = rs_attempts r, je_failure = nonempty (rs_failure r), je_retry = rs_retry r,
      je_updated = now\<rparr>)"

definition released_entry :: "time \<Rightarrow> string \<Rightarrow> journal_entry" where
  "released_entry now tok =
     \<lparr>je_token = tok, je_scope = \<lparr>as_tenant = ''released'', as_requester = ''released''\<rparr>, je_job = None,
      je_phase = Released, je_attempts = 0, je_failure = None, je_retry = None, je_updated = now\<rparr>"

definition persist_journal :: "time \<Rightarrow> string option \<Rightarrow> adm_state \<Rightarrow> journal" where
  "persist_journal now releasing s =
     (let entries = map (live_entry now) (ad_res s)
            @ (case releasing of None \<Rightarrow> [] | Some tok \<Rightarrow> if tok = [] then [] else [released_entry now tok]);
          released = filter (\<lambda>e. je_phase e = Released) entries;
          active = filter (\<lambda>e. je_phase e \<noteq> Released) entries
      in \<lparr>jn_closing = ad_closing s, jn_entries = last_n 2000 (active @ released)\<rparr>)"

definition load_entry :: "journal_entry \<Rightarrow> adm_state \<Rightarrow> adm_state" where
  "load_entry e s = (case je_phase e of
       Released \<Rightarrow> s
     | Live ph \<Rightarrow>
         s\<lparr>ad_res := AList.update (je_token e)
              \<lparr>rs_scope = je_scope e, rs_job = je_job e, rs_phase = ph, rs_attempts = je_attempts e,
               rs_failure = je_failure e, rs_retry = je_retry e\<rparr> (ad_res s),
           ad_jobs := (if present (je_job e) then (ad_jobs s)(the (je_job e) \<mapsto> je_token e) else ad_jobs s)\<rparr>)"

definition empty_admission :: adm_state where
  "empty_admission = \<lparr>ad_res = [], ad_jobs = Map.empty, ad_closing = False\<rparr>"

text \<open>\<open>loadDocument\<close> followed by the reopening of \<open>loadJournal\<close>: a new process takes over the
  reservations of its predecessor and admits again.\<close>

definition load_document :: "journal \<Rightarrow> adm_state" where
  "load_document d = fold load_entry (jn_entries d) (empty_admission\<lparr>ad_closing := jn_closing d\<rparr>)"

definition load_journal :: "journal option \<Rightarrow> adm_state" where
  "load_journal d = (case d of None \<Rightarrow> empty_admission
     | Some doc \<Rightarrow> (let s = load_document doc in if ad_closing s then s\<lparr>ad_closing := False\<rparr> else s))"

section \<open>The mutation queue\<close>

record admission =
  adm_live :: adm_state
  adm_saved :: adm_state
  adm_journal :: journal

text \<open>\<open>adm_saved\<close> is the state the journal on disk was written from.\<close>

definition adm_mutate ::
  "time \<Rightarrow> string option \<Rightarrow> bool \<Rightarrow> (adm_state \<Rightarrow> adm_error + adm_state \<times> 'a) \<Rightarrow> admission
     \<Rightarrow> admission \<times> (adm_error + 'a)" where
  "adm_mutate now releasing ok operation c =
     (case operation (adm_live c) of
        Inl e \<Rightarrow> (c, Inl e)
      | Inr (s, a) \<Rightarrow>
          if ok then (\<lparr>adm_live = s, adm_saved = s, adm_journal = persist_journal now releasing s\<rparr>, Inr a)
          else (c, Inl JournalWriteFailed))"

interpretation adm_tx: durable_mutation "adm_mutate now releasing" adm_live adm_saved
  for now :: time and releasing :: "string option"
  by unfold_locales (auto simp: adm_mutate_def)

section \<open>The budget of scopes\<close>

text \<open>The abstract contract: a multiset of scopes, one per reservation.\<close>

definition usage :: "adm_state \<Rightarrow> adm_scope multiset" where
  "usage s = mset (map (rs_scope \<circ> snd) (ad_res s))"

definition admits :: "limits \<Rightarrow> adm_scope \<Rightarrow> adm_scope multiset \<Rightarrow> bool" where
  "admits lim sc u \<longleftrightarrow> count u sc < lm_requester lim
     \<and> size (filter_mset (\<lambda>x. as_tenant x = as_tenant sc) u) < lm_tenant lim \<and> size u < lm_global lim"

definition within :: "limits \<Rightarrow> adm_scope multiset \<Rightarrow> bool" where
  "within lim u \<longleftrightarrow> size u \<le> lm_global lim
     \<and> (\<forall>t. size (filter_mset (\<lambda>x. as_tenant x = t) u) \<le> lm_tenant lim)
     \<and> (\<forall>sc. count u sc \<le> lm_requester lim)"

lemma within_mono: "v \<subseteq># u \<Longrightarrow> within lim u \<Longrightarrow> within lim v"
  unfolding within_def
  by (meson multiset_filter_mono mset_subset_eq_count order_trans size_mset_mono)

lemma within_add: "within lim u \<Longrightarrow> admits lim sc u \<Longrightarrow> within lim (add_mset sc u)"
  by (auto simp: within_def admits_def Suc_le_eq)

lemma count_res_tenant:
  "count_res (\<lambda>r. as_tenant (rs_scope r) = t) s = size (filter_mset (\<lambda>x. as_tenant x = t) (usage s))"
proof -
  have "length (filter (\<lambda>(tok, r). as_tenant (rs_scope r) = t) xs)
      = size (filter_mset (\<lambda>x. as_tenant x = t) (mset (map (rs_scope \<circ> snd) xs)))" for xs :: "(string \<times> reservation) list"
    by (induction xs) auto
  then show ?thesis by (simp add: count_res_def usage_def)
qed

lemma count_res_requester: "count_res (\<lambda>r. rs_scope r = sc) s = count (usage s) sc"
proof -
  have "length (filter (\<lambda>(tok, r). rs_scope r = sc) xs) = count (mset (map (rs_scope \<circ> snd) xs)) sc"
    for xs :: "(string \<times> reservation) list"
    by (induction xs) auto
  then show ?thesis by (simp add: count_res_def usage_def)
qed

lemma size_usage [simp]: "size (usage s) = length (ad_res s)"
  by (simp add: usage_def)

lemmas count_res_usage = count_res_tenant count_res_requester size_usage

lemma scopes_update_same:
  "map_of al k = Some r \<Longrightarrow> rs_scope v = rs_scope r
     \<Longrightarrow> map (rs_scope \<circ> snd) (AList.update k v al) = map (rs_scope \<circ> snd) al"
  by (induction al) auto

lemma update_new: "map_of al k = None \<Longrightarrow> AList.update k v al = al @ [(k, v)]"
  by (induction al) auto

lemma mset_delete:
  "distinct (map fst al) \<Longrightarrow> map_of al k = Some r
     \<Longrightarrow> mset (map (rs_scope \<circ> snd) al) = add_mset (rs_scope r) (mset (map (rs_scope \<circ> snd) (AList.delete k al)))"
proof (induction al)
  case (Cons p al)
  show ?case
  proof (cases "fst p = k")
    case True
    with Cons.prems have "AList.delete k (p # al) = al" by (auto simp: AList.delete_id)
    with True Cons.prems show ?thesis by auto
  qed (use Cons in auto)
qed simp

lemma usage_delete_sub: "mset (map (rs_scope \<circ> snd) (AList.delete k al)) \<subseteq># mset (map (rs_scope \<circ> snd) al)"
  by (induction al) (auto simp: subset_mset.le_iff_add)

section \<open>Reservations and jobs agree\<close>

text \<open>Tokens are unique, a job is bound to at most one reservation, and the lookup by job finds
  exactly the reservations that name it.\<close>

definition linked :: "(string \<rightharpoonup> reservation) \<Rightarrow> (string \<rightharpoonup> string) \<Rightarrow> bool" where
  "linked R J \<longleftrightarrow>
     (\<forall>jid tok. J jid = Some tok \<longrightarrow> jid \<noteq> [] \<and> (\<exists>r. R tok = Some r \<and> rs_job r = Some jid))
     \<and> (\<forall>tok r jid. R tok = Some r \<longrightarrow> rs_job r = Some jid \<longrightarrow> J jid = Some tok)
     \<and> (\<forall>r jid. R (recovered_token jid) = Some r \<longrightarrow> rs_job r = Some jid)
     \<and> R [] = None"

definition adm_inv :: "adm_state \<Rightarrow> bool" where
  "adm_inv s \<longleftrightarrow> distinct (map fst (ad_res s)) \<and> linked (map_of (ad_res s)) (ad_jobs s)"

lemma linkedI:
  assumes "\<And>jid tok. J jid = Some tok \<Longrightarrow> jid \<noteq> [] \<and> (\<exists>r. R tok = Some r \<and> rs_job r = Some jid)"
    and "\<And>tok r jid. R tok = Some r \<Longrightarrow> rs_job r = Some jid \<Longrightarrow> J jid = Some tok"
    and "\<And>r jid. R (recovered_token jid) = Some r \<Longrightarrow> rs_job r = Some jid"
    and "R [] = None"
  shows "linked R J"
  using assms unfolding linked_def by blast

lemma linkedD:
  assumes "linked R J"
  shows "J jid = Some tok \<Longrightarrow> jid \<noteq> [] \<and> (\<exists>r. R tok = Some r \<and> rs_job r = Some jid)"
    and "R tok = Some r \<Longrightarrow> rs_job r = Some jid \<Longrightarrow> J jid = Some tok"
    and "R (recovered_token jid) = Some r \<Longrightarrow> rs_job r = Some jid"
    and "R [] = None"
  using assms unfolding linked_def by blast+

lemma token_prefix [simp]: "admission_token u \<noteq> recovered_token jid" "recovered_token jid \<noteq> admission_token u"
  "recovered_token a = recovered_token b \<longleftrightarrow> a = b" "recovered_token a \<noteq> []" "admission_token u \<noteq> []"
  "[] \<noteq> recovered_token a" "[] \<noteq> admission_token u"
  by (auto simp: admission_token_def recovered_token_def)

lemma linked_update_same:
  assumes "linked R J" and "R tok = Some r" and "rs_job v = rs_job r"
  shows "linked (R(tok \<mapsto> v)) J"
proof (rule linkedI)
  note L = linkedD [OF assms(1)]
  show "jid \<noteq> [] \<and> (\<exists>r. (R(tok \<mapsto> v)) t = Some r \<and> rs_job r = Some jid)" if "J jid = Some t" for jid t
    using L(1) [OF that] assms(2,3) by (cases "t = tok") auto
  show "J jid = Some t" if "(R(tok \<mapsto> v)) t = Some x" "rs_job x = Some jid" for t x jid
    using that L(2) [of t r jid] L(2) [of t x jid] assms(2,3) by (cases "t = tok") auto
  show "rs_job x = Some jid" if "(R(tok \<mapsto> v)) (recovered_token jid) = Some x" for x jid
    using that L(3) [of jid r] L(3) [of jid x] assms(2,3) by (cases "recovered_token jid = tok") auto
  show "(R(tok \<mapsto> v)) [] = None" using L(4) assms(2) by (cases "tok = []") auto
qed

lemma adm_inv_update_same:
  assumes "adm_inv s" and "map_of (ad_res s) tok = Some r" and "rs_job v = rs_job r"
  shows "adm_inv (s\<lparr>ad_res := AList.update tok v (ad_res s)\<rparr>)"
  using assms linked_update_same by (simp add: adm_inv_def AList.distinct_update AList.update_conv')

lemma linked_add:
  assumes "linked R J" and "R tok = None" and "tok \<noteq> []" and "\<forall>x. tok \<noteq> recovered_token x" and "rs_job v = None"
  shows "linked (R(tok \<mapsto> v)) J"
proof (rule linkedI)
  note L = linkedD [OF assms(1)]
  show "jid \<noteq> [] \<and> (\<exists>r. (R(tok \<mapsto> v)) t = Some r \<and> rs_job r = Some jid)" if "J jid = Some t" for jid t
    using L(1) [OF that] assms(2) by (cases "t = tok") auto
  show "J jid = Some t" if "(R(tok \<mapsto> v)) t = Some x" "rs_job x = Some jid" for t x jid
    using that L(2) [of t x jid] assms(5) by (cases "t = tok") auto
  show "rs_job x = Some jid" if "(R(tok \<mapsto> v)) (recovered_token jid) = Some x" for x jid
    using that L(3) [of jid x] assms(4) by (auto split: if_splits)
  show "(R(tok \<mapsto> v)) [] = None" using L(4) assms(3) by auto
qed

lemma linked_bind:
  assumes "linked R J" and "R tok = Some r" and "rs_job r = None" and "J jid = None" and "jid \<noteq> []"
    and "rs_job v = Some jid"
  shows "linked (R(tok \<mapsto> v)) (J(jid \<mapsto> tok))"
proof (rule linkedI)
  note L = linkedD [OF assms(1)]
  show "k \<noteq> [] \<and> (\<exists>r. (R(tok \<mapsto> v)) t = Some r \<and> rs_job r = Some k)" if "(J(jid \<mapsto> tok)) k = Some t" for k t
  proof (cases "k = jid")
    case True
    with that assms(5,6) show ?thesis by auto
  next
    case False
    with that have "J k = Some t" by simp
    from L(1) [OF this] assms(2,3) show ?thesis by (cases "t = tok") auto
  qed
  show "(J(jid \<mapsto> tok)) k = Some t" if "(R(tok \<mapsto> v)) t = Some x" "rs_job x = Some k" for t x k
    using that L(2) [of t x k] assms(4,6) by (cases "t = tok") auto
  show "rs_job x = Some k" if "(R(tok \<mapsto> v)) (recovered_token k) = Some x" for x k
    using that L(3) [of k r] L(3) [of k x] assms(2,3) by (cases "recovered_token k = tok") auto
  show "(R(tok \<mapsto> v)) [] = None" using L(4) assms(2) by (cases "tok = []") auto
qed

lemma linked_remove:
  assumes "linked R J" and "R tok = Some r"
  shows "linked (R(tok := None)) (if present (rs_job r) \<and> J (the (rs_job r)) = Some tok
      then J(the (rs_job r) := None) else J)"
proof (rule linkedI)
  note L = linkedD [OF assms(1)]
  let ?J = "if present (rs_job r) \<and> J (the (rs_job r)) = Some tok then J(the (rs_job r) := None) else J"
  have J: "?J k = (if J k = Some tok then None else J k)" for k
  proof (cases "J k = Some tok")
    case True
    from L(1) [OF this] assms(2) have "rs_job r = Some k" "k \<noteq> []" by auto
    with True show ?thesis by simp
  qed auto
  show "k \<noteq> [] \<and> (\<exists>r. (R(tok := None)) t = Some r \<and> rs_job r = Some k)" if "?J k = Some t" for k t
    using that L(1) [of k t] unfolding J by (auto split: if_splits)
  show "?J k = Some t" if "(R(tok := None)) t = Some x" "rs_job x = Some k" for t x k
    using that L(2) [of t x k] unfolding J by (auto split: if_splits)
  show "rs_job x = Some k" if "(R(tok := None)) (recovered_token k) = Some x" for x k
    using that L(3) by (auto split: if_splits)
  show "(R(tok := None)) [] = None" using L(4) by auto
qed

lemma token_of_job_inv:
  assumes "adm_inv s"
  shows "token_of_job jid s = ad_jobs s jid"
proof (cases "ad_jobs s jid")
  case (Some tok)
  have L: "linked (map_of (ad_res s)) (ad_jobs s)" using assms by (simp add: adm_inv_def)
  have "tok \<noteq> []" using linkedD(1) [OF L Some] linkedD(4) [OF L] by auto
  then show ?thesis using Some by (simp add: token_of_job_def)
qed (simp add: token_of_job_def)

subsection \<open>Every operation keeps the agreement\<close>

lemma try_acquire_inv:
  assumes "adm_inv s" and "map_of (ad_res s) (admission_token uuid) = None"
    and "try_acquire lim sc uuid s = Inr (s', v)"
  shows "adm_inv s'"
proof -
  have "linked ((map_of (ad_res s))(admission_token uuid \<mapsto> r)) (ad_jobs s)" if "rs_job r = None" for r
    using assms(1,2) that by (intro linked_add) (auto simp: adm_inv_def)
  then show ?thesis using assms
    by (auto simp: try_acquire_def adm_inv_def AList.distinct_update AList.update_conv' split: if_splits)
qed

lemma bind_job_inv:
  assumes "adm_inv s" and "jid \<noteq> []" and "bind_job tok jid s = Inr (s', v)"
  shows "adm_inv s'"
proof -
  obtain r where r: "map_of (ad_res s) tok = Some r" using assms(3) by (auto simp: bind_job_def split: option.splits)
  have L: "linked (map_of (ad_res s)) (ad_jobs s)" using assms(1) by (simp add: adm_inv_def)
  show ?thesis
  proof (cases "rs_job r = Some jid")
    case True
    then show ?thesis using assms r by (simp add: bind_job_def)
  next
    case False
    have free: "rs_job r = None"
    proof (cases "rs_job r")
      case (Some x)
      then have "x \<noteq> []" using linkedD(1) [OF L linkedD(2) [OF L r Some]] by simp
      then show ?thesis using Some False assms(3) r by (simp add: bind_job_def)
    qed
    have J: "ad_jobs s jid = None" using False assms(3) r free by (auto simp: bind_job_def split: if_splits)
    have "linked ((map_of (ad_res s))(tok \<mapsto> r\<lparr>rs_job := Some jid, rs_phase := Bound\<rparr>)) ((ad_jobs s)(jid \<mapsto> tok))"
      using L r free J assms(2) by (rule linked_bind) simp
    then show ?thesis using assms(1,3) r False free J
      by (auto simp: bind_job_def adm_inv_def AList.distinct_update AList.update_conv')
  qed
qed

lemma mark_terminal_token_inv: "adm_inv s \<Longrightarrow> mark_terminal_token tok s = Inr (s', v) \<Longrightarrow> adm_inv s'"
  by (auto simp: mark_terminal_token_def intro: adm_inv_update_same split: option.splits if_splits)

lemma mark_unresolved_token_inv:
  "adm_inv s \<Longrightarrow> mark_unresolved_token tok f retry now s = Inr (s', v) \<Longrightarrow> adm_inv s'"
  by (auto simp: mark_unresolved_token_def intro: adm_inv_update_same split: option.splits)

lemma release_token_inv:
  assumes "adm_inv s" and "release_token tok s = Inr (s', v)"
  shows "adm_inv s'"
proof (cases "map_of (ad_res s) tok")
  case None
  with assms show ?thesis by (simp add: release_token_def)
next
  case (Some r)
  have "linked ((map_of (ad_res s))(tok := None)) (ad_jobs s')"
    using linked_remove [of "map_of (ad_res s)" "ad_jobs s" tok r] assms Some
    by (auto simp: adm_inv_def release_token_def)
  then show ?thesis using assms Some
    by (auto simp: adm_inv_def release_token_def AList.distinct_delete AList.delete_conv')
qed

lemma close_admission_inv: "adm_inv s \<Longrightarrow> close_admission s = Inr (s', v) \<Longrightarrow> adm_inv s'"
  by (auto simp: close_admission_def adm_inv_def)

subsection \<open>Reconstruction\<close>

lemma linked_map:
  assumes "linked R J" and "\<And>r. rs_job (f r) = rs_job r"
  shows "linked (map_option f \<circ> R) J"
proof (rule linkedI)
  note L = linkedD [OF assms(1)]
  show "jid \<noteq> [] \<and> (\<exists>r. (map_option f \<circ> R) t = Some r \<and> rs_job r = Some jid)" if "J jid = Some t" for jid t
    using L(1) [OF that] assms(2) by auto
  show "J jid = Some t" if "(map_option f \<circ> R) t = Some x" "rs_job x = Some jid" for t x jid
    using that L(2) assms(2) by auto
  show "rs_job x = Some jid" if "(map_option f \<circ> R) (recovered_token jid) = Some x" for x jid
    using that L(3) assms(2) by auto
  show "(map_option f \<circ> R) [] = None" using L(4) by simp
qed

lemma linked_recover:
  assumes "linked R J" and "J jid = None" and "jid \<noteq> []" and "rs_job v = Some jid"
  shows "linked (R(recovered_token jid \<mapsto> v)) (J(jid \<mapsto> recovered_token jid))"
proof (rule linkedI)
  note L = linkedD [OF assms(1)]
  have new: "R (recovered_token jid) = None"
    using L(2) [OF _ L(3)] assms(2) by (cases "R (recovered_token jid)") auto
  show "k \<noteq> [] \<and> (\<exists>r. (R(recovered_token jid \<mapsto> v)) t = Some r \<and> rs_job r = Some k)"
    if "(J(jid \<mapsto> recovered_token jid)) k = Some t" for k t
  proof (cases "k = jid")
    case True
    with that assms(3,4) show ?thesis by auto
  next
    case False
    with that have "J k = Some t" by simp
    from L(1) [OF this] new show ?thesis by (cases "t = recovered_token jid") auto
  qed
  show "(J(jid \<mapsto> recovered_token jid)) k = Some t"
    if "(R(recovered_token jid \<mapsto> v)) t = Some x" "rs_job x = Some k" for t x k
    using that L(2) [of t x k] assms(2,4) by (cases "t = recovered_token jid") auto
  show "rs_job x = Some k" if "(R(recovered_token jid \<mapsto> v)) (recovered_token k) = Some x" for x k
    using that L(3) [of k x] assms(4) by (cases "k = jid") auto
  show "(R(recovered_token jid \<mapsto> v)) [] = None" using L(4) by simp
qed

definition record_ok :: "adm_record \<Rightarrow> bool" where
  "record_ok rc \<longleftrightarrow> active_status (rc_status rc) \<and> rc_tenant rc \<noteq> [] \<and> rc_requester rc \<noteq> [] \<and> rc_id rc \<noteq> []"

definition record_scope :: "adm_record \<Rightarrow> adm_scope" where
  "record_scope rc = \<lparr>as_tenant = rc_tenant rc, as_requester = rc_requester rc\<rparr>"

text \<open>The two branches of the reconstruction of one active record.\<close>

lemma reconstruct_one_cases:
  assumes "adm_inv s" and "record_ok rc"
  obtains (known) tok r where "ad_jobs s (rc_id rc) = Some tok" "map_of (ad_res s) tok = Some r"
      "rs_job r = Some (rc_id rc)"
      "reconstruct_one rc s = s\<lparr>ad_res := AList.update tok (r\<lparr>rs_scope := record_scope rc, rs_phase := Bound\<rparr>) (ad_res s)\<rparr>"
  | (new) "ad_jobs s (rc_id rc) = None"
      "reconstruct_one rc s = s\<lparr>ad_res := AList.update (recovered_token (rc_id rc)) (recovered_reservation rc) (ad_res s),
            ad_jobs := (ad_jobs s)(rc_id rc \<mapsto> recovered_token (rc_id rc))\<rparr>"
proof (cases "ad_jobs s (rc_id rc)")
  case None
  then show thesis using new assms
    by (simp add: reconstruct_one_def record_ok_def token_of_job_inv)
next
  case (Some tok)
  have "linked (map_of (ad_res s)) (ad_jobs s)" using assms(1) by (simp add: adm_inv_def)
  from linkedD(1) [OF this Some] obtain r where "map_of (ad_res s) tok = Some r" "rs_job r = Some (rc_id rc)"
    by blast
  then show thesis using known Some assms
    by (simp add: reconstruct_one_def record_ok_def token_of_job_inv record_scope_def)
qed

lemma reconstruct_one_skip: "\<not> record_ok rc \<Longrightarrow> reconstruct_one rc s = s"
  by (auto simp: reconstruct_one_def record_ok_def)

lemma reconstruct_one_inv:
  assumes "adm_inv s"
  shows "adm_inv (reconstruct_one rc s)"
proof (cases "record_ok rc")
  case False
  then show ?thesis using assms by (simp add: reconstruct_one_skip)
next
  case True
  from assms True show ?thesis
  proof (cases rule: reconstruct_one_cases)
    case (known tok r)
    then show ?thesis using adm_inv_update_same [OF assms known(2)] by simp
  next
    case new
    have "linked ((map_of (ad_res s))(recovered_token (rc_id rc) \<mapsto> recovered_reservation rc))
        ((ad_jobs s)(rc_id rc \<mapsto> recovered_token (rc_id rc)))"
      using assms new(1) True
      by (intro linked_recover) (auto simp: adm_inv_def record_ok_def recovered_reservation_def)
    then show ?thesis using assms new(2)
      by (simp add: adm_inv_def AList.distinct_update AList.update_conv')
  qed
qed

definition covered :: "adm_record \<Rightarrow> adm_state \<Rightarrow> bool" where
  "covered rc s \<longleftrightarrow> (\<exists>tok r. ad_jobs s (rc_id rc) = Some tok \<and> map_of (ad_res s) tok = Some r
     \<and> rs_scope r = record_scope rc \<and> rs_phase r = Bound)"

lemma reconstruct_one_covers: "adm_inv s \<Longrightarrow> record_ok rc \<Longrightarrow> covered rc (reconstruct_one rc s)"
  by (cases rule: reconstruct_one_cases [of s rc])
    (auto simp: covered_def AList.update_conv' recovered_reservation_def record_scope_def)

lemma reconstruct_one_keeps:
  assumes "adm_inv s" and "covered rc s" and "rc_id rc' \<noteq> rc_id rc"
  shows "covered rc (reconstruct_one rc' s)"
proof (cases "record_ok rc'")
  case False
  then show ?thesis using assms by (simp add: reconstruct_one_skip)
next
  case True
  have L: "linked (map_of (ad_res s)) (ad_jobs s)" using assms(1) by (simp add: adm_inv_def)
  obtain t x where c: "ad_jobs s (rc_id rc) = Some t" "map_of (ad_res s) t = Some x"
    "rs_scope x = record_scope rc" "rs_phase x = Bound"
    using assms(2) by (auto simp: covered_def)
  then have x: "rs_job x = Some (rc_id rc)" using linkedD(1) [OF L c(1)] by auto
  from assms(1) True show ?thesis
  proof (cases rule: reconstruct_one_cases)
    case (known tok r)
    then have "t \<noteq> tok" using x c assms(3) by auto
    then show ?thesis using known c by (auto simp: covered_def AList.update_conv')
  next
    case new
    then have "t \<noteq> recovered_token (rc_id rc')" using x c(2) linkedD(3) [OF L] assms(3) by auto
    then show ?thesis using new c assms(3) by (auto simp: covered_def AList.update_conv')
  qed
qed

lemma reconstruct_fold:
  assumes "adm_inv s" and "distinct (map rc_id records)"
  shows "adm_inv (fold reconstruct_one records s)
    \<and> (\<forall>rc \<in> set records. record_ok rc \<longrightarrow> covered rc (fold reconstruct_one records s))
    \<and> (\<forall>rc. covered rc s \<longrightarrow> rc_id rc \<notin> rc_id ` set records \<longrightarrow> covered rc (fold reconstruct_one records s))"
  using assms
proof (induction records arbitrary: s)
  case (Cons rc records)
  note IH = Cons.IH [OF reconstruct_one_inv [OF Cons.prems(1)], of rc]
  show ?case
    using IH Cons.prems reconstruct_one_covers [OF Cons.prems(1)] reconstruct_one_keeps [OF Cons.prems(1)]
    by (auto simp: image_iff)
qed simp

lemma orphan_inv:
  assumes "adm_inv s"
  shows "adm_inv (s\<lparr>ad_res := map (\<lambda>(tok, r). (tok, orphan_reservation active retry now r)) (ad_res s)\<rparr>)"
proof -
  have keys: "map fst (map (\<lambda>(tok, r). (tok, orphan_reservation active retry now r)) xs) = map fst xs" for xs
    by (induction xs) auto
  have job: "rs_job (orphan_reservation active retry now r) = rs_job r" for r
    by (simp add: orphan_reservation_def)
  show ?thesis
    using assms linked_map [OF _ job] unfolding adm_inv_def
    by (simp add: keys map_of_map del: map_map)
qed

lemma reconstruct_inv:
  assumes "adm_inv s" and "distinct (map rc_id records)" and "reconstruct records retry now s = Inr (s', v)"
  shows "adm_inv s'" and "\<forall>rc \<in> set records. record_ok rc \<longrightarrow> covered rc s'"
  using reconstruct_fold [OF orphan_inv [OF assms(1)] assms(2)] assms(3)
  by (auto simp: reconstruct_def Let_def)

section \<open>The budget implements the contract\<close>

lemma acquire_grants_iff:
  "(\<exists>s' tok. try_acquire lim sc uuid s = Inr (s', Inr tok))
     \<longleftrightarrow> \<not> ad_closing s \<and> admits lim sc (usage s)"
  by (auto simp: try_acquire_def admits_def count_res_usage not_le)

lemma usage_append [simp]: "usage (s\<lparr>ad_res := ad_res s @ [(k, v)]\<rparr>) = add_mset (rs_scope v) (usage s)"
  by (simp add: usage_def)

lemma acquire_usage:
  assumes "try_acquire lim sc uuid s = Inr (s', v)" and "map_of (ad_res s) (admission_token uuid) = None"
  shows "case v of Inl rj \<Rightarrow> s' = s
    | Inr tok \<Rightarrow> tok = admission_token uuid \<and> admits lim sc (usage s) \<and> usage s' = add_mset sc (usage s)"
  using assms
  by (auto simp: try_acquire_def admits_def count_res_usage update_new not_le split: if_splits)

lemma usage_update_same:
  "map_of (ad_res s) tok = Some r \<Longrightarrow> rs_scope v = rs_scope r
     \<Longrightarrow> usage (s\<lparr>ad_res := AList.update tok v (ad_res s)\<rparr>) = usage s"
  by (simp add: usage_def scopes_update_same del: map_map)

lemma bind_usage: "bind_job tok jid s = Inr (s', v) \<Longrightarrow> usage s' = usage s"
  using usage_update_same [of s tok]
  by (auto simp: bind_job_def usage_def split: option.splits if_splits)

lemma mark_terminal_usage: "mark_terminal_token tok s = Inr (s', v) \<Longrightarrow> usage s' = usage s"
  by (auto simp: mark_terminal_token_def usage_update_same split: option.splits if_splits)

lemma mark_unresolved_usage: "mark_unresolved_token tok f retry now s = Inr (s', v) \<Longrightarrow> usage s' = usage s"
  by (auto simp: mark_unresolved_token_def usage_update_same split: option.splits)

lemma close_usage: "close_admission s = Inr (s', v) \<Longrightarrow> usage s' = usage s"
  by (auto simp: close_admission_def usage_def)

lemma release_usage:
  assumes "release_token tok s = Inr (s', v)" and "distinct (map fst (ad_res s))"
  shows "usage s = (case map_of (ad_res s) tok of None \<Rightarrow> usage s' | Some r \<Rightarrow> add_mset (rs_scope r) (usage s'))"
proof (cases "map_of (ad_res s) tok")
  case None
  with assms show ?thesis by (simp add: release_token_def)
next
  case (Some r)
  with assms mset_delete [of "ad_res s" tok r] show ?thesis
    by (auto simp: release_token_def usage_def)
qed

section \<open>Histories\<close>

datatype adm_op =
    AcAcquire adm_scope string
  | AcBind string string
  | AcTerminal string
  | AcUnresolved string string int time
  | AcRelease string
  | AcTerminalJob string
  | AcUnresolvedJob string string int time
  | AcReleaseJob string
  | AcRecoverUnresolved string
  | AcClose
  | AcReconstruct "adm_record list" int time

fun exec_adm :: "limits \<Rightarrow> adm_op \<Rightarrow> adm_state \<Rightarrow> adm_error + adm_state \<times> (rejection + string) option" where
  "exec_adm lim (AcAcquire sc uuid) s = map_sum id (map_prod id Some) (try_acquire lim sc uuid s)"
| "exec_adm lim (AcBind tok jid) s = map_sum id (map_prod id (\<lambda>_. None)) (bind_job tok jid s)"
| "exec_adm lim (AcTerminal tok) s = map_sum id (map_prod id (\<lambda>_. None)) (mark_terminal_token tok s)"
| "exec_adm lim (AcUnresolved tok f retry now) s =
     map_sum id (map_prod id (\<lambda>_. None)) (mark_unresolved_token tok f retry now s)"
| "exec_adm lim (AcRelease tok) s = map_sum id (map_prod id (\<lambda>_. None)) (release_token tok s)"
| "exec_adm lim (AcTerminalJob jid) s = map_sum id (map_prod id (\<lambda>_. None)) (mark_terminal_job jid s)"
| "exec_adm lim (AcUnresolvedJob jid f retry now) s =
     map_sum id (map_prod id (\<lambda>_. None)) (mark_unresolved_job jid f retry now s)"
| "exec_adm lim (AcReleaseJob jid) s = map_sum id (map_prod id (\<lambda>_. None)) (release_job jid s)"
| "exec_adm lim (AcRecoverUnresolved jid) s = map_sum id (map_prod id (\<lambda>_. None)) (recover_unresolved jid s)"
| "exec_adm lim AcClose s = map_sum id (map_prod id (\<lambda>_. None)) (close_admission s)"
| "exec_adm lim (AcReconstruct records retry now) s =
     map_sum id (map_prod id (\<lambda>_. None)) (reconstruct records retry now s)"

text \<open>Fresh random tokens; job identifiers are not empty and are unique in a reconstruction.\<close>

fun sound_adm :: "adm_op \<Rightarrow> adm_state \<Rightarrow> bool" where
  "sound_adm (AcAcquire sc uuid) s \<longleftrightarrow> map_of (ad_res s) (admission_token uuid) = None"
| "sound_adm (AcBind tok jid) s \<longleftrightarrow> jid \<noteq> []"
| "sound_adm (AcReconstruct records retry now) s \<longleftrightarrow> distinct (map rc_id records)"
| "sound_adm _ s \<longleftrightarrow> True"

fun is_reconstruct :: "adm_op \<Rightarrow> bool" where
  "is_reconstruct (AcReconstruct _ _ _) \<longleftrightarrow> True"
| "is_reconstruct _ \<longleftrightarrow> False"

lemma map_sum_Inr: "map_sum id (map_prod id f) x = Inr (s', v) \<longleftrightarrow> (\<exists>a. x = Inr (s', a) \<and> v = f a)"
  by (cases x) auto

lemmas job_level_defs = mark_terminal_job_def mark_unresolved_job_def release_job_def recover_unresolved_def

lemma exec_adm_inv:
  assumes "adm_inv s" and "sound_adm op s" and "exec_adm lim op s = Inr (s', v)"
  shows "adm_inv s'"
  using assms
  by (cases op)
    (auto simp: map_sum_Inr job_level_defs split: option.splits
      intro: try_acquire_inv bind_job_inv mark_terminal_token_inv mark_unresolved_token_inv
        release_token_inv close_admission_inv reconstruct_inv(1))

lemma release_within:
  "within lim (usage s) \<Longrightarrow> adm_inv s \<Longrightarrow> release_token tok s = Inr (s', v) \<Longrightarrow> within lim (usage s')"
  using release_usage [of tok s s' v] within_mono [of "usage s'" "usage s" lim]
  by (auto simp: adm_inv_def split: option.splits)

lemma exec_adm_within:
  assumes "adm_inv s" and "within lim (usage s)" and "sound_adm op s" and "\<not> is_reconstruct op"
    and "exec_adm lim op s = Inr (s', v)"
  shows "within lim (usage s')"
proof (cases op)
  case (AcAcquire sc uuid)
  with assms obtain w where w: "try_acquire lim sc uuid s = Inr (s', w)" by (auto simp: map_sum_Inr)
  with AcAcquire assms(3) acquire_usage [OF w] show ?thesis
    using assms(2) by (cases w) (auto intro: within_add)
next
  case (AcReconstruct records retry now)
  with assms(4) show ?thesis by simp
qed (use assms in \<open>auto simp: map_sum_Inr job_level_defs split: option.splits
      intro: release_within dest!: bind_usage mark_terminal_usage mark_unresolved_usage close_usage\<close>)

text \<open>Steps of the controller: an operation through the queue, its journal write succeeding or
  failing.\<close>

inductive adm_step :: "limits \<Rightarrow> admission \<Rightarrow> adm_op \<times> (adm_error + (rejection + string) option) \<Rightarrow> admission \<Rightarrow> bool"
  for lim :: limits where
  adm_queued: "sound_adm op (adm_live c) \<Longrightarrow> adm_mutate now releasing ok (exec_adm lim op) c = (c', r)
     \<Longrightarrow> adm_step lim c (op, r) c'"

inductive_cases adm_stepE: "adm_step lim c ev c'"

lemma adm_step_cases:
  assumes "adm_step lim c (op, r) c'"
  obtains (failed) e where "c' = c" "r = Inl e"
  | (committed) v now releasing where "exec_adm lim op (adm_live c) = Inr (adm_live c', v)" "r = Inr v"
      "sound_adm op (adm_live c)" "adm_journal c' = persist_journal now releasing (adm_live c')"
  using assms by (elim adm_stepE) (auto simp: adm_mutate_def split: sum.splits prod.splits if_splits)

lemma adm_step_keeps:
  assumes "adm_step lim c ev c'" and "adm_inv (adm_live c)"
  shows "adm_inv (adm_live c')"
    and "\<not> is_reconstruct (fst ev) \<Longrightarrow> within lim (usage (adm_live c)) \<Longrightarrow> within lim (usage (adm_live c'))"
proof -
  obtain op r where ev: "ev = (op, r)" by (cases ev)
  from assms(1) [unfolded ev] show "adm_inv (adm_live c')"
    by (cases rule: adm_step_cases) (use assms(2) exec_adm_inv in auto)
  show "within lim (usage (adm_live c'))" if "\<not> is_reconstruct (fst ev)" "within lim (usage (adm_live c))"
    using assms(1) [unfolded ev]
    by (cases rule: adm_step_cases) (use that assms(2) ev exec_adm_within in auto)
qed

lemma adm_steps_inv: "steps_of (adm_step lim) c evs c' \<Longrightarrow> adm_inv (adm_live c) \<Longrightarrow> adm_inv (adm_live c')"
  by (induction rule: steps_of.induct) (auto dest: adm_step_keeps(1))

lemma adm_steps_within:
  "steps_of (adm_step lim) c evs c' \<Longrightarrow> adm_inv (adm_live c) \<Longrightarrow> within lim (usage (adm_live c))
     \<Longrightarrow> \<forall>ev \<in> set evs. \<not> is_reconstruct (fst ev) \<Longrightarrow> within lim (usage (adm_live c'))"
proof (induction rule: steps_of.induct)
  case (steps_cons c ev c' evs c'')
  then show ?case using adm_step_keeps [OF steps_cons.hyps(1)] by simp
qed simp

section \<open>Reading the journal back\<close>

definition failures_ok :: "adm_state \<Rightarrow> bool" where
  "failures_ok s \<longleftrightarrow> (\<forall>x \<in> set (ad_res s). rs_failure (snd x) \<noteq> Some [])"

lemma nonempty_id: "v \<noteq> Some [] \<Longrightarrow> nonempty v = v"
  by (cases v) (auto simp: nonempty_def)

definition job_links :: "(string \<times> reservation) list \<Rightarrow> (string \<rightharpoonup> string) \<Rightarrow> (string \<rightharpoonup> string)" where
  "job_links xs = fold (\<lambda>(tok, r) J. case rs_job r of None \<Rightarrow> J | Some j \<Rightarrow> J(j \<mapsto> tok)) xs"

lemma load_live:
  assumes "distinct (map fst (ad_res s0 @ xs))"
    and "\<forall>x \<in> set xs. rs_job (snd x) \<noteq> Some [] \<and> rs_failure (snd x) \<noteq> Some []"
  shows "fold load_entry (map (live_entry now) xs) s0
    = s0\<lparr>ad_res := ad_res s0 @ xs, ad_jobs := job_links xs (ad_jobs s0)\<rparr>"
  using assms
proof (induction xs arbitrary: s0)
  case Nil
  then show ?case by (simp add: job_links_def)
next
  case (Cons x xs)
  obtain tok r where x: "x = (tok, r)" by (cases x)
  have new: "map_of (ad_res s0) tok = None" using Cons.prems(1) x by (auto simp: map_of_eq_None_iff)
  have "load_entry (live_entry now x) s0
      = s0\<lparr>ad_res := ad_res s0 @ [x], ad_jobs := job_links [x] (ad_jobs s0)\<rparr>"
    using Cons.prems(2) x new
    by (cases "rs_job r") (auto simp: load_entry_def live_entry_def job_links_def nonempty_id update_new)
  then show ?case
    using Cons.IH [of "s0\<lparr>ad_res := ad_res s0 @ [x], ad_jobs := job_links [x] (ad_jobs s0)\<rparr>"] Cons.prems
    by (simp add: job_links_def)
qed

lemma job_links_Cons:
  "job_links (x # xs) J = job_links xs (case rs_job (snd x) of None \<Rightarrow> J | Some j \<Rightarrow> J(j \<mapsto> fst x))"
  by (simp add: job_links_def split_beta)

lemma job_links_skip:
  "\<forall>x \<in> set xs. rs_job (snd x) \<noteq> Some jid \<Longrightarrow> job_links xs J jid = J jid"
proof (induction xs arbitrary: J)
  case (Cons x xs)
  then show ?case by (cases "rs_job (snd x)") (auto simp: job_links_Cons)
qed (simp add: job_links_def)

lemma job_links_hit:
  "\<forall>x \<in> set xs. rs_job (snd x) = Some jid \<longrightarrow> fst x = tok
     \<Longrightarrow> (\<exists>x \<in> set xs. rs_job (snd x) = Some jid) \<or> J jid = Some tok \<Longrightarrow> job_links xs J jid = Some tok"
proof (induction xs arbitrary: J)
  case (Cons x xs)
  let ?J = "case rs_job (snd x) of None \<Rightarrow> J | Some j \<Rightarrow> J(j \<mapsto> fst x)"
  have "(\<exists>x \<in> set xs. rs_job (snd x) = Some jid) \<or> ?J jid = Some tok"
    using Cons.prems by (cases "rs_job (snd x)") auto
  then show ?case unfolding job_links_Cons using Cons.IH [of ?J] Cons.prems(1) by simp
qed (simp add: job_links_def)

lemma journal_roundtrip:
  assumes "adm_inv s" and "failures_ok s" and "length (ad_res s) < 2000"
  shows "load_document (persist_journal now releasing s) = s"
proof -
  let ?rel = "case releasing of None \<Rightarrow> [] | Some tok \<Rightarrow> if tok = [] then [] else [released_entry now tok]"
  let ?live = "map (live_entry now) (ad_res s)"
  have L: "linked (map_of (ad_res s)) (ad_jobs s)" and D: "distinct (map fst (ad_res s))"
    using assms(1) by (auto simp: adm_inv_def)
  have live: "filter (\<lambda>e. je_phase e = Released) ?live = []" "filter (\<lambda>e. je_phase e \<noteq> Released) ?live = ?live"
    by (auto simp: filter_empty_conv filter_id_conv live_entry_def split: prod.splits)
  have rel: "filter (\<lambda>e. je_phase e = Released) ?rel = ?rel" "filter (\<lambda>e. je_phase e \<noteq> Released) ?rel = []"
    by (auto simp: released_entry_def split: option.splits)
  have len: "length ?rel \<le> 1" by (auto split: option.splits)
  have doc: "jn_entries (persist_journal now releasing s) = ?live @ ?rel"
    using live rel len assms(3) by (simp add: persist_journal_def Let_def last_n_def)
  have skip: "fold load_entry ?rel s1 = s1" for s1
    by (auto simp: load_entry_def released_entry_def split: option.splits)
  have mem: "map_of (ad_res s) (fst x) = Some (snd x)" if "x \<in> set (ad_res s)" for x
    using D that by (simp add: map_of_is_SomeI)
  have jobs: "rs_job (snd x) \<noteq> Some []" if "x \<in> set (ad_res s)" for x
    using linkedD(1) [OF L linkedD(2) [OF L mem [OF that]]] by blast
  have load: "load_document (persist_journal now releasing s)
      = \<lparr>ad_res = ad_res s, ad_jobs = job_links (ad_res s) Map.empty, ad_closing = ad_closing s\<rparr>"
    unfolding load_document_def doc fold_append comp_def skip
    using load_live [of "empty_admission\<lparr>ad_closing := ad_closing s\<rparr>" "ad_res s" now] D jobs assms(2)
    by (simp add: empty_admission_def persist_journal_def failures_ok_def)
  have "job_links (ad_res s) Map.empty = ad_jobs s"
  proof
    fix jid
    show "job_links (ad_res s) Map.empty jid = ad_jobs s jid"
    proof (cases "ad_jobs s jid")
      case (Some tok)
      obtain r where r: "map_of (ad_res s) tok = Some r" "rs_job r = Some jid"
        using linkedD(1) [OF L Some] by blast
      have ex: "\<exists>x \<in> set (ad_res s). rs_job (snd x) = Some jid"
        by (rule bexI [of _ "(tok, r)"]) (simp_all add: r map_of_SomeD [OF r(1)])
      have all: "\<forall>x \<in> set (ad_res s). rs_job (snd x) = Some jid \<longrightarrow> fst x = tok"
      proof (intro ballI impI)
        fix x assume "x \<in> set (ad_res s)" "rs_job (snd x) = Some jid"
        from linkedD(2) [OF L mem [OF this(1)] this(2)] Some show "fst x = tok" by simp
      qed
      show ?thesis unfolding Some by (rule job_links_hit [OF all]) (simp add: ex)
    next
      case None
      have "rs_job (snd x) \<noteq> Some jid" if "x \<in> set (ad_res s)" for x
        using linkedD(2) [OF L mem [OF that]] None by auto
      then show ?thesis using job_links_skip [of "ad_res s" jid Map.empty] None by simp
    qed
  qed
  then show ?thesis using load by simp
qed

text \<open>The operations never leave an empty failure code behind, so the journal of every reachable
  state reads back as that state.\<close>

lemma sanitize_failure_ok: "sanitize_failure f \<noteq> []" "length (sanitize_failure f) \<le> 120"
  "list_all failure_char (sanitize_failure f)"
  by (auto simp: sanitize_failure_def Let_def failure_char_def alnum_char_def list_all_iff
      dest!: in_set_takeD)

lemma failures_ok_update:
  assumes "failures_ok s" and "rs_failure v \<noteq> Some []"
  shows "failures_ok (s\<lparr>ad_res := AList.update k v (ad_res s)\<rparr>)"
proof -
  have "set (AList.update k v al) \<subseteq> insert (k, v) (set al)" for al
    by (induction al) auto
  then show ?thesis using assms by (fastforce simp: failures_ok_def)
qed

lemma failures_ok_lookup: "failures_ok s \<Longrightarrow> map_of (ad_res s) k = Some r \<Longrightarrow> rs_failure r \<noteq> Some []"
  by (force simp: failures_ok_def dest: map_of_SomeD)

lemma failures_ok_jobs [simp]: "failures_ok (s\<lparr>ad_res := xs, ad_jobs := J\<rparr>) = failures_ok (s\<lparr>ad_res := xs\<rparr>)"
  "failures_ok (s\<lparr>ad_closing := b\<rparr>) = failures_ok s"
  by (simp_all add: failures_ok_def)

lemma reconstruct_one_failures: "failures_ok s \<Longrightarrow> failures_ok (reconstruct_one rc s)"
  by (auto simp: reconstruct_one_def recovered_reservation_def split: option.splits
      intro!: failures_ok_update dest: failures_ok_lookup)

lemma reconstruct_fold_failures: "failures_ok s \<Longrightarrow> failures_ok (fold reconstruct_one rcs s)"
  by (induction rcs arbitrary: s) (auto intro: reconstruct_one_failures)

lemma release_failures: "failures_ok s \<Longrightarrow> release_token tok s = Inr (s', v) \<Longrightarrow> failures_ok s'"
proof -
  have "set (AList.delete tok al) \<subseteq> set al" for al :: "(string \<times> reservation) list"
    by (auto simp: AList.delete_eq)
  then show "failures_ok s \<Longrightarrow> release_token tok s = Inr (s', v) \<Longrightarrow> failures_ok s'"
    by (fastforce simp: release_token_def failures_ok_def split: option.splits)
qed

lemma mark_terminal_failures:
  assumes "failures_ok s" and "mark_terminal_token tok s = Inr (s', v)"
  shows "failures_ok s'"
proof -
  obtain r where r: "map_of (ad_res s) tok = Some r"
    using assms(2) by (auto simp: mark_terminal_token_def split: option.splits)
  show ?thesis
    using assms r failures_ok_lookup [OF assms(1) r]
    by (auto simp: mark_terminal_token_def intro!: failures_ok_update split: if_splits)
qed

lemma exec_adm_failures:
  assumes "failures_ok s" and "exec_adm lim op s = Inr (s', v)"
  shows "failures_ok s'"
proof (cases op)
  case (AcReconstruct records retry now)
  have "failures_ok (s\<lparr>ad_res := map (\<lambda>(tok, r). (tok, orphan_reservation active retry now r)) (ad_res s)\<rparr>)" for active
    using assms(1) by (auto simp: failures_ok_def orphan_reservation_def split: if_split_asm)
  with AcReconstruct assms(2) show ?thesis
    by (auto simp: map_sum_Inr reconstruct_def Let_def intro: reconstruct_fold_failures)
next
  case (AcBind tok jid)
  with assms(2) have b: "bind_job tok jid s = Inr (s', ())" by (auto simp: map_sum_Inr)
  then obtain r where r: "map_of (ad_res s) tok = Some r" by (auto simp: bind_job_def split: option.splits)
  show ?thesis
    using b r failures_ok_lookup [OF assms(1) r] assms(1)
    by (auto simp: bind_job_def intro!: failures_ok_update split: if_splits)
next
  case (AcTerminal tok)
  then show ?thesis using assms mark_terminal_failures by (auto simp: map_sum_Inr)
next
  case (AcTerminalJob jid)
  then show ?thesis using assms mark_terminal_failures
    by (auto simp: map_sum_Inr job_level_defs split: option.splits)
qed (use assms in \<open>auto simp: map_sum_Inr job_level_defs try_acquire_def
      mark_unresolved_token_def close_admission_def sanitize_failure_ok
      split: option.splits if_splits intro!: failures_ok_update
      intro: release_failures\<close>)

section \<open>No reservation of a finished job stays bound\<close>

definition bound_within :: "string set \<Rightarrow> adm_state \<Rightarrow> bool" where
  "bound_within A s \<longleftrightarrow> (\<forall>tok r. map_of (ad_res s) tok = Some r \<longrightarrow> rs_phase r = Bound
     \<longrightarrow> present (rs_job r) \<longrightarrow> the (rs_job r) \<in> A)"

lemma reconstruct_one_bound:
  assumes "adm_inv s" and "bound_within A s" and "active_status (rc_status rc) \<Longrightarrow> rc_id rc \<in> A"
  shows "bound_within A (reconstruct_one rc s)"
proof (cases "record_ok rc")
  case True
  then have A: "rc_id rc \<in> A" using assms(3) by (simp add: record_ok_def)
  show ?thesis using assms(1) True
  proof (cases rule: reconstruct_one_cases)
    case (known tok r)
    then show ?thesis using assms(2) A by (auto simp: bound_within_def AList.update_conv')
  next
    case new
    then show ?thesis using assms(2) A by (auto simp: bound_within_def AList.update_conv' recovered_reservation_def)
  qed
qed (use assms(2) in \<open>simp add: reconstruct_one_skip\<close>)

lemma reconstruct_fold_bound:
  assumes "adm_inv s" and "bound_within A s" and "\<forall>rc \<in> set rcs. active_status (rc_status rc) \<longrightarrow> rc_id rc \<in> A"
  shows "bound_within A (fold reconstruct_one rcs s)"
  using assms
  by (induction rcs arbitrary: s) (auto intro: reconstruct_one_inv reconstruct_one_bound)

lemma orphan_bound:
  "rs_phase (orphan_reservation A retry now r) = Bound \<Longrightarrow> present (rs_job (orphan_reservation A retry now r))
     \<Longrightarrow> the (rs_job (orphan_reservation A retry now r)) \<in> A"
  by (auto simp: orphan_reservation_def split: if_split_asm)

lemma reconstruct_bound:
  assumes "adm_inv s" and "reconstruct records retry now s = Inr (s', v)"
  shows "bound_within (active_ids records) s'"
proof -
  let ?f = "orphan_reservation (active_ids records) retry now"
  let ?s = "s\<lparr>ad_res := map (\<lambda>(tok, r). (tok, ?f r)) (ad_res s)\<rparr>"
  have "bound_within (active_ids records) ?s"
    using orphan_bound by (auto simp: bound_within_def map_of_map)
  then show ?thesis
    using reconstruct_fold_bound [OF orphan_inv [OF assms(1)]] assms(2)
    by (auto simp: reconstruct_def Let_def active_ids_def)
qed

end
