(* ===== verification/ModelCatalog.thy ===== *)
theory ModelCatalog
  imports JobModel
begin

text \<open>
  The model catalog (\<open>server/codex-model-catalog.ts\<close>) and the policy that fixes the model of the
  agents launched from Teams (\<open>shared/teams-cli-agent-policy.ts\<close>). The command that prints the catalog
  is not modelled: what it prints is an argument, entries whose fields have their types, and the digest
  of a canonical model list (SHA-256 of its JSON text) is a function argument.
\<close>

section \<open>Policy\<close>

datatype policy_error = PolicyUnavailable | CatalogInvalid

definition policy_model :: string where "policy_model = ''gpt-6-luna''"
definition policy_effort :: effort where "policy_effort = EffXhigh"
definition policy_provider_name :: string where "policy_provider_name = ''openai''"

definition assert_agent_provider :: "provider option \<Rightarrow> policy_error option" where
  "assert_agent_provider p = (if p \<noteq> Some Codex then Some PolicyUnavailable else None)"

definition assert_agent_selection :: "string option \<Rightarrow> effort option \<Rightarrow> policy_error option" where
  "assert_agent_selection m e = (if m = None \<and> e = None then None
     else if m \<noteq> Some policy_model \<or> e \<noteq> Some policy_effort then Some PolicyUnavailable else None)"

definition model_args :: "string list" where
  "model_args = [''--model'', policy_model, ''--config'',
     ''model_reasoning_effort='' @ [CHR 0x22] @ ''xhigh'' @ [CHR 0x22],
     ''--config'', ''model_provider='' @ [CHR 0x22] @ policy_provider_name @ [CHR 0x22]]"

definition assert_agent_prefix :: "string list \<Rightarrow> policy_error option" where
  "assert_agent_prefix args = (if list_ex (\<lambda>a. take 1 a = ''-'') args then Some PolicyUnavailable else None)"

text \<open>An environment is a list of variables with their values.\<close>

definition assert_agent_environment :: "(string \<times> string) list \<Rightarrow> policy_error option" where
  "assert_agent_environment env =
     (if list_ex (\<lambda>(k, expected). map_of env k \<noteq> None \<and> map_of env k \<noteq> Some expected)
           [(''CODEX_MODEL'', policy_model), (''CODEX_REASONING_EFFORT'', ''xhigh''),
            (''MODEL_REASONING_EFFORT'', ''xhigh''), (''CODEX_MODEL_PROVIDER'', policy_provider_name)]
      then Some PolicyUnavailable
      else if list_ex (\<lambda>k. map_of env k \<noteq> None \<and> map_of env k \<noteq> Some [])
           [''CODEX_PROFILE'', ''CODEX_CONFIG'', ''CODEX_CONFIG_OVERRIDES'', ''CODEX_SCRIPT'']
      then Some PolicyUnavailable else None)"

section \<open>The catalog\<close>

record model_option =
  mo_id :: string
  mo_label :: string
  mo_default :: effort
  mo_efforts :: "effort list"

record model_catalog =
  mc_revision :: string
  mc_observed :: "time option"
  mc_models :: "model_option list"

text \<open>An entry as printed; a timestamp that does not parse is \<open>None\<close>.\<close>

record raw_model =
  rm_visibility :: string
  rm_slug :: string
  rm_label :: string
  rm_default :: string
  rm_levels :: "string list"

fun effort_name :: "effort \<Rightarrow> string" where
  "effort_name EffMinimal = ''minimal''" | "effort_name EffLow = ''low''" | "effort_name EffMedium = ''medium''"
| "effort_name EffHigh = ''high''" | "effort_name EffXhigh = ''xhigh''" | "effort_name EffMax = ''max''"
| "effort_name EffUltra = ''ultra''"

definition reasoning_effort :: "string \<Rightarrow> policy_error + effort" where
  "reasoning_effort v = (case find (\<lambda>e. effort_name e = v)
       [EffMinimal, EffLow, EffMedium, EffHigh, EffXhigh, EffMax, EffUltra] of
     None \<Rightarrow> Inl CatalogInvalid | Some e \<Rightarrow> Inr e)"

fun read_efforts :: "string list \<Rightarrow> policy_error + effort list" where
  "read_efforts [] = Inr []"
| "read_efforts (v # vs) = chain (reasoning_effort v) (\<lambda>e. chain (read_efforts vs) (\<lambda>es. Inr (e # es)))"

definition visible_model :: "raw_model \<Rightarrow> policy_error + model_option option" where
  "visible_model m =
     (if rm_visibility m \<noteq> ''list'' then Inr None
      else if \<not> catalog_model_text (rm_slug m) then Inl CatalogInvalid
      else if blank (rm_label m) \<or> js_trim (rm_label m) \<noteq> rm_label m \<or> 128 < length (rm_label m)
      then Inl CatalogInvalid
      else if rm_levels m = [] then Inl CatalogInvalid
      else chain (read_efforts (rm_levels m)) (\<lambda>es.
        if \<not> distinct es then Inl CatalogInvalid
        else chain (reasoning_effort (rm_default m)) (\<lambda>d.
          if d \<notin> set es then Inl CatalogInvalid
          else Inr (Some \<lparr>mo_id = rm_slug m, mo_label = rm_label m, mo_default = d, mo_efforts = es\<rparr>))))"

fun visible_models :: "raw_model list \<Rightarrow> policy_error + model_option list" where
  "visible_models [] = Inr []"
| "visible_models (m # ms) = chain (visible_model m) (\<lambda>v. chain (visible_models ms) (\<lambda>vs.
     Inr (case v of None \<Rightarrow> vs | Some x \<Rightarrow> x # vs)))"

definition parse_catalog ::
  "(model_option list \<Rightarrow> string) \<Rightarrow> raw_model list \<Rightarrow> time option \<Rightarrow> policy_error + model_catalog" where
  "parse_catalog sha entries observed =
     (if observed = None then Inl CatalogInvalid
      else chain (visible_models entries) (\<lambda>models.
        if models = [] \<or> 64 < length models then Inl CatalogInvalid
        else if \<not> distinct (map mo_id models) then Inl CatalogInvalid
        else Inr \<lparr>mc_revision = sha models, mc_observed = observed, mc_models = models\<rparr>))"

definition raw_of_option :: "model_option \<Rightarrow> raw_model" where
  "raw_of_option m = \<lparr>rm_visibility = ''list'', rm_slug = mo_id m, rm_label = mo_label m,
     rm_default = effort_name (mo_default m), rm_levels = map effort_name (mo_efforts m)\<rparr>"

definition assert_catalog :: "(model_option list \<Rightarrow> string) \<Rightarrow> model_catalog \<Rightarrow> policy_error + model_catalog" where
  "assert_catalog sha c = chain (parse_catalog sha (map raw_of_option (mc_models c)) (mc_observed c)) (\<lambda>n.
     if mc_revision c \<noteq> mc_revision n then Inl CatalogInvalid else Inr n)"

section \<open>Selections\<close>

type_synonym selection = "string \<times> effort \<times> string"

definition assert_catalog_selection :: "model_catalog \<Rightarrow> selection \<Rightarrow> policy_error + selection" where
  "assert_catalog_selection c sel = (case sel of (m, e, rvn) \<Rightarrow>
     if \<not> hex_text 64 (mc_revision c) then Inl CatalogInvalid
     else if rvn \<noteq> mc_revision c then Inl CatalogInvalid
     else if \<not> catalog_model_text m then Inl CatalogInvalid
     else case find (\<lambda>x. mo_id x = m) (mc_models c) of
       None \<Rightarrow> Inl CatalogInvalid
     | Some x \<Rightarrow> if e \<notin> set (mo_efforts x) then Inl CatalogInvalid else Inr (mo_id x, e, mc_revision c))"

definition assert_safe_selection :: "selection \<Rightarrow> policy_error + selection" where
  "assert_safe_selection sel = (case sel of (m, e, rvn) \<Rightarrow>
     if \<not> catalog_model_text m \<or> \<not> hex_text 64 rvn then Inl CatalogInvalid else Inr (m, e, rvn))"

definition constrain_catalog :: "(model_option list \<Rightarrow> string) \<Rightarrow> model_catalog \<Rightarrow> policy_error + model_catalog" where
  "constrain_catalog sha v = chain (assert_catalog sha v) (\<lambda>c.
     case find (\<lambda>x. mo_id x = policy_model) (mc_models c) of
       None \<Rightarrow> Inl PolicyUnavailable
     | Some x \<Rightarrow>
         if policy_effort \<notin> set (mo_efforts x) then Inl PolicyUnavailable
         else parse_catalog sha [\<lparr>rm_visibility = ''list'', rm_slug = mo_id x, rm_label = mo_label x,
                rm_default = effort_name policy_effort, rm_levels = [effort_name policy_effort]\<rparr>] (mc_observed c))"

definition select_model ::
  "(model_option list \<Rightarrow> string) \<Rightarrow> model_catalog option \<Rightarrow> selection option \<Rightarrow> policy_error + selection" where
  "select_model sha catalog sel =
     (case assert_agent_selection (map_option fst sel) (map_option (fst \<circ> snd) sel) of
        Some e \<Rightarrow> Inl e
      | None \<Rightarrow>
        (case catalog of None \<Rightarrow> Inl PolicyUnavailable
         | Some v \<Rightarrow> chain (constrain_catalog sha v) (\<lambda>c.
             assert_catalog_selection c (case sel of Some s \<Rightarrow> s
               | None \<Rightarrow> (policy_model, policy_effort, mc_revision c)))))"

section \<open>What the policy guarantees\<close>

text \<open>A catalog that parses is well-formed, and rendering it again parses to itself.\<close>

definition option_ok :: "model_option \<Rightarrow> bool" where
  "option_ok m \<longleftrightarrow> catalog_model_text (mo_id m) \<and> \<not> blank (mo_label m) \<and> js_trim (mo_label m) = mo_label m
     \<and> length (mo_label m) \<le> 128 \<and> mo_efforts m \<noteq> [] \<and> distinct (mo_efforts m) \<and> mo_default m \<in> set (mo_efforts m)"

lemma effort_name_inj [simp]: "effort_name a = effort_name b \<longleftrightarrow> a = b"
  by (cases a; cases b) simp_all

lemma reasoning_effort_name [simp]: "reasoning_effort (effort_name e) = Inr e"
  by (cases e) (simp_all add: reasoning_effort_def)

lemma read_efforts_names [simp]: "read_efforts (map effort_name es) = Inr es"
  by (induction es) simp_all

lemma read_efforts_length: "read_efforts vs = Inr es \<Longrightarrow> length es = length vs"
  by (induction vs arbitrary: es) (auto simp: chain_Inr)

lemma visible_model_ok: "visible_model m = Inr (Some x) \<Longrightarrow> option_ok x"
  by (auto simp: visible_model_def option_ok_def chain_Inr dest: read_efforts_length split: if_splits)

lemma visible_models_ok: "visible_models ms = Inr xs \<Longrightarrow> \<forall>x \<in> set xs. option_ok x"
  by (induction ms arbitrary: xs) (auto simp: chain_Inr split: option.splits dest: visible_model_ok)

lemma visible_model_back: "option_ok x \<Longrightarrow> visible_model (raw_of_option x) = Inr (Some x)"
  by (simp add: visible_model_def raw_of_option_def option_ok_def)

lemma visible_models_back: "\<forall>x \<in> set xs. option_ok x \<Longrightarrow> visible_models (map raw_of_option xs) = Inr xs"
  by (induction xs) (simp_all add: visible_model_back)

lemma parse_catalog_again:
  assumes "parse_catalog sha entries observed = Inr c"
  shows "assert_catalog sha c = Inr c"
proof -
  obtain models where m: "visible_models entries = Inr models" "models \<noteq> []" "length models \<le> 64"
    "distinct (map mo_id models)" "observed \<noteq> None"
    and c: "c = \<lparr>mc_revision = sha models, mc_observed = observed, mc_models = models\<rparr>"
    using assms by (auto simp: parse_catalog_def chain_Inr split: if_splits)
  have "visible_models (map raw_of_option models) = Inr models"
    by (rule visible_models_back [OF visible_models_ok [OF m(1)]])
  then show ?thesis using m by (simp add: c assert_catalog_def parse_catalog_def)
qed

lemma constrained_models:
  assumes "constrain_catalog sha v = Inr c"
  shows "\<exists>label. mc_models c = [\<lparr>mo_id = policy_model, mo_label = label, mo_default = policy_effort,
      mo_efforts = [policy_effort]\<rparr>] \<and> mc_revision c = sha (mc_models c)"
proof -
  obtain d :: model_catalog where d: "(case find (\<lambda>x. mo_id x = policy_model) (mc_models d) of
       None \<Rightarrow> Inl PolicyUnavailable
     | Some x \<Rightarrow>
         if policy_effort \<notin> set (mo_efforts x) then Inl PolicyUnavailable
         else parse_catalog sha [\<lparr>rm_visibility = ''list'', rm_slug = mo_id x, rm_label = mo_label x,
                rm_default = effort_name policy_effort, rm_levels = [effort_name policy_effort]\<rparr>] (mc_observed d)) = Inr c"
    using assms unfolding constrain_catalog_def chain_Inr by blast
  obtain x where x: "find (\<lambda>x. mo_id x = policy_model) (mc_models d) = Some x"
    using d by (cases "find (\<lambda>x. mo_id x = policy_model) (mc_models d)") simp_all
  have p: "parse_catalog sha [\<lparr>rm_visibility = ''list'', rm_slug = mo_id x, rm_label = mo_label x,
        rm_default = effort_name policy_effort, rm_levels = [effort_name policy_effort]\<rparr>] (mc_observed d) = Inr c"
    using d x by (simp split: if_splits)
  have "mo_id x = policy_model" using find_Some_mem [OF x] by simp
  then show ?thesis
    using p by (auto simp: parse_catalog_def visible_model_def chain_Inr split: if_splits)
qed

text \<open>Whatever is asked for, the selection is the policy's model and effort at the revision of the
  narrowed catalog, or nothing.\<close>

lemma select_model_fixed:
  assumes "select_model sha catalog sel = Inr (m, e, rvn)"
  shows "m = policy_model \<and> e = policy_effort
    \<and> (\<exists>v c. catalog = Some v \<and> constrain_catalog sha v = Inr c \<and> rvn = mc_revision c \<and> hex_text 64 rvn)"
proof -
  let ?wanted = "\<lambda>c. case sel of Some s \<Rightarrow> s | None \<Rightarrow> (policy_model, policy_effort, mc_revision c)"
  obtain v where v: "catalog = Some v"
    using assms by (cases catalog) (simp_all add: select_model_def split: option.splits)
  have "chain (constrain_catalog sha v) (\<lambda>c. assert_catalog_selection c (?wanted c)) = Inr (m, e, rvn)"
    using assms v by (cases "assert_agent_selection (map_option fst sel) (map_option (fst \<circ> snd) sel)")
      (simp_all add: select_model_def)
  then obtain c where c: "constrain_catalog sha v = Inr c" and s: "assert_catalog_selection c (?wanted c) = Inr (m, e, rvn)"
    unfolding chain_Inr by blast
  obtain label where models: "mc_models c = [\<lparr>mo_id = policy_model, mo_label = label, mo_default = policy_effort,
      mo_efforts = [policy_effort]\<rparr>]"
    using constrained_models [OF c] by blast
  have "m = policy_model \<and> e = policy_effort \<and> rvn = mc_revision c \<and> hex_text 64 rvn"
    using s by (auto simp: assert_catalog_selection_def models split: prod.splits if_splits)
  with v c show ?thesis by blast
qed

end
