(* ===== verification/AgentService.thy ===== *)
theory AgentService
  imports JobHistory Admission ModelCatalog
begin

text \<open>
  The agent service (\<open>server/agent-service.ts\<close>) in the configuration that hands jobs to an external
  worker (an \<open>executionDispatcher\<close> of \<open>server/agent-execution-port.ts\<close>): submission, approval,
  observation, cancellation, reconciliation, retry, commit and start, on top of the job store and the
  admission controller. The local runners of the other configuration are not modelled.

  An operation is a function of the service's state that returns the new state with a result or an
  error. What it takes from outside is in \<open>svc_env\<close>: the time (read once per operation), the random
  identifiers, what the worker answers, whether a card is accepted, the catalog the observer reports.
  The outcomes of the writes to come, oldest first, are in \<open>sv_writes\<close>; writes beyond its end succeed.
  The locks that serialise the operations on one job are implicit in the sequence of operations.
\<close>

section \<open>State\<close>

datatype svc_action = ActApprove | ActCancel | ActRetry

datatype svc_error =
    SePrompt
  | SeForbidden
  | SePolicy policy_error
  | SeUnavailable
  | SeCapacity rejection
  | SeKeyConflict string
  | SeReplay job
  | SeConflict svc_action job
  | SeNoIdentity job
  | SeProviderConflict job
  | SeApproval approval_error
  | SeStore job_error
  | SeAdmission adm_error
  | SeDispatcher string
  | SeGit

text \<open>The kinds and phases of the cards the external configuration sends; their texts are in English.\<close>

datatype notice_kind = NoteProgress | NoteResult | NoteError | NoteCancelled
datatype notice_phase = PhAnalysis | PhCompleted | PhFailed | PhCancelled | PhCommit

record notice =
  no_conversation :: string
  no_job :: job
  no_kind :: notice_kind
  no_phase :: notice_phase
  no_text :: string

record svc =
  sv_jobs :: job_store
  sv_adm :: admission
  sv_leases :: "string \<rightharpoonup> string"
  sv_writes :: "bool list"
  sv_sent :: "notice list"

datatype worker_status = WkQueued | WkRunning | WkCompleted | WkFailed | WkCancelled | WkQuarantined

record worker_report =
  wr_status :: worker_status
  wr_result :: "string option"
  wr_execution :: "string option"
  wr_error :: "string option"
  wr_tools :: "tool_usage list option"
  wr_tokens :: "token_usage option"
  wr_receipt :: "exec_receipt option"
  wr_cli :: "cli_receipt option"

record svc_config =
  cf_host :: host
  cf_default :: provider
  cf_can_mutate :: "scope \<Rightarrow> bool"
  cf_can_read :: "scope \<Rightarrow> bool"
  cf_pull :: bool
  cf_limits :: limits
  cf_retry :: int
  cf_catalog_sha :: "model_option list \<Rightarrow> string"
  cf_clean :: "string \<Rightarrow> string"

text \<open>\<open>cf_clean\<close> is \<open>redactCliDiagnostics\<close> with the configured paths and limit.\<close>

record svc_env =
  en_now :: time
  en_job_id :: string
  en_uuid :: string
  en_catalog :: "model_catalog option"
  en_dispatch :: "string option"
  en_report :: "job \<Rightarrow> string + worker_report option"
  en_cancel :: "string option"
  en_accepted :: "job \<Rightarrow> bool"
  en_git :: "unit + (string option \<times> string)"

text \<open>\<open>en_dispatch\<close> and \<open>en_cancel\<close> are the messages of the errors the worker port throws, if it does;
  \<open>en_git\<close> is the error of the commit or its hash, if it committed, with its message.\<close>

type_synonym 'a svc_op = "svc \<Rightarrow> svc \<times> (svc_error + 'a)"

definition return_op :: "'a \<Rightarrow> 'a svc_op" where "return_op a s = (s, Inr a)"
definition raise_op :: "svc_error \<Rightarrow> 'a svc_op" where "raise_op e s = (s, Inl e)"

definition next_op :: "'a svc_op \<Rightarrow> ('a \<Rightarrow> 'b svc_op) \<Rightarrow> 'b svc_op" where
  "next_op m f s = (case m s of (s', Inl e) \<Rightarrow> (s', Inl e) | (s', Inr a) \<Rightarrow> f a s')"

definition catch_op :: "'a svc_op \<Rightarrow> (svc_error \<Rightarrow> 'a svc_op) \<Rightarrow> 'a svc_op" where
  "catch_op m h s = (case m s of (s', Inl e) \<Rightarrow> h e s' | (s', Inr a) \<Rightarrow> (s', Inr a))"

definition ignore :: "'a svc_op \<Rightarrow> unit svc_op" where
  "ignore m s = (fst (m s), Inr ())"

definition drop_result :: "'a svc_op \<Rightarrow> unit svc_op" where
  "drop_result m = next_op m (\<lambda>_. return_op ())"

definition require :: "bool \<Rightarrow> svc_error \<Rightarrow> unit svc_op" where
  "require b e = (if b then return_op () else raise_op e)"

definition check :: "policy_error option \<Rightarrow> unit svc_op" where
  "check v = (case v of None \<Rightarrow> return_op () | Some e \<Rightarrow> raise_op (SePolicy e))"

definition reading :: "(svc \<Rightarrow> 'a) \<Rightarrow> ('a \<Rightarrow> 'b svc_op) \<Rightarrow> 'b svc_op" where
  "reading f g s = g (f s) s"

section \<open>Writes\<close>

definition write_ok :: "svc \<Rightarrow> bool" where
  "write_ok s = (case sv_writes s of [] \<Rightarrow> True | b # _ \<Rightarrow> b)"

definition write_jobs :: "(job list \<Rightarrow> job_error + job list \<times> 'a) \<Rightarrow> 'a svc_op" where
  "write_jobs op s = (case enqueue_mutation True (write_ok s) op (sv_jobs s) of
     (st, r) \<Rightarrow> (s\<lparr>sv_jobs := st, sv_writes := tl (sv_writes s)\<rparr>, map_sum SeStore id r))"

definition write_adm :: "time \<Rightarrow> string option \<Rightarrow> (adm_state \<Rightarrow> adm_error + adm_state \<times> 'a) \<Rightarrow> 'a svc_op" where
  "write_adm now releasing op s = (case adm_mutate now releasing (write_ok s) op (sv_adm s) of
     (c, r) \<Rightarrow> (s\<lparr>sv_adm := c, sv_writes := tl (sv_writes s)\<rparr>, map_sum SeAdmission id r))"

definition jobs_of :: "svc \<Rightarrow> job list" where
  "jobs_of s = js_jobs (sv_jobs s)"

definition update_op :: "svc_config \<Rightarrow> svc_env \<Rightarrow> string \<Rightarrow> scope \<Rightarrow> patch_field list \<Rightarrow> job option svc_op" where
  "update_op cf en i sc patch = write_jobs (update_jobs (h_sha (cf_host cf)) i sc patch (en_now en))"

definition create_op :: "svc_config \<Rightarrow> svc_env \<Rightarrow> create_input \<Rightarrow> job svc_op" where
  "create_op cf en x =
     (case build_job (h_sha (cf_host cf)) (h_url (cf_host cf)) x (en_job_id en) (en_uuid en) (en_now en) of
        Inl e \<Rightarrow> raise_op (SeStore e)
      | Inr j \<Rightarrow> write_jobs (insert_job x j))"

section \<open>Checks\<close>

text \<open>The control characters a prompt may not contain: those of the first class of the prelude, without
  the range 128 to 159.\<close>

definition prompt_control :: "char \<Rightarrow> bool" where
  "prompt_control c \<longleftrightarrow> (let n = code_unit c in n \<le> 8 \<or> n = 11 \<or> n = 12 \<or> (14 \<le> n \<and> n \<le> 31) \<or> n = 127)"

definition normalize_prompt :: "string \<Rightarrow> svc_error + string" where
  "normalize_prompt p = (let n = js_trim p in
     if n = [] \<or> 2000 < length n \<or> list_ex prompt_control n then Inl SePrompt else Inr n)"

definition scope_for_job :: "job \<Rightarrow> scope option" where
  "scope_for_job j = (if present (job_tenant j)
     then Some \<lparr>sc_requester = job_requester j, sc_conversation = job_conversation j, sc_tenant = the (job_tenant j)\<rparr>
     else None)"

definition job_selection :: "job \<Rightarrow> selection option" where
  "job_selection j = (if present (job_model j) \<and> job_effort j \<noteq> None \<and> present (job_catalog j)
     then Some (the (job_model j), the (job_effort j), the (job_catalog j)) else None)"

definition assert_historical :: "job \<Rightarrow> policy_error option" where
  "assert_historical j = (case assert_agent_provider (job_provider j) of
       Some e \<Rightarrow> Some e
     | None \<Rightarrow> (case job_selection j of
         None \<Rightarrow> Some PolicyUnavailable
       | Some (m, e, _) \<Rightarrow> assert_agent_selection (Some m) (Some e)))"

definition recorded_paths :: "job \<Rightarrow> string list option" where
  "recorded_paths j = (case job_changed j of None \<Rightarrow> None
     | Some vs \<Rightarrow> (let ps = filter (\<lambda>p. p \<noteq> []) (map js_trim vs) in if ps = [] then None else Some ps))"

definition assert_mutation_allowed :: "svc_config \<Rightarrow> scope \<Rightarrow> unit svc_op" where
  "assert_mutation_allowed cf sc = require (cf_can_mutate cf sc) SeForbidden"

definition assert_read_allowed :: "svc_config \<Rightarrow> scope \<Rightarrow> unit svc_op" where
  "assert_read_allowed cf sc = require (cf_can_read cf sc) SeForbidden"

definition assert_mode_allowed :: "svc_config \<Rightarrow> job_mode \<Rightarrow> scope \<Rightarrow> unit svc_op" where
  "assert_mode_allowed cf mode sc = (if mode = WorkspaceWrite then assert_mutation_allowed cf sc
     else assert_read_allowed cf sc)"

definition provider_for_job :: "job \<Rightarrow> provider option \<Rightarrow> provider svc_op" where
  "provider_for_job j requested = (case job_provider j of
       None \<Rightarrow> raise_op (SeNoIdentity j)
     | Some p \<Rightarrow> if requested \<noteq> None \<and> requested \<noteq> Some p then raise_op (SeProviderConflict j) else return_op p)"

text \<open>A selection is given whole or not at all.\<close>

definition whole_selection :: "string option \<Rightarrow> effort option \<Rightarrow> string option \<Rightarrow> policy_error + selection option" where
  "whole_selection m e c = (case (m, e, c) of
       (None, None, None) \<Rightarrow> Inr None
     | (Some m, Some e, Some c) \<Rightarrow> chain (assert_safe_selection (m, e, c)) (\<lambda>s. Inr (Some s))
     | _ \<Rightarrow> Inl PolicyUnavailable)"

definition resolve_selection ::
  "svc_config \<Rightarrow> svc_env \<Rightarrow> provider option \<Rightarrow> string option \<Rightarrow> effort option \<Rightarrow> string option
     \<Rightarrow> policy_error + selection" where
  "resolve_selection cf en p m e c =
     (case assert_agent_provider p of Some err \<Rightarrow> Inl err
      | None \<Rightarrow>
        (case assert_agent_selection m e of Some err \<Rightarrow> Inl err
         | None \<Rightarrow> chain (whole_selection m e c) (\<lambda>sel. select_model (cf_catalog_sha cf) (en_catalog en) sel)))"

definition checked :: "policy_error + 'a \<Rightarrow> 'a svc_op" where
  "checked v = (case v of Inl e \<Rightarrow> raise_op (SePolicy e) | Inr a \<Rightarrow> return_op a)"

section \<open>Admission at the end of a job\<close>

definition cleanup_marker :: string where
  "cleanup_marker = ''AGENT_RECONCILIATION_REQUIRED: cleanup after the job and the release of its admission did not complete. An operator has to recover it.''"

definition drop_lease :: "string \<Rightarrow> unit svc_op" where
  "drop_lease i s = (s\<lparr>sv_leases := (sv_leases s)(i := None)\<rparr>, Inr ())"

definition release_reservation :: "svc_env \<Rightarrow> string \<Rightarrow> unit svc_op" where
  "release_reservation en i = reading (\<lambda>s. (sv_leases s i, token_of_job i (adm_live (sv_adm s)))) (\<lambda>(lease, tok).
     case lease of
       None \<Rightarrow> write_adm (en_now en) tok (release_job i)
     | Some t \<Rightarrow> next_op (write_adm (en_now en) None (mark_terminal_token t)) (\<lambda>_.
         next_op (write_adm (en_now en) (Some t) (release_token t)) (\<lambda>_. drop_lease i)))"

definition mark_unresolved :: "svc_config \<Rightarrow> svc_env \<Rightarrow> string \<Rightarrow> string \<Rightarrow> unit svc_op" where
  "mark_unresolved cf en i failure = reading (\<lambda>s. sv_leases s i) (\<lambda>lease. case lease of
       Some t \<Rightarrow> write_adm (en_now en) None (mark_unresolved_token t failure (cf_retry cf) (en_now en))
     | None \<Rightarrow> write_adm (en_now en) None (mark_unresolved_job i failure (cf_retry cf) (en_now en)))"

text \<open>\<open>finalizeAdmission\<close>: a failure leaves the reservation held and visible, on the job too.\<close>

definition finalize_admission :: "svc_config \<Rightarrow> svc_env \<Rightarrow> job \<Rightarrow> scope \<Rightarrow> unit svc_op" where
  "finalize_admission cf en j sc = catch_op (release_reservation en (job_id j)) (\<lambda>e.
     next_op (ignore (mark_unresolved cf en (job_id j) ''Error'')) (\<lambda>_.
     next_op (ignore (update_op cf en (job_id j) sc [PError (Some cleanup_marker)])) (\<lambda>_. raise_op e)))"

section \<open>Submission\<close>

record sub_input =
  si_prompt :: string
  si_key :: "string option"
  si_hash :: "string option"
  si_provider :: "provider option"
  si_mode :: job_mode
  si_scope :: scope
  si_origin :: "result_origin option"
  si_parent :: "string option"
  si_thread :: "string option"
  si_notify :: "bool option"
  si_model :: "string option"
  si_effort :: "effort option"
  si_catalog :: "string option"

definition dispatch_message :: "svc_config \<Rightarrow> string \<Rightarrow> string" where
  "dispatch_message cf m = ''AZURE_DISPATCH_FAILED: '' @
     (if cf_clean cf m = [] then ''Azure Queue dispatch failed.'' else cf_clean cf m)"

definition dispatch_externally :: "svc_config \<Rightarrow> svc_env \<Rightarrow> job \<Rightarrow> scope \<Rightarrow> unit svc_op" where
  "dispatch_externally cf en j sc = (case en_dispatch en of
       None \<Rightarrow> return_op ()
     | Some m \<Rightarrow>
         next_op (update_op cf en (job_id j) sc [PStatus JFailed, PError (Some (dispatch_message cf m)),
             PFinished (Some (en_now en))]) (\<lambda>failed.
         next_op (case failed of None \<Rightarrow> return_op () | Some f \<Rightarrow> finalize_admission cf en f sc) (\<lambda>_.
         raise_op (SeDispatcher m))))"

definition same_request :: "sub_input \<Rightarrow> string \<Rightarrow> provider \<Rightarrow> selection option \<Rightarrow> job \<Rightarrow> bool" where
  "same_request x prompt p sel j \<longleftrightarrow> job_prompt j = prompt \<and> job_mode j = si_mode x \<and> job_provider j = Some p
     \<and> job_parent j = si_parent x \<and> (si_thread x = None \<or> job_thread j = si_thread x)
     \<and> (case sel of None \<Rightarrow> True
        | Some (m, e, c) \<Rightarrow> job_model j = Some m \<and> job_effort j = Some e \<and> job_catalog j = Some c)"

definition replay_submission :: "sub_input \<Rightarrow> string \<Rightarrow> provider \<Rightarrow> job \<Rightarrow> job svc_op" where
  "replay_submission x prompt p j =
     next_op (check (assert_historical j)) (\<lambda>_.
     next_op (check (assert_agent_provider (Some p))) (\<lambda>_.
     next_op (check (assert_agent_selection (si_model x) (si_effort x))) (\<lambda>_.
     next_op (checked (whole_selection (si_model x) (si_effort x) (si_catalog x))) (\<lambda>sel.
     if same_request x prompt p sel j then raise_op (SeReplay j)
     else raise_op (SeKeyConflict (the (si_key x)))))))"

definition created_input :: "sub_input \<Rightarrow> string \<Rightarrow> provider \<Rightarrow> selection \<Rightarrow> create_input" where
  "created_input x prompt p sel = (case sel of (m, e, c) \<Rightarrow>
     \<lparr>ci_prompt = prompt, ci_provider = p, ci_mode = si_mode x, ci_scope = si_scope x, ci_origin = si_origin x,
      ci_env = Some ExternalWorker,
      ci_notifications = Some \<lparr>nt_enabled = (si_notify x \<noteq> Some False), nt_delivered = []\<rparr>,
      ci_parent = si_parent x, ci_thread = si_thread x, ci_key = si_key x, ci_hash = si_hash x,
      ci_model = Some m, ci_effort = Some e, ci_catalog = Some c\<rparr>)"

definition adm_scope_of :: "scope \<Rightarrow> adm_scope" where
  "adm_scope_of sc = \<lparr>as_tenant = sc_tenant sc, as_requester = sc_requester sc\<rparr>"

definition set_lease :: "string \<Rightarrow> string \<Rightarrow> unit svc_op" where
  "set_lease i t s = (s\<lparr>sv_leases := (sv_leases s)(i \<mapsto> t)\<rparr>, Inr ())"

text \<open>Creating the job under its reservation: an error releases the reservation. (There is no workspace
  to dispose of.)\<close>

definition create_reserved :: "svc_config \<Rightarrow> svc_env \<Rightarrow> create_input \<Rightarrow> string \<Rightarrow> job svc_op" where
  "create_reserved cf en x t = catch_op
     (next_op (create_op cf en x) (\<lambda>j.
      next_op (write_adm (en_now en) None (bind_job t (job_id j))) (\<lambda>_.
      next_op (set_lease (job_id j) t) (\<lambda>_. return_op j))))
     (\<lambda>e. next_op (write_adm (en_now en) (Some t) (release_token t)) (\<lambda>_. raise_op e))"

definition acquire_op :: "svc_config \<Rightarrow> svc_env \<Rightarrow> scope \<Rightarrow> string svc_op" where
  "acquire_op cf en sc = next_op (write_adm (en_now en) None (try_acquire (cf_limits cf) (adm_scope_of sc) (en_uuid en)))
     (\<lambda>r. case r of Inl rj \<Rightarrow> raise_op (SeCapacity rj) | Inr t \<Rightarrow> return_op t)"

definition find_replay :: "sub_input \<Rightarrow> job option svc_op" where
  "find_replay x = reading jobs_of (\<lambda>jobs. case find_idempotent (si_scope x) (si_key x) (si_hash x) True jobs of
     Inl e \<Rightarrow> raise_op (SeStore e) | Inr r \<Rightarrow> return_op r)"

definition normalized_op :: "svc_error + 'a \<Rightarrow> 'a svc_op" where
  "normalized_op v = (case v of Inl e \<Rightarrow> raise_op e | Inr a \<Rightarrow> return_op a)"

text \<open>What a submission is admitted with: its normalised prompt, its provider and its selection, or the
  error (a replay among them).\<close>

definition admit :: "svc_config \<Rightarrow> svc_env \<Rightarrow> sub_input \<Rightarrow> (string \<times> provider \<times> selection) svc_op" where
  "admit cf en x =
     next_op (normalized_op (normalize_prompt (si_prompt x))) (\<lambda>prompt.
     (let p = (case si_provider x of None \<Rightarrow> cf_default cf | Some v \<Rightarrow> v) in
     next_op (assert_mode_allowed cf (si_mode x) (si_scope x)) (\<lambda>_.
     next_op (require (\<not> (cf_pull cf \<and> (p \<noteq> Codex \<or> si_mode x \<noteq> ReadOnly \<or> present (si_parent x)
         \<or> present (si_thread x)))) SeUnavailable) (\<lambda>_.
     next_op (find_replay x) (\<lambda>r. case r of
       Some j \<Rightarrow> next_op (replay_submission x prompt p j) (\<lambda>_. raise_op (SeReplay j))
     | None \<Rightarrow> next_op (checked (resolve_selection cf en (Some p) (si_model x) (si_effort x) (si_catalog x))) (\<lambda>sel.
         return_op (prompt, p, sel)))))))"

definition submit_once :: "svc_config \<Rightarrow> svc_env \<Rightarrow> sub_input \<Rightarrow> job svc_op" where
  "submit_once cf en x =
     next_op (admit cf en x) (\<lambda>(prompt, p, sel).
     next_op (acquire_op cf en (si_scope x)) (\<lambda>t.
     next_op (create_reserved cf en (created_input x prompt p sel) t) (\<lambda>j.
     next_op (if job_mode j = ReadOnly then dispatch_externally cf en j (si_scope x) else return_op ()) (\<lambda>_. return_op j))))"

definition find_job :: "string \<Rightarrow> scope \<Rightarrow> (job \<Rightarrow> 'a option svc_op) \<Rightarrow> 'a option svc_op" where
  "find_job i sc f = reading (\<lambda>s. get_job i sc (jobs_of s)) (\<lambda>r. case r of None \<Rightarrow> return_op None | Some j \<Rightarrow> f j)"

definition inherited_notify :: "job \<Rightarrow> bool option \<Rightarrow> bool option" where
  "inherited_notify j wanted = (case job_notifications j of
       None \<Rightarrow> wanted
     | Some n \<Rightarrow> if \<not> nt_enabled n then Some False
                  else (case wanted of None \<Rightarrow> Some (nt_enabled n) | Some b \<Rightarrow> Some b))"

definition successor_input :: "job \<Rightarrow> scope \<Rightarrow> provider \<Rightarrow> string \<Rightarrow> result_origin option \<Rightarrow> bool option \<Rightarrow> sub_input" where
  "successor_input j sc p prompt origin wanted = \<lparr>si_prompt = prompt, si_key = None, si_hash = None,
     si_provider = Some p, si_mode = job_mode j, si_scope = sc, si_origin = origin, si_parent = Some (job_id j),
     si_thread = (if p = Codex \<and> job_mode j = ReadOnly then None else job_thread j),
     si_notify = inherited_notify j wanted,
     si_model = map_option fst (job_selection j), si_effort = map_option (fst \<circ> snd) (job_selection j),
     si_catalog = map_option (snd \<circ> snd) (job_selection j)\<rparr>"

definition continue_op ::
  "svc_config \<Rightarrow> svc_env \<Rightarrow> string \<Rightarrow> string \<Rightarrow> scope \<Rightarrow> result_origin option \<Rightarrow> bool option \<Rightarrow> job option svc_op" where
  "continue_op cf en i prompt sc origin wanted =
     next_op (normalized_op (normalize_prompt prompt)) (\<lambda>n.
     find_job i sc (\<lambda>j.
     next_op (provider_for_job j None) (\<lambda>p.
     if \<not> present (job_thread j) \<and> \<not> (p = Codex \<and> job_mode j = ReadOnly) then return_op None else
     next_op (assert_mode_allowed cf (job_mode j) sc) (\<lambda>_.
     next_op (check (assert_historical j)) (\<lambda>_.
     next_op (submit_once cf en (successor_input j sc p n (case origin of None \<Rightarrow> job_origin j | Some v \<Rightarrow> Some v) wanted))
       (\<lambda>u. return_op (Some u)))))))"

definition retry_op :: "svc_config \<Rightarrow> svc_env \<Rightarrow> string \<Rightarrow> scope \<Rightarrow> bool option \<Rightarrow> job option svc_op" where
  "retry_op cf en i sc wanted = find_job i sc (\<lambda>j.
     next_op (require (job_status j = JFailed) (SeConflict ActRetry j)) (\<lambda>_.
     next_op (assert_mode_allowed cf (job_mode j) sc) (\<lambda>_.
     next_op (check (assert_historical j)) (\<lambda>_.
     next_op (provider_for_job j None) (\<lambda>p.
     next_op (submit_once cf en (successor_input j sc p (job_prompt j) None wanted)) (\<lambda>u. return_op (Some u)))))))"

end
