(* ===== verification/AgentLifecycle.thy ===== *)
theory AgentLifecycle
  imports AgentService
begin

text \<open>
  The rest of the agent service (\<open>server/agent-service.ts\<close>) in its external configuration: cards,
  decisions on approvals and their expiry, observation of the worker, cancellation, reconciliation,
  commit, the poll and the start of the service.
\<close>

section \<open>Cards\<close>

text \<open>\<open>notifyIfEnabled\<close> without a progress state; the result tells whether the card was accepted.\<close>

definition notify_op :: "svc_env \<Rightarrow> job \<Rightarrow> notice_kind \<Rightarrow> notice_phase \<Rightarrow> string \<Rightarrow> bool svc_op" where
  "notify_op en j kind ph text s =
     (if map_option nt_enabled (job_notifications j) = Some False then (s, Inr False)
      else case scope_for_job j of
        None \<Rightarrow> (s, Inr False)
      | Some sc \<Rightarrow>
          (let current = (case get_job (job_id j) sc (jobs_of s) of None \<Rightarrow> j | Some c \<Rightarrow> c)
           in (s\<lparr>sv_sent := sv_sent s @ [\<lparr>no_conversation = job_conversation current, no_job = current,
                 no_kind = kind, no_phase = ph, no_text = text\<rparr>]\<rparr>, Inr (en_accepted en current))))"

definition newline :: string where "newline = [CHR 0x0A]"

definition format_completion :: "string \<Rightarrow> string \<Rightarrow> string" where
  "format_completion i result = ''Job '' @ i @ '' has completed.'' @ newline @ newline @
     (if 7000 < length result then take 7000 result @ newline @ newline @ ''(The result is long; a part is shown.)''
      else result)"

fun notify_status_of :: "job_status \<Rightarrow> notify_status option" where
  "notify_status_of JRunning = Some NRunning"
| "notify_status_of JCompleted = Some NCompleted"
| "notify_status_of JFailed = Some NFailed"
| "notify_status_of JCancelled = Some NCancelled"
| "notify_status_of _ = None"

definition send_card :: "svc_config \<Rightarrow> svc_env \<Rightarrow> job \<Rightarrow> notify_status \<Rightarrow> bool svc_op" where
  "send_card cf en j v = (case v of
       NRunning \<Rightarrow> notify_op en j NoteProgress PhAnalysis (''Job '' @ job_id j @ '' has started.'')
     | NCompleted \<Rightarrow> notify_op en j NoteResult PhCompleted
         (format_completion (job_id j) (case job_result j of None \<Rightarrow> [] | Some r \<Rightarrow> r))
     | NCancelled \<Rightarrow> notify_op en j NoteCancelled PhCancelled (''Job '' @ job_id j @ '' was cancelled.'')
     | NFailed \<Rightarrow> notify_op en j NoteError PhFailed (''Job '' @ job_id j @ '' has failed.'' @ newline @ newline
         @ cf_clean cf (case job_error j of None \<Rightarrow> ''Azure worker execution failed.'' | Some e \<Rightarrow> e)))"

text \<open>\<open>deliverDurableNotification\<close>: one card per status, acknowledged after it is accepted.\<close>

definition card_due :: "job \<Rightarrow> notify_status option" where
  "card_due j =
     (if job_status j = JCancelled \<and> job_cancel_requested j = None then None
      else case (job_notifications j, notify_status_of (job_status j)) of
        (Some n, Some v) \<Rightarrow> if nt_enabled n \<and> v \<notin> set (nt_delivered n) then Some v else None
      | _ \<Rightarrow> None)"

definition deliver :: "svc_config \<Rightarrow> svc_env \<Rightarrow> job \<Rightarrow> scope \<Rightarrow> job svc_op" where
  "deliver cf en j sc = (case card_due j of
       None \<Rightarrow> return_op j
     | Some v \<Rightarrow>
         next_op (send_card cf en j v) (\<lambda>accepted.
         if \<not> accepted then return_op j
         else next_op (update_op cf en (job_id j) sc
             [PNotifications (map_option (\<lambda>n. n\<lparr>nt_delivered := nt_delivered n @ [v]\<rparr>) (job_notifications j))]) (\<lambda>r.
           return_op (case r of None \<Rightarrow> j | Some u \<Rightarrow> u))))"

section \<open>Approvals\<close>

definition finalize_approval_cancellation :: "svc_config \<Rightarrow> svc_env \<Rightarrow> decision_result \<Rightarrow> scope \<Rightarrow> unit svc_op" where
  "finalize_approval_cancellation cf en res sc =
     next_op (finalize_admission cf en (dr_job res) sc) (\<lambda>_.
     if \<not> dr_replayed res \<and> map_option ap_state (job_approval (dr_job res)) = Some ApExpired
     then ignore (notify_op en (dr_job res) NoteCancelled PhCancelled
       (''Job '' @ job_id (dr_job res) @ '' was cancelled: the time to approve it has passed.''))
     else return_op ())"

text \<open>Accepting in time checks again what the job is about to run with.\<close>

definition accept_checks :: "svc_config \<Rightarrow> svc_env \<Rightarrow> job \<Rightarrow> decision \<Rightarrow> unit svc_op" where
  "accept_checks cf en j d =
     (if d = Accept \<and> (case job_approval j of None \<Rightarrow> False
           | Some a \<Rightarrow> ap_state a = ApPending \<and> en_now en < ap_deadline a)
      then next_op (check (assert_historical j)) (\<lambda>_.
           next_op (provider_for_job j None) (\<lambda>p.
           next_op (checked (resolve_selection cf en (Some p) (job_model j) (job_effort j) (job_catalog j))) (\<lambda>_.
           return_op ())))
      else return_op ())"

definition decide_op ::
  "svc_config \<Rightarrow> svc_env \<Rightarrow> string \<Rightarrow> scope \<Rightarrow> approval_request \<Rightarrow> decision \<Rightarrow> decision_result option svc_op" where
  "decide_op cf en i sc r d =
     next_op (assert_mutation_allowed cf sc) (\<lambda>_.
     find_job i sc (\<lambda>j.
     next_op (accept_checks cf en j d) (\<lambda>_.
     next_op (write_jobs (decide_approval (h_sha (cf_host cf)) i sc r d (en_now en))) (\<lambda>out. case out of
       None \<Rightarrow> return_op None
     | Some res \<Rightarrow>
         next_op (if dr_dispatch res then dispatch_externally cf en (dr_job res) sc
                  else if job_status (dr_job res) = JCancelled then finalize_approval_cancellation cf en res sc
                  else return_op ()) (\<lambda>_. return_op (Some res))))))"

definition request_of :: "approval \<Rightarrow> approval_request" where
  "request_of a = \<lparr>rq_id = ap_id a, rq_revision = ap_revision a\<rparr>"

definition approve_op :: "svc_config \<Rightarrow> svc_env \<Rightarrow> string \<Rightarrow> scope \<Rightarrow> job option svc_op" where
  "approve_op cf en i sc =
     next_op (assert_mutation_allowed cf sc) (\<lambda>_.
     find_job i sc (\<lambda>j.
     next_op (require (job_status j = JAwaiting) (SeConflict ActApprove j)) (\<lambda>_.
     case job_approval j of
       None \<Rightarrow> raise_op (SeApproval ApUnsupported)
     | Some a \<Rightarrow> next_op (decide_op cf en i sc (request_of a) Accept) (\<lambda>res. return_op (map_option dr_job res)))))"

definition pending_job :: "job \<Rightarrow> bool" where
  "pending_job j \<longleftrightarrow> job_status j = JAwaiting \<and> map_option ap_state (job_approval j) = Some ApPending"

definition pending_approval_jobs :: "svc \<Rightarrow> job list" where
  "pending_approval_jobs s = filter (\<lambda>j. job_mode j = WorkspaceWrite \<and> pending_job j \<and> scope_for_job j \<noteq> None) (jobs_of s)"

fun each_op :: "('a \<Rightarrow> unit svc_op) \<Rightarrow> 'a list \<Rightarrow> unit svc_op" where
  "each_op f [] = return_op ()"
| "each_op f (x # xs) = next_op (f x) (\<lambda>_. each_op f xs)"

definition expire_candidate :: "svc_config \<Rightarrow> svc_env \<Rightarrow> job \<Rightarrow> unit svc_op" where
  "expire_candidate cf en candidate = (case (job_approval candidate, scope_for_job candidate) of
       (Some a, Some sc) \<Rightarrow>
         if en_now en < ap_deadline a then return_op ()
         else reading (\<lambda>s. get_job (job_id candidate) sc (jobs_of s)) (\<lambda>cur. case cur of
           None \<Rightarrow> return_op ()
         | Some j \<Rightarrow>
             if \<not> pending_job j then return_op ()
             else next_op (write_jobs (decide_approval (h_sha (cf_host cf)) (job_id j) sc
                 (request_of (the (job_approval j))) Expire (en_now en))) (\<lambda>out. case out of
               Some res \<Rightarrow> if job_status (dr_job res) = JCancelled
                 then finalize_approval_cancellation cf en res sc else return_op ()
             | None \<Rightarrow> return_op ()))
     | _ \<Rightarrow> return_op ())"

definition expire_op :: "svc_config \<Rightarrow> svc_env \<Rightarrow> unit svc_op" where
  "expire_op cf en = reading pending_approval_jobs (each_op (expire_candidate cf en))"

section \<open>Observation\<close>

fun reported_status :: "worker_status \<Rightarrow> job_status" where
  "reported_status WkQueued = JQueued" | "reported_status WkRunning = JRunning"
| "reported_status WkCompleted = JCompleted" | "reported_status WkFailed = JFailed"
| "reported_status WkCancelled = JCancelled" | "reported_status WkQuarantined = JFailed"

definition starts_with :: "string \<Rightarrow> string \<Rightarrow> bool" where
  "starts_with p s \<longleftrightarrow> take (length p) s = p"

definition cleanup_error :: "job \<Rightarrow> bool" where
  "cleanup_error j \<longleftrightarrow> (case job_error j of None \<Rightarrow> False | Some e \<Rightarrow> starts_with ''AGENT_RECONCILIATION_REQUIRED:'' e)"

definition settled_at :: "svc_env \<Rightarrow> job \<Rightarrow> job_status \<Rightarrow> time option" where
  "settled_at en j st = (if job_status j = st then job_finished j else Some (en_now en))"

text \<open>The entries of the patch in the order in which the source sets them; a later entry wins.\<close>

definition outcome_patch :: "svc_env \<Rightarrow> job \<Rightarrow> worker_report \<Rightarrow> patch_field list" where
  "outcome_patch en j r = (let st = reported_status (wr_status r) in
     if st = JCompleted then
       [PResult (wr_result r), PThread (wr_execution r)]
       @ (if wr_tokens r \<noteq> None then [PTokens (wr_tokens r)] else [])
       @ (if wr_receipt r \<noteq> None then [PReceipt (wr_receipt r)] else [])
       @ [PError None, PFinished (settled_at en j st)]
     else if st = JFailed then
       [PResult None,
        PError (Some (case wr_error r of Some e \<Rightarrow> e
          | None \<Rightarrow> if wr_status r = WkQuarantined
              then ''AZURE_DISPATCH_QUARANTINED: durable worker delivery was quarantined.''
              else ''AZURE_DISPATCH_FAILED: durable worker execution failed.'')),
        PFinished (settled_at en j st)]
     else if st = JCancelled then [PResult None, PError None, PFinished (settled_at en j st)]
     else [])"

definition observation_patch :: "svc_config \<Rightarrow> svc_env \<Rightarrow> job \<Rightarrow> worker_report \<Rightarrow> patch_field list" where
  "observation_patch cf en j r =
     [PStatus (reported_status (wr_status r))]
     @ (if wr_cli r \<noteq> None then [PCli (wr_cli r)] else [])
     @ (case wr_tools r of None \<Rightarrow> [] | Some us \<Rightarrow> if us = [] then []
          else [PTools (Some (merge_tools (h_redact (cf_host cf)) (tools_of j) us))])
     @ (if reported_status (wr_status r) = JRunning \<and> job_started j = None then [PStarted (Some (en_now en))] else [])
     @ outcome_patch en j r
     @ (if terminal_status (job_status j) \<and> cleanup_error j then [PError (job_error j)] else [])"

definition reconcile_observation :: "svc_config \<Rightarrow> svc_env \<Rightarrow> job \<Rightarrow> scope \<Rightarrow> job option svc_op" where
  "reconcile_observation cf en j sc = (case en_report en j of
       Inl m \<Rightarrow> raise_op (SeDispatcher m)
     | Inr None \<Rightarrow> next_op (deliver cf en j sc) (\<lambda>u. return_op (Some u))
     | Inr (Some r) \<Rightarrow>
         if terminal_status (job_status j) \<and> \<not> terminal_status (reported_status (wr_status r))
         then return_op (Some j)
         else next_op (update_op cf en (job_id j) sc (observation_patch cf en j r)) (\<lambda>u. case u of
             None \<Rightarrow> return_op None
           | Some w \<Rightarrow> next_op (deliver cf en w sc) (\<lambda>d. return_op (Some d))))"

definition observe_op :: "svc_config \<Rightarrow> svc_env \<Rightarrow> string \<Rightarrow> scope \<Rightarrow> job option svc_op" where
  "observe_op cf en i sc = find_job i sc (\<lambda>j.
     if job_status j = JAwaiting then return_op (Some j)
     else next_op (reconcile_observation cf en j sc) (\<lambda>r.
       next_op (case r of None \<Rightarrow> return_op ()
         | Some u \<Rightarrow> if \<not> terminal_status (job_status j) \<and> terminal_status (job_status u)
             then finalize_admission cf en u sc else return_op ()) (\<lambda>_. return_op r)))"

definition poll_skips :: "job \<Rightarrow> bool" where
  "poll_skips j \<longleftrightarrow> job_status j = JAwaiting \<or> (job_status j = JCancelled \<and> job_cancel_requested j = None)
     \<or> (terminal_status (job_status j) \<and> (case job_notifications j of None \<Rightarrow> True
          | Some n \<Rightarrow> \<not> nt_enabled n \<or> (\<exists>v \<in> set_option (notify_status_of (job_status j)). v \<in> set (nt_delivered n))))"

definition poll_op :: "svc_config \<Rightarrow> svc_env \<Rightarrow> unit svc_op" where
  "poll_op cf en = reading jobs_of (each_op (\<lambda>j. case scope_for_job j of
       None \<Rightarrow> return_op ()
     | Some sc \<Rightarrow> if poll_skips j then return_op () else ignore (observe_op cf en (job_id j) sc)))"

section \<open>Cancellation\<close>

definition cancel_external :: "svc_config \<Rightarrow> svc_env \<Rightarrow> job \<Rightarrow> scope \<Rightarrow> job option svc_op" where
  "cancel_external cf en j sc =
     next_op (if job_cancel_requested j \<noteq> None then return_op j
       else case en_cancel en of
         Some m \<Rightarrow> raise_op (SeDispatcher m)
       | None \<Rightarrow> next_op (update_op cf en (job_id j) sc [PCancelRequested (Some (en_now en))]) (\<lambda>r.
           return_op (case r of None \<Rightarrow> j | Some u \<Rightarrow> u))) (\<lambda>q.
     reconcile_observation cf en q sc)"

definition cancel_waiting :: "svc_config \<Rightarrow> svc_env \<Rightarrow> string \<Rightarrow> scope \<Rightarrow> job option svc_op" where
  "cancel_waiting cf en i sc =
     next_op (update_op cf en i sc [PStatus JCancelled, PFinished (Some (en_now en))]) (\<lambda>r. case r of
       Some u \<Rightarrow> return_op (Some u)
     | None \<Rightarrow> find_job i sc (\<lambda>latest. raise_op (SeConflict ActCancel latest)))"

definition cancel_op ::
  "svc_config \<Rightarrow> svc_env \<Rightarrow> string \<Rightarrow> scope \<Rightarrow> bool \<Rightarrow> bool \<Rightarrow> provider option \<Rightarrow> job option svc_op" where
  "cancel_op cf en i sc strict notify requested = find_job i sc (\<lambda>j.
     next_op (if job_mode j = WorkspaceWrite then assert_mutation_allowed cf sc else return_op ()) (\<lambda>_.
     if \<not> active_status (job_status j)
     then (if strict then raise_op (SeConflict ActCancel j) else return_op None)
     else
       next_op (provider_for_job j requested) (\<lambda>_.
       next_op (if job_status j \<noteq> JAwaiting then cancel_external cf en j sc else cancel_waiting cf en i sc) (\<lambda>r.
       next_op (case r of None \<Rightarrow> return_op ()
         | Some u \<Rightarrow> if terminal_status (job_status u) then finalize_admission cf en u sc else return_op ()) (\<lambda>_.
       next_op (case r of None \<Rightarrow> return_op ()
         | Some u \<Rightarrow> if notify \<and> job_status j = JAwaiting \<and> job_status u = JCancelled
             then ignore (notify_op en u NoteCancelled PhCancelled (''Job '' @ i @ '' was cancelled.''))
             else return_op ()) (\<lambda>_. return_op r))))))"

definition cancel_strict ::
  "svc_config \<Rightarrow> svc_env \<Rightarrow> string \<Rightarrow> scope \<Rightarrow> bool \<Rightarrow> provider option \<Rightarrow> job option svc_op" where
  "cancel_strict cf en i sc notify requested =
     next_op (assert_mutation_allowed cf sc) (\<lambda>_. cancel_op cf en i sc True notify requested)"

section \<open>Reconciliation and commit\<close>

definition progress_op :: "svc_env \<Rightarrow> string \<Rightarrow> scope \<Rightarrow> string \<Rightarrow> job option svc_op" where
  "progress_op en i sc message = write_jobs (append_progress i sc message (en_now en))"

definition reconciled_text :: string where
  "reconciled_text = ''AGENT_OPERATOR_RECONCILED: an operator settled the unresolved job as failed.''"

definition cleanup_done_text :: string where
  "cleanup_done_text = ''AGENT_CLEANUP_RECONCILED: the cleanup was completed by an operator.''"

text \<open>\<open>reconcileTerminal\<close>. Its in-memory record of failed writes is filled by the local runners only,
  so a running job is what has no terminal state yet. \<open>Inl\<close> of the guarded part is the caught error.\<close>

definition reconcile_op :: "svc_config \<Rightarrow> svc_env \<Rightarrow> string \<Rightarrow> scope \<Rightarrow> job option svc_op" where
  "reconcile_op cf en i sc =
     next_op (assert_mutation_allowed cf sc) (\<lambda>_.
     find_job i sc (\<lambda>j.
     reading (\<lambda>s. terminal_status (job_status j) \<and> (cleanup_error j \<or> requires_reconciliation i (adm_live (sv_adm s)))) (\<lambda>cleanup.
     (let running = (job_status j = JRunning) in
      if \<not> running \<and> \<not> cleanup then return_op (Some j)
      else
        next_op (if running then update_op cf en i sc [PStatus JFailed, PError (Some reconciled_text),
              PFinished (Some (en_now en))] else return_op (Some j)) (\<lambda>r. case r of
          None \<Rightarrow> return_op None
        | Some u \<Rightarrow>
            next_op (catch_op
              (next_op (finalize_admission cf en u sc) (\<lambda>_.
               next_op (if cleanup \<and> \<not> running then drop_result (progress_op en i sc cleanup_done_text) else return_op ())
                 (\<lambda>_. return_op True)))
              (\<lambda>_. return_op False)) (\<lambda>ok.
            if \<not> ok then reading (\<lambda>s. get_job i sc (jobs_of s)) return_op
            else if cleanup \<and> \<not> running
            then update_op cf en i sc [PError (if cleanup_error u then None else job_error u)]
            else return_op (Some u)))))))"

definition commit_op :: "svc_config \<Rightarrow> svc_env \<Rightarrow> string \<Rightarrow> scope \<Rightarrow> job option svc_op" where
  "commit_op cf en i sc =
     next_op (assert_mutation_allowed cf sc) (\<lambda>_.
     find_job i sc (\<lambda>j.
     if job_status j \<noteq> JCompleted then return_op (Some j)
     else if job_mode j \<noteq> WorkspaceWrite then
       next_op (update_op cf en i sc [PCommitMessage (Some ''A read-only job cannot be committed.'')]) (\<lambda>_.
       reading (\<lambda>s. get_job i sc (jobs_of s)) return_op)
     else if recorded_paths j = None then
       next_op (update_op cf en i sc [PCommitMessage (Some ''The recorded paths of the job prove no ownership; the commit was stopped.'')]) (\<lambda>_.
       reading (\<lambda>s. get_job i sc (jobs_of s)) return_op)
     else case en_git en of
       Inl _ \<Rightarrow> raise_op SeGit
     | Inr (None, message) \<Rightarrow>
         next_op (update_op cf en i sc [PCommitMessage (Some message)]) (\<lambda>_.
         reading (\<lambda>s. get_job i sc (jobs_of s)) return_op)
     | Inr (Some hash, message) \<Rightarrow>
         next_op (update_op cf en i sc [PCommit (Some hash), PCommitMessage (Some message)]) (\<lambda>r. case r of
           None \<Rightarrow> return_op None
         | Some u \<Rightarrow> next_op (ignore (notify_op en u NoteResult PhCommit (''Job '' @ i @ '': '' @ message))) (\<lambda>_. return_op (Some u)))))"

section \<open>Start\<close>

definition adm_records :: "job list \<Rightarrow> adm_record list" where
  "adm_records jobs = map (\<lambda>j. \<lparr>rc_id = job_id j, rc_tenant = the (job_tenant j), rc_requester = job_requester j,
     rc_status = job_status j\<rparr>) (filter (\<lambda>j. present (job_tenant j)) jobs)"

definition restart_marker :: string where
  "restart_marker = ''AGENT_RECONCILIATION_REQUIRED: an unfinished cleanup was found at the restart. An operator has to recover it.''"

definition mark_cleanup :: "svc_config \<Rightarrow> svc_env \<Rightarrow> job \<Rightarrow> unit svc_op" where
  "mark_cleanup cf en j = (case scope_for_job j of
       None \<Rightarrow> return_op ()
     | Some sc \<Rightarrow> reading (\<lambda>s. requires_reconciliation (job_id j) (adm_live (sv_adm s))) (\<lambda>needed.
         if \<not> terminal_status (job_status j) \<or> \<not> needed then return_op ()
         else if \<not> present (job_error j)
         then drop_result (update_op cf en (job_id j) sc [PError (Some restart_marker)])
         else if \<not> cleanup_error j then drop_result (progress_op en (job_id j) sc restart_marker)
         else return_op ()))"

definition reconstruct_admission :: "svc_config \<Rightarrow> svc_env \<Rightarrow> unit svc_op" where
  "reconstruct_admission cf en = reading jobs_of (\<lambda>jobs.
     next_op (write_adm (en_now en) None (reconstruct (adm_records jobs) (cf_retry cf) (en_now en))) (\<lambda>_.
     reading jobs_of (each_op (mark_cleanup cf en))))"

definition observe_started :: "svc_config \<Rightarrow> svc_env \<Rightarrow> job \<Rightarrow> unit svc_op" where
  "observe_started cf en j = (case scope_for_job j of
       None \<Rightarrow> return_op ()
     | Some sc \<Rightarrow> if job_status j = JAwaiting then return_op ()
                  else drop_result (observe_op cf en (job_id j) sc))"

text \<open>\<open>initialize\<close>, after the store and the journal have been loaded.\<close>

definition start_op :: "svc_config \<Rightarrow> svc_env \<Rightarrow> unit svc_op" where
  "start_op cf en = reading jobs_of (\<lambda>jobs. case find (\<lambda>j. job_provider j = None) jobs of
       Some j \<Rightarrow> raise_op (SeNoIdentity j)
     | None \<Rightarrow>
         next_op (reconstruct_admission cf en) (\<lambda>_.
         next_op (reading jobs_of (each_op (observe_started cf en))) (\<lambda>_.
         expire_op cf en)))"

section \<open>Readers\<close>

definition latest_completed_for_conversation :: "svc_config \<Rightarrow> scope \<Rightarrow> svc \<Rightarrow> job option" where
  "latest_completed_for_conversation cf sc s = find (\<lambda>j. job_status j = JCompleted
     \<and> job_provider j = Some (cf_default cf)
     \<and> map_option nt_enabled (job_notifications j) \<noteq> Some False
     \<and> (present (job_thread j) \<or> (job_provider j = Some Codex \<and> job_mode j = ReadOnly)))
     (filter (\<lambda>j. matches_scope j sc) (jobs_of s))"

text \<open>The context of a fresh execution: results of completed ancestors, newest first while the loop
  runs. The loop's exit conditions bound it by what it has seen.\<close>

record context_entry =
  ce_request :: string
  ce_result :: string
  ce_truncated :: bool

definition context_entry_of :: "job \<Rightarrow> context_entry list" where
  "context_entry_of j = (if job_status j = JCompleted \<and> present (job_result j)
     then [\<lparr>ce_request = job_prompt j, ce_result = take 4000 (the (job_result j)),
            ce_truncated = (4000 < length (the (job_result j)))\<rparr>] else [])"

partial_function (option) follow_up_loop ::
  "job list \<Rightarrow> scope \<Rightarrow> string list \<Rightarrow> context_entry list \<Rightarrow> string option \<Rightarrow> context_entry list option" where
  [code]: "follow_up_loop jobs sc seen found parent =
     (if \<not> present parent \<or> 9 \<le> length seen \<or> 4 \<le> length found then Some found
      else if the parent \<in> set seen then Some found
      else case get_job (the parent) sc jobs of
        None \<Rightarrow> Some found
      | Some p \<Rightarrow>
          if job_provider p \<noteq> Some Codex \<or> job_mode p \<noteq> ReadOnly then Some found
          else follow_up_loop jobs sc (the parent # seen) (found @ context_entry_of p) (job_parent p))"

text \<open>\<open>readOnlyFollowUpPrompt\<close>: the prompt alone, or with the records, oldest first.\<close>

definition follow_up_context :: "job list \<Rightarrow> scope \<Rightarrow> job \<Rightarrow> context_entry list option" where
  "follow_up_context jobs sc j =
     (if job_provider j \<noteq> Some Codex \<or> job_mode j \<noteq> ReadOnly \<or> \<not> present (job_parent j) then Some []
      else map_option rev (follow_up_loop jobs sc [job_id j] [] (job_parent j)))"

end
