(* ===== verification/AgentRuns.thy ===== *)
theory AgentRuns
  imports AgentLifecycle
begin

text \<open>
  Every operation of the agent service is a run of mutations of the job store and of the admission
  controller: the composition the parts' invariants are carried over with. Along the run no finished
  job is opened again.
\<close>

section \<open>The relation between the states of an operation\<close>

definition keeps_finished :: "job list \<Rightarrow> job list \<Rightarrow> bool" where
  "keeps_finished jobs jobs' \<longleftrightarrow> (\<forall>i sc j. get_job i sc jobs = Some j \<longrightarrow> terminal_status (job_status j)
     \<longrightarrow> (\<exists>u. get_job i sc jobs' = Some u \<and> terminal_status (job_status u)))"

text \<open>The flag tells whether the run may rebuild the reservations, which only a start does.\<close>

definition svc_rel :: "svc_config \<Rightarrow> bool \<Rightarrow> svc \<Rightarrow> svc \<Rightarrow> bool" where
  "svc_rel cf b s s' \<longleftrightarrow>
     (\<exists>evs. steps_of (store_step (cf_host cf)) (sv_jobs s) evs (sv_jobs s')
        \<and> (\<forall>ev \<in> set evs. good_random (cf_host cf) (fst ev)))
     \<and> (\<exists>evs. steps_of (adm_step (cf_limits cf)) (sv_adm s) evs (sv_adm s')
        \<and> (\<forall>ev \<in> set evs. is_reconstruct (fst ev) \<longrightarrow> b))
     \<and> keeps_finished (jobs_of s) (jobs_of s')"

lemma keeps_finished_refl [simp]: "keeps_finished jobs jobs"
  by (simp add: keeps_finished_def)

lemma keeps_finished_trans: "keeps_finished a b \<Longrightarrow> keeps_finished b c \<Longrightarrow> keeps_finished a c"
  unfolding keeps_finished_def by meson

lemma svc_rel_frame: "sv_jobs s' = sv_jobs s \<Longrightarrow> sv_adm s' = sv_adm s \<Longrightarrow> svc_rel cf b s s'"
  unfolding svc_rel_def jobs_of_def by (auto intro: exI [of _ "[]"])

lemma svc_rel_refl [simp]: "svc_rel cf b s s"
  by (rule svc_rel_frame) simp_all

lemma svc_rel_trans:
  assumes "svc_rel cf b s s'" and "svc_rel cf b s' s''"
  shows "svc_rel cf b s s''"
proof -
  obtain es as where e: "steps_of (store_step (cf_host cf)) (sv_jobs s) es (sv_jobs s')"
    "\<forall>ev \<in> set es. good_random (cf_host cf) (fst ev)"
    "steps_of (adm_step (cf_limits cf)) (sv_adm s) as (sv_adm s')" "\<forall>ev \<in> set as. is_reconstruct (fst ev) \<longrightarrow> b"
    using assms(1) unfolding svc_rel_def by blast
  obtain es' as' where e': "steps_of (store_step (cf_host cf)) (sv_jobs s') es' (sv_jobs s'')"
    "\<forall>ev \<in> set es'. good_random (cf_host cf) (fst ev)"
    "steps_of (adm_step (cf_limits cf)) (sv_adm s') as' (sv_adm s'')" "\<forall>ev \<in> set as'. is_reconstruct (fst ev) \<longrightarrow> b"
    using assms(2) unfolding svc_rel_def by blast
  have "steps_of (store_step (cf_host cf)) (sv_jobs s) (es @ es') (sv_jobs s'')"
    "steps_of (adm_step (cf_limits cf)) (sv_adm s) (as @ as') (sv_adm s'')"
    using e e' by (auto simp: steps_of_append)
  moreover have "\<forall>ev \<in> set (es @ es'). good_random (cf_host cf) (fst ev)"
    "\<forall>ev \<in> set (as @ as'). is_reconstruct (fst ev) \<longrightarrow> b"
    using e e' by auto
  moreover have "keeps_finished (jobs_of s) (jobs_of s'')"
    using assms keeps_finished_trans unfolding svc_rel_def by blast
  ultimately show ?thesis unfolding svc_rel_def by blast
qed

text \<open>A triple: from a state with \<open>P\<close> the operation stays in the relation, and its result has \<open>Q\<close>.\<close>

definition spec :: "svc_config \<Rightarrow> bool \<Rightarrow> (svc \<Rightarrow> bool) \<Rightarrow> 'a svc_op \<Rightarrow> ('a \<Rightarrow> svc \<Rightarrow> bool) \<Rightarrow> bool" where
  "spec cf b P m Q \<longleftrightarrow> (\<forall>s. P s \<longrightarrow> svc_rel cf b s (fst (m s)) \<and> (\<forall>a. snd (m s) = Inr a \<longrightarrow> Q a (fst (m s))))"

definition tracks :: "svc_config \<Rightarrow> bool \<Rightarrow> 'a svc_op \<Rightarrow> bool" where
  "tracks cf b m \<longleftrightarrow> (\<forall>s. svc_rel cf b s (fst (m s)))"

named_theorems tracks_intros \<open>the operations that stay in the relation, by their structure\<close>

lemma tracks_spec: "spec cf b (\<lambda>_. True) m (\<lambda>_ _. True) \<longleftrightarrow> tracks cf b m"
  by (simp add: spec_def tracks_def)

lemma spec_tracks: "tracks cf b m \<Longrightarrow> spec cf b P m (\<lambda>_ _. True)"
  by (simp add: spec_def tracks_def)

lemma spec_next: "spec cf b P m Q \<Longrightarrow> (\<And>a. spec cf b (Q a) (f a) T) \<Longrightarrow> spec cf b P (next_op m f) T"
  unfolding spec_def next_op_def
  by (force split: prod.splits sum.splits intro: svc_rel_trans)

lemma spec_then: "spec cf b P m (\<lambda>_ _. True) \<Longrightarrow> (\<And>a. tracks cf b (f a)) \<Longrightarrow> spec cf b P (next_op m f) (\<lambda>_ _. True)"
  by (rule spec_next) (auto simp: tracks_spec)

lemma tracks_return [tracks_intros]: "tracks cf b (return_op a)"
  by (simp add: tracks_def return_op_def)

lemma tracks_raise [tracks_intros]: "tracks cf b (raise_op e)"
  by (simp add: tracks_def raise_op_def)

lemma tracks_next [tracks_intros]: "tracks cf b m \<Longrightarrow> (\<And>a. tracks cf b (f a)) \<Longrightarrow> tracks cf b (next_op m f)"
  unfolding tracks_spec [symmetric] by (rule spec_next)

lemma tracks_catch [tracks_intros]: "tracks cf b m \<Longrightarrow> (\<And>e. tracks cf b (h e)) \<Longrightarrow> tracks cf b (catch_op m h)"
  unfolding tracks_def catch_op_def
  by (force split: prod.splits sum.splits intro: svc_rel_trans)

lemma tracks_ignore [tracks_intros]: "tracks cf b m \<Longrightarrow> tracks cf b (ignore m)"
  by (simp add: tracks_def ignore_def)

lemma tracks_reading [tracks_intros]: "(\<And>x. tracks cf b (g x)) \<Longrightarrow> tracks cf b (reading f g)"
  by (simp add: tracks_def reading_def)

lemma tracks_if [tracks_intros]: "(c \<Longrightarrow> tracks cf b m) \<Longrightarrow> (\<not> c \<Longrightarrow> tracks cf b m') \<Longrightarrow> tracks cf b (if c then m else m')"
  by simp

lemma tracks_option [tracks_intros]:
  "(v = None \<Longrightarrow> tracks cf b m) \<Longrightarrow> (\<And>x. v = Some x \<Longrightarrow> tracks cf b (f x))
     \<Longrightarrow> tracks cf b (case v of None \<Rightarrow> m | Some x \<Rightarrow> f x)"
  by (cases v) simp_all

lemma tracks_sum [tracks_intros]:
  "(\<And>x. v = Inl x \<Longrightarrow> tracks cf b (f x)) \<Longrightarrow> (\<And>x. v = Inr x \<Longrightarrow> tracks cf b (g x))
     \<Longrightarrow> tracks cf b (case v of Inl x \<Rightarrow> f x | Inr x \<Rightarrow> g x)"
  by (cases v) simp_all

lemma tracks_pair [tracks_intros]: "(\<And>x y. v = (x, y) \<Longrightarrow> tracks cf b (f x y)) \<Longrightarrow> tracks cf b (case v of (x, y) \<Rightarrow> f x y)"
  by (cases v) simp

lemma tracks_let [tracks_intros]: "(\<And>x. x = v \<Longrightarrow> tracks cf b (f x)) \<Longrightarrow> tracks cf b (let x = v in f x)"
  by simp

lemma tracks_each [tracks_intros]: "(\<And>x. tracks cf b (f x)) \<Longrightarrow> tracks cf b (each_op f xs)"
  by (induction xs) (auto intro: tracks_intros)

lemma tracks_small [tracks_intros]:
  "tracks cf b (require c e)" "tracks cf b (check v)" "tracks cf b (checked w)" "tracks cf b (normalized_op u)"
  "tracks cf b (drop_lease i)" "tracks cf b (set_lease i t)" "tracks cf b (notify_op en j k ph text)"
  "tracks cf b (assert_mutation_allowed cf sc)" "tracks cf b (assert_read_allowed cf sc)"
  "tracks cf b (assert_mode_allowed cf mode sc)" "tracks cf b (provider_for_job j p)"
  by (auto simp: require_def check_def checked_def normalized_op_def assert_mutation_allowed_def
      assert_read_allowed_def assert_mode_allowed_def provider_for_job_def intro!: tracks_intros)
    (auto simp: tracks_def drop_lease_def set_lease_def notify_op_def Let_def split: option.splits intro!: svc_rel_frame)

lemma tracks_drop [tracks_intros]: "tracks cf b m \<Longrightarrow> tracks cf b (drop_result m)"
  unfolding drop_result_def by (intro tracks_intros)

lemma tracks_find [tracks_intros]: "(\<And>j. tracks cf b (f j)) \<Longrightarrow> tracks cf b (find_job i sc f)"
  unfolding find_job_def by (intro tracks_intros)

text \<open>A job that is looked up is the one the store holds.\<close>

definition holds_job :: "string \<Rightarrow> scope \<Rightarrow> job \<Rightarrow> svc \<Rightarrow> bool" where
  "holds_job i sc j s \<longleftrightarrow> get_job i sc (jobs_of s) = Some j"

lemma tracks_find_held:
  "(\<And>j. spec cf b (holds_job i sc j) (f j) (\<lambda>_ _. True)) \<Longrightarrow> tracks cf b (find_job i sc f)"
  by (auto simp: tracks_def spec_def find_job_def reading_def holds_job_def return_op_def split: option.split)

lemma spec_pure:
  "(\<And>s. fst (m s) = s) \<Longrightarrow> (\<And>a. spec cf b P (f a) T) \<Longrightarrow> spec cf b P (next_op m f) T"
  by (rule spec_next [where Q = "\<lambda>_. P"]) (auto simp: spec_def)

section \<open>Writes to the admission controller\<close>

lemma svc_rel_adm:
  assumes "adm_step (cf_limits cf) (sv_adm s) ev (sv_adm s')" and "is_reconstruct (fst ev) \<Longrightarrow> b"
    and "sv_jobs s' = sv_jobs s"
  shows "svc_rel cf b s s'"
  unfolding svc_rel_def jobs_of_def using assms
  by (auto intro!: exI [of _ "[]"] exI [of _ "[ev]"])

lemma tracks_adm:
  assumes "\<And>s. sound_adm op s" and "is_reconstruct op \<Longrightarrow> b"
    and f: "\<And>s. exec_adm (cf_limits cf) op s = map_sum id (map_prod id f) (m s)"
  shows "tracks cf b (write_adm now releasing m)"
  unfolding tracks_def
proof
  fix s
  obtain c r where c: "adm_mutate now releasing (write_ok s) (exec_adm (cf_limits cf) op) (sv_adm s) = (c, r)"
    by (cases "adm_mutate now releasing (write_ok s) (exec_adm (cf_limits cf) op) (sv_adm s)")
  have "sv_adm (fst (write_adm now releasing m s)) = c"
    using c by (cases "m (adm_live (sv_adm s))") (auto simp: write_adm_def adm_mutate_def f split: prod.splits if_splits)
  moreover have "adm_step (cf_limits cf) (sv_adm s) (op, r) c"
    by (rule adm_queued [OF assms(1) c])
  moreover have "sv_jobs (fst (write_adm now releasing m s)) = sv_jobs s"
    by (simp add: write_adm_def split: prod.splits)
  ultimately show "svc_rel cf b s (fst (write_adm now releasing m s))"
    using assms(2) by (intro svc_rel_adm) auto
qed

lemma tracks_adm_ops [tracks_intros]:
  "tracks cf b (write_adm now rl (release_job i))" "tracks cf b (write_adm now rl (release_token t))"
  "tracks cf b (write_adm now rl (mark_terminal_token t))"
  "tracks cf b (write_adm now rl (mark_unresolved_token t f retry clock))"
  "tracks cf b (write_adm now rl (mark_unresolved_job i f retry clock))"
  by (rule tracks_adm [where op = "AcReleaseJob i"] tracks_adm [where op = "AcRelease t"]
      tracks_adm [where op = "AcTerminal t"] tracks_adm [where op = "AcUnresolved t f retry clock"]
      tracks_adm [where op = "AcUnresolvedJob i f retry clock"]; simp)+

section \<open>Writes to the job store\<close>

lemma svc_rel_jobs:
  assumes "store_step (cf_host cf) (sv_jobs s) ev (sv_jobs s')" and "good_random (cf_host cf) (fst ev)"
    and "sv_adm s' = sv_adm s" and "keeps_finished (jobs_of s) (jobs_of s')"
  shows "svc_rel cf b s s'"
proof -
  have "steps_of (store_step (cf_host cf)) (sv_jobs s) [ev] (sv_jobs s')" using assms(1) by (rule steps_one)
  moreover have "\<forall>e \<in> set [ev]. good_random (cf_host cf) (fst e)" using assms(2) by simp
  moreover have "steps_of (adm_step (cf_limits cf)) (sv_adm s) [] (sv_adm s')" using assms(3) by simp
  ultimately show ?thesis unfolding svc_rel_def using assms(4) by (metis empty_iff list.set(1))
qed

lemma write_jobs_step:
  assumes f: "\<And>jobs. exec_op (cf_host cf) op jobs = returning f (m jobs)" and "plain_op op"
    and "fresh_op op (jobs_of s)" and "good_random (cf_host cf) op"
    and keeps: "\<And>jobs' a. m (jobs_of s) = Inr (jobs', a) \<Longrightarrow> keeps_finished (jobs_of s) jobs'"
  shows "svc_rel cf b s (fst (write_jobs m s))"
proof -
  obtain st r where st: "enqueue_mutation True (write_ok s) (exec_op (cf_host cf) op) (sv_jobs s) = (st, r)"
    by (cases "enqueue_mutation True (write_ok s) (exec_op (cf_host cf) op) (sv_jobs s)")
  have s': "sv_jobs (fst (write_jobs m s)) = st" "sv_adm (fst (write_jobs m s)) = sv_adm s"
    using st by (cases "m (js_jobs (sv_jobs s))";
      auto simp: write_jobs_def enqueue_mutation_def f returning_def split: prod.splits if_splits)+
  have "store_step (cf_host cf) (sv_jobs s) (op, r) st"
    by (rule queued [OF assms(2) _ st]) (use assms(3) in \<open>simp add: jobs_of_def\<close>)
  moreover have "keeps_finished (jobs_of s) (js_jobs st)"
    using st keeps unfolding jobs_of_def
    by (cases "m (js_jobs (sv_jobs s))") (auto simp: enqueue_mutation_def f returning_def split: prod.splits if_splits)
  ultimately show ?thesis
    using assms(4) s' by (intro svc_rel_jobs [where ev = "(op, r)"]) (simp_all add: jobs_of_def)
qed

lemma get_job_index: "get_job i sc jobs = map_option ((!) jobs) (scoped_index i sc jobs)"
  unfolding get_job_def scoped_index_def by (rule find_find_index)

text \<open>Replacing a job by a successor with its name and owner, which is finished when the job is.\<close>

lemma find_update_seen:
  assumes "find_index P jobs = Some k" and "P u"
  shows "find P (jobs[k := u]) = Some u"
  using assms by (induction jobs arbitrary: k) (auto split: if_splits)

lemma keeps_finished_update:
  assumes k: "scoped_index i sc jobs = Some k" and "job_id u = i" and "matches_scope u sc"
    and "terminal_status (job_status (jobs ! k)) \<Longrightarrow> terminal_status (job_status u)"
  shows "keeps_finished jobs (jobs[k := u])"
  unfolding keeps_finished_def
proof (intro allI impI)
  fix i' sc' j
  assume j: "get_job i' sc' jobs = Some j" "terminal_status (job_status j)"
  note at = scoped_index_Some [OF k]
  show "\<exists>w. get_job i' sc' (jobs[k := u]) = Some w \<and> terminal_status (job_status w)"
  proof (cases "i' = i \<and> sc' = sc")
    case True
    then have "get_job i' sc' (jobs[k := u]) = Some u"
      using k assms(2,3) unfolding get_job_def scoped_index_def by (intro find_update_seen) auto
    moreover have "j = jobs ! k" using j(1) k True by (simp add: get_job_index)
    ultimately show ?thesis using assms(4) j(2) by auto
  next
    case False
    then have "\<not> (job_id (jobs ! k) = i' \<and> matches_scope (jobs ! k) sc')" "\<not> (job_id u = i' \<and> matches_scope u sc')"
      using at assms(2,3) matches_scope_unique by metis+
    then have "get_job i' sc' (jobs[k := u]) = get_job i' sc' jobs"
      unfolding get_job_def by (rule find_update_unseen)
    then show ?thesis using j by simp
  qed
qed

lemma keeps_finished_insert: "job_id j \<notin> set (map job_id jobs) \<Longrightarrow> keeps_finished jobs (j # jobs)"
  unfolding keeps_finished_def get_job_def by (auto dest!: find_Some_mem intro: rev_image_eqI)

text \<open>An update that names no key of the record and does not open a finished job.\<close>

definition closing_patch :: "job \<Rightarrow> patch_field list \<Rightarrow> bool" where
  "closing_patch j p \<longleftrightarrow> plain_patch p
     \<and> (terminal_status (job_status j) \<longrightarrow> terminal_status (job_status (apply_patch p j)))"

lemma update_op_rel:
  assumes "plain_patch patch" and "\<And>j. get_job i sc (jobs_of s) = Some j \<Longrightarrow> closing_patch j patch"
  shows "svc_rel cf b s (fst (update_op cf en i sc patch s))"
  unfolding update_op_def
proof (rule write_jobs_step [where op = "OpUpdate i sc patch (en_now en)" and f = RJob])
  fix jobs' a
  assume u: "update_jobs (h_sha (cf_host cf)) i sc patch (en_now en) (jobs_of s) = Inr (jobs', a)"
  show "keeps_finished (jobs_of s) jobs'"
  proof (cases "scoped_index i sc (jobs_of s)")
    case None
    then show ?thesis using u by (simp add: update_jobs_def)
  next
    case (Some k)
    obtain w where w: "update_job (h_sha (cf_host cf)) (jobs_of s ! k) patch (en_now en) = Inr w"
      and jobs': "jobs' = (jobs_of s)[k := w]"
      using u Some by (auto simp: update_jobs_def split: sum.splits)
    have step: "job_step True (jobs_of s ! k) w" using update_job_step [OF w] assms(1) by simp
    have "closing_patch (jobs_of s ! k) patch" using assms(2) Some by (simp add: get_job_index)
    moreover have "job_status w = job_status (apply_patch patch (jobs_of s ! k))"
      using w by (cases rule: update_job_Inr) simp
    ultimately have "terminal_status (job_status (jobs_of s ! k)) \<Longrightarrow> terminal_status (job_status w)"
      by (simp add: closing_patch_def)
    moreover have "job_id w = i" "matches_scope w sc"
      using step scoped_index_Some [OF Some] job_extends_matches(1) by (auto simp: job_step_def same_ids_def)
    ultimately show ?thesis unfolding jobs' by (intro keeps_finished_update [OF Some])
  qed
qed (use assms in simp_all)

lemma tracks_update:
  "plain_patch patch \<Longrightarrow> (\<And>j. closing_patch j patch) \<Longrightarrow> tracks cf b (update_op cf en i sc patch)"
  unfolding tracks_def by (intro allI update_op_rel)

lemma spec_update:
  "plain_patch patch \<Longrightarrow> closing_patch j patch
     \<Longrightarrow> spec cf b (holds_job i sc j) (update_op cf en i sc patch) (\<lambda>_ _. True)"
  unfolding spec_def holds_job_def by (auto intro: update_op_rel)

lemmas closing_defs = closing_patch_def plain_patch_def terminal_status_def

lemma tracks_updates [tracks_intros]:
  "tracks cf b (update_op cf en i sc [PError v])" "tracks cf b (update_op cf en i sc [PCommitMessage v])"
  "tracks cf b (update_op cf en i sc [PCommit w, PCommitMessage v])"
  "tracks cf b (update_op cf en i sc [PNotifications n])" "tracks cf b (update_op cf en i sc [PCancelRequested t])"
  "tracks cf b (update_op cf en i sc [PStatus JCancelled, PFinished t])"
  "tracks cf b (update_op cf en i sc [PStatus JFailed, PError v, PFinished t])"
  by (rule tracks_update; simp add: closing_defs)+

lemma tracks_progress [tracks_intros]: "tracks cf b (progress_op en i sc message)"
  unfolding tracks_def progress_op_def
proof
  fix s
  show "svc_rel cf b s (fst (write_jobs (append_progress i sc message (en_now en)) s))"
  proof (rule write_jobs_step [where op = "OpProgress i sc message (en_now en)" and f = RJob])
    fix jobs' a
    assume u: "append_progress i sc message (en_now en) (jobs_of s) = Inr (jobs', a)"
    show "keeps_finished (jobs_of s) jobs'"
    proof (cases "scoped_index i sc (jobs_of s)")
      case (Some k)
      note at = scoped_index_Some [OF Some]
      consider "jobs' = jobs_of s" | w where "jobs' = (jobs_of s)[k := w]" "job_id w = job_id (jobs_of s ! k)"
        "matches_scope w sc" "job_status w = job_status (jobs_of s ! k)"
        using u Some at by (auto simp: append_progress_def Let_def matches_scope_def split: if_splits)
      then show ?thesis by cases (use at keeps_finished_update [OF Some] in auto)
    qed (use u in \<open>simp add: append_progress_def\<close>)
  qed simp_all
qed

section \<open>The operations\<close>

lemma decide_job_status:
  assumes "decide_job sha j sc r d now = Inr res" and "terminal_status (job_status j)"
  shows "job_status (dr_job res) = job_status j"
proof -
  obtain t where t: "transition_approval sha j sc r d now = Inr t"
    using assms by (auto simp: decide_job_def split: sum.splits)
  let ?u = "apply_patch (tr_patch t @ (if tr_replayed t then [] else [PUpdated (Some now)])) j"
  obtain v where v: "read_approval sha (job_approval ?u) ?u = Inr v"
    using assms t by (auto simp: decide_job_def Let_def split: sum.splits)
  have "dr_job res = ?u"
    using assms t v read_approval_id [OF v] by (auto simp: decide_job_def Let_def)
  with t assms(2) show ?thesis
    by (cases rule: transition_cases) (auto simp: terminal_status_def)
qed

lemma tracks_decide [tracks_intros]: "tracks cf b (write_jobs (decide_approval (h_sha (cf_host cf)) i sc r d now))"
  unfolding tracks_def
proof
  fix s
  show "svc_rel cf b s (fst (write_jobs (decide_approval (h_sha (cf_host cf)) i sc r d now) s))"
  proof (rule write_jobs_step [where op = "OpDecide i sc r d now" and f = RDecision])
    fix jobs' a
    assume u: "decide_approval (h_sha (cf_host cf)) i sc r d now (jobs_of s) = Inr (jobs', a)"
    show "keeps_finished (jobs_of s) jobs'"
    proof (cases "scoped_index i sc (jobs_of s)")
      case (Some k)
      note at = scoped_index_Some [OF Some]
      obtain res where res: "decide_job (h_sha (cf_host cf)) (jobs_of s ! k) sc r d now = Inr res"
        and jobs': "jobs' = (jobs_of s)[k := dr_job res]"
        using u Some by (auto simp: decide_approval_def split: sum.splits)
      have "matches_scope (dr_job res) sc"
        using job_extends_matches(1) [OF decide_job_extends(1) [OF res]] at by simp
      then show ?thesis
        unfolding jobs' using keeps_finished_update [OF Some] decide_job_extends(2) [OF res] at decide_job_status [OF res]
        by simp
    qed (use u in \<open>simp add: decide_approval_def\<close>)
  qed simp_all
qed

lemma tracks_release [tracks_intros]: "tracks cf b (release_reservation en i)"
  unfolding release_reservation_def by (intro tracks_intros)

lemma tracks_unresolved [tracks_intros]: "tracks cf b (mark_unresolved cf en i failure)"
  unfolding mark_unresolved_def by (intro tracks_intros)

lemma tracks_finalize [tracks_intros]: "tracks cf b (finalize_admission cf en j sc)"
  unfolding finalize_admission_def by (intro tracks_intros)

lemma tracks_dispatch [tracks_intros]: "tracks cf b (dispatch_externally cf en j sc)"
  unfolding dispatch_externally_def by (intro tracks_intros)

lemma tracks_card [tracks_intros]: "tracks cf b (send_card cf en j v)"
  unfolding send_card_def by (cases v) (simp_all add: tracks_small)

lemma tracks_deliver [tracks_intros]: "tracks cf b (deliver cf en j sc)"
  unfolding deliver_def by (intro tracks_intros)

lemma tracks_finalize_cancellation [tracks_intros]: "tracks cf b (finalize_approval_cancellation cf en res sc)"
  unfolding finalize_approval_cancellation_def by (intro tracks_intros)

lemma tracks_accept_checks [tracks_intros]: "tracks cf b (accept_checks cf en j d)"
  unfolding accept_checks_def by (intro tracks_intros)

lemma tracks_decide_op [tracks_intros]: "tracks cf b (decide_op cf en i sc r d)"
  unfolding decide_op_def by (intro tracks_intros)

lemma tracks_approve_op: "tracks cf b (approve_op cf en i sc)"
  unfolding approve_op_def by (intro tracks_intros)

lemma tracks_expire_op [tracks_intros]: "tracks cf b (expire_op cf en)"
  unfolding expire_op_def expire_candidate_def by (intro tracks_intros)

lemma outcome_patch_status: "job_status (apply_patch (outcome_patch en j r) u) = job_status u"
  by (simp add: outcome_patch_def Let_def)

lemma apply_patch_append: "apply_patch (p @ q) j = apply_patch q (apply_patch p j)"
  by (simp add: apply_patch_def)

lemma observation_patch_closing:
  assumes "\<not> (terminal_status (job_status j) \<and> \<not> terminal_status (reported_status (wr_status r)))"
  shows "closing_patch j (observation_patch cf en j r)"
proof -
  have "plain_patch (observation_patch cf en j r)"
    by (auto simp: plain_patch_def observation_patch_def outcome_patch_def Let_def split: option.splits)
  moreover have "job_status (apply_patch (observation_patch cf en j r) j) = reported_status (wr_status r)"
    by (auto simp: observation_patch_def apply_patch_append outcome_patch_status split: option.splits)
  ultimately show ?thesis using assms by (simp add: closing_patch_def)
qed

lemma spec_reconcile: "spec cf b (holds_job (job_id j) sc j) (reconcile_observation cf en j sc) (\<lambda>_ _. True)"
proof (cases "en_report en j")
  case (Inl m)
  then show ?thesis
    unfolding reconcile_observation_def by (simp add: spec_tracks tracks_raise)
next
  case (Inr v)
  show ?thesis
  proof (cases v)
    case None
    then show ?thesis
      unfolding reconcile_observation_def using Inr by (simp add: spec_tracks) (intro spec_tracks tracks_intros)
  next
    case (Some r)
    show ?thesis
    proof (cases "terminal_status (job_status j) \<and> \<not> terminal_status (reported_status (wr_status r))")
      case True
      then show ?thesis
        unfolding reconcile_observation_def using Inr Some by (simp add: spec_tracks tracks_return)
    next
      case False
      note c = observation_patch_closing [OF False, of cf en]
      then have "plain_patch (observation_patch cf en j r)" by (simp add: closing_patch_def)
      then have "spec cf b (holds_job (job_id j) sc j) (update_op cf en (job_id j) sc (observation_patch cf en j r)) (\<lambda>_ _. True)"
        using c by (rule spec_update)
      moreover have "reconcile_observation cf en j sc = next_op
          (update_op cf en (job_id j) sc (observation_patch cf en j r)) (\<lambda>u. case u of None \<Rightarrow> return_op None
            | Some w \<Rightarrow> next_op (deliver cf en w sc) (\<lambda>d. return_op (Some d)))"
        using Inr Some False by (auto simp: reconcile_observation_def)
      ultimately show ?thesis by (simp only:) (rule spec_then, assumption, intro tracks_intros)
    qed
  qed
qed

lemma holds_job_id: "holds_job i sc j s \<Longrightarrow> job_id j = i"
  by (auto simp: holds_job_def get_job_def dest: find_Some_mem)

lemma spec_held: "(job_id j = i \<Longrightarrow> spec cf b (holds_job i sc j) m Q) \<Longrightarrow> spec cf b (holds_job i sc j) m Q"
  unfolding spec_def using holds_job_id by blast

lemma tracks_observe [tracks_intros]: "tracks cf b (observe_op cf en i sc)"
  unfolding observe_op_def
proof (rule tracks_find_held, rule spec_held)
  fix j :: job
  assume i: "job_id j = i"
  show "spec cf b (holds_job i sc j)
      (if job_status j = JAwaiting then return_op (Some j)
       else next_op (reconcile_observation cf en j sc) (\<lambda>r.
         next_op (case r of None \<Rightarrow> return_op ()
           | Some u \<Rightarrow> if \<not> terminal_status (job_status j) \<and> terminal_status (job_status u)
               then finalize_admission cf en u sc else return_op ()) (\<lambda>_. return_op r))) (\<lambda>_ _. True)"
  proof (cases "job_status j = JAwaiting")
    case True
    then show ?thesis by (simp add: spec_tracks tracks_return)
  next
    case False
    have "spec cf b (holds_job i sc j) (reconcile_observation cf en j sc) (\<lambda>_ _. True)"
      using spec_reconcile i by blast
    with False show ?thesis by (simp only: if_False) (rule spec_then, assumption, intro tracks_intros)
  qed
qed

lemma tracks_poll: "tracks cf b (poll_op cf en)"
  unfolding poll_op_def by (intro tracks_intros)

lemma get_job_updated:
  assumes "update_jobs sha i sc patch now jobs = Inr (jobs', Some u)" and "plain_patch patch"
  shows "get_job i sc jobs' = Some u"
proof -
  obtain k where k: "scoped_index i sc jobs = Some k" and jobs': "jobs' = jobs[k := u]"
    and u: "update_job sha (jobs ! k) patch now = Inr u"
    using assms(1) by (auto simp: update_jobs_def split: option.splits sum.splits)
  have "job_id u = i" "matches_scope u sc"
    using update_job_step [OF u] assms(2) scoped_index_Some [OF k] job_extends_matches(1)
    by (auto simp: job_step_def same_ids_def)
  then show ?thesis using k unfolding jobs' get_job_def scoped_index_def by (intro find_update_seen) auto
qed

lemma update_op_holds:
  assumes "snd (update_op cf en i sc patch s) = Inr (Some u)" and "plain_patch patch"
  shows "holds_job i sc u (fst (update_op cf en i sc patch s))"
proof -
  let ?m = "update_jobs (h_sha (cf_host cf)) i sc patch (en_now en) (js_jobs (sv_jobs s))"
  obtain jobs' v where m: "?m = Inr (jobs', v)"
    using assms(1) by (cases ?m) (auto simp: update_op_def write_jobs_def enqueue_mutation_def)
  then have ok: "write_ok s" "v = Some u"
    using assms(1) by (cases "write_ok s"; auto simp: update_op_def write_jobs_def enqueue_mutation_def)+
  then have "jobs_of (fst (update_op cf en i sc patch s)) = jobs'"
    using m by (simp add: update_op_def write_jobs_def enqueue_mutation_def jobs_of_def)
  then show ?thesis using get_job_updated [OF m [unfolded ok(2)] assms(2)] by (simp add: holds_job_def)
qed

lemma spec_cancel_external: "spec cf b (holds_job i sc j) (cancel_external cf en j sc) (\<lambda>_ _. True)"
proof (rule spec_held)
  assume i: "job_id j = i"
  let ?req = "if job_cancel_requested j \<noteq> None then return_op j
       else case en_cancel en of
         Some m \<Rightarrow> raise_op (SeDispatcher m)
       | None \<Rightarrow> next_op (update_op cf en (job_id j) sc [PCancelRequested (Some (en_now en))]) (\<lambda>r.
           return_op (case r of None \<Rightarrow> j | Some u \<Rightarrow> u))"
  have held: "holds_job i sc q (fst (?req s))" if h: "holds_job i sc j s" and q: "snd (?req s) = Inr q" for s q
  proof (cases "job_cancel_requested j \<noteq> None \<or> en_cancel en \<noteq> None")
    case True
    then show ?thesis using h q by (auto simp: return_op_def raise_op_def split: if_splits)
  next
    case False
    let ?u = "update_op cf en (job_id j) sc [PCancelRequested (Some (en_now en))]"
    have req: "?req = next_op ?u (\<lambda>r. return_op (case r of None \<Rightarrow> j | Some u \<Rightarrow> u))" using False by simp
    obtain s' r where u: "?u s = (s', r)" by (cases "?u s")
    show ?thesis
    proof (cases r)
      case (Inl e)
      then show ?thesis using q u unfolding req by (simp add: next_op_def)
    next
      case (Inr v)
      show ?thesis
      proof (cases v)
        case None
        then have "jobs_of s' = jobs_of s"
          using u Inr by (auto simp: update_op_def write_jobs_def enqueue_mutation_def update_jobs_def jobs_of_def
            split: option.splits sum.splits prod.splits if_splits)
        then show ?thesis using h q u Inr None unfolding req
          by (simp add: next_op_def return_op_def holds_job_def)
      next
        case (Some w)
        have "holds_job (job_id j) sc w (fst (?u s))"
          by (rule update_op_holds) (use u Inr Some in \<open>simp_all add: plain_patch_def\<close>)
        then show ?thesis using q u Inr Some i unfolding req by (simp add: next_op_def return_op_def)
      qed
    qed
  qed
  have "tracks cf b ?req" by (intro tracks_intros)
  then have req: "spec cf b (holds_job i sc j) ?req (\<lambda>q. holds_job i sc q)"
    using held unfolding spec_def tracks_def by blast
  have "spec cf b (holds_job i sc q) (reconcile_observation cf en q sc) (\<lambda>_ _. True)" for q
    by (rule spec_held) (use spec_reconcile in blast)
  with req show ?thesis unfolding cancel_external_def by (rule spec_next)
qed

text \<open>Operations that only look.\<close>

definition pure_op :: "'a svc_op \<Rightarrow> bool" where
  "pure_op m \<longleftrightarrow> (\<forall>s. fst (m s) = s)"

named_theorems pure_intros \<open>the operations that change nothing, by their structure\<close>

lemma pure_opD: "pure_op m \<Longrightarrow> fst (m s) = s"
  by (simp add: pure_op_def)

lemma pure_next [pure_intros]: "pure_op m \<Longrightarrow> (\<And>a. pure_op (f a)) \<Longrightarrow> pure_op (next_op m f)"
  unfolding pure_op_def next_op_def by (auto split: prod.splits sum.splits) (metis fst_conv)+

lemma pure_basic [pure_intros]:
  "pure_op (return_op a)" "pure_op (raise_op e)" "pure_op (require c e)" "pure_op (check v)" "pure_op (checked w)"
  "pure_op (normalized_op u)" "pure_op (assert_mutation_allowed cf sc)" "pure_op (assert_read_allowed cf sc)"
  "pure_op (assert_mode_allowed cf mode sc)" "pure_op (provider_for_job j p)"
  by (simp_all add: pure_op_def return_op_def raise_op_def require_def check_def checked_def normalized_op_def
      assert_mutation_allowed_def assert_read_allowed_def assert_mode_allowed_def provider_for_job_def
      split: option.splits sum.splits)

lemma pure_reading [pure_intros]: "(\<And>x. pure_op (g x)) \<Longrightarrow> pure_op (reading f g)"
  by (simp add: pure_op_def reading_def)

lemma pure_if [pure_intros]: "(c \<Longrightarrow> pure_op m) \<Longrightarrow> (\<not> c \<Longrightarrow> pure_op m') \<Longrightarrow> pure_op (if c then m else m')"
  by simp

lemma pure_cases [pure_intros]:
  "pure_op m \<Longrightarrow> (\<And>x. pure_op (f x)) \<Longrightarrow> pure_op (case v of None \<Rightarrow> m | Some x \<Rightarrow> f x)"
  "(\<And>x. pure_op (g x)) \<Longrightarrow> (\<And>x. pure_op (h x)) \<Longrightarrow> pure_op (case w of Inl x \<Rightarrow> g x | Inr x \<Rightarrow> h x)"
  by (auto split: option.split sum.split)

lemma pure_let [pure_intros]: "(\<And>x. pure_op (f x)) \<Longrightarrow> pure_op (let x = v in f x)"
  by simp

lemma spec_pure_op: "pure_op m \<Longrightarrow> (\<And>a. spec cf b P (f a) T) \<Longrightarrow> spec cf b P (next_op m f) T"
  by (rule spec_pure) (simp_all add: pure_op_def)

lemma spec_if: "(c \<Longrightarrow> spec cf b P m Q) \<Longrightarrow> (\<not> c \<Longrightarrow> spec cf b P m' Q) \<Longrightarrow> spec cf b P (if c then m else m') Q"
  by simp

lemma tracks_cancel_waiting [tracks_intros]: "tracks cf b (cancel_waiting cf en i sc)"
  unfolding cancel_waiting_def by (intro tracks_intros)

lemma tracks_cancel_op [tracks_intros]: "tracks cf b (cancel_op cf en i sc strict notify p)"
proof -
  have target: "spec cf b (holds_job i sc j)
      (if job_status j \<noteq> JAwaiting then cancel_external cf en j sc else cancel_waiting cf en i sc) (\<lambda>_ _. True)" for j
    by (rule spec_if) (simp_all add: spec_cancel_external spec_tracks tracks_cancel_waiting)
  show ?thesis
    unfolding cancel_op_def
    by (rule tracks_find_held, rule spec_pure_op, intro pure_intros, rule spec_if, rule spec_tracks,
        intro tracks_intros, rule spec_pure_op, intro pure_intros, rule spec_then, rule target, intro tracks_intros)
qed

lemma tracks_cancel_strict: "tracks cf b (cancel_strict cf en i sc notify p)"
  unfolding cancel_strict_def by (intro tracks_intros)

lemma tracks_reconcile_op: "tracks cf b (reconcile_op cf en i sc)"
  unfolding reconcile_op_def by (intro tracks_intros)

lemma tracks_commit_op: "tracks cf b (commit_op cf en i sc)"
  unfolding commit_op_def by (intro tracks_intros)

section \<open>Submission\<close>

text \<open>What the random identifiers of a submission are.\<close>

definition fresh_env :: "svc_env \<Rightarrow> svc \<Rightarrow> bool" where
  "fresh_env en s \<longleftrightarrow> en_job_id en \<noteq> [] \<and> en_job_id en \<notin> set (map job_id (jobs_of s)) \<and> uuid_text (en_uuid en)
     \<and> map_of (ad_res (adm_live (sv_adm s))) (admission_token (en_uuid en)) = None"

definition fresh_id :: "svc_env \<Rightarrow> svc \<Rightarrow> bool" where
  "fresh_id en s \<longleftrightarrow> en_job_id en \<noteq> [] \<and> en_job_id en \<notin> set (map job_id (jobs_of s)) \<and> uuid_text (en_uuid en)"

definition sha_hex :: "svc_config \<Rightarrow> bool" where
  "sha_hex cf \<longleftrightarrow> (\<forall>x. hex_text 64 (h_sha (cf_host cf) x))"

lemma pure_admit: "pure_op (admit cf en x)"
  unfolding admit_def find_replay_def replay_submission_def by (intro pure_intros)

lemma write_adm_jobs [simp]: "sv_jobs (fst (write_adm now rl op s)) = sv_jobs s"
  by (simp add: write_adm_def split: prod.splits)

lemma spec_adm:
  assumes "\<And>s. P s \<Longrightarrow> sound_adm op (adm_live (sv_adm s))" and "is_reconstruct op \<Longrightarrow> b"
    and f: "\<And>s. exec_adm (cf_limits cf) op s = map_sum id (map_prod id f) (m s)"
  shows "spec cf b P (write_adm now releasing m) (\<lambda>_ _. True)"
  unfolding spec_def
proof (intro allI impI conjI TrueI)
  fix s
  assume P: "P s"
  obtain c r where c: "adm_mutate now releasing (write_ok s) (exec_adm (cf_limits cf) op) (sv_adm s) = (c, r)"
    by (cases "adm_mutate now releasing (write_ok s) (exec_adm (cf_limits cf) op) (sv_adm s)")
  have "sv_adm (fst (write_adm now releasing m s)) = c"
    using c by (cases "m (adm_live (sv_adm s))") (auto simp: write_adm_def adm_mutate_def f split: prod.splits if_splits)
  moreover have "adm_step (cf_limits cf) (sv_adm s) (op, r) c"
    by (rule adm_queued [OF assms(1) [OF P] c])
  ultimately show "svc_rel cf b s (fst (write_adm now releasing m s))"
    using assms(2) by (intro svc_rel_adm) auto
qed

lemma spec_post:
  assumes "spec cf b P m (\<lambda>_ _. True)" and "\<And>s a. P s \<Longrightarrow> snd (m s) = Inr a \<Longrightarrow> Q a (fst (m s))"
  shows "spec cf b P m Q"
  using assms unfolding spec_def by blast

lemma spec_pre: "spec cf b P m Q \<Longrightarrow> (\<And>s. P' s \<Longrightarrow> P s) \<Longrightarrow> spec cf b P' m Q"
  unfolding spec_def by blast

lemma spec_acquire: "spec cf b (fresh_env en) (acquire_op cf en sc) (\<lambda>t s. fresh_id en s)"
  unfolding acquire_op_def
proof (rule spec_next)
  let ?w = "write_adm (en_now en) None (try_acquire (cf_limits cf) (adm_scope_of sc) (en_uuid en))"
  show "spec cf b (fresh_env en) ?w (\<lambda>_. fresh_id en)"
    by (rule spec_post, rule spec_adm [where op = "AcAcquire (adm_scope_of sc) (en_uuid en)" and f = Some])
      (simp_all add: fresh_env_def fresh_id_def jobs_of_def)
  show "spec cf b (fresh_id en) (case r of Inl rj \<Rightarrow> raise_op (SeCapacity rj) | Inr t \<Rightarrow> return_op t) (\<lambda>t. fresh_id en)" for r
    by (cases r) (simp_all add: spec_def raise_op_def return_op_def)
qed

lemma spec_create:
  assumes "sha_hex cf"
  shows "spec cf b (fresh_id en) (create_op cf en x) (\<lambda>j s. job_id j = en_job_id en \<and> job_id j \<noteq> [])"
proof (cases "build_job (h_sha (cf_host cf)) (h_url (cf_host cf)) x (en_job_id en) (en_uuid en) (en_now en)")
  case (Inl e)
  then show ?thesis by (simp add: create_op_def spec_def raise_op_def)
next
  case (Inr j)
  have id: "job_id j = en_job_id en" by (rule build_job_id [OF Inr])
  have m: "create_op cf en x = write_jobs (insert_job x j)" by (simp add: create_op_def Inr)
  show ?thesis
    unfolding m
  proof (rule spec_post)
    show "spec cf b (fresh_id en) (write_jobs (insert_job x j)) (\<lambda>_ _. True)"
      unfolding spec_def
    proof (intro allI impI conjI TrueI)
      fix s
      assume P: "fresh_id en s"
      show "svc_rel cf b s (fst (write_jobs (insert_job x j) s))"
      proof (rule write_jobs_step [where op = "OpCreate x (en_job_id en) (en_uuid en) (en_now en)" and f = "RJob \<circ> Some"])
        show "good_random (cf_host cf) (OpCreate x (en_job_id en) (en_uuid en) (en_now en))"
          using P assms by (simp add: fresh_id_def sha_hex_def revision_def del: split_paired_All)
        show "keeps_finished (jobs_of s) jobs'" if "insert_job x j (jobs_of s) = Inr (jobs', a)" for jobs' a
          using that P id keeps_finished_insert [of j "jobs_of s"]
          by (auto simp: insert_job_def fresh_id_def split: option.splits if_splits)
      qed (use P Inr in \<open>simp_all add: fresh_id_def\<close>)
    qed
    show "job_id a = en_job_id en \<and> job_id a \<noteq> []"
      if P: "fresh_id en s" and a: "snd (write_jobs (insert_job x j) s) = Inr a" for s a
    proof -
      have "a = j"
        using a by (auto simp: write_jobs_def enqueue_mutation_def insert_job_def
            split: prod.splits option.splits if_splits sum.splits)
      then show ?thesis using P id by (simp add: fresh_id_def)
    qed
  qed
qed

lemma spec_catch:
  "spec cf b P m Q \<Longrightarrow> (\<And>e. tracks cf b (h e)) \<Longrightarrow> spec cf b P (catch_op m h) (\<lambda>_ _. True)"
  unfolding spec_def tracks_def catch_op_def
  by (force split: prod.splits sum.splits intro: svc_rel_trans)

lemma spec_create_reserved:
  assumes "sha_hex cf"
  shows "spec cf b (fresh_id en) (create_reserved cf en x t) (\<lambda>_ _. True)"
  unfolding create_reserved_def
proof (rule spec_catch)
  have bind: "spec cf b (\<lambda>s. job_id j = en_job_id en \<and> job_id j \<noteq> []) (write_adm (en_now en) None (bind_job t (job_id j))) (\<lambda>_ _. True)" for j :: job
    by (rule spec_adm [where op = "AcBind t (job_id j)" and f = "\<lambda>_. None"]) auto
  have "spec cf b (\<lambda>s. job_id j = en_job_id en \<and> job_id j \<noteq> [])
      (next_op (write_adm (en_now en) None (bind_job t (job_id j))) (\<lambda>_.
       next_op (set_lease (job_id j) t) (\<lambda>_. return_op j))) (\<lambda>_ _. True)" for j :: job
    by (rule spec_then, rule bind) (intro tracks_intros)
  then show "spec cf b (fresh_id en) (next_op (create_op cf en x) (\<lambda>j.
      next_op (write_adm (en_now en) None (bind_job t (job_id j))) (\<lambda>_.
      next_op (set_lease (job_id j) t) (\<lambda>_. return_op j)))) (\<lambda>_ _. True)"
    by (rule spec_next [OF spec_create [OF assms]])
qed (intro tracks_intros)

lemma spec_submit:
  assumes "sha_hex cf"
  shows "spec cf b (fresh_env en) (submit_once cf en x) (\<lambda>_ _. True)"
  unfolding submit_once_def
proof (rule spec_pure_op [OF pure_admit], clarify)
  fix prompt p m e c
  have "spec cf b (fresh_id en) (next_op (create_reserved cf en (created_input x prompt p (m, e, c)) t) (\<lambda>j.
      next_op (if job_mode j = ReadOnly then dispatch_externally cf en j (si_scope x) else return_op ()) (\<lambda>_. return_op j)))
      (\<lambda>_ _. True)" for t
    by (rule spec_then, rule spec_create_reserved [OF assms]) (intro tracks_intros)
  then show "spec cf b (fresh_env en) (next_op (acquire_op cf en (si_scope x)) (\<lambda>t.
      next_op (create_reserved cf en (created_input x prompt p (m, e, c)) t) (\<lambda>j.
      next_op (if job_mode j = ReadOnly then dispatch_externally cf en j (si_scope x) else return_op ()) (\<lambda>_. return_op j))))
      (\<lambda>_ _. True)"
    by (rule spec_next [OF spec_acquire])
qed

lemma spec_find: "(\<And>j. spec cf b P (f j) (\<lambda>_ _. True)) \<Longrightarrow> spec cf b P (find_job i sc f) (\<lambda>_ _. True)"
  unfolding spec_def find_job_def reading_def return_op_def by (auto split: option.split)

lemma spec_successor:
  assumes "sha_hex cf"
  shows "spec cf b (fresh_env en) (next_op (submit_once cf en x) (\<lambda>u. return_op (Some u))) (\<lambda>_ _. True)"
  by (rule spec_then [OF spec_submit [OF assms]]) (intro tracks_intros)

lemma spec_continue:
  assumes "sha_hex cf"
  shows "spec cf b (fresh_env en) (continue_op cf en i prompt sc origin wanted) (\<lambda>_ _. True)"
  unfolding continue_op_def
  by (rule spec_pure_op, intro pure_intros, rule spec_find, rule spec_pure_op, intro pure_intros, rule spec_if,
      rule spec_tracks, intro tracks_intros, rule spec_pure_op, intro pure_intros, rule spec_pure_op, intro pure_intros,
      rule spec_successor [OF assms])

lemma spec_retry:
  assumes "sha_hex cf"
  shows "spec cf b (fresh_env en) (retry_op cf en i sc wanted) (\<lambda>_ _. True)"
  unfolding retry_op_def
  by (rule spec_find, rule spec_pure_op, intro pure_intros, rule spec_pure_op, intro pure_intros,
      rule spec_pure_op, intro pure_intros, rule spec_pure_op, intro pure_intros, rule spec_successor [OF assms])

section \<open>Start\<close>

definition ids_distinct :: "svc \<Rightarrow> bool" where
  "ids_distinct s \<longleftrightarrow> distinct (map job_id (jobs_of s))"

lemma adm_records_distinct: "distinct (map job_id jobs) \<Longrightarrow> distinct (map rc_id (adm_records jobs))"
  by (induction jobs) (auto simp: adm_records_def)

lemma tracks_mark_cleanup [tracks_intros]: "tracks cf b (mark_cleanup cf en j)"
  unfolding mark_cleanup_def by (intro tracks_intros)

lemma spec_reading: "(\<And>x. spec cf b (\<lambda>s. P s \<and> f s = x) (g x) Q) \<Longrightarrow> spec cf b P (reading f g) Q"
  by (simp add: spec_def reading_def)

lemma spec_reconstruct: "spec cf True ids_distinct (reconstruct_admission cf en) (\<lambda>_ _. True)"
  unfolding reconstruct_admission_def
proof (rule spec_reading, rule spec_then)
  fix jobs
  show "spec cf True (\<lambda>s. ids_distinct s \<and> jobs_of s = jobs)
      (write_adm (en_now en) None (reconstruct (adm_records jobs) (cf_retry cf) (en_now en))) (\<lambda>_ _. True)"
    by (rule spec_adm [where op = "AcReconstruct (adm_records jobs) (cf_retry cf) (en_now en)" and f = "\<lambda>_. None"])
      (auto simp: ids_distinct_def adm_records_distinct)
qed (intro tracks_intros)

lemma spec_start: "spec cf True ids_distinct (start_op cf en) (\<lambda>_ _. True)"
proof -
  have go: "spec cf True ids_distinct (next_op (reconstruct_admission cf en) (\<lambda>_.
      next_op (reading jobs_of (each_op (observe_started cf en))) (\<lambda>_. expire_op cf en))) (\<lambda>_ _. True)"
    by (rule spec_then [OF spec_reconstruct], unfold observe_started_def) (intro tracks_intros)
  show ?thesis
    unfolding start_op_def
  proof (rule spec_reading)
    fix jobs
    show "spec cf True (\<lambda>s. ids_distinct s \<and> jobs_of s = jobs) (case find (\<lambda>j. job_provider j = None) jobs of
        Some j \<Rightarrow> raise_op (SeNoIdentity j)
      | None \<Rightarrow> next_op (reconstruct_admission cf en) (\<lambda>_.
          next_op (reading jobs_of (each_op (observe_started cf en))) (\<lambda>_. expire_op cf en))) (\<lambda>_ _. True)"
      by (cases "find (\<lambda>j. job_provider j = None) jobs")
        (auto simp: spec_tracks tracks_raise intro: spec_pre [OF go])
  qed
qed

section \<open>Histories of the service\<close>

datatype svc_event =
    EvSubmit sub_input
  | EvContinue string string scope "result_origin option" "bool option"
  | EvRetry string scope "bool option"
  | EvDecide string scope approval_request decision
  | EvApprove string scope
  | EvExpire
  | EvObserve string scope
  | EvPoll
  | EvCancel string scope bool bool "provider option"
  | EvCancelStrict string scope bool "provider option"
  | EvReconcile string scope
  | EvCommit string scope
  | EvStart

fun exec_svc :: "svc_config \<Rightarrow> svc_env \<Rightarrow> svc_event \<Rightarrow> svc \<Rightarrow> svc" where
  "exec_svc cf en (EvSubmit x) s = fst (submit_once cf en x s)"
| "exec_svc cf en (EvContinue i prompt sc origin wanted) s = fst (continue_op cf en i prompt sc origin wanted s)"
| "exec_svc cf en (EvRetry i sc wanted) s = fst (retry_op cf en i sc wanted s)"
| "exec_svc cf en (EvDecide i sc r d) s = fst (decide_op cf en i sc r d s)"
| "exec_svc cf en (EvApprove i sc) s = fst (approve_op cf en i sc s)"
| "exec_svc cf en EvExpire s = fst (expire_op cf en s)"
| "exec_svc cf en (EvObserve i sc) s = fst (observe_op cf en i sc s)"
| "exec_svc cf en EvPoll s = fst (poll_op cf en s)"
| "exec_svc cf en (EvCancel i sc strict notify p) s = fst (cancel_op cf en i sc strict notify p s)"
| "exec_svc cf en (EvCancelStrict i sc notify p) s = fst (cancel_strict cf en i sc notify p s)"
| "exec_svc cf en (EvReconcile i sc) s = fst (reconcile_op cf en i sc s)"
| "exec_svc cf en (EvCommit i sc) s = fst (commit_op cf en i sc s)"
| "exec_svc cf en EvStart s = fst (start_op cf en s)"

text \<open>The identifiers drawn for a new job are new.\<close>

fun event_fresh :: "svc_env \<Rightarrow> svc_event \<Rightarrow> svc \<Rightarrow> bool" where
  "event_fresh en (EvSubmit x) s = fresh_env en s"
| "event_fresh en (EvContinue i prompt sc origin wanted) s = fresh_env en s"
| "event_fresh en (EvRetry i sc wanted) s = fresh_env en s"
| "event_fresh en _ s = True"

inductive svc_step :: "svc_config \<Rightarrow> svc \<Rightarrow> svc_env \<times> svc_event \<Rightarrow> svc \<Rightarrow> bool" for cf :: svc_config where
  svc_event: "event_fresh en ev s \<Longrightarrow> svc_step cf s (en, ev) (exec_svc cf en ev s)"

inductive_cases svc_stepE: "svc_step cf s ev s'"
inductive_simps svc_step_iff: "svc_step cf s (en, ev) s'"

lemma tracksD: "tracks cf b m \<Longrightarrow> svc_rel cf b s (fst (m s))"
  by (simp add: tracks_def)

lemma specD: "spec cf b P m Q \<Longrightarrow> P s \<Longrightarrow> svc_rel cf b s (fst (m s))"
  by (simp add: spec_def)

lemma exec_svc_rel:
  assumes "sha_hex cf" and "event_fresh en ev s" and "ev = EvStart \<Longrightarrow> ids_distinct s"
  shows "svc_rel cf (ev = EvStart) s (exec_svc cf en ev s)"
proof (cases ev)
  case EvStart
  then show ?thesis using assms(3) specD [OF spec_start] by simp
qed (use assms specD [OF spec_submit] specD [OF spec_continue] specD [OF spec_retry] in
    \<open>simp_all add: tracksD tracks_decide_op tracks_approve_op tracks_expire_op tracks_observe tracks_poll
       tracks_cancel_op tracks_cancel_strict tracks_reconcile_op tracks_commit_op\<close>)

lemma svc_rel_mono: "svc_rel cf b s s' \<Longrightarrow> (b \<Longrightarrow> c) \<Longrightarrow> svc_rel cf c s s'"
  unfolding svc_rel_def by blast

lemma svc_rel_good: "svc_rel cf b s s' \<Longrightarrow> store_good (sv_jobs s) \<Longrightarrow> store_good (sv_jobs s')"
  unfolding svc_rel_def using store_steps_good by blast

lemma svc_steps_rel:
  assumes "steps_of (svc_step cf) s evs s'" and "sha_hex cf" and "store_good (sv_jobs s)"
  shows "svc_rel cf (EvStart \<in> snd ` set evs) s s'"
  using assms(1,3)
proof (induction rule: steps_of.induct)
  case (steps_nil s)
  show ?case by simp
next
  case (steps_cons s ev s' evs s'')
  obtain en e where ev: "ev = (en, e)" by (cases ev)
  have fresh: "event_fresh en e s" and s': "s' = exec_svc cf en e s"
    using steps_cons.hyps(1) unfolding ev svc_step_iff by auto
  have one: "svc_rel cf (e = EvStart) s s'"
    unfolding s' using steps_cons.prems
    by (intro exec_svc_rel assms(2) fresh) (simp add: ids_distinct_def store_good_def jobs_of_def)
  have "svc_rel cf (EvStart \<in> snd ` set evs) s' s''"
    using steps_cons.IH svc_rel_good [OF one steps_cons.prems] .
  then show ?case
    using svc_rel_trans [OF svc_rel_mono [OF one] svc_rel_mono] ev by fastforce
qed

end
