(* ===== verification/AgentSubmission.thy ===== *)
theory AgentSubmission
  imports AgentRuns
begin

text \<open>
  What a submission leaves behind (\<open>submitOnce\<close> of \<open>server/agent-service.ts\<close>): with one reservation
  bound to its new job, or with the reservations as they were. The lemmas follow the operation when
  its writes succeed.
\<close>

section \<open>Writes that succeed\<close>

lemma write_jobs_ok:
  "sv_writes s = [] \<Longrightarrow> write_jobs op s = (case op (jobs_of s) of
     Inl e \<Rightarrow> (s, Inl (SeStore e))
   | Inr (jobs, a) \<Rightarrow> (s\<lparr>sv_jobs := \<lparr>js_jobs = jobs, js_disk = jobs\<rparr>\<rparr>, Inr a))"
  by (auto simp: write_jobs_def write_ok_def enqueue_mutation_def jobs_of_def split: sum.splits prod.splits)

lemma write_adm_ok:
  "sv_writes s = [] \<Longrightarrow> write_adm now rl op s = (case op (adm_live (sv_adm s)) of
     Inl e \<Rightarrow> (s, Inl (SeAdmission e))
   | Inr (a, v) \<Rightarrow> (s\<lparr>sv_adm := \<lparr>adm_live = a, adm_saved = a, adm_journal = persist_journal now rl a\<rparr>\<rparr>, Inr v))"
  by (auto simp: write_adm_def write_ok_def adm_mutate_def split: sum.splits prod.splits)

section \<open>The reservation\<close>

definition reserved_entry :: "scope \<Rightarrow> reservation" where
  "reserved_entry sc = \<lparr>rs_scope = adm_scope_of sc, rs_job = None, rs_phase = Reserved, rs_attempts = 0,
     rs_failure = None, rs_retry = None\<rparr>"

definition bound_entry :: "scope \<Rightarrow> string \<Rightarrow> reservation" where
  "bound_entry sc i = (reserved_entry sc)\<lparr>rs_job := Some i, rs_phase := Bound\<rparr>"

lemma acquire_appends:
  assumes "try_acquire lim (adm_scope_of sc) uuid a = Inr (a', Inr t)" and "map_of (ad_res a) (admission_token uuid) = None"
  shows "t = admission_token uuid" and "a' = a\<lparr>ad_res := ad_res a @ [(t, reserved_entry sc)]\<rparr>"
  using assms by (auto simp: try_acquire_def update_new reserved_entry_def split: if_splits)

lemma acquire_rejects: "try_acquire lim sc uuid a = Inr (a', Inl rj) \<Longrightarrow> a' = a"
  by (auto simp: try_acquire_def split: if_splits)

lemma acquire_Inr: "\<exists>a' r. try_acquire lim sc uuid a = Inr (a', r)"
  by (simp add: try_acquire_def)

lemma delete_new: "map_of al k = None \<Longrightarrow> AList.delete k (al @ [(k, v)]) = al"
  by (induction al) (auto split: if_splits)

lemma update_last: "map_of al k = None \<Longrightarrow> AList.update k w (al @ [(k, v)]) = al @ [(k, w)]"
  by (induction al) (auto split: if_splits)

lemma map_of_last: "map_of al k = None \<Longrightarrow> ([k \<mapsto> v] ++ map_of al) k = Some v"
  by (simp add: map_add_def)

lemma release_reserved:
  assumes "map_of (ad_res a) t = None"
  shows "release_token t (a\<lparr>ad_res := ad_res a @ [(t, reserved_entry sc)]\<rparr>) = Inr (a, ())"
  using assms by (simp add: release_token_def map_of_last delete_new reserved_entry_def present_def)

lemma bind_reserved:
  assumes "map_of (ad_res a) t = None" and "ad_jobs a i = None"
  shows "bind_job t i (a\<lparr>ad_res := ad_res a @ [(t, reserved_entry sc)]\<rparr>)
     = Inr (a\<lparr>ad_res := ad_res a @ [(t, bound_entry sc i)], ad_jobs := (ad_jobs a)(i \<mapsto> t)\<rparr>, ())"
  using assms by (simp add: bind_job_def map_of_last update_last reserved_entry_def bound_entry_def present_def)

lemma finish_bound:
  assumes "map_of (ad_res a) t = None" and "ad_jobs a i = None" and "i \<noteq> []"
  shows "\<exists>a2. mark_terminal_token t (a\<lparr>ad_res := ad_res a @ [(t, bound_entry sc i)], ad_jobs := (ad_jobs a)(i \<mapsto> t)\<rparr>)
       = Inr (a2, ()) \<and> release_token t a2 = Inr (a, ())"
  using assms by (simp add: mark_terminal_token_def release_token_def map_of_last update_last delete_new
      bound_entry_def reserved_entry_def present_def fun_upd_idem)

section \<open>The new job under its reservation\<close>

lemma create_reserved_outcome:
  assumes w: "sv_writes s = []" and live: "adm_live (sv_adm s) = a\<lparr>ad_res := ad_res a @ [(t, reserved_entry sc)]\<rparr>"
    and fresh: "map_of (ad_res a) t = None" "ad_jobs a (en_job_id en) = None"
    and r: "create_reserved cf en x t s = (s', r)"
  shows "case r of
      Inl e \<Rightarrow> adm_live (sv_adm s') = a \<and> jobs_of s' = jobs_of s
    | Inr j \<Rightarrow> build_job (h_sha (cf_host cf)) (h_url (cf_host cf)) x (en_job_id en) (en_uuid en) (en_now en) = Inr j
        \<and> jobs_of s' = j # jobs_of s \<and> sv_writes s' = [] \<and> sv_leases s' (en_job_id en) = Some t
        \<and> adm_live (sv_adm s') = a\<lparr>ad_res := ad_res a @ [(t, bound_entry sc (en_job_id en))],
            ad_jobs := (ad_jobs a)(en_job_id en \<mapsto> t)\<rparr>"
proof (cases "build_job (h_sha (cf_host cf)) (h_url (cf_host cf)) x (en_job_id en) (en_uuid en) (en_now en)")
  case (Inl e)
  then show ?thesis
    using r w live fresh
    by (auto simp: create_reserved_def create_op_def catch_op_def next_op_def raise_op_def write_adm_ok
        release_reserved jobs_of_def)
next
  case (Inr j)
  note id = build_job_id [OF Inr]
  show ?thesis
  proof (cases "insert_job x j (jobs_of s)")
    case (Inl e)
    then show ?thesis
      using r w live fresh Inr
      by (auto simp: create_reserved_def create_op_def catch_op_def next_op_def raise_op_def write_adm_ok
          write_jobs_ok release_reserved jobs_of_def)
  next
    case (Inr p)
    then have p: "p = (j # jobs_of s, j)" by (auto simp: insert_job_def split: option.splits if_splits)
    show ?thesis
      using r w live fresh Inr p id \<open>build_job _ _ _ _ _ _ = Inr j\<close>
      by (auto simp: create_reserved_def create_op_def catch_op_def next_op_def return_op_def set_lease_def write_adm_ok
          write_jobs_ok bind_reserved jobs_of_def)
  qed
qed

section \<open>Handing the job over\<close>

lemma failed_update:
  assumes "job_approval j = None"
  shows "\<exists>u. update_job sha j [PStatus JFailed, PError v, PFinished f] now = Inr u
     \<and> u = j\<lparr>job_status := JFailed, job_error := v, job_finished := f, job_updated := Some now\<rparr>"
  using assms by (simp add: update_job_def update_refusal_def)

lemma dispatch_outcome:
  assumes w: "sv_writes s = []" and jobs: "jobs_of s = j # jobs" and j: "matches_scope j sc" "job_approval j = None"
      "job_id j = i" "i \<noteq> []"
    and lease: "sv_leases s i = Some t"
    and live: "adm_live (sv_adm s) = a\<lparr>ad_res := ad_res a @ [(t, bound_entry sc i)], ad_jobs := (ad_jobs a)(i \<mapsto> t)\<rparr>"
    and fresh: "map_of (ad_res a) t = None" "ad_jobs a i = None"
    and m: "en_dispatch en = Some m"
    and r: "dispatch_externally cf en j sc s = (s', r)"
  shows "r = Inl (SeDispatcher m) \<and> adm_live (sv_adm s') = a
    \<and> jobs_of s' = j\<lparr>job_status := JFailed, job_error := Some (dispatch_message cf m), job_finished := Some (en_now en),
        job_updated := Some (en_now en)\<rparr> # jobs"
proof -
  let ?u = "j\<lparr>job_status := JFailed, job_error := Some (dispatch_message cf m), job_finished := Some (en_now en),
        job_updated := Some (en_now en)\<rparr>"
  let ?patch = "[PStatus JFailed, PError (Some (dispatch_message cf m)), PFinished (Some (en_now en))]"
  let ?s1 = "s\<lparr>sv_jobs := \<lparr>js_jobs = ?u # jobs, js_disk = ?u # jobs\<rparr>\<rparr>"
  have "scoped_index i sc (jobs_of s) = Some 0" using jobs j by (simp add: scoped_index_def)
  then have "update_jobs (h_sha (cf_host cf)) i sc ?patch (en_now en) (jobs_of s) = Inr (?u # jobs, Some ?u)"
    using failed_update [OF j(2), of "h_sha (cf_host cf)" "Some (dispatch_message cf m)" "Some (en_now en)" "en_now en"] jobs
    by (auto simp: update_jobs_def)
  then have up: "update_op cf en i sc ?patch s = (?s1, Inr (Some ?u))"
    using w by (simp add: update_op_def write_jobs_ok)
  obtain a2 where a2: "mark_terminal_token t (adm_live (sv_adm s)) = Inr (a2, ())" "release_token t a2 = Inr (a, ())"
    using finish_bound [OF fresh j(4)] live by auto
  let ?c = "\<lparr>adm_live = a, adm_saved = a, adm_journal = persist_journal (en_now en) (Some t) a\<rparr>"
  have c: "finalize_admission cf en ?u sc ?s1 = (?s1\<lparr>sv_adm := ?c, sv_leases := (sv_leases s)(i := None)\<rparr>, Inr ())"
    using lease w a2 j(3)
    by (simp add: finalize_admission_def catch_op_def release_reservation_def reading_def next_op_def write_adm_ok drop_lease_def)
  have "dispatch_externally cf en j sc s
      = (?s1\<lparr>sv_adm := ?c, sv_leases := (sv_leases s)(i := None)\<rparr>, Inl (SeDispatcher m))"
    using m up c j(3) by (simp add: dispatch_externally_def next_op_def raise_op_def)
  then show ?thesis using r by (auto simp: jobs_of_def)
qed

section \<open>The whole submission\<close>

lemma admit_Inr:
  assumes "admit cf en x s = (s', Inr (prompt, p, sel))"
  shows "s' = s" and "normalize_prompt (si_prompt x) = Inr prompt"
    and "resolve_selection cf en (Some p) (si_model x) (si_effort x) (si_catalog x) = Inr sel"
    and "si_mode x = WorkspaceWrite \<longrightarrow> cf_can_mutate cf (si_scope x)"
    and "si_mode x = ReadOnly \<longrightarrow> cf_can_read cf (si_scope x)"
  using assms
  by (auto simp: admit_def next_op_def normalized_op_def assert_mode_allowed_def assert_mutation_allowed_def
      assert_read_allowed_def require_def raise_op_def return_op_def find_replay_def reading_def checked_def
      replay_submission_def check_def Let_def
      split: sum.splits if_splits option.splits prod.splits)

lemma resolved_selection:
  assumes "resolve_selection cf en (Some p) m e c = Inr (m', e', c')"
  shows "p = Codex" and "m' = policy_model" and "e' = policy_effort" and "hex_text 64 c'"
    and "\<exists>v w. en_catalog en = Some v \<and> constrain_catalog (cf_catalog_sha cf) v = Inr w \<and> c' = mc_revision w"
proof -
  show "p = Codex"
    using assms by (auto simp: resolve_selection_def assert_agent_provider_def split: if_splits)
  obtain sel where "select_model (cf_catalog_sha cf) (en_catalog en) sel = Inr (m', e', c')"
    using assms by (auto simp: resolve_selection_def chain_Inr split: option.splits)
  from select_model_fixed [OF this]
  show "m' = policy_model" and "e' = policy_effort" and "hex_text 64 c'"
    and "\<exists>v w. en_catalog en = Some v \<and> constrain_catalog (cf_catalog_sha cf) v = Inr w \<and> c' = mc_revision w"
    by auto
qed

lemma build_job_choices:
  assumes "build_job sha url_ok (created_input x prompt p (m, e, c)) i uuid now = Inr j"
  shows "job_model j = Some m" "job_effort j = Some e" "job_catalog j = Some c" "job_env j = Some ExternalWorker"
  using assms
  by (auto simp: build_job_def Let_def initial_job_def created_input_def read_selection_def
      split: if_splits option.splits sum.splits)

lemma build_job_read_only:
  assumes "build_job sha url_ok x i uuid now = Inr j" and "job_mode j = ReadOnly"
  shows "job_approval j = None"
  using assms by (auto simp: build_job_def Let_def initial_job_def split: if_splits option.splits sum.splits)

lemma create_op_Inr:
  assumes "create_op cf en x s = (s', Inr j)"
  shows "build_job (h_sha (cf_host cf)) (h_url (cf_host cf)) x (en_job_id en) (en_uuid en) (en_now en) = Inr j"
  using assms
  by (auto simp: create_op_def raise_op_def write_jobs_def enqueue_mutation_def insert_job_def
      split: sum.splits prod.splits option.splits if_splits)

lemma next_op_Inr:
  "next_op m f s = (s', Inr b) \<longleftrightarrow> (\<exists>s1 a. m s = (s1, Inr a) \<and> f a s1 = (s', Inr b))"
  by (auto simp: next_op_def split: prod.splits sum.splits)

lemma catch_raise_Inr:
  "catch_op m (\<lambda>e. next_op n (\<lambda>_. raise_op e)) s = (s', Inr b) \<Longrightarrow> m s = (s', Inr b)"
  by (auto simp: catch_op_def next_op_def raise_op_def split: prod.splits sum.splits)

lemma create_reserved_Inr:
  assumes "create_reserved cf en x t s = (s', Inr j)"
  shows "build_job (h_sha (cf_host cf)) (h_url (cf_host cf)) x (en_job_id en) (en_uuid en) (en_now en) = Inr j"
proof -
  have "next_op (create_op cf en x) (\<lambda>j.
      next_op (write_adm (en_now en) None (bind_job t (job_id j))) (\<lambda>_.
      next_op (set_lease (job_id j) t) (\<lambda>_. return_op j))) s = (s', Inr j)"
    using assms unfolding create_reserved_def by (rule catch_raise_Inr)
  then show ?thesis by (auto simp: next_op_Inr return_op_def dest: create_op_Inr)
qed

lemma submit_once_Inr:
  assumes "submit_once cf en x s = (s', Inr j)"
  obtains prompt p m e c where "admit cf en x s = (s, Inr (prompt, p, (m, e, c)))"
    "build_job (h_sha (cf_host cf)) (h_url (cf_host cf)) (created_input x prompt p (m, e, c))
       (en_job_id en) (en_uuid en) (en_now en) = Inr j"
proof -
  obtain s1 prompt p sel where a: "admit cf en x s = (s1, Inr (prompt, p, sel))"
    and rest: "next_op (acquire_op cf en (si_scope x)) (\<lambda>t.
      next_op (create_reserved cf en (created_input x prompt p sel) t) (\<lambda>j.
      next_op (if job_mode j = ReadOnly then dispatch_externally cf en j (si_scope x) else return_op ()) (\<lambda>_. return_op j))) s1
      = (s', Inr j)"
    using assms unfolding submit_once_def by (auto simp: next_op_Inr [where m = "admit cf en x"])
  have s1: "s1 = s" by (rule admit_Inr [OF a])
  obtain s2 t s3 where "create_reserved cf en (created_input x prompt p sel) t s2 = (s3, Inr j)"
    using rest unfolding next_op_Inr by (auto simp: return_op_def)
  from create_reserved_Inr [OF this] show thesis
    using that a s1 by (cases sel) auto
qed

text \<open>The states after a submission with its writes succeeding.\<close>

lemma submission_cases:
  assumes fresh: "fresh_env en s" "ad_jobs (adm_live (sv_adm s)) (en_job_id en) = None" and w: "sv_writes s = []"
    and r: "submit_once cf en x s = (s', r)"
  shows "case r of
      Inr j \<Rightarrow> jobs_of s' = j # jobs_of s \<and> job_id j = en_job_id en \<and> matches_scope j (si_scope x)
        \<and> adm_live (sv_adm s') = (adm_live (sv_adm s))\<lparr>
            ad_res := ad_res (adm_live (sv_adm s)) @ [(admission_token (en_uuid en), bound_entry (si_scope x) (en_job_id en))],
            ad_jobs := (ad_jobs (adm_live (sv_adm s)))(en_job_id en \<mapsto> admission_token (en_uuid en))\<rparr>
    | Inl e \<Rightarrow> adm_live (sv_adm s') = adm_live (sv_adm s)
        \<and> (jobs_of s' = jobs_of s
           \<or> (\<exists>m u. e = SeDispatcher m \<and> jobs_of s' = u # jobs_of s \<and> job_id u = en_job_id en \<and> job_status u = JFailed))"
proof -
  let ?a = "adm_live (sv_adm s)" and ?t = "admission_token (en_uuid en)" and ?sc = "si_scope x" and ?i = "en_job_id en"
  note fresh_t = fresh(1) [unfolded fresh_env_def]
  obtain s1 v where ad: "admit cf en x s = (s1, v)" by (cases "admit cf en x s")
  then have s1: "s1 = s" using pure_opD [OF pure_admit, of cf en x s] by simp
  show ?thesis
  proof (cases v)
    case (Inl e)
    then show ?thesis using r ad s1 by (auto simp: submit_once_def next_op_def)
  next
    case (Inr q)
    obtain prompt p sel where q: "q = (prompt, p, sel)" by (cases q)
    let ?x = "created_input x prompt p sel"
    have ci: "ci_scope ?x = ?sc" by (simp add: created_input_def split: prod.split)
    obtain a' g where g: "try_acquire (cf_limits cf) (adm_scope_of ?sc) (en_uuid en) ?a = Inr (a', g)"
      using acquire_Inr by blast
    let ?s2 = "s\<lparr>sv_adm := \<lparr>adm_live = a', adm_saved = a', adm_journal = persist_journal (en_now en) None a'\<rparr>\<rparr>"
    have ac: "acquire_op cf en ?sc s = (case g of Inl rj \<Rightarrow> (?s2, Inl (SeCapacity rj)) | Inr t \<Rightarrow> (?s2, Inr t))"
      using w g by (simp add: acquire_op_def next_op_def write_adm_ok raise_op_def return_op_def split: sum.split)
    show ?thesis
    proof (cases g)
      case (Inl rj)
      then show ?thesis
        using r ad s1 Inr q ac acquire_rejects g
        by (auto simp: submit_once_def next_op_def jobs_of_def)
    next
      case (Inr t)
      then have t: "t = ?t" and a': "a' = ?a\<lparr>ad_res := ad_res ?a @ [(t, reserved_entry ?sc)]\<rparr>"
        using acquire_appends g fresh_t by blast+
      obtain s3 u where cr: "create_reserved cf en ?x t ?s2 = (s3, u)" by (cases "create_reserved cf en ?x t ?s2")
      have out: "case u of
          Inl e \<Rightarrow> adm_live (sv_adm s3) = ?a \<and> jobs_of s3 = jobs_of ?s2
        | Inr j \<Rightarrow> build_job (h_sha (cf_host cf)) (h_url (cf_host cf)) ?x ?i (en_uuid en) (en_now en) = Inr j
            \<and> jobs_of s3 = j # jobs_of ?s2 \<and> sv_writes s3 = [] \<and> sv_leases s3 ?i = Some t
            \<and> adm_live (sv_adm s3) = ?a\<lparr>ad_res := ad_res ?a @ [(t, bound_entry ?sc ?i)], ad_jobs := (ad_jobs ?a)(?i \<mapsto> t)\<rparr>"
        by (rule create_reserved_outcome [OF _ _ _ _ cr]) (use w a' t fresh fresh_t in simp_all)
      have whole: "submit_once cf en x s = next_op (create_reserved cf en ?x t) (\<lambda>j.
          next_op (if job_mode j = ReadOnly then dispatch_externally cf en j ?sc else return_op ()) (\<lambda>_. return_op j)) ?s2"
        using ad s1 \<open>v = Inr q\<close> q ac Inr
        by (simp add: submit_once_def next_op_def [of "admit cf en x"] next_op_def [of "acquire_op cf en ?sc"])
      show ?thesis
      proof (cases u)
        case (Inl e)
        then show ?thesis using r whole cr out by (auto simp: next_op_def jobs_of_def)
      next
        case (Inr j)
        note b = out [unfolded Inr sum.case]
        note f = build_job_fields [OF conjunct1 [OF b]]
        show ?thesis
        proof (cases "job_mode j = ReadOnly \<and> en_dispatch en \<noteq> None")
          case False
          then have "submit_once cf en x s = (s3, Inr j)"
            using whole cr Inr by (auto simp: next_op_def return_op_def dispatch_externally_def)
          then show ?thesis using r b f t ci by (auto simp: jobs_of_def)
        next
          case True
          then obtain m where m: "en_dispatch en = Some m" by blast
          obtain s4 z where d: "dispatch_externally cf en j ?sc s3 = (s4, z)" by (cases "dispatch_externally cf en j ?sc s3")
          have "z = Inl (SeDispatcher m) \<and> adm_live (sv_adm s4) = ?a
            \<and> jobs_of s4 = j\<lparr>job_status := JFailed, job_error := Some (dispatch_message cf m),
                job_finished := Some (en_now en), job_updated := Some (en_now en)\<rparr> # jobs_of ?s2"
            by (rule dispatch_outcome [OF _ _ _ _ _ _ _ _ _ _ m d])
              (use b f ci fresh fresh_t t build_job_read_only [OF conjunct1 [OF b]] True in auto)
          then show ?thesis
            using r whole cr Inr True d f by (auto simp: next_op_def jobs_of_def)
        qed
      qed
    qed
  qed
qed

end
