(* ===== verification/JobLoad.thy ===== *)
theory JobLoad
  imports JobHistory
begin

text \<open>
  Loading the persisted job list (\<open>loadJobs\<close>, \<open>loadJob\<close> and their readers in
  \<open>server/agent-job-store.ts\<close>). A record read from disk is a \<open>raw_job\<close>: each property is absent,
  of the wrong type (also an enumeration text that is not allowed or a text \<open>Date.parse\<close> rejects),
  or present. A property that is present with the value \<open>undefined\<close> is \<open>Absent\<close> where the source
  tests for \<open>undefined\<close> and \<open>Wrong\<close> where it tests for its own property. Records without a tenant
  are the format before tenants: their texts are cleaned and cut instead of refused. The error names
  the reason; the index and the field of the message are not kept.
\<close>

datatype 'a raw = Absent | Wrong | Is 'a

datatype fault =
    FType | FEmpty | FControl | FLength | FEnum | FTime | FDuplicateId | FKeyPair | FKeySpace | FHash
  | FSelection | FNoResult | FTokens | FTools | FPaths | FProgress | FNotifications | FReceipt
  | FEnvironment | FApproval approval_error | FOrigin | FPublication pub_error | FParentSelf | FParentScope
  | FKeyScope

record raw_tool =
  rt_category :: "tool_category raw"
  rt_name :: "string raw"
  rt_observed :: "time raw"
  rt_exec :: "tool_exec raw"

record raw_job =
  rj_id :: "string raw"
  rj_prompt :: "string raw"
  rj_provider :: "provider raw"
  rj_mode :: "job_mode raw"
  rj_status :: "job_status raw"
  rj_conversation :: "string raw"
  rj_requester :: "string raw"
  rj_tenant :: "string raw"
  rj_key :: "string raw"
  rj_hash :: "string raw"
  rj_parent :: "string raw"
  rj_thread :: "string raw"
  rj_result :: "string raw"
  rj_tokens :: "token_usage raw"
  rj_commit :: "string raw"
  rj_commit_message :: "string raw"
  rj_changed :: "string raw list raw"
  rj_error :: "string raw"
  rj_progress :: "string raw list raw"
  rj_tools :: "raw_tool raw list raw"
  rj_model :: "string raw"
  rj_effort :: "effort raw"
  rj_catalog :: "string raw"
  rj_created :: "time raw"
  rj_updated :: "time raw"
  rj_started :: "time raw"
  rj_finished :: "time raw"
  rj_cancel_requested :: "time raw"
  rj_receipt :: "exec_receipt raw"
  rj_cli :: "cli_receipt raw"
  rj_notifications :: "notifications raw"
  rj_env :: "exec_env raw"
  rj_approval :: "approval raw"
  rj_origin :: "result_origin raw"
  rj_publication :: "publication raw"

section \<open>Readers\<close>

definition read_text :: "bool \<Rightarrow> bool \<Rightarrow> nat \<Rightarrow> string raw \<Rightarrow> fault + string \<times> bool" where
  "read_text legacy required maximum v = (case v of
       Is s \<Rightarrow>
         (let n = (if legacy then js_trim (filter (\<lambda>c. \<not> text_control c) s) else s) in
          if n = [] \<or> required \<and> blank n then
            (if legacy \<and> \<not> required then Inr ([], n \<noteq> s) else Inl FEmpty)
          else if \<not> legacy \<and> blank n then Inl FEmpty
          else if \<not> legacy \<and> list_ex text_control n then Inl FControl
          else if maximum < length n then (if \<not> legacy then Inl FLength else Inr (take maximum n, True))
          else Inr (n, legacy \<and> n \<noteq> s))
     | _ \<Rightarrow> Inl FType)"

definition read_required :: "bool \<Rightarrow> nat \<Rightarrow> string raw \<Rightarrow> fault + string \<times> bool" where
  "read_required legacy maximum v = chain (read_text legacy True maximum v)
     (\<lambda>(s, m). if s = [] then Inl FEmpty else Inr (s, m))"

definition read_optional :: "bool \<Rightarrow> nat \<Rightarrow> string raw \<Rightarrow> fault + string option \<times> bool" where
  "read_optional legacy maximum v = (case v of
       Absent \<Rightarrow> Inr (None, False)
     | _ \<Rightarrow> map_sum id (map_prod Some id) (read_text legacy False maximum v))"

definition read_enum :: "'a raw \<Rightarrow> fault + 'a" where
  "read_enum v = (case v of Is x \<Rightarrow> Inr x | _ \<Rightarrow> Inl FEnum)"

definition read_time :: "time raw \<Rightarrow> fault + time" where
  "read_time v = (case v of Is t \<Rightarrow> Inr t | _ \<Rightarrow> Inl FTime)"

definition read_optional_time :: "time raw \<Rightarrow> fault + time option" where
  "read_optional_time v = (case v of Absent \<Rightarrow> Inr None | _ \<Rightarrow> map_sum id Some (read_time v))"

definition read_token_usage :: "token_usage raw \<Rightarrow> fault + token_usage option" where
  "read_token_usage v = (case v of
       Absent \<Rightarrow> Inr None | Wrong \<Rightarrow> Inl FTokens
     | Is t \<Rightarrow> if valid_tokens t then Inr (Some t) else Inl FTokens)"

text \<open>The name pattern: one or two parts separated by a slash, without a bound of its own.\<close>

definition tool_part_text :: "string \<Rightarrow> bool" where
  "tool_part_text s = (case s of [] \<Rightarrow> False
     | c # cs \<Rightarrow> alnum_char c \<and> list_all (\<lambda>d. alnum_char d \<or> d \<in> set ''._:+-'') cs)"

definition tool_name_text :: "string \<Rightarrow> bool" where
  "tool_name_text s \<longleftrightarrow> (let parts = split_on (CHR ''/'') s in
     length parts \<le> 2 \<and> list_all tool_part_text parts)"

definition read_tool ::
  "(string \<Rightarrow> string \<times> bool) \<Rightarrow> raw_tool \<Rightarrow> fault + tool_usage" where
  "read_tool redact r =
     chain (read_enum (rt_category r)) (\<lambda>category.
     chain (read_text False True 120 (rt_name r)) (\<lambda>(name, m).
     if \<not> tool_name_text name then Inl FTools else
     chain (read_time (rt_observed r)) (\<lambda>observed.
     let execution = (case rt_exec r of Is x \<Rightarrow> read_execution redact (Some x) | _ \<Rightarrow> None) in
     if rt_exec r \<noteq> Absent \<and> (execution = None \<or> category \<noteq> TCli) then Inl FTools
     else Inr \<lparr>tu_category = category, tu_name = name, tu_observed = observed, tu_exec = execution\<rparr>)))"

fun read_tool_list ::
  "(string \<Rightarrow> string \<times> bool) \<Rightarrow> (tool_category \<times> (string + string)) list \<Rightarrow> raw_tool raw list
     \<Rightarrow> fault + tool_usage list" where
  "read_tool_list redact seen [] = Inr []"
| "read_tool_list redact seen (Is r # rs) = chain (read_tool redact r) (\<lambda>u.
     if slot u \<in> set seen then Inl FTools
     else map_sum id (Cons u) (read_tool_list redact (slot u # seen) rs))"
| "read_tool_list redact seen (_ # rs) = Inl FTools"

definition read_tools ::
  "(string \<Rightarrow> string \<times> bool) \<Rightarrow> raw_tool raw list raw \<Rightarrow> fault + tool_usage list \<times> bool" where
  "read_tools redact v = (case v of
       Absent \<Rightarrow> Inr ([], True)
     | Wrong \<Rightarrow> Inl FTools
     | Is rs \<Rightarrow> if 32 < length rs then Inl FTools
         else map_sum id (\<lambda>us. (us, False)) (read_tool_list redact [] rs))"

fun read_path_list :: "bool \<Rightarrow> string list \<Rightarrow> string raw list \<Rightarrow> fault + string list \<times> bool" where
  "read_path_list legacy seen [] = Inr ([], False)"
| "read_path_list legacy seen (v # vs) = chain (read_text legacy True 512 v) (\<lambda>(s, m).
     if s \<in> set seen then
       (if \<not> legacy then Inl FPaths else map_sum id (map_prod id (\<lambda>_. True)) (read_path_list legacy seen vs))
     else map_sum id (map_prod (Cons s) (\<lambda>k. m \<or> k)) (read_path_list legacy (s # seen) vs))"

definition read_changed_paths :: "bool \<Rightarrow> string raw list raw \<Rightarrow> fault + string list option \<times> bool" where
  "read_changed_paths legacy v = (case v of
       Absent \<Rightarrow> Inr (None, False)
     | Wrong \<Rightarrow> Inl FPaths
     | Is vs \<Rightarrow> if \<not> legacy \<and> 256 < length vs then Inl FPaths
         else map_sum id (map_prod Some (\<lambda>k. legacy \<and> 256 < length vs \<or> k)) (read_path_list legacy [] (take 256 vs)))"

fun read_progress_list :: "bool \<Rightarrow> string raw list \<Rightarrow> fault + string list \<times> bool" where
  "read_progress_list legacy [] = Inr ([], False)"
| "read_progress_list legacy (v # vs) = chain (read_text legacy False 2000 v) (\<lambda>(s, m).
     if s = [] then
       (if \<not> legacy then Inl FProgress else map_sum id (map_prod id (\<lambda>k. m \<or> k)) (read_progress_list legacy vs))
     else map_sum id (map_prod (Cons s) (\<lambda>k. m \<or> k)) (read_progress_list legacy vs))"

definition read_progress :: "bool \<Rightarrow> string raw list raw \<Rightarrow> fault + string list \<times> bool" where
  "read_progress legacy v = (case v of
       Absent \<Rightarrow> if legacy then Inr ([], True) else Inl FProgress
     | Wrong \<Rightarrow> Inl FProgress
     | Is vs \<Rightarrow> if \<not> legacy \<and> 100 < length vs then Inl FProgress
         else map_sum id (map_prod id (\<lambda>k. legacy \<and> 100 < length vs \<or> k))
           (read_progress_list legacy (last_n 100 vs)))"

section \<open>One record\<close>

text \<open>The stages of \<open>loadJob\<close> in its order; \<open>*_moved\<close> is the stage's share of the \<open>migrated\<close> flag.\<close>

record identity_part =
  ip_id :: string
  ip_prompt :: string
  ip_provider :: "provider option"
  ip_mode :: job_mode
  ip_status :: job_status
  ip_conversation :: string
  ip_requester :: string
  ip_tenant :: "string option"
  ip_moved :: bool

definition load_identity ::
  "bool \<Rightarrow> provider option \<Rightarrow> string list \<Rightarrow> raw_job \<Rightarrow> fault + identity_part" where
  "load_identity legacy lp ids r =
     chain (read_required legacy 200 (rj_id r)) (\<lambda>(i, m1).
     if i \<in> set ids then Inl FDuplicateId else
     chain (read_required legacy 2000 (rj_prompt r)) (\<lambda>(prompt, m2).
     chain (case rj_provider r of Absent \<Rightarrow> Inr lp | v \<Rightarrow> map_sum id Some (read_enum v)) (\<lambda>provider.
     chain (read_enum (rj_mode r)) (\<lambda>mode.
     chain (read_enum (rj_status r)) (\<lambda>status.
     chain (read_required legacy 256 (rj_conversation r)) (\<lambda>(conversation, m3).
     chain (read_required legacy 256 (rj_requester r)) (\<lambda>(requester, m4).
     chain (case rj_tenant r of Absent \<Rightarrow> Inr None
            | v \<Rightarrow> map_sum id (Some \<circ> fst) (read_required False 256 v)) (\<lambda>tenant.
     Inr \<lparr>ip_id = i, ip_prompt = prompt, ip_provider = provider, ip_mode = mode, ip_status = status,
          ip_conversation = conversation, ip_requester = requester, ip_tenant = tenant,
          ip_moved = (m1 \<or> m2 \<or> m3 \<or> m4 \<or> rj_provider r = Absent \<and> lp \<noteq> None)\<rparr>))))))))"

definition load_keys :: "bool \<Rightarrow> raw_job \<Rightarrow> fault + (string option \<times> string option \<times> bool)" where
  "load_keys legacy r =
     chain (read_optional legacy 200 (rj_key r)) (\<lambda>(key, m1).
     chain (read_optional legacy 64 (rj_hash r)) (\<lambda>(hash, m2).
     if present key \<noteq> present hash then Inl FKeyPair
     else if present key \<and> js_trim (the key) \<noteq> the key then Inl FKeySpace
     else if present hash \<and> \<not> hex_text 64 (the hash) then Inl FHash
     else Inr (key, hash, m1 \<or> m2)))"

definition load_selection ::
  "string raw \<Rightarrow> effort raw \<Rightarrow> string raw \<Rightarrow> fault + (string \<times> effort \<times> string) option" where
  "load_selection m e c =
     (if m = Absent \<and> e = Absent \<and> c = Absent then Inr None
      else case (m, e, c) of
        (Is m, Is e, Is c) \<Rightarrow> (case read_selection (Some m) (Some e) (Some c) of
            Some (Some sel) \<Rightarrow> Inr (Some sel) | _ \<Rightarrow> Inl FSelection)
      | _ \<Rightarrow> Inl FSelection)"

record text_part =
  tp_parent :: "string option"
  tp_thread :: "string option"
  tp_result :: "string option"
  tp_tokens :: "token_usage option"
  tp_commit :: "string option"
  tp_commit_message :: "string option"
  tp_changed :: "string list option"
  tp_error :: "string option"
  tp_progress :: "string list"
  tp_tools :: "tool_usage list"
  tp_selection :: "(string \<times> effort \<times> string) option"
  tp_moved :: bool

definition load_texts ::
  "bool \<Rightarrow> (string \<Rightarrow> string \<times> bool) \<Rightarrow> raw_job \<Rightarrow> fault + text_part" where
  "load_texts legacy redact r =
     chain (read_optional legacy 200 (rj_parent r)) (\<lambda>(parent, m1).
     chain (read_optional legacy 200 (rj_thread r)) (\<lambda>(thread, m2).
     chain (read_optional legacy 20000 (rj_result r)) (\<lambda>(result, m3).
     chain (read_token_usage (rj_tokens r)) (\<lambda>tokens.
     chain (read_optional legacy 200 (rj_commit r)) (\<lambda>(commit, m4).
     chain (read_optional legacy 2000 (rj_commit_message r)) (\<lambda>(message, m5).
     chain (read_changed_paths legacy (rj_changed r)) (\<lambda>(changed, m6).
     chain (read_optional legacy 10000 (rj_error r)) (\<lambda>(err, m7).
     chain (read_progress legacy (rj_progress r)) (\<lambda>(progress, m8).
     chain (read_tools redact (rj_tools r)) (\<lambda>(tools, m9).
     chain (load_selection (rj_model r) (rj_effort r) (rj_catalog r)) (\<lambda>selection.
     Inr \<lparr>tp_parent = parent, tp_thread = thread, tp_result = result, tp_tokens = tokens,
          tp_commit = commit, tp_commit_message = message, tp_changed = changed, tp_error = err,
          tp_progress = progress, tp_tools = tools, tp_selection = selection,
          tp_moved = (m1 \<or> m2 \<or> m3 \<or> m4 \<or> m5 \<or> m6 \<or> m7 \<or> m8 \<or> m9)\<rparr>)))))))))))"

record time_part =
  mp_created :: time
  mp_updated :: "time option"
  mp_started :: "time option"
  mp_finished :: "time option"
  mp_cancel :: "time option"

definition load_times :: "raw_job \<Rightarrow> fault + time_part" where
  "load_times r =
     chain (read_time (rj_created r)) (\<lambda>created.
     chain (read_optional_time (rj_updated r)) (\<lambda>updated.
     chain (read_optional_time (rj_started r)) (\<lambda>started.
     chain (read_optional_time (rj_finished r)) (\<lambda>finished.
     chain (read_optional_time (rj_cancel_requested r)) (\<lambda>cancel.
     Inr \<lparr>mp_created = created, mp_updated = updated, mp_started = started, mp_finished = finished,
          mp_cancel = cancel\<rparr>)))))"

definition effective_updated :: "time_part \<Rightarrow> time" where
  "effective_updated t = (case mp_updated t of Some v \<Rightarrow> v | None \<Rightarrow>
     (case mp_finished t of Some v \<Rightarrow> v | None \<Rightarrow>
     (case mp_started t of Some v \<Rightarrow> v | None \<Rightarrow> mp_created t)))"

definition read_some :: "('a option \<Rightarrow> 'a option option) \<Rightarrow> fault \<Rightarrow> 'a raw \<Rightarrow> fault + 'a option" where
  "read_some reader e v = (case v of
       Absent \<Rightarrow> Inr None | Wrong \<Rightarrow> Inl e
     | Is x \<Rightarrow> (case reader (Some x) of None \<Rightarrow> Inl e | Some y \<Rightarrow> Inr y))"

definition read_environment :: "exec_env raw \<Rightarrow> fault + exec_env option" where
  "read_environment v = (case v of Absent \<Rightarrow> Inr None | Wrong \<Rightarrow> Inl FEnvironment | Is e \<Rightarrow> Inr (Some e))"

definition lost_result_text :: string where
  "lost_result_text = ''An earlier completed job had no result and was restored as failed.''"

definition given :: "string option \<Rightarrow> string option" where
  "given v = (if present v then v else None)"

text \<open>The record before its authority is read: approval, origin and publication are still absent.\<close>

definition plain_job ::
  "bool \<Rightarrow> identity_part \<Rightarrow> string option \<Rightarrow> string option \<Rightarrow> text_part \<Rightarrow> time_part \<Rightarrow> exec_receipt option
     \<Rightarrow> cli_receipt option \<Rightarrow> notifications option \<Rightarrow> exec_env option \<Rightarrow> job" where
  "plain_job lost a key hash b t receipt cli nt env =
     \<lparr>job_id = ip_id a, job_prompt = ip_prompt a, job_provider = ip_provider a, job_mode = ip_mode a,
       job_status = (if lost then JFailed else ip_status a), job_notifications = nt,
       job_approval = None, job_origin = None, job_publication = None,
       job_conversation = ip_conversation a, job_requester = ip_requester a, job_tenant = ip_tenant a,
       job_key = given key, job_hash = (if present key then hash else None),
       job_parent = given (tp_parent b), job_thread = given (tp_thread b),
       job_result = given (tp_result b), job_tokens = tp_tokens b, job_commit = given (tp_commit b),
       job_commit_message = given (tp_commit_message b), job_changed = tp_changed b,
       job_error = (if lost then Some (if present (tp_error b) then the (tp_error b) else lost_result_text)
                    else given (tp_error b)),
       job_progress = tp_progress b, job_tools = Some (tp_tools b),
       job_model = map_option fst (tp_selection b), job_effort = map_option (fst \<circ> snd) (tp_selection b),
       job_catalog = map_option (snd \<circ> snd) (tp_selection b), job_env = env, job_receipt = receipt,
       job_cli = cli, job_created = mp_created t, job_updated = Some (effective_updated t),
       job_started = mp_started t, job_finished = mp_finished t, job_cancel_requested = mp_cancel t\<rparr>"

definition load_plain ::
  "(string \<Rightarrow> string \<times> bool) \<Rightarrow> provider option \<Rightarrow> string list \<Rightarrow> raw_job \<Rightarrow> fault + job \<times> bool" where
  "load_plain redact lp ids r =
     (let legacy = (rj_tenant r = Absent) in
      chain (load_identity legacy lp ids r) (\<lambda>a.
      chain (load_keys legacy r) (\<lambda>(key, hash, key_moved).
      chain (load_texts legacy redact r) (\<lambda>b.
      chain (load_times r) (\<lambda>t.
      let lost = (ip_status a = JCompleted \<and> \<not> present (tp_result b)) in
      chain (if lost \<and> \<not> legacy then Inl FNoResult else Inr ()) (\<lambda>_.
      chain (read_some read_exec_receipt FReceipt (rj_receipt r)) (\<lambda>receipt.
      chain (read_some read_cli_receipt FReceipt (rj_cli r)) (\<lambda>cli.
      chain (read_some read_notifications FNotifications (rj_notifications r)) (\<lambda>nt.
      chain (read_environment (rj_env r)) (\<lambda>env.
      Inr (plain_job lost a key hash b t receipt cli nt env,
           legacy \<or> ip_moved a \<or> key_moved \<or> tp_moved b \<or> lost \<or> mp_updated t = None)))))))))))"

definition load_approval :: "digest_fn \<Rightarrow> approval raw \<Rightarrow> job \<Rightarrow> fault + job" where
  "load_approval sha v j = (case v of
       Absent \<Rightarrow> Inr j
     | Wrong \<Rightarrow> Inl (FApproval ApInvalid)
     | Is a \<Rightarrow> (case read_approval sha (Some a) j of
           Inl e \<Rightarrow> Inl (FApproval e) | Inr w \<Rightarrow> Inr (j\<lparr>job_approval := w\<rparr>)))"

definition load_origin :: "(string \<Rightarrow> bool) \<Rightarrow> result_origin raw \<Rightarrow> job \<Rightarrow> fault + job" where
  "load_origin url_ok v j = (case v of
       Absent \<Rightarrow> Inr j
     | _ \<Rightarrow>
         if \<not> present (job_tenant j) then Inl FOrigin
         else case v of
           Is x \<Rightarrow> (case read_origin url_ok (Some x) (the (job_tenant j)) (job_requester j) of
               Inl e \<Rightarrow> Inl (FPublication e) | Inr w \<Rightarrow> Inr (j\<lparr>job_origin := w\<rparr>))
         | _ \<Rightarrow> Inl (FPublication PubInvalid))"

definition load_publication :: "(string \<Rightarrow> bool) \<Rightarrow> publication raw \<Rightarrow> job \<Rightarrow> fault + job" where
  "load_publication url_ok v j = (case v of
       Absent \<Rightarrow> Inr j
     | Wrong \<Rightarrow> Inl (FPublication PubInvalid)
     | Is q \<Rightarrow> (case read_publication url_ok (Some q) j of
           Inl e \<Rightarrow> Inl (FPublication e) | Inr w \<Rightarrow> Inr (j\<lparr>job_publication := w\<rparr>)))"

definition load_job ::
  "digest_fn \<Rightarrow> (string \<Rightarrow> bool) \<Rightarrow> (string \<Rightarrow> string \<times> bool) \<Rightarrow> provider option \<Rightarrow> string list \<Rightarrow> raw_job
     \<Rightarrow> fault + job \<times> bool" where
  "load_job sha url_ok redact lp ids r =
     chain (load_plain redact lp ids r) (\<lambda>(j, m).
     chain (load_approval sha (rj_approval r) j) (\<lambda>j.
     chain (load_origin url_ok (rj_origin r) j) (\<lambda>j.
     chain (load_publication url_ok (rj_publication r) j) (\<lambda>j.
     Inr (j, m)))))"

section \<open>The list\<close>

fun load_each ::
  "digest_fn \<Rightarrow> (string \<Rightarrow> bool) \<Rightarrow> (string \<Rightarrow> string \<times> bool) \<Rightarrow> provider option \<Rightarrow> string list \<Rightarrow> raw_job raw list
     \<Rightarrow> fault + job list \<times> bool" where
  "load_each sha url_ok redact lp ids [] = Inr ([], False)"
| "load_each sha url_ok redact lp ids (Is r # rs) =
     chain (load_job sha url_ok redact lp ids r) (\<lambda>(j, m).
     map_sum id (map_prod (Cons j) (\<lambda>k. m \<or> k)) (load_each sha url_ok redact lp (job_id j # ids) rs))"
| "load_each sha url_ok redact lp ids (_ # rs) = Inl FType"

definition parent_fault :: "job list \<Rightarrow> job \<Rightarrow> fault option" where
  "parent_fault jobs j =
     (if \<not> present (job_parent j) then None
      else if job_parent j = Some (job_id j) then Some FParentSelf
      else case find (\<lambda>p. Some (job_id p) = job_parent j) jobs of
        None \<Rightarrow> None
      | Some p \<Rightarrow>
          if \<not> present (job_tenant j) \<or> \<not> present (job_tenant p) then None
          else if job_tenant p \<noteq> job_tenant j \<or> job_requester p \<noteq> job_requester j
                  \<or> job_conversation p \<noteq> job_conversation j then Some FParentScope
          else None)"

fun first_fault :: "('a \<Rightarrow> 'e option) \<Rightarrow> 'a list \<Rightarrow> 'e option" where
  "first_fault f [] = None"
| "first_fault f (x # xs) = (case f x of Some e \<Rightarrow> Some e | None \<Rightarrow> first_fault f xs)"

definition keyed :: "job list \<Rightarrow> (string option \<times> string \<times> string \<times> string option) list" where
  "keyed jobs = map owner_key (filter (\<lambda>j. present (job_key j)) jobs)"

definition load_jobs ::
  "digest_fn \<Rightarrow> (string \<Rightarrow> bool) \<Rightarrow> (string \<Rightarrow> string \<times> bool) \<Rightarrow> provider option \<Rightarrow> raw_job raw list raw
     \<Rightarrow> fault + job list \<times> bool" where
  "load_jobs sha url_ok redact lp v = (case v of
       Is rs \<Rightarrow>
         chain (load_each sha url_ok redact lp [] rs) (\<lambda>(jobs, m).
         case first_fault (parent_fault jobs) jobs of
           Some e \<Rightarrow> Inl e
         | None \<Rightarrow> if \<not> distinct (keyed jobs) then Inl FKeyScope else Inr (jobs, m))
     | _ \<Rightarrow> Inl FType)"

text \<open>\<open>initialize\<close>: a missing file is an empty store; a migrated or new store is written before it
  is published; \<open>ok\<close> says whether that write succeeds.\<close>

definition initialize_store ::
  "digest_fn \<Rightarrow> (string \<Rightarrow> bool) \<Rightarrow> (string \<Rightarrow> string \<times> bool) \<Rightarrow> provider option \<Rightarrow> raw_job raw list raw option
     \<Rightarrow> bool \<Rightarrow> fault option + job list" where
  "initialize_store sha url_ok redact lp file ok =
     chain (case file of None \<Rightarrow> Inr ([], True)
        | Some v \<Rightarrow> map_sum Some id (load_jobs sha url_ok redact lp v)) (\<lambda>(jobs, requires).
     if requires \<and> \<not> ok then Inl None else Inr jobs)"

section \<open>Reading records of the current format\<close>

definition text_ok :: "nat \<Rightarrow> string \<Rightarrow> bool" where
  "text_ok maximum s \<longleftrightarrow> \<not> blank s \<and> \<not> list_ex text_control s \<and> length s \<le> maximum"

definition opt_ok :: "nat \<Rightarrow> string option \<Rightarrow> bool" where
  "opt_ok maximum v \<longleftrightarrow> (case v of None \<Rightarrow> True | Some s \<Rightarrow> text_ok maximum s)"

definition raw_opt :: "'a option \<Rightarrow> 'a raw" where
  "raw_opt v = (case v of None \<Rightarrow> Absent | Some x \<Rightarrow> Is x)"

lemma raw_opt_simps [simp]: "raw_opt None = Absent" "raw_opt (Some x) = Is x"
  by (simp_all add: raw_opt_def)

lemma text_ok_nonempty: "text_ok maximum s \<Longrightarrow> s \<noteq> []"
  by (auto simp: text_ok_def)

lemma opt_ok_present: "opt_ok maximum v \<Longrightarrow> present v \<longleftrightarrow> v \<noteq> None"
  by (cases v) (auto simp: opt_ok_def dest: text_ok_nonempty)

lemma opt_ok_given: "opt_ok maximum v \<Longrightarrow> given v = v"
  by (cases v) (auto simp: given_def opt_ok_def dest: text_ok_nonempty)

lemma read_text_strict:
  "read_text False required maximum v = Inr (n, m) \<longleftrightarrow> v = Is n \<and> \<not> m \<and> text_ok maximum n"
  by (cases v) (auto simp: read_text_def Let_def text_ok_def)

lemma read_required_strict:
  "read_required False maximum v = Inr (n, m) \<longleftrightarrow> v = Is n \<and> \<not> m \<and> text_ok maximum n"
  by (auto simp: read_required_def chain_Inr read_text_strict split: if_split_asm dest: text_ok_nonempty)

lemma map_sum_Inr_iff: "map_sum id f x = Inr y \<longleftrightarrow> (\<exists>a. x = Inr a \<and> y = f a)"
  by (cases x) auto

lemma read_optional_strict:
  "read_optional False maximum v = Inr (w, m) \<longleftrightarrow> v = raw_opt w \<and> \<not> m \<and> opt_ok maximum w"
proof (cases v)
  case Absent
  then show ?thesis by (cases w) (auto simp: read_optional_def opt_ok_def)
next
  case Wrong
  then show ?thesis by (cases w) (auto simp: read_optional_def read_text_def)
next
  case (Is s)
  then show ?thesis
    by (cases w) (auto simp: read_optional_def map_sum_Inr_iff read_text_strict opt_ok_def)
qed

lemma read_enum_iff [simp]: "read_enum v = Inr x \<longleftrightarrow> v = Is x"
  by (cases v) (auto simp: read_enum_def)

lemma read_time_iff [simp]: "read_time v = Inr t \<longleftrightarrow> v = Is t"
  by (cases v) (auto simp: read_time_def)

lemma read_optional_time_iff [simp]: "read_optional_time v = Inr w \<longleftrightarrow> v = raw_opt w"
  by (cases v; cases w) (auto simp: read_optional_time_def read_time_def)

lemma read_is [simp]: "read_enum (Is x) = Inr x" "read_time (Is t) = Inr t" "read_optional_time (raw_opt w) = Inr w"
  by simp_all

lemma read_token_usage_iff:
  "read_token_usage v = Inr w \<longleftrightarrow> v = raw_opt w \<and> (\<forall>t \<in> set_option w. valid_tokens t)"
  by (cases v; cases w) (auto simp: read_token_usage_def)

lemma read_environment_iff: "read_environment v = Inr w \<longleftrightarrow> v = raw_opt w"
  by (cases v; cases w) (auto simp: read_environment_def)

lemma read_some_iff:
  assumes "\<And>x y. reader (Some x) = Some y \<Longrightarrow> y = Some x"
  shows "read_some reader e v = Inr w \<longleftrightarrow> v = raw_opt w \<and> (\<forall>x \<in> set_option w. reader (Some x) = Some (Some x))"
  using assms by (cases v; cases w) (auto simp: read_some_def split: option.splits)

lemma load_selection_iff:
  "load_selection m e c = Inr w \<longleftrightarrow> m = raw_opt (map_option fst w) \<and> e = raw_opt (map_option (fst \<circ> snd) w)
     \<and> c = raw_opt (map_option (snd \<circ> snd) w)
     \<and> (\<forall>s \<in> set_option w. catalog_model_text (fst s) \<and> hex_text 64 (snd (snd s)))"
  by (cases m; cases e; cases c; cases w) (auto simp: load_selection_def read_selection_def split: if_split_asm)

subsection \<open>Lists\<close>

definition raw_tool_of :: "tool_usage \<Rightarrow> raw_tool" where
  "raw_tool_of u = \<lparr>rt_category = Is (tu_category u), rt_name = Is (tu_name u),
     rt_observed = Is (tu_observed u), rt_exec = raw_opt (tu_exec u)\<rparr>"

definition tool_ok :: "tool_usage \<Rightarrow> bool" where
  "tool_ok u \<longleftrightarrow> text_ok 120 (tu_name u) \<and> tool_name_text (tu_name u) \<and> (tu_exec u \<noteq> None \<longrightarrow> tu_category u = TCli)"

definition stable_execs :: "(string \<Rightarrow> string \<times> bool) \<Rightarrow> tool_usage list \<Rightarrow> bool" where
  "stable_execs redact us \<longleftrightarrow> (\<forall>u \<in> set us. tu_exec u \<noteq> None \<longrightarrow> read_execution redact (tu_exec u) = tu_exec u)"

lemma read_tool_ok: "read_tool redact r = Inr u \<Longrightarrow> tool_ok u"
  by (cases "rt_exec r")
    (auto simp: read_tool_def chain_Inr read_text_strict tool_ok_def Let_def split: if_split_asm)

lemma read_tool_back:
  "tool_ok u \<Longrightarrow> tu_exec u \<noteq> None \<longrightarrow> read_execution redact (tu_exec u) = tu_exec u
     \<Longrightarrow> read_tool redact (raw_tool_of u) = Inr u"
proof -
  assume u: "tool_ok u" and x: "tu_exec u \<noteq> None \<longrightarrow> read_execution redact (tu_exec u) = tu_exec u"
  have n: "read_text False True 120 (Is (tu_name u)) = Inr (tu_name u, False)"
    using u by (simp add: read_text_strict tool_ok_def)
  show ?thesis
    using u x by (cases "tu_exec u") (auto simp: read_tool_def raw_tool_of_def n tool_ok_def)
qed

lemma read_tool_list_ok:
  "read_tool_list redact seen rs = Inr us \<Longrightarrow> length us = length rs \<and> distinct (map slot us)
     \<and> (\<forall>u \<in> set us. slot u \<notin> set seen) \<and> (\<forall>u \<in> set us. tool_ok u)"
proof (induction redact seen rs arbitrary: us rule: read_tool_list.induct)
  case (2 redact seen r rs)
  then obtain u us' where u: "read_tool redact r = Inr u" "slot u \<notin> set seen"
    and rest: "read_tool_list redact (slot u # seen) rs = Inr us'" "us = u # us'"
    by (auto simp: chain_Inr map_sum_Inr_iff split: if_split_asm)
  note ih = "2.IH" [OF u(2) rest(1)]
  from ih have "slot u \<notin> slot ` set us'" by force
  with ih u rest read_tool_ok [OF u(1)] show ?case by auto
qed auto

lemma read_tool_list_back:
  "distinct (map slot us) \<Longrightarrow> \<forall>u \<in> set us. slot u \<notin> set seen \<Longrightarrow> \<forall>u \<in> set us. tool_ok u
     \<Longrightarrow> stable_execs redact us \<Longrightarrow> read_tool_list redact seen (map (Is \<circ> raw_tool_of) us) = Inr us"
proof (induction us arbitrary: seen)
  case (Cons u us)
  have "read_tool redact (raw_tool_of u) = Inr u"
    using Cons.prems by (intro read_tool_back) (auto simp: stable_execs_def)
  moreover have "\<forall>v \<in> set us. slot v \<notin> set (slot u # seen)"
    using Cons.prems by (auto simp: image_iff)
  moreover have "stable_execs redact us" using Cons.prems by (auto simp: stable_execs_def)
  ultimately show ?case using Cons.IH [of "slot u # seen"] Cons.prems by simp
qed simp

definition tools_ok :: "tool_usage list \<Rightarrow> bool" where
  "tools_ok us \<longleftrightarrow> length us \<le> 32 \<and> distinct (map slot us) \<and> (\<forall>u \<in> set us. tool_ok u)"

lemma read_tools_ok: "read_tools redact v = Inr (us, m) \<Longrightarrow> tools_ok us"
  by (cases v) (auto simp: read_tools_def tools_ok_def map_sum_Inr_iff split: if_split_asm dest: read_tool_list_ok)

lemma read_tools_back:
  "tools_ok us \<Longrightarrow> stable_execs redact us \<Longrightarrow> read_tools redact (Is (map (Is \<circ> raw_tool_of) us)) = Inr (us, False)"
  using read_tool_list_back [of us "[]" redact] by (simp add: read_tools_def tools_ok_def)

lemma read_path_list_strict:
  "read_path_list False seen vs = Inr (ps, m) \<longleftrightarrow> vs = map Is ps \<and> \<not> m \<and> distinct ps \<and> set ps \<inter> set seen = {}
     \<and> (\<forall>s \<in> set ps. text_ok 512 s)"
proof (induction vs arbitrary: seen ps m)
  case Nil
  then show ?case by auto
next
  case (Cons v vs)
  show ?case
  proof
    assume "read_path_list False seen (v # vs) = Inr (ps, m)"
    then show "v # vs = map Is ps \<and> \<not> m \<and> distinct ps \<and> set ps \<inter> set seen = {} \<and> (\<forall>s \<in> set ps. text_ok 512 s)"
      by (auto simp: chain_Inr read_text_strict map_sum_Inr_iff Cons.IH split: if_split_asm)
  next
    assume r: "v # vs = map Is ps \<and> \<not> m \<and> distinct ps \<and> set ps \<inter> set seen = {} \<and> (\<forall>s \<in> set ps. text_ok 512 s)"
    then obtain s ps' where ps: "ps = s # ps'" "v = Is s" "vs = map Is ps'" by (cases ps) auto
    have t: "read_text False True 512 (Is s) = Inr (s, False)" using r ps by (simp add: read_text_strict)
    have "read_path_list False (s # seen) vs = Inr (ps', False)" unfolding Cons.IH using r ps by auto
    then show "read_path_list False seen (v # vs) = Inr (ps, m)" using r ps t by simp
  qed
qed

definition paths_ok :: "string list option \<Rightarrow> bool" where
  "paths_ok v \<longleftrightarrow> (case v of None \<Rightarrow> True
     | Some ps \<Rightarrow> length ps \<le> 256 \<and> distinct ps \<and> (\<forall>s \<in> set ps. text_ok 512 s))"

lemma read_changed_paths_strict:
  "read_changed_paths False v = Inr (w, m) \<longleftrightarrow> v = raw_opt (map_option (map Is) w) \<and> \<not> m \<and> paths_ok w"
proof (cases v)
  case (Is vs)
  then show ?thesis
    by (cases w; cases "256 < length vs")
      (auto simp: read_changed_paths_def map_sum_Inr_iff read_path_list_strict paths_ok_def)
qed (cases w; auto simp: read_changed_paths_def paths_ok_def)+

lemma read_progress_list_strict:
  "read_progress_list False vs = Inr (ps, m) \<longleftrightarrow> vs = map Is ps \<and> \<not> m \<and> (\<forall>s \<in> set ps. text_ok 2000 s)"
proof (induction vs arbitrary: ps m)
  case Nil
  then show ?case by auto
next
  case (Cons v vs)
  show ?case
  proof
    assume "read_progress_list False (v # vs) = Inr (ps, m)"
    then show "v # vs = map Is ps \<and> \<not> m \<and> (\<forall>s \<in> set ps. text_ok 2000 s)"
      by (auto simp: chain_Inr read_text_strict map_sum_Inr_iff Cons.IH split: if_split_asm)
  next
    assume r: "v # vs = map Is ps \<and> \<not> m \<and> (\<forall>s \<in> set ps. text_ok 2000 s)"
    then obtain s ps' where ps: "ps = s # ps'" "v = Is s" "vs = map Is ps'" by (cases ps) auto
    have t: "read_text False False 2000 (Is s) = Inr (s, False)" "s \<noteq> []"
      using r ps text_ok_nonempty by (auto simp: read_text_strict)
    have "read_progress_list False vs = Inr (ps', False)" unfolding Cons.IH using r ps by auto
    then show "read_progress_list False (v # vs) = Inr (ps, m)" using r ps t by simp
  qed
qed

definition progress_ok :: "string list \<Rightarrow> bool" where
  "progress_ok ps \<longleftrightarrow> length ps \<le> 100 \<and> (\<forall>s \<in> set ps. text_ok 2000 s)"

lemma read_progress_strict:
  "read_progress False v = Inr (ps, m) \<longleftrightarrow> v = Is (map Is ps) \<and> \<not> m \<and> progress_ok ps"
proof (cases v)
  case (Is vs)
  have "last_n 100 vs = vs" if "length vs \<le> 100" using that by (simp add: last_n_def)
  with Is show ?thesis
    by (cases "100 < length vs")
      (auto simp: read_progress_def map_sum_Inr_iff read_progress_list_strict progress_ok_def)
qed (auto simp: read_progress_def)

subsection \<open>Records that are read back as they were written\<close>

definition raw_of_job :: "job \<Rightarrow> raw_job" where
  "raw_of_job j =
     \<lparr>rj_id = Is (job_id j), rj_prompt = Is (job_prompt j), rj_provider = raw_opt (job_provider j),
      rj_mode = Is (job_mode j), rj_status = Is (job_status j), rj_conversation = Is (job_conversation j),
      rj_requester = Is (job_requester j), rj_tenant = raw_opt (job_tenant j), rj_key = raw_opt (job_key j),
      rj_hash = raw_opt (job_hash j), rj_parent = raw_opt (job_parent j), rj_thread = raw_opt (job_thread j),
      rj_result = raw_opt (job_result j), rj_tokens = raw_opt (job_tokens j),
      rj_commit = raw_opt (job_commit j), rj_commit_message = raw_opt (job_commit_message j),
      rj_changed = raw_opt (map_option (map Is) (job_changed j)), rj_error = raw_opt (job_error j),
      rj_progress = Is (map Is (job_progress j)),
      rj_tools = raw_opt (map_option (map (Is \<circ> raw_tool_of)) (job_tools j)),
      rj_model = raw_opt (job_model j), rj_effort = raw_opt (job_effort j), rj_catalog = raw_opt (job_catalog j),
      rj_created = Is (job_created j), rj_updated = raw_opt (job_updated j),
      rj_started = raw_opt (job_started j), rj_finished = raw_opt (job_finished j),
      rj_cancel_requested = raw_opt (job_cancel_requested j), rj_receipt = raw_opt (job_receipt j),
      rj_cli = raw_opt (job_cli j), rj_notifications = raw_opt (job_notifications j),
      rj_env = raw_opt (job_env j), rj_approval = raw_opt (job_approval j), rj_origin = raw_opt (job_origin j),
      rj_publication = raw_opt (job_publication j)\<rparr>"

definition keys_ok :: "string option \<Rightarrow> string option \<Rightarrow> bool" where
  "keys_ok k h \<longleftrightarrow> opt_ok 200 k \<and> opt_ok 64 h \<and> (k = None \<longleftrightarrow> h = None)
     \<and> (\<forall>s \<in> set_option k. js_trim s = s) \<and> (\<forall>s \<in> set_option h. hex_text 64 s)"

definition selection_of :: "job \<Rightarrow> (string \<times> effort \<times> string) option" where
  "selection_of j = (case (job_model j, job_effort j, job_catalog j) of
       (Some m, Some e, Some c) \<Rightarrow> Some (m, e, c) | _ \<Rightarrow> None)"

definition selection_ok :: "job \<Rightarrow> bool" where
  "selection_ok j \<longleftrightarrow> (case selection_of j of
       None \<Rightarrow> job_model j = None \<and> job_effort j = None \<and> job_catalog j = None
     | Some s \<Rightarrow> catalog_model_text (fst s) \<and> hex_text 64 (snd (snd s)))"

text \<open>The identity and key fields, the texts, and the rest.\<close>

definition plain_identity_ok :: "provider option \<Rightarrow> job \<Rightarrow> bool" where
  "plain_identity_ok lp j \<longleftrightarrow> text_ok 200 (job_id j) \<and> text_ok 2000 (job_prompt j)
     \<and> (job_provider j = None \<longrightarrow> lp = None)
     \<and> text_ok 256 (job_conversation j) \<and> text_ok 256 (job_requester j)
     \<and> (\<exists>t. job_tenant j = Some t \<and> text_ok 256 t) \<and> keys_ok (job_key j) (job_hash j)"

definition plain_texts_ok :: "job \<Rightarrow> bool" where
  "plain_texts_ok j \<longleftrightarrow> opt_ok 200 (job_parent j) \<and> opt_ok 200 (job_thread j) \<and> opt_ok 20000 (job_result j)
     \<and> (\<forall>t \<in> set_option (job_tokens j). valid_tokens t) \<and> opt_ok 200 (job_commit j)
     \<and> opt_ok 2000 (job_commit_message j) \<and> paths_ok (job_changed j) \<and> opt_ok 10000 (job_error j)
     \<and> progress_ok (job_progress j) \<and> (\<exists>us. job_tools j = Some us \<and> tools_ok us) \<and> selection_ok j"

definition plain_rest_ok :: "job \<Rightarrow> bool" where
  "plain_rest_ok j \<longleftrightarrow> job_updated j \<noteq> None \<and> (job_status j = JCompleted \<longrightarrow> job_result j \<noteq> None)
     \<and> (\<forall>x \<in> set_option (job_receipt j). read_exec_receipt (Some x) = Some (Some x))
     \<and> (\<forall>x \<in> set_option (job_cli j). read_cli_receipt (Some x) = Some (Some x))
     \<and> (\<forall>x \<in> set_option (job_notifications j). read_notifications (Some x) = Some (Some x))"

lemmas plain_ok_defs = plain_identity_ok_def plain_texts_ok_def plain_rest_ok_def

lemma load_identity_strict:
  assumes "load_identity False lp ids r = Inr a" and "rj_tenant r \<noteq> Absent"
  shows "text_ok 200 (ip_id a) \<and> ip_id a \<notin> set ids \<and> text_ok 2000 (ip_prompt a)
    \<and> (ip_provider a = None \<longrightarrow> lp = None) \<and> text_ok 256 (ip_conversation a) \<and> text_ok 256 (ip_requester a)
    \<and> (\<exists>t. ip_tenant a = Some t \<and> text_ok 256 t)"
  using assms
  by (cases "rj_tenant r"; cases "rj_provider r")
    (auto simp: load_identity_def chain_Inr read_required_strict map_sum_Inr_iff split: if_split_asm)

lemma load_keys_strict:
  "load_keys False r = Inr (k, h, m) \<Longrightarrow> keys_ok k h \<and> \<not> m"
  by (cases k; cases h)
    (auto simp: load_keys_def chain_Inr read_optional_strict keys_ok_def opt_ok_def split: if_split_asm
      dest: text_ok_nonempty)

lemma load_texts_strict:
  assumes "load_texts False redact r = Inr b"
  shows "opt_ok 200 (tp_parent b) \<and> opt_ok 200 (tp_thread b) \<and> opt_ok 20000 (tp_result b)
     \<and> (\<forall>t \<in> set_option (tp_tokens b). valid_tokens t) \<and> opt_ok 200 (tp_commit b)
     \<and> opt_ok 2000 (tp_commit_message b) \<and> paths_ok (tp_changed b) \<and> opt_ok 10000 (tp_error b)
     \<and> progress_ok (tp_progress b) \<and> tools_ok (tp_tools b)
     \<and> (\<forall>s \<in> set_option (tp_selection b). catalog_model_text (fst s) \<and> hex_text 64 (snd (snd s)))"
  using assms unfolding load_texts_def
  by (elim chain_pairE chainE)
    (simp add: read_optional_strict read_token_usage_iff read_changed_paths_strict read_progress_strict
      load_selection_iff, elim conjE, hypsubst, simp add: read_tools_ok)

lemma opt_ok_Nil [simp]: "\<not> opt_ok n (Some [])"
  by (simp add: opt_ok_def text_ok_def)

lemma load_selection_of:
  "(\<forall>s \<in> set_option w. catalog_model_text (fst s) \<and> hex_text 64 (snd (snd s)))
     \<Longrightarrow> job_model j = map_option fst w \<Longrightarrow> job_effort j = map_option (fst \<circ> snd) w
     \<Longrightarrow> job_catalog j = map_option (snd \<circ> snd) w \<Longrightarrow> selection_ok j"
  by (cases w) (auto simp: selection_ok_def selection_of_def)

lemma load_plain_sound:
  assumes "load_plain redact lp ids r = Inr (j, m)" and "rj_tenant r \<noteq> Absent"
  shows "plain_identity_ok lp j \<and> plain_texts_ok j \<and> plain_rest_ok j \<and> job_id j \<notin> set ids
    \<and> job_approval j = None \<and> job_origin j = None \<and> job_publication j = None"
proof -
  obtain a k h km b t receipt cli nt env where
    a: "load_identity False lp ids r = Inr a" and k: "load_keys False r = Inr (k, h, km)"
    and b: "load_texts False redact r = Inr b"
    and full: "\<not> (ip_status a = JCompleted \<and> \<not> present (tp_result b))"
    and o1: "read_some read_exec_receipt FReceipt (rj_receipt r) = Inr receipt"
    and o2: "read_some read_cli_receipt FReceipt (rj_cli r) = Inr cli"
    and o3: "read_some read_notifications FNotifications (rj_notifications r) = Inr nt"
    and j': "j = plain_job (ip_status a = JCompleted \<and> \<not> present (tp_result b)) a k h b t receipt cli nt env"
    using assms(1) unfolding load_plain_def Let_def
    apply -
    apply (erule chainE)
    apply (erule chain_tripleE)
    apply (erule chainE)+
    subgoal premises prems
      apply (rule prems(1) [OF _ _ _ _ prems(7-9)])
      using prems(2-) assms(2) by (auto split: if_split_asm)
    done
  have "j = plain_job False a k h b t receipt cli nt env" using j' full by simp
  note j = this [unfolded plain_job_def]
  note A = load_identity_strict [OF a assms(2)] and K = load_keys_strict [OF k] and B = load_texts_strict [OF b]
  have kh: "job_key j = k" "job_hash j = h" "keys_ok k h"
    using K j by (auto simp: keys_ok_def opt_ok_given opt_ok_present)
  have texts: "job_parent j = tp_parent b" "job_thread j = tp_thread b" "job_result j = tp_result b"
    "job_commit j = tp_commit b" "job_commit_message j = tp_commit_message b" "job_error j = tp_error b"
    using B j by (auto simp: opt_ok_given)
  have id: "plain_identity_ok lp j"
    unfolding plain_identity_ok_def kh(1,2) using A kh(3) by (simp add: j)
  have sel: "selection_ok j" using load_selection_of [of "tp_selection b" j] B j by simp
  have tx: "plain_texts_ok j"
    unfolding plain_texts_ok_def texts using B sel by (simp add: j)
  have "plain_rest_ok j"
    using o1 o2 o3 full j read_receipts_id read_notifications_id opt_ok_present [of 20000 "tp_result b"] B texts
    by (auto simp: plain_rest_ok_def read_some_iff)
  then show ?thesis using id tx A j by simp
qed

lemma read_back [simp]:
  "text_ok n s \<Longrightarrow> read_required False n (Is s) = Inr (s, False)"
  "opt_ok n v \<Longrightarrow> read_optional False n (raw_opt v) = Inr (v, False)"
  by (simp_all add: read_required_strict read_optional_strict)

lemma read_some_back:
  "(\<forall>x \<in> set_option v. reader (Some x) = Some (Some x)) \<Longrightarrow> read_some reader e (raw_opt v) = Inr v"
  by (cases v) (auto simp: read_some_def)

lemma raw_opt_Absent [simp]: "raw_opt v = Absent \<longleftrightarrow> v = None"
  by (cases v) auto

lemma load_identity_back:
  assumes "plain_identity_ok lp j" and "job_id j \<notin> set ids"
  shows "load_identity False lp ids (raw_of_job j) = Inr \<lparr>ip_id = job_id j, ip_prompt = job_prompt j,
      ip_provider = job_provider j, ip_mode = job_mode j, ip_status = job_status j,
      ip_conversation = job_conversation j, ip_requester = job_requester j, ip_tenant = job_tenant j,
      ip_moved = False\<rparr>"
  using assms
  by (cases "job_provider j") (auto simp: plain_identity_ok_def load_identity_def raw_of_job_def)

lemma load_keys_back:
  assumes "keys_ok (job_key j) (job_hash j)"
  shows "load_keys False (raw_of_job j) = Inr (job_key j, job_hash j, False)"
  using assms opt_ok_present [of 200 "job_key j"] opt_ok_present [of 64 "job_hash j"]
  by (auto simp: keys_ok_def load_keys_def raw_of_job_def)

lemma load_texts_back:
  assumes ok: "plain_texts_ok j" and us: "job_tools j = Some us" "stable_execs redact us"
  obtains w where "load_texts False redact (raw_of_job j) = Inr \<lparr>tp_parent = job_parent j, tp_thread = job_thread j,
      tp_result = job_result j, tp_tokens = job_tokens j, tp_commit = job_commit j,
      tp_commit_message = job_commit_message j, tp_changed = job_changed j, tp_error = job_error j,
      tp_progress = job_progress j, tp_tools = us, tp_selection = w, tp_moved = False\<rparr>"
    "job_model j = map_option fst w" "job_effort j = map_option (fst \<circ> snd) w" "job_catalog j = map_option (snd \<circ> snd) w"
proof -
  define w where "w = selection_of j"
  have w: "job_model j = map_option fst w" "job_effort j = map_option (fst \<circ> snd) w"
    "job_catalog j = map_option (snd \<circ> snd) w" "\<forall>s \<in> set_option w. catalog_model_text (fst s) \<and> hex_text 64 (snd (snd s))"
    using ok by (auto simp: w_def plain_texts_ok_def selection_ok_def selection_of_def split: option.splits)
  have sel: "load_selection (raw_opt (job_model j)) (raw_opt (job_effort j)) (raw_opt (job_catalog j)) = Inr w"
    using w by (simp add: load_selection_iff)
  have tools: "read_tools redact (Is (map (Is \<circ> raw_tool_of) us)) = Inr (us, False)"
    using ok us by (intro read_tools_back) (auto simp: plain_texts_ok_def)
  have rest: "read_token_usage (raw_opt (job_tokens j)) = Inr (job_tokens j)"
    "read_changed_paths False (raw_opt (map_option (map Is) (job_changed j))) = Inr (job_changed j, False)"
    "read_progress False (Is (map Is (job_progress j))) = Inr (job_progress j, False)"
    using ok by (simp_all add: plain_texts_ok_def read_token_usage_iff read_changed_paths_strict read_progress_strict)
  have "load_texts False redact (raw_of_job j) = Inr \<lparr>tp_parent = job_parent j, tp_thread = job_thread j,
      tp_result = job_result j, tp_tokens = job_tokens j, tp_commit = job_commit j,
      tp_commit_message = job_commit_message j, tp_changed = job_changed j, tp_error = job_error j,
      tp_progress = job_progress j, tp_tools = us, tp_selection = w, tp_moved = False\<rparr>"
    using ok by (simp add: load_texts_def raw_of_job_def plain_texts_ok_def sel tools rest us(1))
  then show thesis using w that by blast
qed

lemma load_plain_back:
  assumes id: "plain_identity_ok lp j" and tx: "plain_texts_ok j" and rest: "plain_rest_ok j"
    and new: "job_id j \<notin> set ids" and us: "\<forall>us \<in> set_option (job_tools j). stable_execs redact us"
  shows "load_plain redact lp ids (raw_of_job j)
    = Inr (j\<lparr>job_approval := None, job_origin := None, job_publication := None\<rparr>, False)"
proof -
  obtain us where tools: "job_tools j = Some us" using tx by (auto simp: plain_texts_ok_def)
  then have stable: "stable_execs redact us" using us by simp
  obtain w where tp: "load_texts False redact (raw_of_job j) = Inr \<lparr>tp_parent = job_parent j, tp_thread = job_thread j,
      tp_result = job_result j, tp_tokens = job_tokens j, tp_commit = job_commit j,
      tp_commit_message = job_commit_message j, tp_changed = job_changed j, tp_error = job_error j,
      tp_progress = job_progress j, tp_tools = us, tp_selection = w, tp_moved = False\<rparr>"
    and w: "job_model j = map_option fst w" "job_effort j = map_option (fst \<circ> snd) w" "job_catalog j = map_option (snd \<circ> snd) w"
    using load_texts_back [OF tx tools stable] .
  have times: "load_times (raw_of_job j) = Inr \<lparr>mp_created = job_created j, mp_updated = job_updated j,
      mp_started = job_started j, mp_finished = job_finished j, mp_cancel = job_cancel_requested j\<rparr>"
    by (simp add: load_times_def raw_of_job_def)
  have keys: "keys_ok (job_key j) (job_hash j)" using id by (simp add: plain_identity_ok_def)
  obtain u where up: "job_updated j = Some u" using rest by (auto simp: plain_rest_ok_def)
  have given_texts: "given (job_parent j) = job_parent j" "given (job_thread j) = job_thread j"
    "given (job_result j) = job_result j" "given (job_commit j) = job_commit j"
    "given (job_commit_message j) = job_commit_message j" "given (job_error j) = job_error j"
    "given (job_key j) = job_key j"
    "(if present (job_key j) then job_hash j else None) = job_hash j"
    using tx keys opt_ok_present [of 200 "job_key j"]
    by (auto simp: plain_texts_ok_def keys_ok_def opt_ok_given)
  have full: "(job_status j = JCompleted \<and> \<not> present (job_result j)) = False"
    using rest tx opt_ok_present [of 20000 "job_result j"] by (auto simp: plain_rest_ok_def plain_texts_ok_def)
  have obs: "read_some read_exec_receipt FReceipt (raw_opt (job_receipt j)) = Inr (job_receipt j)"
    "read_some read_cli_receipt FReceipt (raw_opt (job_cli j)) = Inr (job_cli j)"
    "read_some read_notifications FNotifications (raw_opt (job_notifications j)) = Inr (job_notifications j)"
    "read_environment (raw_opt (job_env j)) = Inr (job_env j)"
    using rest by (simp_all add: plain_rest_ok_def read_some_back read_environment_iff)
  have raws: "rj_tenant (raw_of_job j) \<noteq> Absent" "rj_receipt (raw_of_job j) = raw_opt (job_receipt j)"
    "rj_cli (raw_of_job j) = raw_opt (job_cli j)" "rj_notifications (raw_of_job j) = raw_opt (job_notifications j)"
    "rj_env (raw_of_job j) = raw_opt (job_env j)"
    using id by (auto simp: raw_of_job_def plain_identity_ok_def)
  show ?thesis
    unfolding load_plain_def Let_def
    by (simp add: full raws load_identity_back [OF id new] load_keys_back [OF keys] tp times obs given_texts
        effective_updated_def up tools plain_job_def flip: w)
qed

subsection \<open>Authority and the whole record\<close>

definition stored_ok ::
  "digest_fn \<Rightarrow> (string \<Rightarrow> bool) \<Rightarrow> provider option \<Rightarrow> job \<Rightarrow> bool" where
  "stored_ok sha url_ok lp j \<longleftrightarrow> plain_identity_ok lp j \<and> plain_texts_ok j \<and> plain_rest_ok j
     \<and> (\<forall>a \<in> set_option (job_approval j). approval_ok sha a j)
     \<and> (\<forall>x \<in> set_option (job_origin j).
          read_origin url_ok (Some x) (the (job_tenant j)) (job_requester j) = Inr (Some x))
     \<and> read_publication url_ok (job_publication j) j = Inr (job_publication j)"

lemma read_publication_cong:
  assumes "job_tenant j = job_tenant j'" "job_requester j = job_requester j'" "job_origin j = job_origin j'"
    "job_id j = job_id j'"
  shows "read_publication url_ok v j = read_publication url_ok v j'"
  unfolding read_publication_def required_origin_def assms ..

lemma read_origin_id: "read_origin url_ok v t r = Inr w \<Longrightarrow> w = v"
  by (auto simp: read_origin_def split: option.splits if_split_asm)

lemma load_approval_Inr:
  "load_approval sha v j = Inr u \<Longrightarrow> job_approval j = None \<Longrightarrow>
     u = j\<lparr>job_approval := job_approval u\<rparr> \<and> (\<forall>a \<in> set_option (job_approval u). approval_ok sha a j)"
  by (cases v) (auto simp: load_approval_def read_approval_def split: sum.splits if_split_asm)

lemma load_origin_Inr:
  "load_origin url_ok v j = Inr u \<Longrightarrow> job_origin j = None \<Longrightarrow>
     u = j\<lparr>job_origin := job_origin u\<rparr> \<and> (\<forall>x \<in> set_option (job_origin u).
        read_origin url_ok (Some x) (the (job_tenant j)) (job_requester j) = Inr (Some x))"
  by (cases v) (auto simp: load_origin_def split: sum.splits if_split_asm, (metis read_origin_id)+)

lemma load_publication_Inr:
  "load_publication url_ok v j = Inr u \<Longrightarrow> job_publication j = None \<Longrightarrow>
     u = j\<lparr>job_publication := job_publication u\<rparr> \<and> read_publication url_ok (job_publication u) j = Inr (job_publication u)"
  by (cases v) (auto simp: load_publication_def read_publication_def [of _ None] split: sum.splits,
      (metis read_publication_id)+)

lemma load_job_parts:
  assumes "load_job sha url_ok redact lp ids r = Inr (j, m)"
    and "\<And>p m. load_plain redact lp ids r = Inr (p, m) \<Longrightarrow>
      job_approval p = None \<and> job_origin p = None \<and> job_publication p = None"
  obtains p where "load_plain redact lp ids r = Inr (p, m)"
    "j = p\<lparr>job_approval := job_approval j, job_origin := job_origin j, job_publication := job_publication j\<rparr>"
    "\<forall>a \<in> set_option (job_approval j). approval_ok sha a j"
    "\<forall>x \<in> set_option (job_origin j). read_origin url_ok (Some x) (the (job_tenant j)) (job_requester j) = Inr (Some x)"
    "read_publication url_ok (job_publication j) j = Inr (job_publication j)"
proof -
  obtain p u v where p: "load_plain redact lp ids r = Inr (p, m)" and u: "load_approval sha (rj_approval r) p = Inr u"
    and v: "load_origin url_ok (rj_origin r) u = Inr v" and j: "load_publication url_ok (rj_publication r) v = Inr j"
    using assms(1) by (auto simp: load_job_def chain_Inr)
  note none = assms(2) [OF p]
  have U: "u = p\<lparr>job_approval := job_approval u\<rparr>" "\<forall>a \<in> set_option (job_approval u). approval_ok sha a p"
    using load_approval_Inr [OF u] none by auto
  have o: "job_origin u = None" using U(1) none by (metis job.select_convs(8) job.update_convs(7) job.surjective)
  have V: "v = u\<lparr>job_origin := job_origin v\<rparr>"
    "\<forall>x \<in> set_option (job_origin v). read_origin url_ok (Some x) (the (job_tenant u)) (job_requester u) = Inr (Some x)"
    using load_origin_Inr [OF v o] by auto
  have "job_publication v = None" using U(1) V(1) none by (metis job.select_convs(9) job.update_convs(7,8) job.surjective)
  then have J: "j = v\<lparr>job_publication := job_publication j\<rparr>"
    "read_publication url_ok (job_publication j) v = Inr (job_publication j)"
    using load_publication_Inr [OF j] by auto
  have "j = p\<lparr>job_approval := job_approval u, job_origin := job_origin v, job_publication := job_publication j\<rparr>"
    using U(1) V(1) J(1) by metis
  then obtain a b c where abc: "j = p\<lparr>job_approval := a, job_origin := b, job_publication := c\<rparr>"
    "a = job_approval u" "b = job_origin v" "c = job_publication j" by blast
  have ua: "u = p\<lparr>job_approval := a\<rparr>" unfolding abc(2) by (rule U(1))
  have vb: "v = p\<lparr>job_approval := a, job_origin := b\<rparr>" using V(1) unfolding ua abc(3) .
  have same: "job_tenant u = job_tenant j" "job_requester u = job_requester j" "job_tenant v = job_tenant j"
    "job_requester v = job_requester j" "job_origin v = job_origin j" "job_id v = job_id j"
    by (simp_all add: ua vb abc(1))
  have ja: "job_approval j = a" "job_origin j = b" by (simp_all add: abc(1))
  have ap: "approval_ok sha x j \<longleftrightarrow> approval_ok sha x p" for x
    by (rule approval_ok_cong) (simp_all add: abc(1) revision_input_def)
  have pub: "read_publication url_ok w j = read_publication url_ok w v" for w
    by (rule read_publication_cong) (simp_all add: same)
  show thesis
  proof (rule that [OF p])
    show "j = p\<lparr>job_approval := job_approval j, job_origin := job_origin j, job_publication := job_publication j\<rparr>"
      unfolding ja using abc(1) unfolding abc(4) .
    show "\<forall>a \<in> set_option (job_approval j). approval_ok sha a j"
      using U(2) unfolding ja abc(2) ap .
    show "\<forall>x \<in> set_option (job_origin j). read_origin url_ok (Some x) (the (job_tenant j)) (job_requester j) = Inr (Some x)"
      using V(2) unfolding ja abc(3) same(1,2) .
    show "read_publication url_ok (job_publication j) j = Inr (job_publication j)"
      using J(2) unfolding pub .
  qed
qed

lemma load_plain_authority:
  "load_plain redact lp ids r = Inr (p, m) \<Longrightarrow>
     job_approval p = None \<and> job_origin p = None \<and> job_publication p = None"
  by (auto simp: load_plain_def Let_def chain_Inr plain_job_def)

lemma selection_ok_authority [simp]:
  "selection_ok (j\<lparr>job_approval := a, job_origin := b, job_publication := c\<rparr>) = selection_ok j"
  by (simp add: selection_ok_def selection_of_def cong: option.case_cong)

lemma load_job_sound:
  assumes "load_job sha url_ok redact lp ids r = Inr (j, m)" and "rj_tenant r \<noteq> Absent"
  shows "stored_ok sha url_ok lp j \<and> job_id j \<notin> set ids"
proof -
  obtain p where p: "load_plain redact lp ids r = Inr (p, m)"
    "j = p\<lparr>job_approval := job_approval j, job_origin := job_origin j, job_publication := job_publication j\<rparr>"
    and auth: "\<forall>a \<in> set_option (job_approval j). approval_ok sha a j"
    "\<forall>x \<in> set_option (job_origin j). read_origin url_ok (Some x) (the (job_tenant j)) (job_requester j) = Inr (Some x)"
    "read_publication url_ok (job_publication j) j = Inr (job_publication j)"
    using assms(1) load_plain_authority by (rule load_job_parts)
  obtain a b c where j: "j = p\<lparr>job_approval := a, job_origin := b, job_publication := c\<rparr>" using p(2) by blast
  have "plain_identity_ok lp p \<and> plain_texts_ok p \<and> plain_rest_ok p \<and> job_id p \<notin> set ids"
    using load_plain_sound [OF p(1) assms(2)] by blast
  then have "plain_identity_ok lp j \<and> plain_texts_ok j \<and> plain_rest_ok j \<and> job_id j \<notin> set ids"
    by (simp add: j plain_ok_defs)
  with auth show ?thesis by (simp add: stored_ok_def)
qed

lemma load_job_back:
  assumes ok: "stored_ok sha url_ok lp j" and new: "job_id j \<notin> set ids"
    and us: "\<forall>us \<in> set_option (job_tools j). stable_execs redact us"
  shows "load_job sha url_ok redact lp ids (raw_of_job j) = Inr (j, False)"
proof -
  let ?p = "j\<lparr>job_approval := None, job_origin := None, job_publication := None\<rparr>"
  have plain: "load_plain redact lp ids (raw_of_job j) = Inr (?p, False)"
    using ok new us by (intro load_plain_back) (simp_all add: stored_ok_def)
  have ap: "load_approval sha (raw_opt (job_approval j)) ?p = Inr (?p\<lparr>job_approval := job_approval j\<rparr>)"
  proof (cases "job_approval j")
    case (Some a)
    then have "approval_ok sha a ?p"
      using ok approval_ok_cong [of ?p j sha a] by (simp add: stored_ok_def revision_input_def)
    then show ?thesis using Some by (simp add: load_approval_def read_approval_def)
  qed (simp add: load_approval_def)
  have tenant: "present (job_tenant j)"
    using ok text_ok_nonempty by (auto simp: stored_ok_def plain_identity_ok_def)
  let ?u = "?p\<lparr>job_approval := job_approval j\<rparr>"
  have origin: "load_origin url_ok (raw_opt (job_origin j)) ?u = Inr (?u\<lparr>job_origin := job_origin j\<rparr>)"
    using ok tenant by (cases "job_origin j") (auto simp: load_origin_def stored_ok_def)
  let ?v = "?u\<lparr>job_origin := job_origin j\<rparr>"
  have "read_publication url_ok (job_publication j) ?v = Inr (job_publication j)"
    using ok read_publication_cong [of ?v j] by (simp add: stored_ok_def)
  then have pub: "load_publication url_ok (raw_opt (job_publication j)) ?v = Inr j"
    by (cases "job_publication j") (auto simp: load_publication_def)
  have raws: "rj_approval (raw_of_job j) = raw_opt (job_approval j)" "rj_origin (raw_of_job j) = raw_opt (job_origin j)"
    "rj_publication (raw_of_job j) = raw_opt (job_publication j)"
    by (simp_all add: raw_of_job_def)
  show ?thesis
    unfolding load_job_def plain raws chain_simps prod.case ap origin pub ..
qed

section \<open>What a loaded store satisfies\<close>

lemma blank_iff: "blank s \<longleftrightarrow> (\<forall>c \<in> set s. js_space c)"
proof -
  have "(\<forall>c \<in> set (dropWhile js_space s). js_space c) \<longleftrightarrow> dropWhile js_space s = []"
  proof (cases "dropWhile js_space s = []")
    case False
    then show ?thesis using hd_dropWhile [OF False] hd_in_set [OF False] by blast
  qed (auto dest: set_dropWhileD)
  then show ?thesis by (simp add: blank_def js_trim_def)
qed

lemma js_trim_not_blank:
  assumes "js_trim s \<noteq> []" and "0 < n"
  shows "\<not> blank (take n (js_trim s))"
proof -
  have d: "dropWhile js_space s \<noteq> []"
    using assms(1) by (auto simp: js_trim_def dest: set_dropWhileD)
  then have h: "\<not> js_space (hd (dropWhile js_space s))" by (rule hd_dropWhile)
  obtain ys where y: "js_trim s = hd (dropWhile js_space s) # ys"
    using dropWhile_rev_first [where P = js_space, OF d h] by (auto simp: js_trim_def)
  let ?t = "take n (js_trim s)"
  have t: "?t = hd (dropWhile js_space s) # take (n - 1) ys" using y assms(2) by (cases n) auto
  then have "hd (dropWhile js_space s) \<in> set ?t" by simp
  with h show ?thesis by (auto simp: blank_iff)
qed

lemma read_text_not_blank:
  assumes "read_text legacy required n v = Inr (s, m)" and "s \<noteq> []" and "0 < n"
  shows "\<not> blank s"
proof (cases v)
  case (Is x)
  show ?thesis
  proof (cases legacy)
    case True
    let ?t = "js_trim (filter (\<lambda>c. \<not> text_control c) x)"
    have "s = ?t \<or> s = take n ?t" "?t \<noteq> []"
      using assms Is True by (auto simp: read_text_def Let_def split: if_split_asm)
    then show ?thesis
      using js_trim_not_blank [of "filter (\<lambda>c. \<not> text_control c) x" n] assms(3)
        js_trim_not_blank [of "filter (\<lambda>c. \<not> text_control c) x" "length ?t"]
      by auto
  next
    case False
    then show ?thesis using assms(1) by (auto simp: read_text_strict text_ok_def)
  qed
qed (use assms in \<open>simp_all add: read_text_def\<close>)

lemma plain_job_sel [simp]:
  "job_status (plain_job lost a key hash b t receipt cli nt env) = (if lost then JFailed else ip_status a)"
  "job_result (plain_job lost a key hash b t receipt cli nt env) = given (tp_result b)"
  "job_id (plain_job lost a key hash b t receipt cli nt env) = ip_id a"
  "job_tenant (plain_job lost a key hash b t receipt cli nt env) = ip_tenant a"
  by (simp_all add: plain_job_def)

lemma load_plain_result:
  assumes "load_plain redact lp ids r = Inr (j, m)" and "job_status j = JCompleted"
  shows "\<exists>s. job_result j = Some s \<and> \<not> blank s"
proof -
  obtain legacy b where b: "load_texts legacy redact r = Inr b" "job_result j = given (tp_result b)"
      "job_status j = JCompleted \<longrightarrow> present (tp_result b)"
    using assms(1) unfolding load_plain_def Let_def
    apply -
    apply (erule chainE)
    apply (erule chain_tripleE)
    apply (erule chainE)+
    subgoal premises prems
      by (rule prems(1) [OF prems(4)]) (use prems(11) in \<open>auto split: if_split_asm\<close>)
    done
  obtain v k where "read_optional legacy 20000 (rj_result r) = Inr (v, k)" "tp_result b = v"
    using b(1) unfolding load_texts_def by (auto simp: chain_Inr)
  then have "\<forall>s \<in> set_option (tp_result b). s \<noteq> [] \<longrightarrow> \<not> blank s"
    by (auto simp: read_optional_def map_sum_Inr_iff dest: read_text_not_blank split: raw.split_asm)
  with b(2,3) assms(2) show ?thesis by (cases "tp_result b") (auto simp: given_def)
qed

lemma load_job_any:
  assumes "load_job sha url_ok redact lp ids r = Inr (j, m)"
  shows "job_valid sha j" and "job_id j \<notin> set ids" and "job_tenant j = None \<longleftrightarrow> rj_tenant r = Absent"
proof -
  obtain p where p: "load_plain redact lp ids r = Inr (p, m)"
    "j = p\<lparr>job_approval := job_approval j, job_origin := job_origin j, job_publication := job_publication j\<rparr>"
    "\<forall>a \<in> set_option (job_approval j). approval_ok sha a j"
    using assms load_plain_authority by (rule load_job_parts)
  obtain a b c where j: "j = p\<lparr>job_approval := a, job_origin := b, job_publication := c\<rparr>" using p(2) by blast
  show "job_valid sha j"
    using p(3) load_plain_result [OF p(1)] by (simp add: job_valid_def j)
  obtain ip where ip: "load_identity (rj_tenant r = Absent) lp ids r = Inr ip" "job_id p = ip_id ip" "job_tenant p = ip_tenant ip"
    using p(1) unfolding load_plain_def Let_def by (auto simp: chain_Inr plain_job_def)
  from ip(1) have "ip_id ip \<notin> set ids" "ip_tenant ip = None \<longleftrightarrow> rj_tenant r = Absent"
    by (cases "rj_tenant r"; auto simp: load_identity_def chain_Inr map_sum_Inr_iff split: if_split_asm)+
  then show "job_id j \<notin> set ids" "job_tenant j = None \<longleftrightarrow> rj_tenant r = Absent"
    using ip by (simp_all add: j)
qed

lemma load_each_sound:
  "load_each sha url_ok redact lp ids rs = Inr (jobs, m) \<Longrightarrow>
     distinct (map job_id jobs) \<and> (\<forall>j \<in> set jobs. job_id j \<notin> set ids \<and> job_valid sha j
       \<and> (job_tenant j \<noteq> None \<longrightarrow> stored_ok sha url_ok lp j))"
proof (induction sha url_ok redact lp ids rs arbitrary: jobs m rule: load_each.induct)
  case (2 sha url_ok redact lp ids r rs)
  then obtain j k jobs' m' where j: "load_job sha url_ok redact lp ids r = Inr (j, k)"
    and rest: "load_each sha url_ok redact lp (job_id j # ids) rs = Inr (jobs', m')" "jobs = j # jobs'"
    by (auto simp: chain_Inr map_sum_Inr_iff)
  have ih: "distinct (map job_id jobs') \<and> (\<forall>j' \<in> set jobs'. job_id j' \<notin> set (job_id j # ids) \<and> job_valid sha j'
       \<and> (job_tenant j' \<noteq> None \<longrightarrow> stored_ok sha url_ok lp j'))"
    by (rule "2.IH" [OF rest(1)])
  then show ?case
    using load_job_any [OF j] load_job_sound [OF j] rest(2) by auto
qed auto

lemma load_each_back:
  "distinct (map job_id jobs) \<Longrightarrow> \<forall>j \<in> set jobs. job_id j \<notin> set ids \<Longrightarrow> \<forall>j \<in> set jobs. stored_ok sha url_ok lp j
     \<Longrightarrow> \<forall>j \<in> set jobs. \<forall>us \<in> set_option (job_tools j). stable_execs redact us
     \<Longrightarrow> load_each sha url_ok redact lp ids (map (Is \<circ> raw_of_job) jobs) = Inr (jobs, False)"
proof (induction jobs arbitrary: ids)
  case (Cons j jobs)
  have "load_job sha url_ok redact lp ids (raw_of_job j) = Inr (j, False)"
    using Cons.prems by (intro load_job_back) auto
  moreover have "\<forall>k \<in> set jobs. job_id k \<notin> set (job_id j # ids)"
    using Cons.prems(1,2) by (auto simp: image_iff)
  ultimately show ?case using Cons.IH [of "job_id j # ids"] Cons.prems by simp
qed simp

lemma keyed_unique: "distinct (keyed jobs) \<Longrightarrow> keys_unique jobs"
proof -
  have "filter scoped_key (map owner_key jobs) = filter (\<lambda>x. fst x \<noteq> None) (keyed jobs)"
    by (induction jobs) (auto simp: keyed_def scoped_key_def owner_key_def)
  then show "distinct (keyed jobs) \<Longrightarrow> keys_unique jobs" by (simp add: keys_unique_def)
qed

lemma first_fault_None: "first_fault f xs = None \<longleftrightarrow> (\<forall>x \<in> set xs. f x = None)"
  by (induction xs) (auto split: option.splits)

lemma load_jobs_Inr:
  "load_jobs sha url_ok redact lp v = Inr (jobs, m) \<longleftrightarrow> (\<exists>rs. v = Is rs
     \<and> load_each sha url_ok redact lp [] rs = Inr (jobs, m)
     \<and> (\<forall>j \<in> set jobs. parent_fault jobs j = None) \<and> distinct (keyed jobs))"
  by (cases v) (auto simp: load_jobs_def chain_Inr first_fault_None split: option.splits if_split_asm)

lemma load_job_bad:
  assumes "job_tenant u \<noteq> None" and "\<not> opt_ok 10000 (job_error u)"
  shows "load_job sha url_ok redact lp ids (raw_of_job u) \<noteq> Inr (j, m)"
proof
  assume l: "load_job sha url_ok redact lp ids (raw_of_job u) = Inr (j, m)"
  have t: "rj_tenant (raw_of_job u) \<noteq> Absent" using assms(1) by (simp add: raw_of_job_def)
  obtain p where "load_plain redact lp ids (raw_of_job u) = Inr (p, m)"
    using l load_plain_authority by (rule load_job_parts)
  then obtain b where "load_texts False redact (raw_of_job u) = Inr b"
    using t unfolding load_plain_def Let_def by (auto simp: chain_Inr)
  then obtain w k where "read_optional False 10000 (raw_opt (job_error u)) = Inr (w, k)"
    unfolding load_texts_def by (auto simp: chain_Inr raw_of_job_def)
  moreover have "raw_opt w = raw_opt (job_error u) \<Longrightarrow> w = job_error u"
    by (cases w; cases "job_error u") auto
  ultimately show False using assms(2) by (auto simp: read_optional_strict)
qed

lemma load_each_append:
  "load_each sha url_ok redact lp ids (xs @ ys) = Inr r \<Longrightarrow> \<exists>ids' r'. load_each sha url_ok redact lp ids' ys = Inr r'"
proof (induction xs arbitrary: ids r)
  case (Cons x xs)
  then show ?case by (cases x) (auto simp: chain_Inr map_sum_Inr_iff)
qed auto

lemma load_jobs_bad:
  assumes "job_tenant u \<noteq> None" and "\<not> opt_ok 10000 (job_error u)"
  shows "load_jobs sha url_ok redact lp (Is (before @ Is (raw_of_job u) # after)) \<noteq> Inr (jobs, m)"
  using load_job_bad [OF assms] load_each_append [of sha url_ok redact lp "[]" before "Is (raw_of_job u) # after"]
  by (auto simp: load_jobs_Inr chain_Inr)

end
