(* ===== verification/AgentFollowUp.thy ===== *)
theory AgentFollowUp
  imports AgentSubmission JobLoad
begin

text \<open>
  The walk over the ancestors of a follow-up job (\<open>readOnlyFollowUpPrompt\<close> of
  \<open>server/agent-service.ts\<close>), which returns on every store, also when parents form a cycle; and the
  prompts a submission accepts which the loader of the store refuses.
\<close>

section \<open>The walk\<close>

definition context_source :: "job list \<Rightarrow> scope \<Rightarrow> context_entry \<Rightarrow> job \<Rightarrow> bool" where
  "context_source jobs sc e p \<longleftrightarrow> p \<in> set jobs \<and> matches_scope p sc \<and> job_provider p = Some Codex
     \<and> job_mode p = ReadOnly \<and> job_status p = JCompleted \<and> ce_request e = job_prompt p
     \<and> (\<exists>r. job_result p = Some r \<and> ce_result e = take 4000 r)"

definition context_ok :: "job list \<Rightarrow> scope \<Rightarrow> context_entry list \<Rightarrow> bool" where
  "context_ok jobs sc es \<longleftrightarrow> length es \<le> 4 \<and> (\<forall>e \<in> set es. \<exists>p. context_source jobs sc e p)"

lemma context_ok_step:
  assumes "context_ok jobs sc found" and "length found < 4" and "get_job i sc jobs = Some p"
    and "job_provider p = Some Codex" and "job_mode p = ReadOnly"
  shows "context_ok jobs sc (found @ context_entry_of p)"
proof -
  have "p \<in> set jobs" "matches_scope p sc" using assms(3) by (auto simp: get_job_def dest: find_Some_mem)
  then have "context_source jobs sc e p" if "e \<in> set (context_entry_of p)" for e
    using that assms(4,5) by (auto simp: context_entry_of_def context_source_def present_def split: if_splits option.splits)
  moreover have "length (context_entry_of p) \<le> 1" by (simp add: context_entry_of_def)
  ultimately show ?thesis using assms(1,2) by (auto simp: context_ok_def)
qed

lemma follow_up_loop_returns:
  "context_ok jobs sc found \<Longrightarrow> \<exists>es. follow_up_loop jobs sc seen found parent = Some es \<and> context_ok jobs sc es"
proof (induction "9 - length seen" arbitrary: seen found parent rule: less_induct)
  case less
  show ?case
  proof (cases "\<not> present parent \<or> 9 \<le> length seen \<or> 4 \<le> length found \<or> the parent \<in> set seen")
    case True
    then show ?thesis using less.prems by (subst follow_up_loop.simps) auto
  next
    case False
    show ?thesis
    proof (cases "get_job (the parent) sc jobs")
      case None
      then show ?thesis using False less.prems by (subst follow_up_loop.simps) auto
    next
      case (Some p)
      show ?thesis
      proof (cases "job_provider p = Some Codex \<and> job_mode p = ReadOnly")
        case False
        then show ?thesis
          using less.prems Some \<open>\<not> (_ \<or> _)\<close> by (subst follow_up_loop.simps) auto
      next
        case True
        have "follow_up_loop jobs sc seen found parent
            = follow_up_loop jobs sc (the parent # seen) (found @ context_entry_of p) (job_parent p)"
          using False Some True by (subst follow_up_loop.simps) auto
        moreover have "9 - length (the parent # seen) < 9 - length seen" using False by auto
        moreover have "context_ok jobs sc (found @ context_entry_of p)"
          by (rule context_ok_step [OF less.prems _ Some]) (use False True in auto)
        ultimately show ?thesis using less.hyps [of "the parent # seen"] by auto
      qed
    qed
  qed
qed

lemma follow_up_returns: "\<exists>es. follow_up_context jobs sc j = Some es \<and> context_ok jobs sc es"
proof -
  have nil: "context_ok jobs sc []" by (simp add: context_ok_def)
  obtain es where "follow_up_loop jobs sc [job_id j] [] (job_parent j) = Some es" "context_ok jobs sc es"
    using follow_up_loop_returns [OF nil] by blast
  then show ?thesis using nil by (auto simp: follow_up_context_def context_ok_def)
qed

section \<open>Prompts the loader refuses\<close>

lemma load_jobs_refuses:
  assumes "\<And>ids j m. load_job sha url_ok redact lp ids (raw_of_job u) \<noteq> Inr (j, m)"
  shows "load_jobs sha url_ok redact lp (Is (before @ Is (raw_of_job u) # after)) \<noteq> Inr (jobs, m)"
  using assms load_each_append [of sha url_ok redact lp "[]" before "Is (raw_of_job u) # after"]
  by (auto simp: load_jobs_Inr chain_Inr)

lemma load_job_control_prompt:
  assumes "job_tenant u \<noteq> None" and "list_ex text_control (job_prompt u)"
  shows "load_job sha url_ok redact lp ids (raw_of_job u) \<noteq> Inr (j, m)"
proof
  assume l: "load_job sha url_ok redact lp ids (raw_of_job u) = Inr (j, m)"
  have t: "rj_tenant (raw_of_job u) \<noteq> Absent" using assms(1) by (simp add: raw_of_job_def)
  obtain p where "load_plain redact lp ids (raw_of_job u) = Inr (p, m)"
    using l load_plain_authority by (rule load_job_parts)
  then obtain a where "load_identity False lp ids (raw_of_job u) = Inr a"
    using t unfolding load_plain_def Let_def by (auto simp: chain_Inr)
  then obtain w k where "read_required False 2000 (Is (job_prompt u)) = Inr (w, k)"
    unfolding load_identity_def by (auto simp: chain_Inr raw_of_job_def split: if_splits)
  then show False using assms(2) by (auto simp: read_required_def read_text_def Let_def chain_Inr split: if_splits)
qed

lemma normalize_prompt_Inr: "normalize_prompt p = Inr q \<Longrightarrow> q = js_trim p"
  by (auto simp: normalize_prompt_def Let_def split: if_splits)

lemma control_prompt_kept:
  assumes "fresh_env en s" and "ad_jobs (adm_live (sv_adm s)) (en_job_id en) = None" and "sv_writes s = []"
    and "submit_once cf en x s = (s', Inr j)" and "c \<in> set (js_trim (si_prompt x))" and "text_control c"
  shows "jobs_of s' = j # jobs_of s \<and> job_tenant j \<noteq> None \<and> list_ex text_control (job_prompt j)"
proof -
  have s': "jobs_of s' = j # jobs_of s" using submission_cases [OF assms(1-4)] by simp
  obtain prompt p m e cat where a: "admit cf en x s = (s, Inr (prompt, p, (m, e, cat)))"
    and b: "build_job (h_sha (cf_host cf)) (h_url (cf_host cf)) (created_input x prompt p (m, e, cat))
       (en_job_id en) (en_uuid en) (en_now en) = Inr j"
    using assms(4) by (rule submit_once_Inr)
  have "job_prompt j = js_trim (si_prompt x)"
    using build_job_fields(7) [OF b] normalize_prompt_Inr [OF admit_Inr(2) [OF a]] by (simp add: created_input_def)
  moreover have "job_tenant j \<noteq> None"
    using build_job_fields(2) [OF b] by (simp add: matches_scope_def)
  ultimately show ?thesis using s' assms(5,6) by (auto simp: list_ex_iff)
qed

end
