(* ===== verification/AgentSoundness.thy ===== *)
theory AgentSoundness
  imports AgentFollowUp
begin

text \<open>
  What every run of the agent service keeps: the invariants of the job store and of the admission
  controller, carried over to the service by the relation of the runs.
\<close>

lemma normalize_prompt_bound: "normalize_prompt p = Inr q \<Longrightarrow> q = js_trim p \<and> length q \<le> 2000"
  by (auto simp: normalize_prompt_def Let_def split: if_splits)

lemma build_job_writing:
  assumes "build_job sha url_ok x i uuid now = Inr j" and "job_mode j = WorkspaceWrite"
  shows "job_approval j \<noteq> None"
  using assms
  by (auto simp: build_job_def Let_def initial_job_def map_sum_Inr_iff
      split: if_splits option.splits sum.splits)

definition svc_sound :: "svc_config \<Rightarrow> svc \<Rightarrow> bool" where
  "svc_sound cf s \<longleftrightarrow> store_good (sv_jobs s) \<and> keys_unique (jobs_of s)
     \<and> (\<forall>j \<in> set (jobs_of s). job_valid (h_sha (cf_host cf)) j)
     \<and> adm_inv (adm_live (sv_adm s)) \<and> within (cf_limits cf) (usage (adm_live (sv_adm s)))"

lemma svc_rel_sound:
  assumes "svc_rel cf False s s'" and "svc_sound cf s"
  shows "svc_sound cf s'"
proof -
  obtain es as where e: "steps_of (store_step (cf_host cf)) (sv_jobs s) es (sv_jobs s')"
    "\<forall>ev \<in> set es. good_random (cf_host cf) (fst ev)"
    "steps_of (adm_step (cf_limits cf)) (sv_adm s) as (sv_adm s')" "\<forall>ev \<in> set as. \<not> is_reconstruct (fst ev)"
    using assms(1) unfolding svc_rel_def by blast
  note inv = assms(2) [unfolded svc_sound_def]
  show ?thesis
    unfolding svc_sound_def
    using store_steps_good [OF e(1)] store_steps_keys [OF e(1)] store_steps_valid [OF e(1,2)]
      adm_steps_inv [OF e(3)] adm_steps_within [OF e(3) _ _ e(4)] inv
    by (simp add: jobs_of_def)
qed

end
