(* ===== verification/PullWorker.thy ===== *)
theory PullWorker
  imports JobModel
begin

text \<open>
  The host of a pull worker (\<open>server/pull-worker.ts\<close>): a durable ledger of read-only tasks that
  one authenticated worker claims under a lease, begins, keeps alive and finishes, with the
  dispatcher's side (dispatch, observe, cancel). Every call is a transaction: expired leases are
  handled first, then the operation runs on a copy, and the copy is written before it is shown.

  The digests of tasks and results and the schema library's test of a UUID text are parameters. The fields of a task that the schema fixes to
  one value (provider, mode, model, effort) are not part of the record.
\<close>

section \<open>Records\<close>

record pull_task =
  pt_job :: string
  pt_tenant :: string
  pt_requester :: string
  pt_conversation :: string
  pt_prompt :: string
  pt_catalog :: string
  pt_created :: time
  pt_commit :: string

datatype pull_state = PQueued | PLeased | PRunning | PQuarantined | PCompleted | PFailed | PCancelled
datatype result_status = RsCompleted | RsFailed | RsCancelled

record pull_result =
  px_status :: result_status
  px_result :: "string option"
  px_error :: "string option"
  px_execution :: "string option"

record pull_record =
  pw_task :: pull_task
  pw_hash :: string
  pw_state :: pull_state
  pw_lease :: "string option"
  pw_expires :: "time option"
  pw_cancel :: bool
  pw_result :: "pull_result option"

record pull_host =
  ph_worker :: string
  ph_commit :: string
  ph_lease_ms :: int
  ph_task_hash :: "pull_task \<Rightarrow> string"
  ph_result_hash :: "pull_result \<Rightarrow> string"
  ph_uuid :: "string \<Rightarrow> bool"

record worker_identity =
  wi_id :: string
  wi_tenant :: string
  wi_requester :: string

record pull_claim =
  pc_job :: string
  pc_lease :: string
  pc_task :: pull_task

datatype pull_error = PwOwner | PwLease | PwConflict | PwInvalid | PwUnavailable | PwSchema | PwWriteFailed

section \<open>Schemas\<close>

definition identifier_text :: "string \<Rightarrow> bool" where
  "identifier_text s \<longleftrightarrow> 1 \<le> length s \<and> length s \<le> 256
     \<and> list_all (\<lambda>c. \<not> (code_unit c \<le> 31 \<or> code_unit c = 127)) s"

definition task_ok :: "pull_task \<Rightarrow> bool" where
  "task_ok t \<longleftrightarrow> identifier_text (pt_job t) \<and> identifier_text (pt_tenant t) \<and> identifier_text (pt_requester t)
     \<and> identifier_text (pt_conversation t) \<and> 1 \<le> length (pt_prompt t) \<and> length (pt_prompt t) \<le> 20000
     \<and> 1 \<le> length (pt_catalog t) \<and> length (pt_catalog t) \<le> 256 \<and> hex_text 40 (pt_commit t)"

definition result_ok :: "pull_result \<Rightarrow> bool" where
  "result_ok r \<longleftrightarrow>
     (case px_result r of None \<Rightarrow> True | Some s \<Rightarrow> length s \<le> 20000)
     \<and> (case px_error r of None \<Rightarrow> True | Some s \<Rightarrow> length s \<le> 10000)
     \<and> (case px_execution r of None \<Rightarrow> True | Some s \<Rightarrow> identifier_text s)
     \<and> (px_status r = RsCompleted \<longrightarrow>
          (case px_result r of None \<Rightarrow> False | Some s \<Rightarrow> \<not> blank s) \<and> px_execution r \<noteq> None)"

definition lease_ref_ok :: "pull_host \<Rightarrow> string \<Rightarrow> string \<Rightarrow> bool" where
  "lease_ref_ok h jid lease \<longleftrightarrow> identifier_text jid \<and> ph_uuid h lease"

definition host_ok :: "pull_host \<Rightarrow> bool" where
  "host_ok h \<longleftrightarrow> identifier_text (ph_worker h) \<and> hex_text 40 (ph_commit h)
     \<and> 1000 \<le> ph_lease_ms h \<and> ph_lease_ms h \<le> 120000"

definition pull_terminal :: "pull_state \<Rightarrow> bool" where
  "pull_terminal s \<longleftrightarrow> s = PCompleted \<or> s = PFailed \<or> s = PCancelled"

fun state_of_status :: "result_status \<Rightarrow> pull_state" where
  "state_of_status RsCompleted = PCompleted"
| "state_of_status RsFailed = PFailed"
| "state_of_status RsCancelled = PCancelled"

section \<open>Transactions\<close>

definition expire_record :: "time \<Rightarrow> pull_record \<Rightarrow> pull_record" where
  "expire_record now r = (case pw_expires r of
       None \<Rightarrow> r
     | Some e \<Rightarrow>
         if now < e then r
         else if pw_state r = PLeased then r\<lparr>pw_state := PQueued, pw_lease := None, pw_expires := None\<rparr>
         else if pw_state r = PRunning then r\<lparr>pw_state := PQuarantined\<rparr>
         else r)"

record pull_store =
  ps_live :: "pull_record list"
  ps_disk :: "pull_record list"

definition pull_write ::
  "bool \<Rightarrow> (pull_record list \<Rightarrow> pull_error + pull_record list \<times> 'a) \<Rightarrow> pull_store
     \<Rightarrow> pull_store \<times> (pull_error + 'a)" where
  "pull_write ok operation st = (case operation (ps_live st) of
       Inl e \<Rightarrow> (st, Inl e)
     | Inr (next, a) \<Rightarrow> if ok then (\<lparr>ps_live = next, ps_disk = next\<rparr>, Inr a) else (st, Inl PwWriteFailed))"

definition transaction ::
  "bool \<Rightarrow> time \<Rightarrow> bool \<Rightarrow> (pull_record list \<Rightarrow> pull_error + pull_record list \<times> 'a) \<Rightarrow> pull_store
     \<Rightarrow> pull_store \<times> (pull_error + 'a)" where
  "transaction closed now ok operation st =
     (if closed then (st, Inl PwUnavailable)
      else pull_write ok (\<lambda>rs. operation (map (expire_record now) rs)) st)"

interpretation pull_tx: durable_mutation pull_write ps_live ps_disk
  by unfold_locales (auto simp: pull_write_def)

definition load_ledger :: "pull_host \<Rightarrow> string \<Rightarrow> pull_record list \<Rightarrow> pull_error + pull_store" where
  "load_ledger h worker records =
     (if worker \<noteq> ph_worker h \<or> list_ex (\<lambda>r. pw_hash r \<noteq> ph_task_hash h (pw_task r)) records
      then Inl PwConflict else Inr \<lparr>ps_live = records, ps_disk = records\<rparr>)"

section \<open>The dispatcher's side\<close>

definition task_for :: "pull_host \<Rightarrow> job \<Rightarrow> pull_error + pull_task" where
  "task_for h j =
     (if job_mode j \<noteq> ReadOnly \<or> present (job_thread j) \<or> present (job_parent j)
         \<or> (job_status j \<noteq> JQueued \<and> job_status j \<noteq> JRunning) then Inl PwInvalid
      else case (job_tenant j, job_catalog j) of
        (Some tenant, Some catalog) \<Rightarrow>
          (let t = \<lparr>pt_job = job_id j, pt_tenant = tenant, pt_requester = job_requester j,
                    pt_conversation = job_conversation j, pt_prompt = job_prompt j, pt_catalog = catalog,
                    pt_created = job_created j, pt_commit = ph_commit h\<rparr>
           in if \<not> task_ok t \<or> job_provider j \<noteq> Some Codex \<or> job_model j \<noteq> Some ''gpt-6-luna''
                 \<or> job_effort j \<noteq> Some EffXhigh \<or> \<not> hex_text 64 catalog
              then Inl PwSchema else Inr t)
      | _ \<Rightarrow> Inl PwSchema)"

definition record_of_job :: "string \<Rightarrow> pull_record \<Rightarrow> bool" where
  "record_of_job jid r \<longleftrightarrow> pt_job (pw_task r) = jid"

definition pull_dispatch :: "pull_host \<Rightarrow> pull_task \<Rightarrow> pull_record list \<Rightarrow> pull_error + pull_record list \<times> unit" where
  "pull_dispatch h t rs = (case find (record_of_job (pt_job t)) rs of
       Some previous \<Rightarrow> if pw_hash previous \<noteq> ph_task_hash h t then Inl PwConflict else Inr (rs, ())
     | None \<Rightarrow>
         if 4096 \<le> length rs then Inl PwUnavailable
         else Inr (rs @ [\<lparr>pw_task = t, pw_hash = ph_task_hash h t, pw_state = PQueued, pw_lease = None,
                          pw_expires = None, pw_cancel = False, pw_result = None\<rparr>], ()))"

definition referenced :: "job \<Rightarrow> pull_record list \<Rightarrow> pull_error + nat option" where
  "referenced j rs = (case find_index (record_of_job (job_id j)) rs of
       None \<Rightarrow> Inr None
     | Some k \<Rightarrow>
         (let t = pw_task (rs ! k) in
          if Some (pt_tenant t) \<noteq> job_tenant j \<or> pt_requester t \<noteq> job_requester j
             \<or> pt_conversation t \<noteq> job_conversation j
          then Inl PwOwner else Inr (Some k)))"

datatype observation = ObsResult pull_result | ObsState pull_state "string option"

definition pull_observe :: "job \<Rightarrow> pull_record list \<Rightarrow> pull_error + pull_record list \<times> observation option" where
  "pull_observe j rs = (case referenced j rs of
       Inl e \<Rightarrow> Inl e
     | Inr None \<Rightarrow> Inr (rs, None)
     | Inr (Some k) \<Rightarrow>
         Inr (rs, Some (case pw_result (rs ! k) of
             Some x \<Rightarrow> ObsResult x
           | None \<Rightarrow> ObsState (if pw_state (rs ! k) = PLeased then PQueued else pw_state (rs ! k))
               (if pw_state (rs ! k) = PQuarantined then Some ''PULL_WORKER_CLEANUP_UNVERIFIED'' else None))))"

definition cancelled_result :: pull_result where
  "cancelled_result = \<lparr>px_status = RsCancelled, px_result = None, px_error = None, px_execution = None\<rparr>"

definition cancel_record :: "pull_record \<Rightarrow> pull_record" where
  "cancel_record r =
     (if pw_state r = PQueued \<or> pw_state r = PLeased
      then r\<lparr>pw_cancel := True, pw_state := PCancelled, pw_result := Some cancelled_result\<rparr>
      else r\<lparr>pw_cancel := True\<rparr>)"

definition pull_cancel :: "job \<Rightarrow> pull_record list \<Rightarrow> pull_error + pull_record list \<times> unit" where
  "pull_cancel j rs = (case referenced j rs of
       Inl e \<Rightarrow> Inl e
     | Inr None \<Rightarrow> Inr (rs, ())
     | Inr (Some k) \<Rightarrow>
         if pull_terminal (pw_state (rs ! k)) then Inr (rs, ()) else Inr (rs[k := cancel_record (rs ! k)], ()))"

section \<open>The worker's side\<close>

definition same_owner :: "pull_host \<Rightarrow> worker_identity \<Rightarrow> pull_record \<Rightarrow> bool" where
  "same_owner h w r \<longleftrightarrow> wi_id w = ph_worker h \<and> wi_tenant w = pt_tenant (pw_task r)
     \<and> wi_requester w = pt_requester (pw_task r)"

definition owned_record ::
  "pull_host \<Rightarrow> worker_identity \<Rightarrow> string \<Rightarrow> string \<Rightarrow> pull_record list \<Rightarrow> pull_error + nat" where
  "owned_record h w jid lease rs =
     (if \<not> lease_ref_ok h jid lease then Inl PwSchema
      else case find_index (record_of_job jid) rs of
        None \<Rightarrow> Inl PwOwner
      | Some k \<Rightarrow>
          if \<not> same_owner h w (rs ! k) then Inl PwOwner
          else if pw_lease (rs ! k) \<noteq> Some lease then Inl PwLease
          else Inr k)"

definition claim_for :: "pull_record \<Rightarrow> pull_claim" where
  "claim_for r = \<lparr>pc_job = pt_job (pw_task r), pc_lease = the (pw_lease r), pc_task = pw_task r\<rparr>"

definition active_record :: "pull_record \<Rightarrow> bool" where
  "active_record r \<longleftrightarrow> pw_state r = PLeased \<or> pw_state r = PRunning"

definition pull_claim_next ::
  "pull_host \<Rightarrow> worker_identity \<Rightarrow> string \<Rightarrow> time \<Rightarrow> pull_record list
     \<Rightarrow> pull_error + pull_record list \<times> pull_claim option" where
  "pull_claim_next h w uuid now rs =
     (case find (\<lambda>r. same_owner h w r \<and> active_record r) rs of
        Some r \<Rightarrow> Inr (rs, Some (claim_for r))
      | None \<Rightarrow>
          if list_ex (\<lambda>r. same_owner h w r \<and> pw_state r = PQuarantined) rs then Inr (rs, None)
          else case find_index (\<lambda>r. same_owner h w r \<and> pw_state r = PQueued) rs of
            None \<Rightarrow> Inr (rs, None)
          | Some k \<Rightarrow>
              (let r = (rs ! k)\<lparr>pw_state := PLeased, pw_lease := Some uuid,
                                pw_expires := Some (now + ph_lease_ms h)\<rparr>
               in Inr (rs[k := r], Some (claim_for r))))"

definition pull_begin ::
  "pull_host \<Rightarrow> worker_identity \<Rightarrow> string \<Rightarrow> string \<Rightarrow> time \<Rightarrow> pull_record list
     \<Rightarrow> pull_error + pull_record list \<times> pull_claim" where
  "pull_begin h w jid lease now rs = (case owned_record h w jid lease rs of
       Inl e \<Rightarrow> Inl e
     | Inr k \<Rightarrow>
         if pw_cancel (rs ! k) then Inl PwConflict
         else if \<not> active_record (rs ! k) then Inl PwLease
         else let r = (rs ! k)\<lparr>pw_state := PRunning, pw_expires := Some (now + ph_lease_ms h)\<rparr>
              in Inr (rs[k := r], claim_for r))"

definition pull_heartbeat ::
  "pull_host \<Rightarrow> worker_identity \<Rightarrow> string \<Rightarrow> string \<Rightarrow> time \<Rightarrow> pull_record list
     \<Rightarrow> pull_error + pull_record list \<times> bool" where
  "pull_heartbeat h w jid lease now rs = (case owned_record h w jid lease rs of
       Inl e \<Rightarrow> Inl e
     | Inr k \<Rightarrow>
         if pw_state (rs ! k) \<noteq> PRunning then Inl PwLease
         else Inr (rs[k := (rs ! k)\<lparr>pw_expires := Some (now + ph_lease_ms h)\<rparr>], pw_cancel (rs ! k)))"

definition pull_finish ::
  "pull_host \<Rightarrow> worker_identity \<Rightarrow> string \<Rightarrow> string \<Rightarrow> pull_result \<Rightarrow> pull_record list
     \<Rightarrow> pull_error + pull_record list \<times> unit" where
  "pull_finish h w jid lease x rs = (case owned_record h w jid lease rs of
       Inl e \<Rightarrow> Inl e
     | Inr k \<Rightarrow>
         (let r = rs ! k in
          if pw_cancel r \<and> px_status x \<noteq> RsCancelled then Inl PwConflict
          else if \<not> result_ok x then Inl PwSchema
          else case pw_result r of
            Some y \<Rightarrow> if ph_result_hash h x \<noteq> ph_result_hash h y then Inl PwConflict else Inr (rs, ())
          | None \<Rightarrow>
              if pw_state r \<noteq> PRunning \<and> \<not> (pw_state r = PQuarantined \<and> px_status x = RsCancelled)
              then Inl PwLease
              else Inr (rs[k := r\<lparr>pw_state := state_of_status (px_status x), pw_result := Some x\<rparr>], ())))"

section \<open>Invariant\<close>

definition busy :: "pull_record \<Rightarrow> bool" where
  "busy r \<longleftrightarrow> pw_state r = PLeased \<or> pw_state r = PRunning \<or> pw_state r = PQuarantined"

definition owner :: "pull_record \<Rightarrow> string \<times> string" where
  "owner r = (pt_tenant (pw_task r), pt_requester (pw_task r))"

definition record_inv :: "pull_record \<Rightarrow> bool" where
  "record_inv r \<longleftrightarrow>
     (busy r \<longrightarrow> pw_lease r \<noteq> None \<and> pw_expires r \<noteq> None)
     \<and> (pw_state r = PQueued \<longrightarrow> pw_lease r = None)
     \<and> (pw_state r = PQueued \<or> pw_state r = PLeased \<longrightarrow> \<not> pw_cancel r)
     \<and> (pull_terminal (pw_state r) \<longleftrightarrow> pw_result r \<noteq> None)
     \<and> (\<forall>x \<in> set_option (pw_result r). result_ok x \<and> pw_state r = state_of_status (px_status x))
     \<and> (pull_terminal (pw_state r) \<and> pw_cancel r \<longrightarrow> pw_state r = PCancelled)"

text \<open>No owner has two records out for execution: a leased, a running or a quarantined one bars
  every other.\<close>

definition one_busy :: "pull_record list \<Rightarrow> bool" where
  "one_busy rs \<longleftrightarrow> (\<forall>i < length rs. \<forall>k < length rs.
     busy (rs ! i) \<longrightarrow> busy (rs ! k) \<longrightarrow> owner (rs ! i) = owner (rs ! k) \<longrightarrow> i = k)"

definition pull_inv :: "pull_record list \<Rightarrow> bool" where
  "pull_inv rs \<longleftrightarrow> distinct (map (pt_job \<circ> pw_task) rs) \<and> (\<forall>r \<in> set rs. record_inv r) \<and> one_busy rs"

lemmas record_defs = record_inv_def busy_def pull_terminal_def owner_def

lemma state_of_status_terminal [simp]: "pull_terminal (state_of_status x)"
  "state_of_status x = PCancelled \<longleftrightarrow> x = RsCancelled"
  "state_of_status x \<noteq> PQueued" "state_of_status x \<noteq> PLeased" "state_of_status x \<noteq> PRunning"
  "state_of_status x \<noteq> PQuarantined"
  by (cases x; simp add: pull_terminal_def)+

lemma expire_record_cases:
  "expire_record now r = r
   \<or> (pw_state r = PLeased \<and> expire_record now r = r\<lparr>pw_state := PQueued, pw_lease := None, pw_expires := None\<rparr>)
   \<or> (pw_state r = PRunning \<and> pw_expires r \<noteq> None \<and> expire_record now r = r\<lparr>pw_state := PQuarantined\<rparr>)"
  by (cases "pw_expires r") (simp_all add: expire_record_def)

lemma expire_record_inv: "record_inv r \<Longrightarrow> record_inv (expire_record now r)"
  using expire_record_cases [of now r] by (elim disjE conjE) (simp_all add: record_defs)

lemma expire_record_task [simp]: "pw_task (expire_record now r) = pw_task r" "owner (expire_record now r) = owner r"
  "pw_hash (expire_record now r) = pw_hash r" "pw_cancel (expire_record now r) = pw_cancel r"
  by (auto simp: expire_record_def owner_def split: option.splits)

lemma expire_record_busy: "busy (expire_record now r) \<Longrightarrow> busy r"
  by (auto simp: expire_record_def busy_def split: option.splits if_splits)

lemma expire_inv:
  assumes "pull_inv rs"
  shows "pull_inv (map (expire_record now) rs)"
proof -
  have "distinct (map (pt_job \<circ> pw_task) (map (expire_record now) rs))"
    using assms by (simp add: pull_inv_def comp_def)
  moreover have "\<forall>r \<in> set (map (expire_record now) rs). record_inv r"
    using assms expire_record_inv by (simp add: pull_inv_def)
  moreover have "one_busy (map (expire_record now) rs)"
    unfolding one_busy_def
  proof (intro allI impI)
    fix i k
    assume "i < length (map (expire_record now) rs)" "k < length (map (expire_record now) rs)"
      "busy (map (expire_record now) rs ! i)" "busy (map (expire_record now) rs ! k)"
      "owner (map (expire_record now) rs ! i) = owner (map (expire_record now) rs ! k)"
    then have "i < length rs" "k < length rs" "busy (rs ! i)" "busy (rs ! k)" "owner (rs ! i) = owner (rs ! k)"
      using expire_record_busy by simp_all
    then show "i = k" using assms unfolding pull_inv_def one_busy_def by blast
  qed
  ultimately show ?thesis unfolding pull_inv_def by blast
qed

lemma pull_inv_update:
  assumes "pull_inv rs" and "k < length rs" and "pw_task r = pw_task (rs ! k)" and "record_inv r"
    and "busy r \<Longrightarrow> busy (rs ! k) \<or> (\<forall>x \<in> set rs. busy x \<longrightarrow> owner x \<noteq> owner r)"
  shows "pull_inv (rs[k := r])"
proof -
  have own: "owner r = owner (rs ! k)" using assms(3) by (simp add: owner_def)
  have "map (pt_job \<circ> pw_task) (rs[k := r]) = map (pt_job \<circ> pw_task) rs"
    by (rule map_update_same) (simp add: assms(3))
  moreover have "\<forall>x \<in> set (rs[k := r]). record_inv x"
    using assms(1,4) set_update_subset_insert [of rs k r] by (auto simp: pull_inv_def)
  moreover have "one_busy (rs[k := r])"
  proof -
    have ob: "m = n" if "m < length rs" "n < length rs" "busy (rs ! m)" "busy (rs ! n)" "owner (rs ! m) = owner (rs ! n)"
      for m n using assms(1) that unfolding pull_inv_def one_busy_def by blast
    have other: "owner (rs ! m) \<noteq> owner r" if "m < length rs" "m \<noteq> k" "busy (rs ! m)" "busy r" for m
      using assms(5) [OF that(4)]
    proof
      assume "busy (rs ! k)"
      then show ?thesis using ob [of m k] that(1-3) assms(2) own by auto
    next
      assume "\<forall>x \<in> set rs. busy x \<longrightarrow> owner x \<noteq> owner r"
      then show ?thesis using that(1,3) by simp
    qed
    show ?thesis
      unfolding one_busy_def
    proof (intro allI impI)
      fix i j
      assume ij: "i < length (rs[k := r])" "j < length (rs[k := r])"
        and b: "busy (rs[k := r] ! i)" "busy (rs[k := r] ! j)"
        and o: "owner (rs[k := r] ! i) = owner (rs[k := r] ! j)"
      consider "i = k" "j = k" | "i = k" "j \<noteq> k" | "i \<noteq> k" "j = k" | "i \<noteq> k" "j \<noteq> k" by blast
      then show "i = j"
      proof cases
        case 2
        then show ?thesis using other [of j] ij b o assms(2) by simp
      next
        case 3
        then show ?thesis using other [of i] ij b o assms(2) by simp
      next
        case 4
        then show ?thesis using ob [of i j] ij b o by simp
      qed simp
    qed
  qed
  ultimately show ?thesis using assms(1) by (simp add: pull_inv_def)
qed

section \<open>Operations as a history\<close>

datatype pull_op =
    PoDispatch pull_task
  | PoObserve job
  | PoCancel job
  | PoClaim worker_identity string
  | PoBegin worker_identity string string
  | PoHeartbeat worker_identity string string
  | PoFinish worker_identity string string pull_result

datatype pull_answer = AnUnit | AnObserved "observation option" | AnClaim "pull_claim option" | AnBeat bool

fun exec_pull :: "pull_host \<Rightarrow> time \<Rightarrow> pull_op \<Rightarrow> pull_record list \<Rightarrow> pull_error + pull_record list \<times> pull_answer" where
  "exec_pull h now (PoDispatch t) rs = map_sum id (map_prod id (\<lambda>_. AnUnit)) (pull_dispatch h t rs)"
| "exec_pull h now (PoObserve j) rs = map_sum id (map_prod id AnObserved) (pull_observe j rs)"
| "exec_pull h now (PoCancel j) rs = map_sum id (map_prod id (\<lambda>_. AnUnit)) (pull_cancel j rs)"
| "exec_pull h now (PoClaim w uuid) rs = map_sum id (map_prod id AnClaim) (pull_claim_next h w uuid now rs)"
| "exec_pull h now (PoBegin w jid lease) rs =
     map_sum id (map_prod id (AnClaim \<circ> Some)) (pull_begin h w jid lease now rs)"
| "exec_pull h now (PoHeartbeat w jid lease) rs = map_sum id (map_prod id AnBeat) (pull_heartbeat h w jid lease now rs)"
| "exec_pull h now (PoFinish w jid lease x) rs =
     map_sum id (map_prod id (\<lambda>_. AnUnit)) (pull_finish h w jid lease x rs)"

lemma map_sum_answer: "map_sum id (map_prod id f) x = Inr (rs, v) \<longleftrightarrow> (\<exists>a. x = Inr (rs, a) \<and> v = f a)"
  by (cases x) auto

lemma owned_record_Inr:
  assumes "owned_record h w jid lease rs = Inr k"
  shows "k < length rs" "pt_job (pw_task (rs ! k)) = jid" "same_owner h w (rs ! k)" "pw_lease (rs ! k) = Some lease"
    "lease_ref_ok h jid lease"
  using assms find_index_Some [of "record_of_job jid" rs k]
  by (auto simp: owned_record_def record_of_job_def split: if_splits option.splits)

lemma referenced_Inr:
  assumes "referenced j rs = Inr (Some k)"
  shows "k < length rs" "pt_job (pw_task (rs ! k)) = job_id j"
    "job_tenant j = Some (pt_tenant (pw_task (rs ! k)))" "job_requester j = pt_requester (pw_task (rs ! k))"
  using assms find_index_Some [of "record_of_job (job_id j)" rs k]
  by (auto simp: referenced_def record_of_job_def Let_def split: if_splits option.splits)

subsection \<open>What one operation does to the ledger\<close>

text \<open>How a record may change: its task and digest stay, a cancellation request stays, an end is
  final, and an execution that has begun stays under its lease until it ends.\<close>

definition begun :: "pull_record \<Rightarrow> bool" where
  "begun r \<longleftrightarrow> pw_state r = PRunning \<or> pw_state r = PQuarantined"

definition record_evolves :: "pull_record \<Rightarrow> pull_record \<Rightarrow> bool" where
  "record_evolves r r' \<longleftrightarrow> pw_task r' = pw_task r \<and> pw_hash r' = pw_hash r
     \<and> (pw_cancel r \<longrightarrow> pw_cancel r')
     \<and> (pull_terminal (pw_state r) \<longrightarrow> r' = r)
     \<and> (begun r \<longrightarrow> (begun r' \<or> pull_terminal (pw_state r')) \<and> pw_lease r' = pw_lease r)"

lemma record_evolves_refl [simp]: "record_evolves r r"
  by (simp add: record_evolves_def)

lemma record_evolves_trans: "record_evolves a b \<Longrightarrow> record_evolves b c \<Longrightarrow> record_evolves a c"
  by (auto simp: record_evolves_def)

text \<open>Every operation leaves the ledger alone, replaces one record in an allowed way, or appends a
  queued one.\<close>

lemma exec_pull_shape:
  assumes "exec_pull h now op rs = Inr (rs', v)" and "\<forall>r \<in> set rs. record_inv r"
  obtains (same) "rs' = rs"
  | (change) k r where "k < length rs" "rs' = rs[k := r]" "record_evolves (rs ! k) r" "record_inv r"
      "busy r \<Longrightarrow> busy (rs ! k) \<or> (\<forall>x \<in> set rs. busy x \<longrightarrow> owner x \<noteq> owner r)"
  | (append) r where "rs' = rs @ [r]" "record_inv r" "\<not> busy r"
      "pt_job (pw_task r) \<notin> set (map (pt_job \<circ> pw_task) rs)"
proof (cases op)
  case (PoDispatch t)
  show thesis
  proof (cases "find (record_of_job (pt_job t)) rs")
    case None
    let ?r = "\<lparr>pw_task = t, pw_hash = ph_task_hash h t, pw_state = PQueued, pw_lease = None,
                          pw_expires = None, pw_cancel = False, pw_result = None\<rparr>"
    have "rs' = rs @ [?r]"
      using assms PoDispatch None by (auto simp: map_sum_answer pull_dispatch_def split: if_splits)
    moreover have "record_inv ?r" "\<not> busy ?r" by (simp_all add: record_defs)
    moreover have "pt_job (pw_task ?r) \<notin> set (map (pt_job \<circ> pw_task) rs)"
      using None by (auto simp: find_None_iff record_of_job_def)
    ultimately show thesis using append by blast
  qed (use assms PoDispatch same in \<open>auto simp: map_sum_answer pull_dispatch_def split: if_splits\<close>)
next
  case (PoObserve j)
  then show thesis using assms same
    by (auto simp: map_sum_answer pull_observe_def split: sum.splits option.splits)
next
  case (PoCancel j)
  then obtain w where w: "pull_cancel j rs = Inr (rs', w)" using assms by (auto simp: map_sum_answer)
  show thesis
  proof (cases "rs' = rs")
    case False
    then obtain k where k: "referenced j rs = Inr (Some k)" "\<not> pull_terminal (pw_state (rs ! k))"
      "rs' = rs[k := cancel_record (rs ! k)]"
      using w by (auto simp: pull_cancel_def split: sum.splits option.splits if_splits)
    have "k < length rs" using referenced_Inr [OF k(1)] by simp
    moreover from this have inv: "record_inv (rs ! k)" using assms(2) by simp
    moreover have "record_evolves (rs ! k) (cancel_record (rs ! k))"
      using k(2) by (auto simp: record_evolves_def cancel_record_def begun_def)
    moreover have "record_inv (cancel_record (rs ! k))"
      using inv k(2) by (auto simp: cancel_record_def record_defs cancelled_result_def result_ok_def)
    moreover have "busy (cancel_record (rs ! k)) \<Longrightarrow> busy (rs ! k)"
      by (auto simp: cancel_record_def busy_def split: if_splits)
    ultimately show thesis using change k(3) by blast
  qed (rule same)
next
  case (PoClaim w uuid)
  show thesis
  proof (cases "rs' = rs")
    case False
    let ?new = "\<lambda>k. (rs ! k)\<lparr>pw_state := PLeased, pw_lease := Some uuid, pw_expires := Some (now + ph_lease_ms h)\<rparr>"
    obtain k where k: "find_index (\<lambda>r. same_owner h w r \<and> pw_state r = PQueued) rs = Some k" "rs' = rs[k := ?new k]"
      and free: "find (\<lambda>r. same_owner h w r \<and> active_record r) rs = None"
        "\<not> list_ex (\<lambda>r. same_owner h w r \<and> pw_state r = PQuarantined) rs"
      using False assms PoClaim
      by (auto simp: map_sum_answer pull_claim_next_def Let_def split: option.splits if_splits)
    note k' = find_index_Some [OF k(1)]
    then have inv: "record_inv (rs ! k)" using assms(2) by simp
    have "\<not> busy x \<or> owner x \<noteq> owner (?new k)" if "x \<in> set rs" for x
      using free that k' by (auto simp: find_None_iff list_ex_iff busy_def active_record_def same_owner_def owner_def)
    moreover have "record_evolves (rs ! k) (?new k)" "record_inv (?new k)"
      using k' inv by (auto simp: record_evolves_def record_defs begun_def)
    ultimately show thesis using change k(2) k' by blast
  qed (rule same)
next
  case (PoBegin w jid lease)
  let ?new = "\<lambda>k. (rs ! k)\<lparr>pw_state := PRunning, pw_expires := Some (now + ph_lease_ms h)\<rparr>"
  obtain k where k: "owned_record h w jid lease rs = Inr k" "\<not> pw_cancel (rs ! k)" "active_record (rs ! k)"
    "rs' = rs[k := ?new k]"
    using assms PoBegin by (auto simp: map_sum_answer pull_begin_def Let_def split: sum.splits if_splits)
  note k' = owned_record_Inr [OF k(1)]
  then have inv: "record_inv (rs ! k)" using assms(2) by simp
  have "record_evolves (rs ! k) (?new k)" "record_inv (?new k)" "busy (rs ! k)"
    using k inv by (auto simp: record_evolves_def record_defs begun_def active_record_def)
  then show thesis using change k(4) k' by blast
next
  case (PoHeartbeat w jid lease)
  let ?new = "\<lambda>k. (rs ! k)\<lparr>pw_expires := Some (now + ph_lease_ms h)\<rparr>"
  obtain k where k: "owned_record h w jid lease rs = Inr k" "pw_state (rs ! k) = PRunning" "rs' = rs[k := ?new k]"
    using assms PoHeartbeat by (auto simp: map_sum_answer pull_heartbeat_def split: sum.splits if_splits)
  note k' = owned_record_Inr [OF k(1)]
  then have inv: "record_inv (rs ! k)" using assms(2) by simp
  have "record_evolves (rs ! k) (?new k)" "record_inv (?new k)" "busy (rs ! k)"
    using k inv by (auto simp: record_evolves_def record_defs begun_def)
  then show thesis using change k(3) k' by blast
next
  case (PoFinish w jid lease x)
  show thesis
  proof (cases "rs' = rs")
    case False
    let ?new = "\<lambda>k. (rs ! k)\<lparr>pw_state := state_of_status (px_status x), pw_result := Some x\<rparr>"
    obtain k where k: "owned_record h w jid lease rs = Inr k" "\<not> (pw_cancel (rs ! k) \<and> px_status x \<noteq> RsCancelled)"
      "result_ok x" "pw_result (rs ! k) = None"
      "pw_state (rs ! k) = PRunning \<or> pw_state (rs ! k) = PQuarantined" "rs' = rs[k := ?new k]"
      using False assms PoFinish
      by (auto simp: map_sum_answer pull_finish_def Let_def split: sum.splits option.splits if_splits)
    note k' = owned_record_Inr [OF k(1)]
    then have inv: "record_inv (rs ! k)" using assms(2) by simp
    have "record_evolves (rs ! k) (?new k)"
      using k(5) by (cases "px_status x") (auto simp: record_evolves_def begun_def pull_terminal_def)
    moreover have "record_inv (?new k)" "\<not> busy (?new k)"
      using k inv by (auto simp: record_inv_def busy_def)
    ultimately show thesis using change k(6) k' by blast
  qed (rule same)
qed

lemma exec_pull_inv:
  assumes "exec_pull h now op rs = Inr (rs', v)" and "pull_inv rs"
  shows "pull_inv rs'"
proof -
  have "\<forall>r \<in> set rs. record_inv r" using assms(2) by (simp add: pull_inv_def)
  with assms(1) show ?thesis
  proof (cases rule: exec_pull_shape)
    case same
    then show ?thesis using assms(2) by simp
  next
    case (change k r)
    show ?thesis unfolding change(2)
      using assms(2) change(1) _ change(4,5)
      by (rule pull_inv_update) (use change(3) in \<open>simp add: record_evolves_def\<close>)
  next
    case (append r)
    then show ?thesis using assms(2)
      by (auto simp: pull_inv_def one_busy_def nth_append less_Suc_eq)
  qed
qed

lemma exec_pull_evolves:
  assumes "exec_pull h now op rs = Inr (rs', v)" and "\<forall>r \<in> set rs. record_inv r" and "r \<in> set rs"
  shows "\<exists>r' \<in> set rs'. record_evolves r r'"
  using assms(1,2)
proof (cases rule: exec_pull_shape)
  case (change k x)
  obtain i where i: "i < length rs" "rs ! i = r" using assms(3) by (auto simp: in_set_conv_nth)
  show ?thesis
  proof (cases "i = k")
    case True
    with change i show ?thesis by (auto simp: set_update_memI)
  next
    case False
    then have "r \<in> set rs'" using change i by (metis length_list_update nth_list_update_neq nth_mem)
    then show ?thesis by (auto intro: bexI [of _ r])
  qed
qed (use assms(3) in \<open>auto intro: bexI [of _ r]\<close>)

section \<open>Histories\<close>

type_synonym pull_event = "time \<times> pull_op \<times> (pull_error + pull_answer)"

inductive pull_step :: "pull_host \<Rightarrow> pull_store \<Rightarrow> pull_event \<Rightarrow> pull_store \<Rightarrow> bool" for h :: pull_host where
  pull_queued: "transaction False now ok (exec_pull h now op) st = (st', r) \<Longrightarrow> pull_step h st (now, op, r) st'"

inductive_cases pull_stepE: "pull_step h st (now, op, r) st'"

lemma pull_step_cases:
  assumes "pull_step h st (now, op, r) st'"
  obtains (failed) e where "st' = st" "r = Inl e"
  | (committed) v where "exec_pull h now op (map (expire_record now) (ps_live st)) = Inr (ps_live st', v)"
      "r = Inr v" "ps_disk st' = ps_live st'"
  using assms by (elim pull_stepE) (auto simp: transaction_def pull_write_def split: sum.splits prod.splits if_splits)

lemma expire_evolves: "record_evolves r (expire_record now r)"
  using expire_record_cases [of now r]
  by (elim disjE conjE) (simp_all add: record_evolves_def begun_def pull_terminal_def)

lemma pull_step_inv:
  assumes "pull_step h st ev st'" and "pull_inv (ps_live st)"
  shows "pull_inv (ps_live st')"
proof -
  obtain now op r where "ev = (now, op, r)" by (cases ev)
  with assms(1) have "pull_step h st (now, op, r) st'" by simp
  then show ?thesis
  proof (cases rule: pull_step_cases)
    case (failed e)
    then show ?thesis using assms(2) by simp
  next
    case (committed v)
    show ?thesis using exec_pull_inv [OF committed(1) expire_inv [OF assms(2)]] .
  qed
qed

lemma pull_step_evolves:
  assumes "pull_step h st ev st'" and "pull_inv (ps_live st)" and "x \<in> set (ps_live st)"
  shows "\<exists>y \<in> set (ps_live st'). record_evolves x y"
proof -
  obtain now op r where "ev = (now, op, r)" by (cases ev)
  with assms(1) have "pull_step h st (now, op, r) st'" by simp
  then show ?thesis
  proof (cases rule: pull_step_cases)
    case (failed e)
    then show ?thesis using assms(3) by (auto intro: bexI [of _ x])
  next
    case (committed v)
    have "\<forall>r \<in> set (map (expire_record now) (ps_live st)). record_inv r"
      using expire_inv [OF assms(2)] unfolding pull_inv_def by blast
    moreover have "expire_record now x \<in> set (map (expire_record now) (ps_live st))" using assms(3) by simp
    ultimately obtain y where "y \<in> set (ps_live st')" "record_evolves (expire_record now x) y"
      using exec_pull_evolves [OF committed(1)] by blast
    then show ?thesis using record_evolves_trans [OF expire_evolves] by blast
  qed
qed

lemma pull_steps_inv: "steps_of (pull_step h) st evs st' \<Longrightarrow> pull_inv (ps_live st) \<Longrightarrow> pull_inv (ps_live st')"
  by (induction rule: steps_of.induct) (auto intro: pull_step_inv)

lemma pull_steps_evolves:
  assumes "steps_of (pull_step h) st evs st'" and "pull_inv (ps_live st)" and "x \<in> set (ps_live st)"
  shows "\<exists>y \<in> set (ps_live st'). record_evolves x y"
  using assms
proof (induction arbitrary: x rule: steps_of.induct)
  case (steps_nil st)
  then show ?case by (auto intro: bexI [of _ x])
next
  case (steps_cons st ev st1 evs st2)
  obtain y where y: "y \<in> set (ps_live st1)" "record_evolves x y"
    using pull_step_evolves [OF steps_cons.hyps(1) steps_cons.prems] by blast
  obtain z where "z \<in> set (ps_live st2)" "record_evolves y z"
    using steps_cons.IH [OF pull_step_inv [OF steps_cons.hyps(1) steps_cons.prems(1)] y(1)] by blast
  then show ?case using record_evolves_trans [OF y(2)] by blast
qed

text \<open>Job identities are unique in the ledger, so a record is determined by its job.\<close>

lemma pull_record_unique:
  "pull_inv rs \<Longrightarrow> x \<in> set rs \<Longrightarrow> y \<in> set rs \<Longrightarrow> pt_job (pw_task x) = pt_job (pw_task y) \<Longrightarrow> x = y"
  by (metis comp_apply distinct_map inj_onD pull_inv_def)

text \<open>What a successful begin and a successful finish leave behind.\<close>

lemma begin_effect:
  assumes "pull_step h st (now, PoBegin w jid lease, Inr v) st'"
  shows "\<exists>r \<in> set (ps_live st'). pt_job (pw_task r) = jid \<and> pw_state r = PRunning \<and> pw_lease r = Some lease
    \<and> same_owner h w r \<and> \<not> pw_cancel r"
  using assms
proof (cases rule: pull_step_cases)
  case (committed v')
  let ?rs = "map (expire_record now) (ps_live st)"
  obtain k where k: "owned_record h w jid lease ?rs = Inr k" "\<not> pw_cancel (?rs ! k)"
    "ps_live st' = ?rs[k := (?rs ! k)\<lparr>pw_state := PRunning, pw_expires := Some (now + ph_lease_ms h)\<rparr>]"
    using committed(1) by (auto simp: map_sum_answer pull_begin_def Let_def split: sum.splits if_splits)
  note o = owned_record_Inr [OF k(1)]
  show ?thesis
    unfolding k(3)
    by (rule bexI [OF _ set_update_memI [OF o(1)]]) (use o k(2) in \<open>simp add: same_owner_def\<close>)
qed simp

lemma begin_needs_lease:
  assumes "pull_step h st (now, PoBegin w jid lease, Inr v) st'"
  shows "\<exists>r \<in> set (ps_live st). pt_job (pw_task r) = jid \<and> pw_lease r = Some lease \<and> \<not> pw_cancel r
    \<and> same_owner h w r \<and> (pw_state r = PLeased \<or> pw_state r = PRunning)"
  using assms
proof (cases rule: pull_step_cases)
  case (committed v')
  let ?rs = "map (expire_record now) (ps_live st)"
  obtain k where k: "owned_record h w jid lease ?rs = Inr k" "\<not> pw_cancel (?rs ! k)" "active_record (?rs ! k)"
    using committed(1) by (auto simp: map_sum_answer pull_begin_def Let_def split: sum.splits if_splits)
  note o = owned_record_Inr [OF k(1)]
  let ?r = "ps_live st ! k"
  have r: "?r \<in> set (ps_live st)" "?rs ! k = expire_record now ?r" using o(1) by auto
  have "pw_lease ?r = Some lease \<and> (pw_state ?r = PLeased \<or> pw_state ?r = PRunning)"
    using expire_record_cases [of now ?r] o(4) k(3) r(2)
    by (elim disjE conjE) (auto simp: active_record_def)
  with r o k(2) show ?thesis by (auto simp: same_owner_def intro!: bexI [of _ ?r])
qed simp

lemma finish_effect:
  assumes "pull_step h st (now, PoFinish w jid lease x, Inr v) st'" and "pull_inv (ps_live st)"
  shows "\<exists>r \<in> set (ps_live st'). pt_job (pw_task r) = jid \<and> pw_lease r = Some lease \<and> same_owner h w r
    \<and> pull_terminal (pw_state r)
    \<and> (\<exists>y. pw_result r = Some y \<and> ph_result_hash h y = ph_result_hash h x)"
  using assms(1)
proof (cases rule: pull_step_cases)
  case (committed v')
  let ?rs = "map (expire_record now) (ps_live st)"
  obtain k where k: "owned_record h w jid lease ?rs = Inr k"
    and c: "(\<exists>y. pw_result (?rs ! k) = Some y \<and> ph_result_hash h x = ph_result_hash h y \<and> ps_live st' = ?rs)
      \<or> ps_live st' = ?rs[k := (?rs ! k)\<lparr>pw_state := state_of_status (px_status x), pw_result := Some x\<rparr>]"
    using committed(1)
    by (auto simp: map_sum_answer pull_finish_def Let_def split: sum.splits option.splits if_splits)
  note o = owned_record_Inr [OF k]
  have inv: "record_inv (?rs ! k)" using expire_inv [OF assms(2), of now] o(1) unfolding pull_inv_def by simp
  from c show ?thesis
  proof
    assume a: "\<exists>y. pw_result (?rs ! k) = Some y \<and> ph_result_hash h x = ph_result_hash h y \<and> ps_live st' = ?rs"
    then have "pull_terminal (pw_state (?rs ! k))" using inv by (auto simp: record_inv_def)
    moreover have mem: "?rs ! k \<in> set ?rs" using o(1) by (rule nth_mem)
    moreover obtain y where "pw_result (?rs ! k) = Some y" "ph_result_hash h x = ph_result_hash h y"
      "ps_live st' = ?rs" using a by blast
    ultimately show ?thesis using o by (metis)
  next
    assume a: "ps_live st' = ?rs[k := (?rs ! k)\<lparr>pw_state := state_of_status (px_status x), pw_result := Some x\<rparr>]"
    show ?thesis unfolding a
      by (rule bexI [OF _ set_update_memI [OF o(1)]]) (use o in \<open>simp add: same_owner_def\<close>)
  qed
qed simp

section \<open>One lease per started job\<close>

lemma pull_begin_later:
  assumes "pull_step h s0 (n1, PoBegin w1 jid l1, Inr v1) s1" and "pull_inv (ps_live s0)"
    and "steps_of (pull_step h) s1 mid s2"
    and "pull_step h s2 (n2, PoBegin w2 jid l2, Inr v2) s3"
  shows "l1 = l2"
proof -
  have inv1: "pull_inv (ps_live s1)" using pull_step_inv [OF assms(1,2)] .
  have inv2: "pull_inv (ps_live s2)" using pull_steps_inv [OF assms(3) inv1] .
  obtain r where r: "r \<in> set (ps_live s1)" "pt_job (pw_task r) = jid" "pw_state r = PRunning" "pw_lease r = Some l1"
    using begin_effect [OF assms(1)] by blast
  obtain r' where r': "r' \<in> set (ps_live s2)" "record_evolves r r'"
    using pull_steps_evolves [OF assms(3) inv1 r(1)] by blast
  obtain x where x: "x \<in> set (ps_live s2)" "pt_job (pw_task x) = jid" "pw_lease x = Some l2"
    using begin_needs_lease [OF assms(4)] by blast
  have "pw_lease r' = Some l1" "pt_job (pw_task r') = jid"
    using r r'(2) by (auto simp: record_evolves_def begun_def)
  then show ?thesis using pull_record_unique [OF inv2 x(1) r'(1)] x by simp
qed

lemma pull_one_lease:
  assumes "steps_of (pull_step h) st evs st'" and "pull_inv (ps_live st)" and "i < k" and "k < length evs"
    and "evs ! i = (n1, PoBegin w1 jid l1, Inr v1)" and "evs ! k = (n2, PoBegin w2 jid l2, Inr v2)"
  shows "l1 = l2"
proof -
  obtain s0 s1 s2 s3 where s: "steps_of (pull_step h) st (take i evs) s0" "pull_step h s0 (evs ! i) s1"
    "steps_of (pull_step h) s1 (drop (Suc i) (take k evs)) s2" "pull_step h s2 (evs ! k) s3"
    using steps_of_split_two [OF assms(1,3,4)] by blast
  show ?thesis
    by (rule pull_begin_later [OF s(2) [unfolded assms(5)] pull_steps_inv [OF s(1) assms(2)] s(3) s(4) [unfolded assms(6)]])
qed

end
