(* ===== verification/ActionGrants.thy ===== *)
theory ActionGrants
  imports HubPrelude JobModel
begin

text \<open>
  One-time action grants (\<open>server/genui-action-store.ts\<close>): issuing, consuming, pruning and loading.
  The store keeps the digest of a token, never the token; \<open>hash\<close> is the digest function. An
  operation that changes nothing does not write; the others write before they return and undo
  their change when the write fails.
\<close>

datatype action_name = AcApprove | AcCancel | AcRefresh | AcRetry | AcOpenTab | AcFeedback | AcSubmitAgent

record grant_scope =
  gs_action :: action_name
  gs_entity :: string
  gs_correlation :: string
  gs_conversation :: string
  gs_requester :: string
  gs_tenant :: string

record grant =
  gr_scope :: grant_scope
  gr_expires :: time
  gr_hash :: string
  gr_consumed :: "time option"

datatype grant_error = GrantScopeInvalid | GrantFormat | GrantWriteFailed
datatype refusal = GrInvalid | GrExpired | GrConsumed | GrMismatch

type_synonym consume_result = "refusal + grant_scope \<times> time"

section \<open>Validation\<close>

definition bounded_field :: "nat \<Rightarrow> string \<Rightarrow> bool" where
  "bounded_field maximum s \<longleftrightarrow> \<not> blank s \<and> length s \<le> maximum \<and> \<not> list_ex any_control s"

definition scope_fields_ok :: "grant_scope \<Rightarrow> bool" where
  "scope_fields_ok i \<longleftrightarrow> bounded_field 200 (gs_entity i) \<and> bounded_field 200 (gs_correlation i)
     \<and> bounded_field 200 (gs_conversation i) \<and> bounded_field 200 (gs_requester i)
     \<and> bounded_field 200 (gs_tenant i)"

definition consumable_input :: "string \<Rightarrow> grant_scope \<Rightarrow> bool" where
  "consumable_input token i \<longleftrightarrow> bounded_field 512 token \<and> scope_fields_ok i"

section \<open>Pruning\<close>

definition keep_grant :: "time \<Rightarrow> int \<Rightarrow> grant \<Rightarrow> bool" where
  "keep_grant cutoff ttl g \<longleftrightarrow> cutoff < gr_expires g
     \<and> (case gr_consumed g of None \<Rightarrow> True | Some c \<Rightarrow> cutoff - ttl < c)"

definition prune_grants :: "time \<Rightarrow> int \<Rightarrow> grant list \<Rightarrow> grant list" where
  "prune_grants cutoff ttl gs = filter (keep_grant cutoff ttl) gs"

section \<open>The queue\<close>

record grant_store =
  gst_live :: "grant list"
  gst_disk :: "grant list"

definition grant_commit ::
  "bool \<Rightarrow> (grant list \<Rightarrow> grant_error + grant list \<times> 'a) \<Rightarrow> grant_store \<Rightarrow> grant_store \<times> (grant_error + 'a)" where
  "grant_commit ok operation st = (case operation (gst_live st) of
       Inl e \<Rightarrow> (st, Inl e)
     | Inr (next, a) \<Rightarrow>
         if next = gst_live st then (st, Inr a)
         else if ok then (\<lparr>gst_live = next, gst_disk = next\<rparr>, Inr a)
         else (st, Inl GrantWriteFailed))"

interpretation grant_tx: durable_mutation grant_commit gst_live gst_disk
  by unfold_locales (auto simp: grant_commit_def)

section \<open>Operations\<close>

definition issue_grant ::
  "(string \<Rightarrow> string) \<Rightarrow> int \<Rightarrow> grant_scope \<Rightarrow> string \<Rightarrow> time \<Rightarrow> grant list
     \<Rightarrow> grant_error + grant list \<times> string" where
  "issue_grant hash ttl i token now gs =
     (let g = \<lparr>gr_scope = i, gr_expires = now + ttl, gr_hash = hash token, gr_consumed = None\<rparr>
      in Inr (prune_grants now ttl (gs @ [g]), token))"

definition issue ::
  "(string \<Rightarrow> string) \<Rightarrow> int \<Rightarrow> grant_scope \<Rightarrow> string \<Rightarrow> time \<Rightarrow> bool \<Rightarrow> grant_store
     \<Rightarrow> grant_store \<times> (grant_error + string)" where
  "issue hash ttl i token now ok st =
     (if \<not> scope_fields_ok i then (st, Inl GrantScopeInvalid)
      else grant_commit ok (issue_grant hash ttl i token now) st)"

definition consume_grant ::
  "(string \<Rightarrow> string) \<Rightarrow> int \<Rightarrow> string \<Rightarrow> grant_scope \<Rightarrow> time \<Rightarrow> grant list
     \<Rightarrow> grant_error + grant list \<times> consume_result" where
  "consume_grant hash ttl token i now gs =
     (case find_index (\<lambda>g. gr_hash g = hash token) gs of
        None \<Rightarrow> Inr (gs, Inl GrInvalid)
      | Some k \<Rightarrow>
          (let g = gs ! k in
           if gr_consumed g \<noteq> None then Inr (gs, Inl GrConsumed)
           else if gr_expires g \<le> now then Inr (prune_grants now ttl gs, Inl GrExpired)
           else if gr_scope g \<noteq> i then Inr (gs, Inl GrMismatch)
           else Inr (gs[k := g\<lparr>gr_consumed := Some now\<rparr>], Inr (gr_scope g, gr_expires g))))"

definition consume ::
  "(string \<Rightarrow> string) \<Rightarrow> int \<Rightarrow> string \<Rightarrow> grant_scope \<Rightarrow> time \<Rightarrow> bool \<Rightarrow> grant_store
     \<Rightarrow> grant_store \<times> (grant_error + consume_result)" where
  "consume hash ttl token i now ok st =
     (if \<not> consumable_input token i then (st, Inr (Inl GrInvalid))
      else grant_commit ok (consume_grant hash ttl token i now) st)"

section \<open>Loading\<close>

text \<open>A stored record whose timestamps are canonical. A record without a tenant is of the format
  before tenants were recorded: it is checked and dropped.\<close>

record raw_grant =
  rg_action :: action_name
  rg_entity :: string
  rg_correlation :: string
  rg_conversation :: string
  rg_requester :: string
  rg_tenant :: "string option"
  rg_expires :: time
  rg_hash :: string
  rg_consumed :: "time option"

definition raw_fields_ok :: "raw_grant \<Rightarrow> bool" where
  "raw_fields_ok r \<longleftrightarrow> bounded_field 200 (rg_entity r) \<and> bounded_field 200 (rg_correlation r)
     \<and> bounded_field 200 (rg_conversation r) \<and> bounded_field 200 (rg_requester r)
     \<and> date_range (rg_expires r)
     \<and> (case rg_consumed r of None \<Rightarrow> True | Some c \<Rightarrow> date_range c \<and> c \<le> rg_expires r)"

definition parse_raw :: "raw_grant \<Rightarrow> grant_error + grant option" where
  "parse_raw r = (case rg_tenant r of
       None \<Rightarrow> if raw_fields_ok r \<and> bounded_field 512 (rg_hash r) then Inr None else Inl GrantFormat
     | Some t \<Rightarrow>
         if raw_fields_ok r \<and> bounded_field 200 t \<and> hex_text 64 (rg_hash r)
         then Inr (Some \<lparr>gr_scope = \<lparr>gs_action = rg_action r, gs_entity = rg_entity r,
                gs_correlation = rg_correlation r, gs_conversation = rg_conversation r,
                gs_requester = rg_requester r, gs_tenant = t\<rparr>,
              gr_expires = rg_expires r, gr_hash = rg_hash r, gr_consumed = rg_consumed r\<rparr>)
         else Inl GrantFormat)"

fun parse_grants :: "string list \<Rightarrow> raw_grant list \<Rightarrow> grant_error + grant list \<times> nat" where
  "parse_grants seen [] = Inr ([], 0)"
| "parse_grants seen (r # rs) = (case parse_raw r of
       Inl e \<Rightarrow> Inl e
     | Inr None \<Rightarrow> map_sum id (map_prod id Suc) (parse_grants seen rs)
     | Inr (Some g) \<Rightarrow>
         if gr_hash g \<in> set seen then Inl GrantFormat
         else map_sum id (map_prod (Cons g) id) (parse_grants (gr_hash g # seen) rs))"

text \<open>The text of a grant on disk, and the start of the store: nothing is written unless records
  were dropped, and a failing write leaves the store uninitialised.\<close>

definition raw_of_grant :: "grant \<Rightarrow> raw_grant" where
  "raw_of_grant g =
     \<lparr>rg_action = gs_action (gr_scope g), rg_entity = gs_entity (gr_scope g),
      rg_correlation = gs_correlation (gr_scope g), rg_conversation = gs_conversation (gr_scope g),
      rg_requester = gs_requester (gr_scope g), rg_tenant = Some (gs_tenant (gr_scope g)),
      rg_expires = gr_expires g, rg_hash = gr_hash g, rg_consumed = gr_consumed g\<rparr>"

definition start_grants :: "int \<Rightarrow> raw_grant list option \<Rightarrow> time \<Rightarrow> bool \<Rightarrow> grant_error + grant_store" where
  "start_grants ttl file now ok = (case file of
       None \<Rightarrow> if ok then Inr \<lparr>gst_live = [], gst_disk = []\<rparr> else Inl GrantWriteFailed
     | Some raws \<Rightarrow>
         (case parse_grants [] raws of Inl e \<Rightarrow> Inl e
          | Inr (gs, legacy) \<Rightarrow>
              (let kept = prune_grants now ttl gs in
               if 0 < legacy \<or> kept \<noteq> gs
               then (if ok then Inr \<lparr>gst_live = kept, gst_disk = kept\<rparr> else Inl GrantWriteFailed)
               else Inr \<lparr>gst_live = kept, gst_disk = kept\<rparr>)))"

section \<open>Lemmas\<close>

lemma prune_sub: "set (prune_grants cutoff ttl gs) \<subseteq> set gs"
  by (auto simp: prune_grants_def)

lemma prune_hashes: "distinct (map gr_hash gs) \<Longrightarrow> distinct (map gr_hash (prune_grants cutoff ttl gs))"
  by (simp add: prune_grants_def distinct_map_filter)

text \<open>When a consumption happened within the life of the grant, the second condition of pruning
  adds nothing: a consumed grant stays until it expires, so a replay is answered as consumed.\<close>

lemma prune_keeps_consumed:
  assumes "gr_consumed g = Some c" and "gr_expires g \<le> c + ttl" and "cutoff < gr_expires g"
  shows "keep_grant cutoff ttl g"
  using assms by (simp add: keep_grant_def)

lemma consume_ok_iff:
  assumes "distinct (map gr_hash gs)"
  shows "(\<exists>gs' r. consume_grant hash ttl token i now gs = Inr (gs', Inr r))
    \<longleftrightarrow> (\<exists>g \<in> set gs. gr_hash g = hash token \<and> gr_consumed g = None \<and> now < gr_expires g \<and> gr_scope g = i)"
proof (cases "find_index (\<lambda>g. gr_hash g = hash token) gs")
  case None
  then have "\<forall>g \<in> set gs. gr_hash g \<noteq> hash token" by (simp add: find_index_None)
  then show ?thesis using None by (auto simp: consume_grant_def)
next
  case (Some k)
  note k = find_index_Some [OF Some]
  have only: "g = gs ! k" if "g \<in> set gs" "gr_hash g = hash token" for g
    using assms k that by (metis distinct_map inj_onD nth_mem)
  show ?thesis
  proof
    assume "\<exists>gs' r. consume_grant hash ttl token i now gs = Inr (gs', Inr r)"
    then have "gr_consumed (gs ! k) = None" "now < gr_expires (gs ! k)" "gr_scope (gs ! k) = i"
      using Some by (auto simp: consume_grant_def Let_def split: if_split_asm)
    then show "\<exists>g \<in> set gs. gr_hash g = hash token \<and> gr_consumed g = None \<and> now < gr_expires g \<and> gr_scope g = i"
      using k nth_mem by blast
  next
    assume "\<exists>g \<in> set gs. gr_hash g = hash token \<and> gr_consumed g = None \<and> now < gr_expires g \<and> gr_scope g = i"
    then have "gr_consumed (gs ! k) = None" "now < gr_expires (gs ! k)" "gr_scope (gs ! k) = i"
      using only by auto
    then show "\<exists>gs' r. consume_grant hash ttl token i now gs = Inr (gs', Inr r)"
      using Some by (simp add: consume_grant_def Let_def)
  qed
qed

lemma consume_ok_shape:
  assumes "consume_grant hash ttl token i now gs = Inr (gs', Inr r)"
  obtains k where "k < length gs" "gr_hash (gs ! k) = hash token" "gr_consumed (gs ! k) = None"
    "now < gr_expires (gs ! k)" "gr_scope (gs ! k) = i" "r = (i, gr_expires (gs ! k))"
    "gs' = gs[k := (gs ! k)\<lparr>gr_consumed := Some now\<rparr>]"
proof -
  obtain k where "find_index (\<lambda>g. gr_hash g = hash token) gs = Some k"
    using assms by (auto simp: consume_grant_def split: option.splits)
  from find_index_Some [OF this] this assms that show thesis
    by (auto simp: consume_grant_def Let_def split: if_split_asm)
qed

section \<open>Histories\<close>

datatype grant_op = GoIssue grant_scope string | GoConsume string grant_scope

datatype grant_answer = GaToken string | GaConsumed consume_result

fun exec_grant ::
  "(string \<Rightarrow> string) \<Rightarrow> int \<Rightarrow> time \<Rightarrow> bool \<Rightarrow> grant_op \<Rightarrow> grant_store
     \<Rightarrow> grant_store \<times> (grant_error + grant_answer)" where
  "exec_grant hash ttl now ok (GoIssue i token) st = map_prod id (map_sum id GaToken) (issue hash ttl i token now ok st)"
| "exec_grant hash ttl now ok (GoConsume token i) st =
     map_prod id (map_sum id GaConsumed) (consume hash ttl token i now ok st)"

type_synonym grant_event = "grant_op \<times> (grant_error + grant_answer)"

text \<open>The second component of the state remembers the digests handed out so far: a new token is
  random, its digest has not been seen.\<close>

inductive grant_step ::
  "(string \<Rightarrow> string) \<Rightarrow> int \<Rightarrow> grant_store \<times> string set \<Rightarrow> grant_event \<Rightarrow> grant_store \<times> string set \<Rightarrow> bool"
  for hash ttl where
  step_issue: "hash token \<notin> seen \<Longrightarrow> exec_grant hash ttl now ok (GoIssue i token) st = (st', r)
     \<Longrightarrow> grant_step hash ttl (st, seen) (GoIssue i token, r) (st', insert (hash token) seen)"
| step_consume: "exec_grant hash ttl now ok (GoConsume token i) st = (st', r)
     \<Longrightarrow> grant_step hash ttl (st, seen) (GoConsume token i, r) (st', seen)"

inductive_cases grant_stepE: "grant_step hash ttl s ev s'"

definition grant_good :: "grant_store \<times> string set \<Rightarrow> bool" where
  "grant_good s \<longleftrightarrow> distinct (map gr_hash (gst_live (fst s))) \<and> gr_hash ` set (gst_live (fst s)) \<subseteq> snd s
     \<and> gst_disk (fst s) = gst_live (fst s)"

fun consumes :: "string \<Rightarrow> grant_event \<Rightarrow> bool" where
  "consumes t (GoConsume token i, Inr (GaConsumed (Inr r))) \<longleftrightarrow> token = t"
| "consumes t _ \<longleftrightarrow> False"

definition token_spent :: "(string \<Rightarrow> string) \<Rightarrow> string \<Rightarrow> grant_store \<times> string set \<Rightarrow> bool" where
  "token_spent hash t s \<longleftrightarrow> hash t \<in> snd s
     \<and> (\<forall>g \<in> set (gst_live (fst s)). gr_hash g = hash t \<longrightarrow> gr_consumed g \<noteq> None)"

text \<open>What a step does to the list: nothing, an issue with pruning, pruning, or a consumption.\<close>

lemma grant_commit_shape:
  assumes "grant_commit ok operation st = (st', r)" and "gst_disk st = gst_live st"
  shows "(st' = st \<and> (\<forall>a. r = Inr a \<longrightarrow> operation (gst_live st) = Inr (gst_live st, a)))
    \<or> (\<exists>a. operation (gst_live st) = Inr (gst_live st', a) \<and> r = Inr a \<and> gst_disk st' = gst_live st')"
  using assms by (auto simp: grant_commit_def split: sum.splits prod.splits if_split_asm)

lemma issue_live:
  assumes "issue hash ttl i token now ok st = (st', r)" and "gst_disk st = gst_live st"
  shows "st' = st \<or> (gst_disk st' = gst_live st' \<and> gst_live st' = prune_grants now ttl (gst_live st
     @ [\<lparr>gr_scope = i, gr_expires = now + ttl, gr_hash = hash token, gr_consumed = None\<rparr>]))"
  using assms grant_commit_shape [of ok "issue_grant hash ttl i token now" st st' r]
  by (auto simp: issue_def issue_grant_def split: if_split_asm)

lemma consume_live:
  assumes "consume hash ttl token i now ok st = (st', r)" and "gst_disk st = gst_live st"
  shows "(st' = st \<and> (\<forall>x. r \<noteq> Inr (Inr x)))
    \<or> (gst_disk st' = gst_live st' \<and> gst_live st' = prune_grants now ttl (gst_live st) \<and> (\<forall>x. r \<noteq> Inr (Inr x)))
    \<or> (\<exists>x. consume_grant hash ttl token i now (gst_live st) = Inr (gst_live st', Inr x)
         \<and> r = Inr (Inr x) \<and> gst_disk st' = gst_live st')"
proof (cases "consumable_input token i")
  case False
  then show ?thesis using assms by (auto simp: consume_def)
next
  case True
  obtain gs' a where c: "consume_grant hash ttl token i now (gst_live st) = Inr (gs', a)"
    by (cases "consume_grant hash ttl token i now (gst_live st)")
      (auto simp: consume_grant_def Let_def split: option.splits if_split_asm)
  have changed: "gs' = gst_live st \<or> gs' = prune_grants now ttl (gst_live st)" if "\<forall>x. a \<noteq> Inr x"
    using c that by (auto simp: consume_grant_def Let_def split: option.splits if_split_asm)
  have new: "gs' \<noteq> gst_live st" if "a = Inr x" for x
  proof -
    from c [unfolded that] obtain k where "k < length (gst_live st)" "gr_consumed (gst_live st ! k) = None"
      "gs' = (gst_live st)[k := (gst_live st ! k)\<lparr>gr_consumed := Some now\<rparr>]"
      by (rule consume_ok_shape)
    then have "gr_consumed (gs' ! k) \<noteq> gr_consumed (gst_live st ! k)" by simp
    then show ?thesis by auto
  qed
  have r: "grant_commit ok (consume_grant hash ttl token i now) st = (st', r)"
    using assms True by (simp add: consume_def)
  show ?thesis
  proof (cases "\<exists>x. a = Inr x")
    case True
    then show ?thesis using r c new by (auto simp: grant_commit_def split: if_split_asm)
  next
    case False
    then show ?thesis using r c changed by (auto simp: grant_commit_def split: if_split_asm)
  qed
qed

lemma grant_good_prune:
  "distinct (map gr_hash gs) \<and> gr_hash ` set gs \<subseteq> seen \<Longrightarrow>
     distinct (map gr_hash (prune_grants c ttl gs)) \<and> gr_hash ` set (prune_grants c ttl gs) \<subseteq> seen"
  using prune_hashes [of gs c ttl] image_mono [OF prune_sub [of c ttl gs], of gr_hash] by blast

lemma grant_step_cases:
  assumes "grant_step hash ttl s ev s'"
  obtains (issued) st seen st' token i now ok where "s = (st, seen)" "s' = (st', insert (hash token) seen)"
      "hash token \<notin> seen" "issue hash ttl i token now ok st = (st', snd (issue hash ttl i token now ok st))"
      "\<And>t. \<not> consumes t ev"
  | (consumed) st seen st' token i now ok r where "s = (st, seen)" "s' = (st', seen)"
      "consume hash ttl token i now ok st = (st', r)" "\<And>t. consumes t ev \<longleftrightarrow> token = t \<and> (\<exists>x. r = Inr (Inr x))"
  using assms
proof (cases rule: grant_step.cases)
  case (step_issue token seen now ok i st st' r)
  then show thesis using issued [of st seen st' token i now ok]
    by (cases "issue hash ttl i token now ok st") (auto simp: map_prod_def)
next
  case (step_consume now ok token i st st' r seen)
  obtain q where q: "consume hash ttl token i now ok st = (st', q)" "r = map_sum id GaConsumed q"
    using step_consume(4) by (cases "consume hash ttl token i now ok st") (auto simp: map_prod_def)
  have "consumes t ev \<longleftrightarrow> token = t \<and> (\<exists>x. q = Inr (Inr x))" for t
    using q(2) step_consume(2) by (cases q; cases "projr q") auto
  then show thesis using consumed q(1) step_consume(1,3) by blast
qed

lemma grant_step_good:
  assumes "grant_step hash ttl s ev s'" and "grant_good s"
  shows "grant_good s'"
  using assms(1)
proof (cases rule: grant_step_cases)
  case (issued st seen st' token i now ok)
  let ?g = "\<lparr>gr_scope = i, gr_expires = now + ttl, gr_hash = hash token, gr_consumed = None\<rparr>"
  have good: "distinct (map gr_hash (gst_live st))" "gr_hash ` set (gst_live st) \<subseteq> seen" "gst_disk st = gst_live st"
    using assms(2) issued by (auto simp: grant_good_def)
  have new: "distinct (map gr_hash (gst_live st @ [?g])) \<and> gr_hash ` set (gst_live st @ [?g]) \<subseteq> insert (hash token) seen"
    using good issued by auto
  from issue_live [OF issued(4) good(3)] show ?thesis
  proof
    assume "st' = st"
    with good issued show ?thesis by (auto simp: grant_good_def)
  next
    assume "gst_disk st' = gst_live st' \<and> gst_live st' = prune_grants now ttl (gst_live st @ [?g])"
    with grant_good_prune [OF new, of now ttl] issued(2) show ?thesis by (simp add: grant_good_def)
  qed
next
  case (consumed st seen st' token i now ok r)
  have good: "distinct (map gr_hash (gst_live st)) \<and> gr_hash ` set (gst_live st) \<subseteq> seen" "gst_disk st = gst_live st"
    using assms(2) consumed by (auto simp: grant_good_def)
  from consume_live [OF consumed(3) good(2)] show ?thesis
  proof (elim disjE conjE exE)
    fix x
    assume c: "consume_grant hash ttl token i now (gst_live st) = Inr (gst_live st', Inr x)"
      and d: "gst_disk st' = gst_live st'"
    from c obtain k where "gst_live st' = (gst_live st)[k := (gst_live st ! k)\<lparr>gr_consumed := Some now\<rparr>]"
      by (rule consume_ok_shape)
    then have m: "map gr_hash (gst_live st') = map gr_hash (gst_live st)" by (simp add: map_update_same)
    then have "gr_hash ` set (gst_live st') = gr_hash ` set (gst_live st)" by (metis list.set_map)
    with m good(1) d consumed show ?thesis by (simp add: grant_good_def)
  next
    assume "gst_disk st' = gst_live st'" "gst_live st' = prune_grants now ttl (gst_live st)"
    with grant_good_prune [OF good(1), of now ttl] consumed(2) show ?thesis by (simp add: grant_good_def)
  next
    assume "st' = st"
    with good consumed show ?thesis by (simp add: grant_good_def)
  qed
qed

lemma grant_step_spent:
  assumes "grant_step hash ttl s ev s'" and "grant_good s" and "token_spent hash t s"
  shows "token_spent hash t s' \<and> \<not> consumes t ev"
  using assms(1)
proof (cases rule: grant_step_cases)
  case (issued st seen st' token i now ok)
  have "gst_disk st = gst_live st" using assms(2) issued by (simp add: grant_good_def)
  from issue_live [OF issued(4) this] show ?thesis
  proof
    assume "st' = st"
    with assms(3) issued show ?thesis by (auto simp: token_spent_def)
  next
    assume "gst_disk st' = gst_live st' \<and> gst_live st' = prune_grants now ttl (gst_live st
      @ [\<lparr>gr_scope = i, gr_expires = now + ttl, gr_hash = hash token, gr_consumed = None\<rparr>])"
    with assms(3) issued show ?thesis by (auto simp: token_spent_def prune_grants_def)
  qed
next
  case (consumed st seen st' token i now ok r)
  have d: "gst_disk st = gst_live st" using assms(2) consumed by (simp add: grant_good_def)
  have spent: "gr_consumed g \<noteq> None" if "g \<in> set (gst_live st)" "gr_hash g = hash t" for g
    using assms(3) that consumed by (simp add: token_spent_def)
  from consume_live [OF consumed(3) d] show ?thesis
  proof (elim disjE conjE exE)
    fix x
    assume c: "consume_grant hash ttl token i now (gst_live st) = Inr (gst_live st', Inr x)"
    from c obtain k where k: "k < length (gst_live st)" "gr_hash (gst_live st ! k) = hash token"
      "gr_consumed (gst_live st ! k) = None"
      "gst_live st' = (gst_live st)[k := (gst_live st ! k)\<lparr>gr_consumed := Some now\<rparr>]"
      by (rule consume_ok_shape)
    then have other: "hash token \<noteq> hash t" using spent nth_mem by metis
    have "gr_consumed g \<noteq> None" if "g \<in> set (gst_live st')" "gr_hash g = hash t" for g
      using that k spent other set_update_subset_insert [of "gst_live st" k] by fastforce
    with assms(3) consumed(1,2,4) other show ?thesis by (auto simp: token_spent_def)
  next
    assume "gst_live st' = prune_grants now ttl (gst_live st)" "\<forall>x. r \<noteq> Inr (Inr x)"
    with assms(3) consumed(1,2,4) show ?thesis by (auto simp: token_spent_def prune_grants_def)
  next
    assume "st' = st" "\<forall>x. r \<noteq> Inr (Inr x)"
    with assms(3) consumed(1,2,4) show ?thesis by (auto simp: token_spent_def)
  qed
qed

lemma grant_step_fires:
  assumes "grant_step hash ttl s ev s'" and "grant_good s" and "consumes t ev"
  shows "token_spent hash t s'"
  using assms(1)
proof (cases rule: grant_step_cases)
  case (issued st seen st' token i now ok)
  with assms(3) show ?thesis by blast
next
  case (consumed st seen st' token i now ok r)
  then obtain x where t: "token = t" "r = Inr (Inr x)" using assms(3) by blast
  have good: "distinct (map gr_hash (gst_live st))" "gr_hash ` set (gst_live st) \<subseteq> seen" "gst_disk st = gst_live st"
    using assms(2) consumed by (auto simp: grant_good_def)
  from consume_live [OF consumed(3) good(3)] t(2)
  have "consume_grant hash ttl token i now (gst_live st) = Inr (gst_live st', Inr x)" by auto
  then obtain k where k: "k < length (gst_live st)" "gr_hash (gst_live st ! k) = hash token"
    "gst_live st' = (gst_live st)[k := (gst_live st ! k)\<lparr>gr_consumed := Some now\<rparr>]"
    by (rule consume_ok_shape)
  have "gr_hash (gst_live st ! k) \<in> gr_hash ` set (gst_live st)" using k(1) by simp
  then have "hash t \<in> seen" using good(2) k(2) t(1) by auto
  moreover have "gr_consumed g \<noteq> None" if g: "g \<in> set (gst_live st')" "gr_hash g = hash t" for g
  proof -
    obtain n where n: "n < length (gst_live st)" "g = gst_live st' ! n"
      using g(1) k(3) by (auto simp: in_set_conv_nth)
    show ?thesis
    proof (cases "n = k")
      case True
      then show ?thesis using n k by simp
    next
      case False
      then have "map gr_hash (gst_live st) ! n = map gr_hash (gst_live st) ! k"
        using n k g(2) t(1) by simp
      then show ?thesis using False good(1) n(1) k(1) nth_eq_iff_index_eq by fastforce
    qed
  qed
  ultimately show ?thesis using consumed(2) by (simp add: token_spent_def)
qed

interpretation consume_once: one_shot "grant_step hash ttl" grant_good "consumes t" "token_spent hash t"
  for hash ttl t
proof unfold_locales
  fix s ev s'
  assume step: "grant_step hash ttl s ev s'" and good: "grant_good s"
  show "grant_good s'" using grant_step_good [OF step good] .
  show "token_spent hash t s \<Longrightarrow> token_spent hash t s'" using grant_step_spent [OF step good] by blast
  show "consumes t ev \<Longrightarrow> \<not> token_spent hash t s \<and> token_spent hash t s'"
    using grant_step_spent [OF step good] grant_step_fires [OF step good] by blast
qed

section \<open>Loading what was saved\<close>

definition grant_valid :: "grant \<Rightarrow> bool" where
  "grant_valid g \<longleftrightarrow> scope_fields_ok (gr_scope g) \<and> hex_text 64 (gr_hash g) \<and> date_range (gr_expires g)
     \<and> (case gr_consumed g of None \<Rightarrow> True | Some c \<Rightarrow> date_range c \<and> c \<le> gr_expires g)"

lemma parse_raw_of_grant: "grant_valid g \<Longrightarrow> parse_raw (raw_of_grant g) = Inr (Some g)"
  by (auto simp: grant_valid_def parse_raw_def raw_of_grant_def raw_fields_ok_def scope_fields_ok_def
      cong: option.case_cong)

lemma parse_grants_saved:
  "\<forall>g \<in> set gs. grant_valid g \<Longrightarrow> distinct (map gr_hash gs) \<Longrightarrow> set seen \<inter> gr_hash ` set gs = {}
     \<Longrightarrow> parse_grants seen (map raw_of_grant gs) = Inr (gs, 0)"
  by (induction gs arbitrary: seen) (auto simp: parse_raw_of_grant)

end
