(* ===== verification/Samples.thy ===== *)
theory Samples
  imports JobLoad Admission PullWorker ActionGrants
begin

text \<open>Concrete values at which the properties are instantiated: a host whose digests are constant
  texts of the right shape, a scope, and jobs of both modes.\<close>

definition hex64 :: string where "hex64 = replicate 64 (CHR ''a'')"
definition uuid_a :: string where "uuid_a = ''aaaaaaaa-aaaa-aaaa-aaaa-aaaaaaaaaaaa''"

definition sample_host :: host where
  "sample_host = \<lparr>h_sha = (\<lambda>_. hex64), h_url = (\<lambda>_. True),
     h_digests = \<lparr>dg_result = (\<lambda>_. hex64), dg_revision = (\<lambda>_. hex64), dg_text = (\<lambda>_. hex64)\<rparr>,
     h_redact = (\<lambda>s. (s, False))\<rparr>"

definition sample_scope :: scope where
  "sample_scope = \<lparr>sc_requester = ''ann'', sc_conversation = ''c1'', sc_tenant = ''t1''\<rparr>"

definition sample_principal :: principal where
  "sample_principal = \<lparr>pr_requester = ''ann'', pr_tenant = ''t1''\<rparr>"

definition other_scope :: scope where
  "other_scope = \<lparr>sc_requester = ''bob'', sc_conversation = ''c2'', sc_tenant = ''t1''\<rparr>"

definition sample_origin :: result_origin where
  "sample_origin = \<lparr>or_tenant = ''t1'', or_requester = ''ann'', or_conversation = ''c1'',
     or_conversation_type = Personal, or_service_url = ''https://x'', or_activity = ''a1'', or_thread = None\<rparr>"

definition sample_input :: create_input where
  "sample_input = \<lparr>ci_prompt = ''do it'', ci_provider = Codex, ci_mode = WorkspaceWrite,
     ci_scope = sample_scope, ci_origin = Some sample_origin, ci_env = None, ci_notifications = None,
     ci_parent = None, ci_thread = None, ci_key = Some ''k1'', ci_hash = Some hex64, ci_model = None,
     ci_effort = None, ci_catalog = None\<rparr>"

definition sample_approval :: approval where
  "sample_approval = \<lparr>ap_id = ''approval-'' @ uuid_a, ap_revision = hex64, ap_approver = ''ann'',
     ap_tenant = ''t1'', ap_deadline = 900100, ap_state = ApPending, ap_decided = None,
     ap_settled_status = None, ap_settled_at = None\<rparr>"

definition sample_job :: job where
  "sample_job = (initial_job sample_input ''j1'' 100 None)
     \<lparr>job_approval := Some sample_approval, job_origin := Some sample_origin\<rparr>"

definition sample_request :: approval_request where
  "sample_request = \<lparr>rq_id = ''approval-'' @ uuid_a, rq_revision = hex64\<rparr>"

definition read_only_job :: job where
  "read_only_job = (initial_job (sample_input\<lparr>ci_mode := ReadOnly, ci_key := None, ci_hash := None\<rparr>) ''j2'' 100 None)
     \<lparr>job_origin := Some sample_origin\<rparr>"

lemmas sample_defs = hex64_def uuid_a_def sample_host_def sample_scope_def sample_principal_def other_scope_def
  sample_origin_def sample_input_def sample_approval_def sample_job_def sample_request_def read_only_job_def
  initial_job_def

lemma hex64_ok: "hex_text 64 hex64"
  by (simp add: hex_text_def hex64_def hex_char_def list_all_iff)

lemma uuid_a_ok: "uuid_text uuid_a"
  by code_simp

lemma sample_trims [simp]: "js_trim ''ann'' = ''ann''" "js_trim ''t1'' = ''t1''" "js_trim ''c1'' = ''c1''"
  "js_trim ''k1'' = ''k1''" "js_trim ''a1'' = ''a1''"
  by code_simp+

lemma sample_bounded: "bounded_text ''ann''" "bounded_text ''t1''"
  by code_simp+

lemma sample_input_fields [simp]: "ci_key sample_input = Some ''k1''" "ci_hash sample_input = Some hex64"
  "ci_scope sample_input = sample_scope"
  by (simp_all add: sample_input_def)

lemma sample_job_built:
  "build_job (h_sha sample_host) (h_url sample_host) sample_input ''j1'' uuid_a 100 = Inr sample_job"
  by code_simp

lemma sample_job_approval: "approval_ok (h_sha sample_host) sample_approval sample_job"
  by code_simp

lemma sample_decides:
  "decide_job (h_sha sample_host) sample_job sample_scope sample_request Accept 200
     = Inr \<lparr>dr_job = sample_job\<lparr>job_status := JQueued, job_error := None, job_updated := Some 200,
           job_approval := Some (sample_approval\<lparr>ap_state := ApAccepted, ap_decided := Some 200\<rparr>)\<rparr>,
         dr_replayed = False, dr_dispatch = True\<rparr>"
  by code_simp

section \<open>Sample runs\<close>

definition sample_store :: job_store where
  "sample_store = \<lparr>js_jobs = [sample_job], js_disk = [sample_job]\<rparr>"

definition sample_decision :: decision_result where
  "sample_decision = \<lparr>dr_job = sample_job\<lparr>job_status := JQueued, job_error := None, job_updated := Some 200,
           job_approval := Some (sample_approval\<lparr>ap_state := ApAccepted, ap_decided := Some 200\<rparr>)\<rparr>,
         dr_replayed = False, dr_dispatch = True\<rparr>"

definition sample_decision_event :: store_event where
  "sample_decision_event = (OpDecide ''j1'' sample_scope sample_request Accept 200, Inr (RDecision (Some sample_decision)))"

definition decided_store :: job_store where
  "decided_store = \<lparr>js_jobs = [dr_job sample_decision], js_disk = [dr_job sample_decision]\<rparr>"

lemma sample_store_good: "store_good sample_store"
  by (simp add: store_good_def sample_store_def)

lemma sample_decision_step: "store_step sample_host sample_store sample_decision_event decided_store"
proof -
  have idx: "scoped_index ''j1'' sample_scope [sample_job] = Some 0"
    by (simp add: scoped_index_def matches_scope_def sample_defs)
  have "enqueue_mutation True True (exec_op sample_host (OpDecide ''j1'' sample_scope sample_request Accept 200)) sample_store
      = (decided_store, Inr (RDecision (Some sample_decision)))"
    by (simp add: enqueue_mutation_def sample_store_def decide_approval_def idx sample_decides returning_def
        decided_store_def sample_decision_def)
  then show ?thesis unfolding sample_decision_event_def by (intro store_step.queued) simp_all
qed

definition sample_publication :: publication where
  "sample_publication = \<lparr>pub_operation = ''publication-'' @ uuid_a, pub_job = ''j2'', pub_tenant = ''t1'',
       pub_requester = ''ann'', pub_origin = sample_origin, pub_result_digest = hex64,
       pub_result_revision = hex64, pub_text_digest = hex64, pub_state = PubPreview, pub_previewed = 400,
       pub_sending = None, pub_settled = None, pub_activity = None, pub_failure = None\<rparr>"

definition published_job :: job where
  "published_job = read_only_job\<lparr>job_status := JCompleted, job_result := Some ''ok'', job_finished := Some 300,
     job_publication := Some sample_publication\<rparr>"

definition published_store :: job_store where
  "published_store = \<lparr>js_jobs = [published_job], js_disk = [published_job]\<rparr>"

definition sent_publication :: publication where
  "sent_publication = sample_publication\<lparr>pub_state := PubSending, pub_sending := Some 500\<rparr>"

definition sent_job :: job where
  "sent_job = published_job\<lparr>job_publication := Some sent_publication\<rparr>"

definition sample_claim :: claim where
  "sample_claim = \<lparr>cl_publication = sent_publication, cl_send = True, cl_text = (''ok'', False)\<rparr>"

definition sample_claim_event :: store_event where
  "sample_claim_event = (OpClaim ''j2'' sample_principal (''publication-'' @ uuid_a) hex64 500, Inr (RClaim (Some sample_claim)))"

definition sent_store :: job_store where
  "sent_store = \<lparr>js_jobs = [sent_job], js_disk = [sent_job]\<rparr>"

lemma published_store_good: "store_good published_store"
  by (simp add: store_good_def published_store_def)

lemma sample_claim_step: "store_step sample_host published_store sample_claim_event sent_store"
proof -
  have facts: "job_id published_job = ''j2'' \<and> matches_principal published_job sample_principal
      \<and> assert_pub_request sample_principal ''j2'' \<and> nonce_text (''publication-'' @ uuid_a) \<and> hex_text 64 hex64
      \<and> assert_owner published_job sample_principal \<and> assert_completed published_job
      \<and> read_publication (h_url sample_host) (Some sample_publication) published_job = Inr (Some sample_publication)
      \<and> read_publication (h_url sample_host) (Some sent_publication) sent_job = Inr (Some sent_publication)"
    by code_simp
  have ok: "job_result published_job = Some ''ok''" "\<not> blank ''ok''" "render_text ''ok'' = (''ok'', False)"
    by (simp_all add: published_job_def blank_def js_trim_def js_space_def render_text_def byte_length_def
        utf8_size_def code_unit_def max_bytes_def)
  have pub: "job_publication published_job = Some sample_publication"
    "pub_operation sample_publication = ''publication-'' @ uuid_a" "pub_result_revision sample_publication = hex64"
    "pub_text_digest sample_publication = hex64" "pub_state sample_publication = PubPreview"
    by (simp_all add: published_job_def sample_publication_def)
  have dg: "dg_revision (h_digests sample_host) x = hex64" "dg_text (h_digests sample_host) y = hex64" for x y
    by (simp_all add: sample_host_def)
  have red: "claim_reducer (h_digests sample_host) (h_url sample_host) sample_principal (''publication-'' @ uuid_a)
      hex64 500 published_job = Inr (sent_publication, sample_claim)"
    unfolding claim_reducer_def Let_def pub ok result_identity_def dg
    using facts ok(2) by (simp add: dg pub sent_publication_def sample_claim_def ok)
  have sent: "published_job\<lparr>job_publication := Some sent_publication\<rparr> = sent_job"
    "sent_job\<lparr>job_publication := Some sent_publication\<rparr> = sent_job"
    by (simp_all add: sent_job_def)
  have "enqueue_mutation True True (exec_op sample_host
        (OpClaim ''j2'' sample_principal (''publication-'' @ uuid_a) hex64 500)) published_store
      = (sent_store, Inr (RClaim (Some sample_claim)))"
    using facts red sent
    by (simp add: enqueue_mutation_def published_store_def mutate_publication_def returning_def sent_store_def)
  then show ?thesis unfolding sample_claim_event_def by (intro store_step.queued) simp_all
qed

lemma sample_decision_run: "steps_of (store_step sample_host) sample_store [sample_decision_event] decided_store"
  by (rule steps_one [where step = "store_step sample_host", OF sample_decision_step])

lemma sample_claim_run: "steps_of (store_step sample_host) published_store [sample_claim_event] sent_store"
  by (rule steps_one [where step = "store_step sample_host", OF sample_claim_step])

definition sample_page :: page_request where
  "sample_page = \<lparr>pq_limit = 1, pq_cursor = None, pq_search = None, pq_status = None, pq_ids = None\<rparr>"

section \<open>Admission, pull worker and grants\<close>

definition sample_limits :: limits where
  "sample_limits = \<lparr>lm_global = 2, lm_tenant = 2, lm_requester = 1\<rparr>"

definition ann_scope :: adm_scope where
  "ann_scope = \<lparr>as_tenant = ''t1'', as_requester = ''ann''\<rparr>"

definition ann_reserved :: adm_state where
  "ann_reserved = empty_admission\<lparr>ad_res := [(admission_token ''u1'', \<lparr>rs_scope = ann_scope, rs_job = None,
     rs_phase = Reserved, rs_attempts = 0, rs_failure = None, rs_retry = None\<rparr>)]\<rparr>"

definition start_admission :: admission where
  "start_admission = \<lparr>adm_live = empty_admission, adm_saved = empty_admission,
     adm_journal = \<lparr>jn_closing = False, jn_entries = []\<rparr>\<rparr>"

definition one_admission :: admission where
  "one_admission = \<lparr>adm_live = ann_reserved, adm_saved = ann_reserved, adm_journal = persist_journal 0 None ann_reserved\<rparr>"

lemma empty_admission_inv: "adm_inv empty_admission" "within lim (usage empty_admission)"
  by (simp_all add: adm_inv_def linked_def empty_admission_def usage_def within_def)

lemma ann_acquires: "try_acquire sample_limits ann_scope ''u1'' empty_admission = Inr (ann_reserved, Inr (admission_token ''u1''))"
  by (simp add: try_acquire_def empty_admission_def count_res_def sample_limits_def ann_reserved_def)

lemma sample_admission_run:
  "steps_of (adm_step sample_limits) start_admission
     [(AcAcquire ann_scope ''u1'', Inr (Some (Inr (admission_token ''u1''))))] one_admission"
proof (rule steps_one)
  have "adm_mutate 0 None True (exec_adm sample_limits (AcAcquire ann_scope ''u1'')) start_admission
      = (one_admission, Inr (Some (Inr (admission_token ''u1''))))"
    by (simp add: adm_mutate_def start_admission_def ann_acquires one_admission_def)
  then show "adm_step sample_limits start_admission
      (AcAcquire ann_scope ''u1'', Inr (Some (Inr (admission_token ''u1'')))) one_admission"
    by (intro adm_step.adm_queued) (auto simp: start_admission_def empty_admission_def)
qed

definition ann_worker :: worker_identity where
  "ann_worker = \<lparr>wi_id = ''w1'', wi_tenant = ''t1'', wi_requester = ''ann''\<rparr>"

definition sample_pull_host :: pull_host where
  "sample_pull_host = \<lparr>ph_worker = ''w1'', ph_commit = hex64, ph_lease_ms = 1000, ph_task_hash = (\<lambda>t. pt_job t),
     ph_result_hash = (\<lambda>_. ''h''), ph_uuid = (\<lambda>_. True)\<rparr>"

definition ann_task :: pull_task where
  "ann_task = \<lparr>pt_job = ''j1'', pt_tenant = ''t1'', pt_requester = ''ann'', pt_conversation = ''c1'',
     pt_prompt = ''do it'', pt_catalog = hex64, pt_created = 0, pt_commit = hex64\<rparr>"

definition ann_record :: "pull_state \<Rightarrow> string option \<Rightarrow> time option \<Rightarrow> pull_result option \<Rightarrow> pull_record" where
  "ann_record s lease expires x = \<lparr>pw_task = ann_task, pw_hash = ''j1'', pw_state = s, pw_lease = lease,
     pw_expires = expires, pw_cancel = False, pw_result = x\<rparr>"

definition done_result :: pull_result where
  "done_result = \<lparr>px_status = RsCompleted, px_result = Some ''ok'', px_error = None, px_execution = Some ''e1''\<rparr>"

definition pull_at :: "pull_record \<Rightarrow> pull_store" where
  "pull_at r = \<lparr>ps_live = [r], ps_disk = [r]\<rparr>"

abbreviation pull_leased :: pull_store where
  "pull_leased \<equiv> pull_at (ann_record PLeased (Some ''l1'') (Some 1000) None)"

abbreviation pull_running :: pull_store where
  "pull_running \<equiv> pull_at (ann_record PRunning (Some ''l1'') (Some 1010) None)"

abbreviation pull_done :: pull_store where
  "pull_done \<equiv> pull_at (ann_record PCompleted (Some ''l1'') (Some 1010) (Some done_result))"

lemmas sample_pull_defs = ann_worker_def sample_pull_host_def ann_task_def ann_record_def done_result_def pull_at_def
  transaction_def pull_write_def

lemma pull_leased_inv: "pull_inv (ps_live pull_leased)"
  by (simp add: sample_pull_defs pull_inv_def one_busy_def record_defs)

lemma ann_begins:
  "pull_step sample_pull_host pull_leased (10, PoBegin ann_worker ''j1'' ''l1'',
     Inr (AnClaim (Some (claim_for (ann_record PLeased (Some ''l1'') (Some 1000) None))))) pull_running"
proof (rule pull_step.pull_queued)
  have "owned_record sample_pull_host ann_worker ''j1'' ''l1'' [ann_record PLeased (Some ''l1'') (Some 1000) None] = Inr 0"
    by (simp add: owned_record_def lease_ref_ok_def identifier_text_def code_unit_def record_of_job_def same_owner_def
        sample_pull_defs)
  then show "transaction False 10 True (exec_pull sample_pull_host 10 (PoBegin ann_worker ''j1'' ''l1'')) pull_leased
      = (pull_running, Inr (AnClaim (Some (claim_for (ann_record PLeased (Some ''l1'') (Some 1000) None)))))"
    by (simp add: transaction_def pull_write_def pull_at_def expire_record_def pull_begin_def active_record_def
        ann_record_def claim_for_def sample_pull_host_def)
qed

lemma ann_finishes:
  "pull_step sample_pull_host pull_running (20, PoFinish ann_worker ''j1'' ''l1'' done_result, Inr AnUnit) pull_done"
proof (rule pull_step.pull_queued)
  have "owned_record sample_pull_host ann_worker ''j1'' ''l1'' [ann_record PRunning (Some ''l1'') (Some 1010) None] = Inr 0"
    by (simp add: owned_record_def lease_ref_ok_def identifier_text_def code_unit_def record_of_job_def same_owner_def
        sample_pull_defs)
  moreover have "result_ok done_result"
    by (simp add: result_ok_def done_result_def identifier_text_def code_unit_def blank_def js_trim_def js_space_def)
  ultimately show "transaction False 20 True (exec_pull sample_pull_host 20 (PoFinish ann_worker ''j1'' ''l1'' done_result))
      pull_running = (pull_done, Inr AnUnit)"
    by (simp add: transaction_def pull_write_def pull_at_def expire_record_def pull_finish_def
        ann_record_def done_result_def)
qed

definition sample_grant_scope :: grant_scope where
  "sample_grant_scope = \<lparr>gs_action = AcApprove, gs_entity = ''e'', gs_correlation = ''co'', gs_conversation = ''c1'',
     gs_requester = ''ann'', gs_tenant = ''t1''\<rparr>"

definition sample_grant :: grant where
  "sample_grant = \<lparr>gr_scope = sample_grant_scope, gr_expires = 1000, gr_hash = hex64, gr_consumed = None\<rparr>"

definition grant_at :: "grant \<Rightarrow> grant_store \<times> string set" where
  "grant_at g = (\<lparr>gst_live = [g], gst_disk = [g]\<rparr>, {hex64})"

lemma sample_grant_texts: "scope_fields_ok sample_grant_scope" "bounded_field 512 ''tok''"
  by code_simp+

lemma sample_grant_run:
  "steps_of (grant_step (\<lambda>_. hex64) 1000) (grant_at sample_grant)
     [(GoConsume ''tok'' sample_grant_scope, Inr (GaConsumed (Inr (sample_grant_scope, 1000))))]
     (grant_at (sample_grant\<lparr>gr_consumed := Some 10\<rparr>))"
proof (rule steps_one)
  have "consume (\<lambda>_. hex64) 1000 ''tok'' sample_grant_scope 10 True \<lparr>gst_live = [sample_grant], gst_disk = [sample_grant]\<rparr>
      = (\<lparr>gst_live = [sample_grant\<lparr>gr_consumed := Some 10\<rparr>], gst_disk = [sample_grant\<lparr>gr_consumed := Some 10\<rparr>]\<rparr>,
         Inr (Inr (sample_grant_scope, 1000)))"
    using sample_grant_texts
    by (simp add: consume_def consumable_input_def grant_commit_def consume_grant_def sample_grant_def)
  then show "grant_step (\<lambda>_. hex64) 1000 (grant_at sample_grant)
      (GoConsume ''tok'' sample_grant_scope, Inr (GaConsumed (Inr (sample_grant_scope, 1000))))
      (grant_at (sample_grant\<lparr>gr_consumed := Some 10\<rparr>))"
    unfolding grant_at_def
    by (intro step_consume [where now = 10 and ok = True and ttl = 1000]) simp
qed

lemma sample_grant_good: "grant_good (grant_at sample_grant)"
  by (simp add: grant_good_def grant_at_def sample_grant_def)

section \<open>Loading\<close>

lemma sample_texts: "text_ok 200 ''j1''" "text_ok 2000 ''do it''" "text_ok 256 ''ann''" "text_ok 256 ''c1''"
  "text_ok 256 ''t1''" "text_ok 200 ''k1''"
  by (simp_all add: text_ok_def blank_iff js_space_def code_unit_def text_control_def)

lemma hex64_text: "text_ok 64 hex64"
proof -
  have set: "set hex64 = {CHR ''a''}" by (simp add: hex64_def)
  have "\<not> list_ex text_control hex64" by (simp add: list_ex_iff set text_control_def code_unit_def)
  moreover have "\<not> blank hex64" by (simp add: blank_iff set js_space_def code_unit_def)
  ultimately show ?thesis by (simp add: text_ok_def hex64_def)
qed

lemma sample_stored: "stored_ok (h_sha sample_host) (h_url sample_host) None sample_job"
proof -
  have "read_origin (h_url sample_host) (Some sample_origin) ''t1'' ''ann'' = Inr (Some sample_origin)"
    by code_simp
  moreover have "plain_identity_ok None sample_job"
    using sample_texts hex64_text hex64_ok
    by (simp add: plain_identity_ok_def keys_ok_def opt_ok_def sample_job_def initial_job_def sample_input_def sample_scope_def)
  moreover have "plain_texts_ok sample_job \<and> plain_rest_ok sample_job"
    by (simp add: plain_texts_ok_def plain_rest_ok_def opt_ok_def paths_ok_def progress_ok_def tools_ok_def
        selection_ok_def selection_of_def sample_job_def initial_job_def sample_input_def)
  moreover have "job_publication sample_job = None" "job_approval sample_job = Some sample_approval"
    "job_origin sample_job = Some sample_origin" "job_tenant sample_job = Some ''t1''" "job_requester sample_job = ''ann''"
    by (simp_all add: sample_job_def initial_job_def sample_scope_def)
  ultimately show ?thesis
    using sample_job_approval by (simp add: stored_ok_def read_publication_def)
qed

lemma sample_loads:
  "load_jobs (h_sha sample_host) (h_url sample_host) (h_redact sample_host) None (Is [Is (raw_of_job sample_job)])
     = Inr ([sample_job], False)"
proof -
  have "load_job (h_sha sample_host) (h_url sample_host) (h_redact sample_host) None [] (raw_of_job sample_job) = Inr (sample_job, False)"
    by (rule load_job_back [OF sample_stored]) (simp_all add: sample_job_def initial_job_def stable_execs_def)
  then show ?thesis
    by (simp add: load_jobs_Inr parent_fault_def keyed_def sample_job_def initial_job_def sample_input_def)
qed

definition failed_read_only :: "string \<Rightarrow> job" where
  "failed_read_only e = read_only_job\<lparr>job_error := Some e, job_updated := Some 400\<rparr>"

lemma failed_read_only_update:
  "update_job sha read_only_job [PError (Some e)] 400 = Inr (failed_read_only e)"
  by (simp add: update_job_def Let_def update_refusal_def failed_read_only_def read_only_job_def initial_job_def)

end
