(* ===== verification/AgentSamples.thy ===== *)
theory AgentSamples
  imports AgentSoundness Samples
begin

text \<open>A configured service without jobs and the submissions at which its properties are instantiated.\<close>

definition sample_catalog :: model_catalog where
  "sample_catalog = \<lparr>mc_revision = hex64, mc_observed = Some 50,
     mc_models = [\<lparr>mo_id = policy_model, mo_label = ''Luna'', mo_default = EffHigh, mo_efforts = [EffHigh, EffXhigh]\<rparr>]\<rparr>"

definition sample_config :: svc_config where
  "sample_config = \<lparr>cf_host = sample_host, cf_default = Codex, cf_can_mutate = (\<lambda>sc. sc_requester sc = ''ann''),
     cf_can_read = (\<lambda>_. True), cf_pull = False, cf_limits = \<lparr>lm_global = 4, lm_tenant = 2, lm_requester = 1\<rparr>,
     cf_retry = 30000, cf_catalog_sha = (\<lambda>_. hex64), cf_clean = (\<lambda>s. s)\<rparr>"

definition sample_env :: svc_env where
  "sample_env = \<lparr>en_now = 100, en_job_id = ''j9'', en_uuid = uuid_a, en_catalog = Some sample_catalog,
     en_dispatch = None, en_report = (\<lambda>_. Inr None), en_cancel = None, en_accepted = (\<lambda>_. True),
     en_git = Inr (None, ''nothing'')\<rparr>"

definition empty_svc :: svc where
  "empty_svc = \<lparr>sv_jobs = \<lparr>js_jobs = [], js_disk = []\<rparr>,
     sv_adm = \<lparr>adm_live = empty_admission, adm_saved = empty_admission, adm_journal = \<lparr>jn_closing = False, jn_entries = []\<rparr>\<rparr>,
     sv_leases = (\<lambda>_. None), sv_writes = [], sv_sent = []\<rparr>"

definition sample_submission :: "string \<Rightarrow> sub_input" where
  "sample_submission prompt = \<lparr>si_prompt = prompt, si_key = None, si_hash = None, si_provider = None, si_mode = ReadOnly,
     si_scope = sample_scope, si_origin = None, si_parent = None, si_thread = None, si_notify = None,
     si_model = None, si_effort = None, si_catalog = None\<rparr>"

definition submitted :: "string \<Rightarrow> svc \<times> (svc_error + job)" where
  "submitted prompt = submit_once sample_config sample_env (sample_submission prompt) empty_svc"

lemma submitted_ok: "map_sum id job_prompt (snd (submitted ''look'')) = Inr ''look''"
  by code_simp

lemma submitted_control: "map_sum id job_prompt (snd (submitted [CHR ''a'', CHR 0x85])) = Inr [CHR ''a'', CHR 0x85]"
  by code_simp

lemma submitted_refused:
  "snd (submit_once sample_config (sample_env\<lparr>en_dispatch := Some ''down''\<rparr>) (sample_submission ''look'') empty_svc)
     = Inl (SeDispatcher ''down'')"
  by code_simp

lemma sample_config_hex: "sha_hex sample_config"
  by (simp add: sha_hex_def sample_config_def sample_host_def hex64_ok)

lemma empty_svc_good: "store_good (sv_jobs empty_svc)"
  by (simp add: store_good_def empty_svc_def)

lemma empty_svc_fresh: "fresh_env sample_env empty_svc"
  by (simp add: fresh_env_def sample_env_def empty_svc_def empty_admission_def jobs_of_def uuid_a_ok)

lemma empty_svc_sound: "svc_sound sample_config empty_svc"
  by (simp add: svc_sound_def store_good_def empty_svc_def jobs_of_def keys_unique_def empty_admission_def
      adm_inv_def linked_def usage_def within_def sample_config_def)

lemma submitted_run:
  "steps_of (svc_step sample_config) empty_svc [(sample_env, EvSubmit (sample_submission ''look''))] (fst (submitted ''look''))"
  using empty_svc_fresh by (intro steps_one) (simp add: svc_step_iff submitted_def)

text \<open>A failed job of which the worker reports late that it runs.\<close>

definition finished_job :: job where
  "finished_job = read_only_job\<lparr>job_status := JFailed, job_finished := Some 300\<rparr>"

definition finished_svc :: svc where
  "finished_svc = empty_svc\<lparr>sv_jobs := \<lparr>js_jobs = [finished_job], js_disk = [finished_job]\<rparr>\<rparr>"

definition late_env :: svc_env where
  "late_env = sample_env\<lparr>en_report := (\<lambda>_. Inr (Some \<lparr>wr_status = WkRunning, wr_result = None, wr_execution = None,
     wr_error = None, wr_tools = None, wr_tokens = None, wr_receipt = None, wr_cli = None\<rparr>))\<rparr>"

lemma finished_svc_good: "store_good (sv_jobs finished_svc)"
  by (simp add: store_good_def finished_svc_def)

lemma finished_svc_job: "get_job ''j2'' sample_scope (jobs_of finished_svc) = Some finished_job"
  by (simp add: get_job_def jobs_of_def finished_svc_def finished_job_def read_only_job_def initial_job_def
      matches_scope_def sample_scope_def sample_input_def)

lemma late_run:
  "steps_of (svc_step sample_config) finished_svc [(late_env, EvObserve ''j2'' sample_scope)]
     (exec_svc sample_config late_env (EvObserve ''j2'' sample_scope) finished_svc)"
  by (intro steps_one) (simp add: svc_step_iff)

end
