(* ===== verification/WorkItemStore.thy ===== *)
theory WorkItemStore
  imports HubPrelude
begin

text \<open>
  The versioned store of work items (\<open>server/work-item-store.ts\<close> on the types of
  \<open>shared/work-item.ts\<close>): items and the log of the mutations that were applied, each under a key
  its caller chose. A mutation runs its action on the items, records its result under its key and
  writes both; run again under its key it returns the recorded result.

  An item is read from JSON whose fields have their types; a field of another type is refused by
  the source before any of the tests below. \<open>structuredClone\<close> is the identity on values.
\<close>

section \<open>Items\<close>

datatype wi_status = WBacklog | WTodo | WOpen | WInProgress | WBlocked | WDone | WCancelled
datatype wi_priority = WLow | WMedium | WHigh | WUrgent
datatype wi_relation = CreatedFrom | Supports | BlockedBy
datatype wi_operation = WCreate | WEdit | WTransition | WAssign | WComment | WWatch | WUnwatch | WDelete

record wi_scope =
  ws_tenant :: string
  ws_requester :: string
  ws_conversation :: string

record wi_link =
  wl_item :: string
  wl_path :: string
  wl_href :: string

record wi_comment =
  wc_id :: string
  wc_author :: string
  wc_body :: string
  wc_created :: time

record work_item =
  wi_id :: string
  wi_tenant :: string
  wi_conversation :: string
  wi_creator :: string
  wi_title :: string
  wi_description :: string
  wi_status :: wi_status
  wi_priority :: wi_priority
  wi_assignee :: "string option"
  wi_watchers :: "string list"
  wi_labels :: "string list"
  wi_due :: "string option"
  wi_comments :: "wi_comment list"
  wi_link :: wi_link
  wi_job :: "(string \<times> wi_relation) option"
  wi_deleted :: "time option"
  wi_created :: time
  wi_updated :: time
  wi_seq :: "nat option"

text \<open>\<open>encodeURIComponent\<close> on code units below 256, which UTF-8 writes in one byte or two.\<close>

definition percent_byte :: "nat \<Rightarrow> string" where
  "percent_byte n = [CHR ''%'', ''0123456789ABCDEF'' ! (n div 16), ''0123456789ABCDEF'' ! (n mod 16)]"

definition plain_uri_char :: "char \<Rightarrow> bool" where
  "plain_uri_char c \<longleftrightarrow> alnum_char c \<or> code_unit c \<in> {33, 39, 40, 41, 42, 45, 46, 95, 126}"

definition encode_uri_char :: "char \<Rightarrow> string" where
  "encode_uri_char c = (let n = code_unit c in
     if plain_uri_char c then [c]
     else if n < 128 then percent_byte n
     else percent_byte (192 + n div 64) @ percent_byte (128 + n mod 64))"

definition build_link :: "string \<Rightarrow> wi_link" where
  "build_link i = (let path = ''/tabs/home/?workItemId='' @ concat (map encode_uri_char i)
     in \<lparr>wl_item = i, wl_path = path, wl_href = path\<rparr>)"

section \<open>Validation\<close>

definition assert_text :: "nat \<Rightarrow> bool \<Rightarrow> string \<Rightarrow> bool" where
  "assert_text maximum required s \<longleftrightarrow> (required \<longrightarrow> \<not> blank s) \<and> length s \<le> maximum
     \<and> \<not> list_ex text_control s"

definition assert_scope :: "wi_scope \<Rightarrow> bool" where
  "assert_scope sc \<longleftrightarrow> assert_text 256 True (ws_tenant sc) \<and> assert_text 256 True (ws_requester sc)
     \<and> assert_text 256 True (ws_conversation sc)"

definition assert_unique_texts :: "nat \<Rightarrow> nat \<Rightarrow> string list \<Rightarrow> bool" where
  "assert_unique_texts max_length max_entries vs \<longleftrightarrow> length vs \<le> max_entries
     \<and> list_all (assert_text max_length True) vs \<and> distinct vs"

text \<open>A calendar date: the shape YYYY-MM-DD, and a day the Gregorian calendar has (the source
  compares the text with the date it parses to).\<close>

definition digit_char :: "char \<Rightarrow> bool" where
  "digit_char c \<longleftrightarrow> 48 \<le> code_unit c \<and> code_unit c \<le> 57"

definition digits_value :: "string \<Rightarrow> nat" where
  "digits_value s = foldl (\<lambda>n c. 10 * n + (code_unit c - 48)) 0 s"

definition leap_year :: "nat \<Rightarrow> bool" where
  "leap_year y \<longleftrightarrow> y mod 4 = 0 \<and> (y mod 100 \<noteq> 0 \<or> y mod 400 = 0)"

definition month_days :: "nat \<Rightarrow> nat \<Rightarrow> nat" where
  "month_days y m = (if m = 2 then (if leap_year y then 29 else 28)
     else if m \<in> {4, 6, 9, 11} then 30 else 31)"

definition date_shape :: "string \<Rightarrow> bool" where
  "date_shape s \<longleftrightarrow> length s = 10
     \<and> (\<forall>i \<in> set [0..<10]. if i \<in> {4, 7} then s ! i = CHR ''-'' else digit_char (s ! i))"

definition date_parts :: "string \<Rightarrow> nat \<times> nat \<times> nat" where
  "date_parts s = (digits_value (take 4 s), digits_value (take 2 (drop 5 s)), digits_value (drop 8 s))"

definition assert_date :: "string \<Rightarrow> bool" where
  "assert_date s \<longleftrightarrow> date_shape s
     \<and> (case date_parts s of (y, m, d) \<Rightarrow> 1 \<le> m \<and> m \<le> 12 \<and> 1 \<le> d \<and> d \<le> month_days y m)"

definition validate_comment :: "wi_comment \<Rightarrow> bool" where
  "validate_comment c \<longleftrightarrow> assert_text 200 True (wc_id c) \<and> assert_text 256 True (wc_author c)
     \<and> assert_text 2000 True (wc_body c) \<and> date_range (wc_created c)"

definition validate_item :: "work_item \<Rightarrow> bool" where
  "validate_item i \<longleftrightarrow>
     assert_text 200 True (wi_id i)
     \<and> assert_scope \<lparr>ws_tenant = wi_tenant i, ws_requester = wi_creator i, ws_conversation = wi_conversation i\<rparr>
     \<and> assert_text 400 True (wi_title i)
     \<and> assert_text 4000 False (wi_description i)
     \<and> pred_option (assert_text 256 True) (wi_assignee i)
     \<and> assert_unique_texts 256 256 (wi_watchers i)
     \<and> assert_unique_texts 80 40 (wi_labels i)
     \<and> pred_option assert_date (wi_due i)
     \<and> length (wi_comments i) \<le> 200
     \<and> list_all validate_comment (wi_comments i) \<and> distinct (map wc_id (wi_comments i))
     \<and> wi_link i = build_link (wi_id i)
     \<and> pred_option (\<lambda>(jid, _). assert_text 200 True jid) (wi_job i)
     \<and> pred_option date_range (wi_deleted i)
     \<and> date_range (wi_created i) \<and> date_range (wi_updated i)
     \<and> pred_option (\<lambda>n. 1 \<le> n \<and> safe_integer (int n)) (wi_seq i)"

section \<open>The store\<close>

datatype wi_error = WiInvalid | WiNotFound string | WiForbidden string | WiConflict string
  | WiRefused | WiWriteFailed | WiUnpublished

text \<open>\<open>WiRefused\<close> is a plain \<open>Error\<close> of the store: a value that does not validate, an item id
  that exists, an item of another owner.\<close>

record wi_mutation =
  wm_scope :: wi_scope
  wm_key :: string
  wm_operation :: wi_operation
  wm_fingerprint :: string
  wm_result :: work_item
  wm_created :: time

text \<open>The store, with the contents of its file. The activity counter is in memory only.\<close>

record wi_store =
  wt_items :: "work_item list"
  wt_mutations :: "wi_mutation list"
  wt_next :: nat
  wt_disk :: "work_item list \<times> wi_mutation list"

definition same_conversation :: "wi_scope \<Rightarrow> work_item \<Rightarrow> bool" where
  "same_conversation sc i \<longleftrightarrow> wi_tenant i = ws_tenant sc \<and> wi_conversation i = ws_conversation sc"

definition visible_to :: "string \<Rightarrow> work_item \<Rightarrow> bool" where
  "visible_to u i \<longleftrightarrow> wi_deleted i = None \<and> (wi_creator i = u \<or> wi_assignee i = Some u \<or> u \<in> set (wi_watchers i))"

definition wi_get :: "wi_scope \<Rightarrow> string \<Rightarrow> work_item list \<Rightarrow> work_item option" where
  "wi_get sc iid items = find (\<lambda>i. wi_id i = iid \<and> same_conversation sc i \<and> visible_to (ws_requester sc) i) items"

definition wi_list :: "wi_scope \<Rightarrow> work_item list \<Rightarrow> work_item list" where
  "wi_list sc items = filter (\<lambda>i. same_conversation sc i \<and> visible_to (ws_requester sc) i) items"

text \<open>The context an action works in: the items and the activity counter. A thrown error keeps the
  counter the action has reached.\<close>

type_synonym wi_context = "work_item list \<times> nat"
type_synonym wi_action = "wi_context \<Rightarrow> wi_context \<times> (wi_error + work_item)"

definition candidate :: "wi_scope \<Rightarrow> bool \<Rightarrow> string \<Rightarrow> work_item \<Rightarrow> bool" where
  "candidate sc participant iid i \<longleftrightarrow> wi_id i = iid \<and> same_conversation sc i
     \<and> (participant \<longrightarrow> visible_to (ws_requester sc) i)"

definition ctx_get :: "wi_scope \<Rightarrow> bool \<Rightarrow> string \<Rightarrow> work_item list \<Rightarrow> work_item option" where
  "ctx_get sc participant iid items = find (candidate sc participant iid) items"

definition ctx_insert :: "wi_scope \<Rightarrow> work_item \<Rightarrow> wi_action" where
  "ctx_insert sc i = (\<lambda>(items, n).
     if \<not> validate_item i then ((items, n), Inl WiRefused)
     else if wi_tenant i \<noteq> ws_tenant sc \<or> wi_conversation i \<noteq> ws_conversation sc \<or> wi_creator i \<noteq> ws_requester sc
     then ((items, n), Inl WiRefused)
     else if list_ex (\<lambda>c. wi_id c = wi_id i) items then ((items, n), Inl WiRefused)
     else let stored = i\<lparr>wi_seq := Some (Suc n)\<rparr>
          in ((stored # items, Suc n), Inr stored))"

definition identity_kept :: "work_item \<Rightarrow> work_item \<Rightarrow> bool" where
  "identity_kept original updated \<longleftrightarrow> wi_id updated = wi_id original \<and> wi_tenant updated = wi_tenant original
     \<and> wi_conversation updated = wi_conversation original \<and> wi_creator updated = wi_creator original
     \<and> wl_href (wi_link updated) = wl_href (wi_link original)
     \<and> wl_path (wi_link updated) = wl_path (wi_link original)"

text \<open>The updater runs before the counter is advanced; an error of the updater leaves it. The result
  \<open>None\<close> of the source (no such item) is a value of the operation.\<close>

definition ctx_update ::
  "wi_scope \<Rightarrow> bool \<Rightarrow> string \<Rightarrow> (work_item \<Rightarrow> wi_error + work_item) \<Rightarrow> wi_context
     \<Rightarrow> wi_context \<times> (wi_error + work_item option)" where
  "ctx_update sc participant iid updater = (\<lambda>(items, n).
     case find_index (candidate sc participant iid) items of
       None \<Rightarrow> ((items, n), Inr None)
     | Some k \<Rightarrow>
         (case updater (items ! k) of
            Inl e \<Rightarrow> ((items, n), Inl e)
          | Inr changed \<Rightarrow>
              let updated = changed\<lparr>wi_seq := Some (Suc n)\<rparr> in
              if \<not> validate_item updated then ((items, Suc n), Inl WiRefused)
              else if \<not> identity_kept (items ! k) updated then ((items, Suc n), Inl WiRefused)
              else ((items[k := updated], Suc n), Inr (Some updated))))"

definition same_wi_scope :: "wi_mutation \<Rightarrow> wi_scope \<Rightarrow> bool" where
  "same_wi_scope m sc \<longleftrightarrow> ws_tenant (wm_scope m) = ws_tenant sc \<and> ws_requester (wm_scope m) = ws_requester sc
     \<and> ws_conversation (wm_scope m) = ws_conversation sc"

definition find_mutation :: "wi_scope \<Rightarrow> string \<Rightarrow> wi_mutation list \<Rightarrow> wi_mutation option" where
  "find_mutation sc key ms = find (\<lambda>m. wm_key m = key \<and> same_wi_scope m sc) ms"

text \<open>One run of the mutation queue. \<open>ok\<close> is the outcome of the write. A replayed key answers from
  its record, after a check against the present items; an error of the action or of the write
  restores items and mutations, but not the counter.\<close>

definition run_mutation ::
  "wi_scope \<Rightarrow> string \<Rightarrow> wi_operation \<Rightarrow> string \<Rightarrow> wi_action \<Rightarrow> (work_item list \<Rightarrow> wi_error option)
     \<Rightarrow> time \<Rightarrow> bool \<Rightarrow> wi_store \<Rightarrow> wi_store \<times> (wi_error + work_item)" where
  "run_mutation sc key operation fingerprint action replay_check now ok st =
     (if \<not> assert_text 200 True key then (st, Inl WiRefused)
      else if fingerprint = [] then (st, Inl WiRefused)
      else case find_mutation sc key (wt_mutations st) of
        Some m \<Rightarrow>
          if wm_operation m \<noteq> operation \<or> wm_fingerprint m \<noteq> fingerprint then (st, Inl (WiConflict key))
          else (case replay_check (wt_items st) of Some e \<Rightarrow> (st, Inl e) | None \<Rightarrow> (st, Inr (wm_result m)))
      | None \<Rightarrow>
          (case action (wt_items st, wt_next st) of
             ((items, n), Inl e) \<Rightarrow> (st\<lparr>wt_next := n\<rparr>, Inl e)
           | ((items, n), Inr result) \<Rightarrow>
               if \<not> validate_item result then (st\<lparr>wt_next := n\<rparr>, Inl WiRefused)
               else let ms = \<lparr>wm_scope = sc, wm_key = key, wm_operation = operation,
                              wm_fingerprint = fingerprint, wm_result = result, wm_created = now\<rparr>
                             # wt_mutations st
                    in if ok then (\<lparr>wt_items = items, wt_mutations = ms, wt_next = n, wt_disk = (items, ms)\<rparr>, Inr result)
                       else (st\<lparr>wt_next := n\<rparr>, Inl WiWriteFailed)))"

section \<open>Loading\<close>

definition validate_mutation :: "wi_mutation \<Rightarrow> bool" where
  "validate_mutation m \<longleftrightarrow> assert_scope (wm_scope m) \<and> assert_text 200 True (wm_key m)
     \<and> assert_text 20000 True (wm_fingerprint m) \<and> validate_item (wm_result m)
     \<and> wi_tenant (wm_result m) = ws_tenant (wm_scope m)
     \<and> wi_conversation (wm_result m) = ws_conversation (wm_scope m)
     \<and> date_range (wm_created m)"

text \<open>\<open>mutationScopeKey\<close>: the parts are separated by the code unit 0, which none of them contains.\<close>

definition mutation_scope_key :: "wi_mutation \<Rightarrow> string" where
  "mutation_scope_key m = ws_tenant (wm_scope m) @ CHR 0x00 # ws_requester (wm_scope m)
     @ CHR 0x00 # ws_conversation (wm_scope m) @ CHR 0x00 # wm_key m"

fun load_items :: "string list \<Rightarrow> work_item list \<Rightarrow> wi_error + work_item list" where
  "load_items seen [] = Inr []"
| "load_items seen (i # is) = (if \<not> validate_item i \<or> wi_id i \<in> set seen then Inl WiRefused
     else chain (load_items (wi_id i # seen) is) (\<lambda>rest. Inr (i # rest)))"

fun load_mutations :: "string list \<Rightarrow> wi_mutation list \<Rightarrow> wi_error + wi_mutation list" where
  "load_mutations seen [] = Inr []"
| "load_mutations seen (m # ms) = (if \<not> validate_mutation m \<or> mutation_scope_key m \<in> set seen then Inl WiRefused
     else chain (load_mutations (mutation_scope_key m # seen) ms) (\<lambda>rest. Inr (m # rest)))"

definition load_wi_store :: "nat \<Rightarrow> work_item list \<times> wi_mutation list \<Rightarrow> wi_error + work_item list \<times> wi_mutation list" where
  "load_wi_store version v = (if version \<noteq> 1 then Inl WiRefused
     else chain (load_items [] (fst v)) (\<lambda>items.
          chain (load_mutations [] (snd v)) (\<lambda>ms. Inr (items, ms))))"

definition max_sequence :: "work_item list \<Rightarrow> nat" where
  "max_sequence items = foldl (\<lambda>n i. max n (case wi_seq i of None \<Rightarrow> 0 | Some k \<Rightarrow> k)) 0 items"

text \<open>\<open>initialize\<close>: a missing file is an empty store, which is written at once.\<close>

definition initialize_wi_store ::
  "(nat \<times> work_item list \<times> wi_mutation list) option \<Rightarrow> bool \<Rightarrow> wi_error + wi_store" where
  "initialize_wi_store file ok = (case file of
       None \<Rightarrow> if ok then Inr \<lparr>wt_items = [], wt_mutations = [], wt_next = 0, wt_disk = ([], [])\<rparr> else Inl WiWriteFailed
     | Some (version, v) \<Rightarrow> chain (load_wi_store version v) (\<lambda>(items, ms).
         Inr \<lparr>wt_items = items, wt_mutations = ms, wt_next = max_sequence items, wt_disk = v\<rparr>))"

end
