(* ===== verification/WorkItems.thy ===== *)
theory WorkItems
  imports WorkItemStore "HOL-Library.List_Lexorder" "HOL-Library.Char_ord"
begin

text \<open>
  The work-item service (\<open>server/work-item-service.ts\<close>): the normalisation of its inputs, the eight
  operations with the action and the replay check each hands to the store, and the queries.

  Texts compare with \<open><\<close> by code units (\<open>List_Lexorder\<close> over \<open>Char_ord\<close>). \<open>localeCompare\<close> depends on
  the host's collation: the queries take it as an argument, a comparison like those \<open>sort\<close> takes.
\<close>

section \<open>Inputs\<close>

definition normalize_text :: "nat \<Rightarrow> string \<Rightarrow> wi_error + string" where
  "normalize_text maximum v = (let n = js_trim v in
     if n = [] \<or> maximum < length n \<or> list_ex text_control n then Inl WiInvalid else Inr n)"

definition normalize_optional_text :: "nat \<Rightarrow> string \<Rightarrow> wi_error + string" where
  "normalize_optional_text maximum v = (let n = js_trim v in
     if maximum < length n \<or> list_ex text_control n then Inl WiInvalid else Inr n)"

definition normalize_key :: "string \<Rightarrow> wi_error + string" where
  "normalize_key = normalize_text 200"

definition normalize_id :: "string \<Rightarrow> wi_error + string" where
  "normalize_id = normalize_text 200"

definition normalize_wi_scope :: "wi_scope \<Rightarrow> wi_error + wi_scope" where
  "normalize_wi_scope sc =
     chain (normalize_text 256 (ws_tenant sc)) (\<lambda>t.
     chain (normalize_text 256 (ws_requester sc)) (\<lambda>r.
     chain (normalize_text 256 (ws_conversation sc)) (\<lambda>c.
     Inr \<lparr>ws_tenant = t, ws_requester = r, ws_conversation = c\<rparr>)))"

fun normalize_label_list :: "string list \<Rightarrow> string list \<Rightarrow> wi_error + string list" where
  "normalize_label_list seen [] = Inr []"
| "normalize_label_list seen (v # vs) = chain (normalize_text 80 v) (\<lambda>l.
     if l \<in> set seen then Inl WiInvalid
     else chain (normalize_label_list (l # seen) vs) (\<lambda>ls. Inr (l # ls)))"

definition normalize_labels :: "string list \<Rightarrow> wi_error + string list" where
  "normalize_labels vs = (if 40 < length vs then Inl WiInvalid else normalize_label_list [] vs)"

text \<open>The names of the enumerations, and the reader that accepts exactly those names.\<close>

fun status_name :: "wi_status \<Rightarrow> string" where
  "status_name WBacklog = ''backlog''" | "status_name WTodo = ''todo''" | "status_name WOpen = ''open''"
| "status_name WInProgress = ''in_progress''" | "status_name WBlocked = ''blocked''"
| "status_name WDone = ''done''" | "status_name WCancelled = ''cancelled''"

fun priority_name :: "wi_priority \<Rightarrow> string" where
  "priority_name WLow = ''low''" | "priority_name WMedium = ''medium''"
| "priority_name WHigh = ''high''" | "priority_name WUrgent = ''urgent''"

fun relation_name :: "wi_relation \<Rightarrow> string" where
  "relation_name CreatedFrom = ''created-from''" | "relation_name Supports = ''supports''"
| "relation_name BlockedBy = ''blocked-by''"

definition read_name :: "('a \<Rightarrow> string) \<Rightarrow> 'a list \<Rightarrow> string \<Rightarrow> wi_error + 'a" where
  "read_name name all v = (case find (\<lambda>x. name x = v) all of None \<Rightarrow> Inl WiInvalid | Some x \<Rightarrow> Inr x)"

definition normalize_status :: "string \<Rightarrow> wi_error + wi_status" where
  "normalize_status = read_name status_name [WBacklog, WTodo, WOpen, WInProgress, WBlocked, WDone, WCancelled]"

definition normalize_priority :: "string \<Rightarrow> wi_error + wi_priority" where
  "normalize_priority = read_name priority_name [WLow, WMedium, WHigh, WUrgent]"

definition normalize_relation :: "string \<Rightarrow> wi_error + wi_relation" where
  "normalize_relation = read_name relation_name [CreatedFrom, Supports, BlockedBy]"

definition normalize_date :: "string \<Rightarrow> wi_error + string" where
  "normalize_date v = (if assert_date v then Inr v else Inl WiInvalid)"

definition normalize_limit :: "int \<Rightarrow> wi_error + nat" where
  "normalize_limit v = (if v < 1 \<or> 100 < v then Inl WiInvalid else Inr (nat v))"

text \<open>An optional field: absent stays absent.\<close>

definition optionally :: "('a \<Rightarrow> wi_error + 'b) \<Rightarrow> 'a option \<Rightarrow> wi_error + 'b option" where
  "optionally f v = (case v of None \<Rightarrow> Inr None | Some x \<Rightarrow> chain (f x) (\<lambda>y. Inr (Some y)))"

definition or_else :: "'a option \<Rightarrow> 'a \<Rightarrow> 'a" where
  "or_else v d = (case v of None \<Rightarrow> d | Some x \<Rightarrow> x)"

record wi_create_input =
  wx_key :: string
  wx_title :: string
  wx_description :: "string option"
  wx_status :: "string option"
  wx_priority :: "string option"
  wx_labels :: "string list option"
  wx_due :: "string option"
  wx_job :: "string option"
  wx_relation :: "string option"

record wi_create_normal =
  wn_key :: string
  wn_title :: string
  wn_description :: string
  wn_status :: wi_status
  wn_priority :: wi_priority
  wn_labels :: "string list"
  wn_due :: "string option"
  wn_job :: "string option"
  wn_relation :: wi_relation

definition normalize_create :: "wi_create_input \<Rightarrow> wi_error + wi_create_normal" where
  "normalize_create x =
     chain (normalize_status (or_else (wx_status x) ''todo'')) (\<lambda>status.
     chain (normalize_priority (or_else (wx_priority x) ''medium'')) (\<lambda>priority.
     chain (normalize_key (wx_key x)) (\<lambda>key.
     chain (normalize_text 400 (wx_title x)) (\<lambda>title.
     chain (normalize_optional_text 4000 (or_else (wx_description x) [])) (\<lambda>description.
     chain (normalize_labels (or_else (wx_labels x) [])) (\<lambda>labels.
     chain (optionally normalize_date (wx_due x)) (\<lambda>due.
     chain (optionally (normalize_text 256) (wx_job x)) (\<lambda>job.
     chain (normalize_relation (or_else (wx_relation x) ''supports'')) (\<lambda>relation.
     Inr \<lparr>wn_key = key, wn_title = title, wn_description = description, wn_status = status,
          wn_priority = priority, wn_labels = labels, wn_due = due, wn_job = job, wn_relation = relation\<rparr>)))))))))"

text \<open>An edit names the fields it changes; \<open>Some None\<close> is an explicit null.\<close>

record wi_patch_input =
  px_status :: "string option"
  px_title :: "string option"
  px_description :: "string option option"
  px_priority :: "string option"
  px_labels :: "string list option"
  px_due :: "string option option"

record wi_patch =
  pn_title :: "string option"
  pn_description :: "string option option"
  pn_priority :: "wi_priority option"
  pn_labels :: "string list option"
  pn_due :: "string option option"

definition normalize_patch :: "wi_patch_input \<Rightarrow> wi_error + wi_patch" where
  "normalize_patch p = (if px_status p \<noteq> None then Inl WiInvalid else
     chain (optionally (normalize_text 400) (px_title p)) (\<lambda>title.
     chain (optionally (optionally (normalize_optional_text 4000)) (px_description p)) (\<lambda>description.
     chain (optionally normalize_priority (px_priority p)) (\<lambda>priority.
     chain (optionally normalize_labels (px_labels p)) (\<lambda>labels.
     chain (optionally (optionally normalize_date) (px_due p)) (\<lambda>due.
     if title = None \<and> description = None \<and> priority = None \<and> labels = None \<and> due = None then Inl WiInvalid
     else Inr \<lparr>pn_title = title, pn_description = description, pn_priority = priority, pn_labels = labels,
               pn_due = due\<rparr>))))))"

definition normalize_edit :: "string \<Rightarrow> string \<Rightarrow> wi_patch_input \<Rightarrow> wi_error + string \<times> string \<times> wi_patch" where
  "normalize_edit iid key p =
     chain (normalize_patch p) (\<lambda>patch. chain (normalize_id iid) (\<lambda>i. chain (normalize_key key) (\<lambda>k.
     Inr (i, k, patch))))"

definition normalize_transition :: "string \<Rightarrow> string \<Rightarrow> string \<Rightarrow> wi_error + string \<times> string \<times> wi_status" where
  "normalize_transition iid key status =
     chain (normalize_id iid) (\<lambda>i. chain (normalize_status status) (\<lambda>s. chain (normalize_key key) (\<lambda>k.
     Inr (i, k, s))))"

definition normalize_assign :: "string \<Rightarrow> string \<Rightarrow> string option \<Rightarrow> wi_error + string \<times> string \<times> string option" where
  "normalize_assign iid key assignee =
     chain (normalize_id iid) (\<lambda>i. chain (optionally (normalize_text 256) assignee) (\<lambda>a.
     chain (normalize_key key) (\<lambda>k. Inr (i, k, a))))"

definition normalize_comment :: "string \<Rightarrow> string \<Rightarrow> string \<Rightarrow> wi_error + string \<times> string \<times> string" where
  "normalize_comment iid key body =
     chain (normalize_id iid) (\<lambda>i. chain (normalize_text 2000 body) (\<lambda>b. chain (normalize_key key) (\<lambda>k.
     Inr (i, k, b))))"

text \<open>Watching, unwatching and deleting take an item and a key.\<close>

definition normalize_target :: "string \<Rightarrow> string \<Rightarrow> wi_error + string \<times> string" where
  "normalize_target iid key = chain (normalize_id iid) (\<lambda>i. chain (normalize_key key) (\<lambda>k. Inr (i, k)))"

section \<open>Fingerprints\<close>

datatype json = JNull | JText string | JArray "json list" | JObject "(string \<times> json) list"

definition json_char :: "char \<Rightarrow> string" where
  "json_char c = (let n = code_unit c in
     if n = 34 \<or> n = 92 then [CHR 0x5C, c]
     else if n = 8 then [CHR 0x5C, CHR ''b''] else if n = 9 then [CHR 0x5C, CHR ''t'']
     else if n = 10 then [CHR 0x5C, CHR ''n''] else if n = 12 then [CHR 0x5C, CHR ''f'']
     else if n = 13 then [CHR 0x5C, CHR ''r'']
     else if n < 32 then [CHR 0x5C, CHR ''u'', CHR ''0'', CHR ''0'', ''0123456789abcdef'' ! (n div 16),
       ''0123456789abcdef'' ! (n mod 16)]
     else [c])"

definition json_text :: "string \<Rightarrow> string" where
  "json_text s = CHR 0x22 # concat (map json_char s) @ [CHR 0x22]"

fun join_with :: "char \<Rightarrow> string list \<Rightarrow> string" where
  "join_with c [] = []"
| "join_with c [x] = x"
| "join_with c (x # y # zs) = x @ c # join_with c (y # zs)"

text \<open>\<open>stableStringify\<close>: the fields of an object are written in the order of their names.\<close>

fun stable_stringify :: "json \<Rightarrow> string" where
  "stable_stringify JNull = ''null''"
| "stable_stringify (JText s) = json_text s"
| "stable_stringify (JArray vs) = CHR ''['' # join_with CHR '','' (map stable_stringify vs) @ '']''"
| "stable_stringify (JObject kvs) = CHR ''{'' # join_with CHR '',''
     (map snd (sort_key fst (map (\<lambda>(k, v). (k, json_text k @ CHR '':'' # stable_stringify v)) kvs))) @ ''}''"

definition json_option :: "string option \<Rightarrow> json" where
  "json_option v = (case v of None \<Rightarrow> JNull | Some s \<Rightarrow> JText s)"

fun operation_name :: "wi_operation \<Rightarrow> string" where
  "operation_name WCreate = ''create''" | "operation_name WEdit = ''edit''"
| "operation_name WTransition = ''transition''" | "operation_name WAssign = ''assign''"
| "operation_name WComment = ''comment''" | "operation_name WWatch = ''watch''"
| "operation_name WUnwatch = ''unwatch''" | "operation_name WDelete = ''delete''"

definition fingerprint :: "wi_operation \<Rightarrow> json \<Rightarrow> string" where
  "fingerprint operation payload =
     stable_stringify (JObject [(''operation'', JText (operation_name operation)), (''payload'', payload)])"

definition create_payload :: "wi_create_normal \<Rightarrow> json" where
  "create_payload x = JObject [(''title'', JText (wn_title x)), (''description'', JText (wn_description x)),
     (''status'', JText (status_name (wn_status x))), (''priority'', JText (priority_name (wn_priority x))),
     (''labels'', JArray (map JText (wn_labels x))), (''dueDate'', json_option (wn_due x)),
     (''codexJobId'', json_option (wn_job x)), (''codexJobRelation'', JText (relation_name (wn_relation x)))]"

definition field :: "string \<Rightarrow> ('a \<Rightarrow> json) \<Rightarrow> 'a option \<Rightarrow> (string \<times> json) list" where
  "field name f v = (case v of None \<Rightarrow> [] | Some x \<Rightarrow> [(name, f x)])"

definition patch_json :: "wi_patch \<Rightarrow> json" where
  "patch_json p = JObject (field ''title'' JText (pn_title p) @ field ''description'' json_option (pn_description p)
     @ field ''priority'' (\<lambda>x. JText (priority_name x)) (pn_priority p)
     @ field ''labels'' (\<lambda>ls. JArray (map JText ls)) (pn_labels p) @ field ''dueDate'' json_option (pn_due p))"

section \<open>Operations\<close>

text \<open>What an operation takes from its surroundings: the service's clock, the system's clock, a random
  UUID, the membership lookup, the outcome of the write and that of the publication of the change.\<close>

record wi_env =
  we_now :: time
  we_date :: time
  we_uuid :: string
  we_member :: "wi_scope \<Rightarrow> string \<Rightarrow> bool"
  we_written :: bool
  we_published :: bool

definition create_id :: "string \<Rightarrow> wi_env \<Rightarrow> string" where
  "create_id prefix env = prefix @ ''-'' @ base36 (nat (we_date env)) @ ''-'' @ take 12 (we_uuid env)"

definition wi_timestamp :: "wi_env \<Rightarrow> wi_error + time" where
  "wi_timestamp env = (if date_range (we_now env) then Inr (we_now env) else Inl WiInvalid)"

text \<open>The service's \<open>runMutation\<close>: the change is published once it is durable, and after a replay too;
  an error of the publication reaches the caller.\<close>

definition serve ::
  "wi_env \<Rightarrow> wi_scope \<Rightarrow> wi_operation \<Rightarrow> string \<Rightarrow> json \<Rightarrow> wi_action \<Rightarrow> (work_item list \<Rightarrow> wi_error option)
     \<Rightarrow> wi_store \<Rightarrow> wi_store \<times> (wi_error + work_item)" where
  "serve env sc operation mkey payload action replay_check st =
     (case run_mutation sc mkey operation (fingerprint operation payload) action replay_check
             (we_date env) (we_written env) st of
        (st', Inl e) \<Rightarrow> (st', Inl e)
      | (st', Inr i) \<Rightarrow> (st', if we_published env then Inr i else Inl WiUnpublished))"

definition can_manage :: "string \<Rightarrow> work_item \<Rightarrow> bool" where
  "can_manage u i \<longleftrightarrow> wi_creator i = u \<or> wi_assignee i = Some u"

text \<open>\<open>requireVisibleItem\<close> and \<open>assertCanManage\<close>, as the error they throw.\<close>

definition require_visible :: "wi_scope \<Rightarrow> string \<Rightarrow> work_item list \<Rightarrow> wi_error option" where
  "require_visible sc iid items = (case ctx_get sc True iid items of
     None \<Rightarrow> Some (WiNotFound iid) | Some _ \<Rightarrow> None)"

definition require_managed :: "wi_scope \<Rightarrow> bool \<Rightarrow> string \<Rightarrow> work_item list \<Rightarrow> wi_error option" where
  "require_managed sc participant iid items = (case ctx_get sc participant iid items of
     None \<Rightarrow> Some (WiNotFound iid)
   | Some i \<Rightarrow> if can_manage (ws_requester sc) i then None else Some (WiForbidden (wi_id i)))"

text \<open>The common end of the actions: an update that found no item is an error.\<close>

definition update_found ::
  "wi_scope \<Rightarrow> bool \<Rightarrow> string \<Rightarrow> (work_item \<Rightarrow> wi_error + work_item) \<Rightarrow> wi_action" where
  "update_found sc participant iid updater = (\<lambda>c.
     case ctx_update sc participant iid updater c of
       (c', Inl e) \<Rightarrow> (c', Inl e)
     | (c', Inr None) \<Rightarrow> (c', Inl (WiNotFound iid))
     | (c', Inr (Some i)) \<Rightarrow> (c', Inr i))"

definition guarded :: "(work_item list \<Rightarrow> wi_error option) \<Rightarrow> wi_action \<Rightarrow> wi_action" where
  "guarded check action = (\<lambda>(items, n).
     case check items of Some e \<Rightarrow> ((items, n), Inl e) | None \<Rightarrow> action (items, n))"

definition stamped :: "wi_env \<Rightarrow> (work_item \<Rightarrow> work_item) \<Rightarrow> work_item \<Rightarrow> wi_error + work_item" where
  "stamped env f i = chain (wi_timestamp env) (\<lambda>t. Inr ((f i)\<lparr>wi_updated := t\<rparr>))"

text \<open>A normalisation error leaves the store alone.\<close>

definition normal :: "wi_error + 'a \<Rightarrow> wi_store \<Rightarrow> ('a \<Rightarrow> wi_store \<times> (wi_error + 'b)) \<Rightarrow> wi_store \<times> (wi_error + 'b)" where
  "normal x st f = (case x of Inl e \<Rightarrow> (st, Inl e) | Inr a \<Rightarrow> f a)"

definition created_item :: "wi_scope \<Rightarrow> wi_create_normal \<Rightarrow> string \<Rightarrow> time \<Rightarrow> work_item" where
  "created_item sc x iid t = \<lparr>wi_id = iid, wi_tenant = ws_tenant sc, wi_conversation = ws_conversation sc,
     wi_creator = ws_requester sc, wi_title = wn_title x, wi_description = wn_description x,
     wi_status = wn_status x, wi_priority = wn_priority x, wi_assignee = None, wi_watchers = [],
     wi_labels = wn_labels x, wi_due = wn_due x, wi_comments = [], wi_link = build_link iid,
     wi_job = map_option (\<lambda>j. (j, wn_relation x)) (wn_job x), wi_deleted = None, wi_created = t,
     wi_updated = t, wi_seq = None\<rparr>"

definition wi_create :: "wi_env \<Rightarrow> wi_scope \<Rightarrow> wi_create_input \<Rightarrow> wi_store \<Rightarrow> wi_store \<times> (wi_error + work_item)" where
  "wi_create env raw x st =
     normal (normalize_wi_scope raw) st (\<lambda>sc. normal (normalize_create x) st (\<lambda>n. normal (wi_timestamp env) st (\<lambda>t.
       serve env sc WCreate (wn_key n) (create_payload n)
         (ctx_insert sc (created_item sc n (create_id ''wi'' env) t)) (\<lambda>_. None) st)))"

definition apply_edit :: "wi_patch \<Rightarrow> work_item \<Rightarrow> work_item" where
  "apply_edit p i = i\<lparr>wi_title := or_else (pn_title p) (wi_title i),
     wi_description := (case pn_description p of None \<Rightarrow> wi_description i | Some d \<Rightarrow> or_else d []),
     wi_priority := or_else (pn_priority p) (wi_priority i),
     wi_labels := or_else (pn_labels p) (wi_labels i),
     wi_due := or_else (pn_due p) (wi_due i)\<rparr>"

definition wi_edit ::
  "wi_env \<Rightarrow> wi_scope \<Rightarrow> string \<Rightarrow> string \<Rightarrow> wi_patch_input \<Rightarrow> wi_store \<Rightarrow> wi_store \<times> (wi_error + work_item)" where
  "wi_edit env raw iid mkey p st =
     normal (normalize_wi_scope raw) st (\<lambda>sc. normal (normalize_edit iid mkey p) st (\<lambda>(i, k, patch).
       serve env sc WEdit k (JObject [(''itemId'', JText i), (''patch'', patch_json patch)])
         (guarded (require_managed sc True i) (update_found sc True i (stamped env (apply_edit patch))))
         (require_managed sc True i) st))"

definition wi_transition ::
  "wi_env \<Rightarrow> wi_scope \<Rightarrow> string \<Rightarrow> string \<Rightarrow> string \<Rightarrow> wi_store \<Rightarrow> wi_store \<times> (wi_error + work_item)" where
  "wi_transition env raw iid mkey status st =
     normal (normalize_wi_scope raw) st (\<lambda>sc. normal (normalize_transition iid mkey status) st (\<lambda>(i, k, s).
       serve env sc WTransition k (JObject [(''itemId'', JText i), (''status'', JText (status_name s))])
         (guarded (require_managed sc True i) (update_found sc True i (stamped env (\<lambda>c. c\<lparr>wi_status := s\<rparr>))))
         (require_managed sc True i) st))"

definition assignee_refused :: "wi_env \<Rightarrow> wi_scope \<Rightarrow> string \<Rightarrow> string option \<Rightarrow> wi_error option" where
  "assignee_refused env sc iid a = (case a of None \<Rightarrow> None
     | Some u \<Rightarrow> if u \<noteq> [] \<and> u \<noteq> ws_requester sc \<and> \<not> we_member env sc u then Some (WiForbidden iid) else None)"

definition require_assignable ::
  "wi_env \<Rightarrow> wi_scope \<Rightarrow> string \<Rightarrow> string option \<Rightarrow> work_item list \<Rightarrow> wi_error option" where
  "require_assignable env sc iid a items = (case require_managed sc True iid items of
     Some e \<Rightarrow> Some e | None \<Rightarrow> assignee_refused env sc iid a)"

definition wi_assign ::
  "wi_env \<Rightarrow> wi_scope \<Rightarrow> string \<Rightarrow> string \<Rightarrow> string option \<Rightarrow> wi_store \<Rightarrow> wi_store \<times> (wi_error + work_item)" where
  "wi_assign env raw iid mkey assignee st =
     normal (normalize_wi_scope raw) st (\<lambda>sc. normal (normalize_assign iid mkey assignee) st (\<lambda>(i, k, a).
       serve env sc WAssign k (JObject [(''itemId'', JText i), (''assigneeId'', json_option a)])
         (guarded (require_assignable env sc i a) (update_found sc True i (stamped env (\<lambda>c. c\<lparr>wi_assignee := a\<rparr>))))
         (require_assignable env sc i a) st))"

definition wi_add_comment ::
  "wi_env \<Rightarrow> wi_scope \<Rightarrow> string \<Rightarrow> string \<Rightarrow> string \<Rightarrow> wi_store \<Rightarrow> wi_store \<times> (wi_error + work_item)" where
  "wi_add_comment env raw iid mkey body st =
     normal (normalize_wi_scope raw) st (\<lambda>sc. normal (normalize_comment iid mkey body) st (\<lambda>(i, k, b).
     normal (wi_timestamp env) st (\<lambda>t.
       serve env sc WComment k (JObject [(''itemId'', JText i), (''body'', JText b)])
         (guarded (require_visible sc i) (update_found sc True i (\<lambda>c. Inr (c\<lparr>wi_comments := wi_comments c @
            [\<lparr>wc_id = create_id ''comment'' env, wc_author = ws_requester sc, wc_body = b, wc_created = t\<rparr>],
            wi_updated := t\<rparr>))))
         (require_visible sc i) st)))"

text \<open>Watching looks an item up in the conversation, visible to the requester or not; an item already
  watched is returned as it is.\<close>

definition watch_action :: "wi_env \<Rightarrow> wi_scope \<Rightarrow> string \<Rightarrow> wi_action" where
  "watch_action env sc iid = (\<lambda>(items, n). case ctx_get sc False iid items of
     None \<Rightarrow> ((items, n), Inl (WiNotFound iid))
   | Some i \<Rightarrow> if ws_requester sc \<in> set (wi_watchers i) then ((items, n), Inr i)
       else update_found sc False iid
              (stamped env (\<lambda>c. c\<lparr>wi_watchers := wi_watchers c @ [ws_requester sc]\<rparr>)) (items, n))"

definition wi_watch :: "wi_env \<Rightarrow> wi_scope \<Rightarrow> string \<Rightarrow> string \<Rightarrow> wi_store \<Rightarrow> wi_store \<times> (wi_error + work_item)" where
  "wi_watch env raw iid mkey st =
     normal (normalize_wi_scope raw) st (\<lambda>sc. normal (normalize_target iid mkey) st (\<lambda>(i, k).
       serve env sc WWatch k (JObject [(''itemId'', JText i)]) (watch_action env sc i)
         (\<lambda>items. if ctx_get sc False i items = None then Some (WiNotFound i) else None) st))"

definition unwatch_action :: "wi_env \<Rightarrow> wi_scope \<Rightarrow> string \<Rightarrow> wi_action" where
  "unwatch_action env sc iid = (\<lambda>(items, n). case ctx_get sc True iid items of
     None \<Rightarrow> ((items, n), Inl (WiNotFound iid))
   | Some i \<Rightarrow> if ws_requester sc \<notin> set (wi_watchers i) then ((items, n), Inr i)
       else update_found sc True iid
              (stamped env (\<lambda>c. c\<lparr>wi_watchers := filter (\<lambda>u. u \<noteq> ws_requester sc) (wi_watchers c)\<rparr>)) (items, n))"

definition wi_unwatch :: "wi_env \<Rightarrow> wi_scope \<Rightarrow> string \<Rightarrow> string \<Rightarrow> wi_store \<Rightarrow> wi_store \<times> (wi_error + work_item)" where
  "wi_unwatch env raw iid mkey st =
     normal (normalize_wi_scope raw) st (\<lambda>sc. normal (normalize_target iid mkey) st (\<lambda>(i, k).
       serve env sc WUnwatch k (JObject [(''itemId'', JText i)]) (unwatch_action env sc i) (require_visible sc i) st))"

text \<open>Deleting marks the item. Its replay looks the item up in the conversation, since a deleted item is
  visible to no one.\<close>

definition wi_delete :: "wi_env \<Rightarrow> wi_scope \<Rightarrow> string \<Rightarrow> string \<Rightarrow> wi_store \<Rightarrow> wi_store \<times> (wi_error + work_item)" where
  "wi_delete env raw iid mkey st =
     normal (normalize_wi_scope raw) st (\<lambda>sc. normal (normalize_target iid mkey) st (\<lambda>(i, k).
     normal (wi_timestamp env) st (\<lambda>t.
       serve env sc WDelete k (JObject [(''itemId'', JText i)])
         (guarded (require_managed sc True i) (update_found sc True i
            (\<lambda>c. Inr (c\<lparr>wi_deleted := Some t, wi_updated := t\<rparr>))))
         (require_managed sc False i) st)))"

end
