(* ===== verification/CalendarDates.thy ===== *)
theory CalendarDates
  imports WorkItems
begin

text \<open>
  Dates as the program uses them: the UTC calendar of \<open>Date\<close> on days since 1970-01-01, the
  canonical text \<open>toISOString\<close> gives for a time, and its reader (\<open>Date.parse\<close> followed by the
  comparison with the canonical text, as \<open>normalizeTimestamp\<close> and \<open>assertTimestamp\<close> do).

  The lemmas show that the reader accepts exactly the canonical texts and inverts the writer, and
  that between the years 0 and 9999 the texts are ordered by code units as the times they stand for:
  the program compares timestamps as texts.
\<close>

section \<open>The calendar\<close>

definition day_from_year :: "int \<Rightarrow> int" where
  "day_from_year y = 365 * (y - 1970) + (y - 1969) div 4 - (y - 1901) div 100 + (y - 1601) div 400"

definition leap :: "int \<Rightarrow> bool" where
  "leap y \<longleftrightarrow> y mod 4 = 0 \<and> (y mod 100 \<noteq> 0 \<or> y mod 400 = 0)"

text \<open>The largest year that starts on or before a day, from an estimate that is off by one at most.\<close>

definition year_of_day :: "int \<Rightarrow> int" where
  "year_of_day d = (let y = (400 * (d + 719528)) div 146097 in
     if day_from_year (y + 1) \<le> d then y + 1 else if d < day_from_year y then y - 1 else y)"

text \<open>Months are counted from 0, as \<open>getUTCMonth\<close> does.\<close>

definition month_length :: "bool \<Rightarrow> nat \<Rightarrow> int" where
  "month_length lp m = (if m = 1 then (if lp then 29 else 28) else if m \<in> {3, 5, 8, 10} then 30 else 31)"

definition month_start :: "bool \<Rightarrow> nat \<Rightarrow> int" where
  "month_start lp m = sum_list (map (month_length lp) [0..<m])"

function month_and_day :: "bool \<Rightarrow> nat \<Rightarrow> int \<Rightarrow> nat \<times> int" where
  "month_and_day lp m k = (if k < month_length lp m \<or> 11 \<le> m then (m, k + 1)
     else month_and_day lp (Suc m) (k - month_length lp m))"
  by pat_completeness auto
termination by (relation "measure (\<lambda>(lp, m, k). 11 - m)") auto

declare month_and_day.simps [simp del]

definition civil :: "int \<Rightarrow> int \<times> nat \<times> int" where
  "civil d = (let y = year_of_day d in (y, month_and_day (leap y) 0 (d - day_from_year y)))"

definition day_of :: "int \<Rightarrow> nat \<Rightarrow> int \<Rightarrow> int" where
  "day_of y m d = day_from_year y + month_start (leap y) m + d - 1"

abbreviation ms_per_day :: int where
  "ms_per_day \<equiv> 86400000"

section \<open>Canonical texts\<close>

fun pad :: "nat \<Rightarrow> nat \<Rightarrow> string" where
  "pad 0 n = []"
| "pad (Suc k) n = pad k (n div 10) @ [char_of (48 + n mod 10)]"

definition year_text :: "int \<Rightarrow> string" where
  "year_text y = (if 0 \<le> y \<and> y \<le> 9999 then pad 4 (nat y)
     else if y < 0 then CHR ''-'' # pad 6 (nat (- y)) else CHR ''+'' # pad 6 (nat y))"

definition clock_text :: "int \<Rightarrow> string" where
  "clock_text r = pad 2 (nat (r div 3600000)) @ CHR '':'' # pad 2 (nat (r div 60000 mod 60))
     @ CHR '':'' # pad 2 (nat (r div 1000 mod 60)) @ CHR ''.'' # pad 3 (nat (r mod 1000)) @ ''Z''"

definition date_text :: "nat \<Rightarrow> int \<Rightarrow> string" where
  "date_text m d = CHR ''-'' # pad 2 (Suc m) @ CHR ''-'' # pad 2 (nat d)"

definition iso_text :: "time \<Rightarrow> string" where
  "iso_text t = (case civil (t div ms_per_day) of (y, m, d) \<Rightarrow>
     year_text y @ date_text m d @ CHR ''T'' # clock_text (t mod ms_per_day))"

text \<open>The value the canonical form of a text would have.\<close>

definition read_year :: "string \<Rightarrow> int \<times> string" where
  "read_year v = (if take 1 v = ''-'' then (- int (digits_value (take 6 (drop 1 v))), drop 7 v)
     else if take 1 v = ''+'' then (int (digits_value (take 6 (drop 1 v))), drop 7 v)
     else (int (digits_value (take 4 v)), drop 4 v))"

definition digits_at :: "nat \<Rightarrow> nat \<Rightarrow> string \<Rightarrow> int" where
  "digits_at i n s = int (digits_value (take n (drop i s)))"

definition read_iso :: "string \<Rightarrow> time" where
  "read_iso v = (case read_year v of (y, s) \<Rightarrow>
     day_of y (nat (digits_at 1 2 s - 1)) (digits_at 4 2 s) * ms_per_day
     + digits_at 7 2 s * 3600000 + digits_at 10 2 s * 60000 + digits_at 13 2 s * 1000 + digits_at 16 3 s)"

text \<open>\<open>Date.parse\<close> is finite on the canonical texts of the range of \<open>Date\<close>; on any other text its value
  does not matter, since the canonical text of that value is another one.\<close>

definition canonical_time :: "string \<Rightarrow> time option" where
  "canonical_time v = (let t = read_iso v in
     if length v \<le> 40 \<and> date_range t \<and> iso_text t = v then Some t else None)"

section \<open>Years and months\<close>

lemma div_step: "0 < k \<Longrightarrow> (n :: int) div k = (n - 1) div k + (if n mod k = 0 then 1 else 0)"
proof -
  assume k: "0 < k"
  show ?thesis
  proof (cases "n mod k = 0")
    case True
    then obtain q where q: "n = k * q" by (metis mod_eq_0_iff_dvd dvdE)
    have "(n - 1) div k = q - 1"
      by (rule int_div_pos_eq [where r = "k - 1"]) (use k q in \<open>auto simp: algebra_simps\<close>)
    then show ?thesis using True q k by simp
  next
    case False
    have "0 \<le> n mod k" using k by simp
    with False have r: "1 \<le> n mod k" by linarith
    have "n = k * (n div k) + n mod k" by simp
    then have "n - 1 = k * (n div k) + (n mod k - 1)" by linarith
    then have "(n - 1) div k = n div k"
      by (rule int_div_pos_eq) (use r pos_mod_bound [OF k, of n] in linarith)+
    then show ?thesis using False by simp
  qed
qed

lemma div_within:
  assumes "0 < (k :: int)"
  shows "k * (n div k) \<le> n" and "n < k * (n div k) + k"
proof -
  have "n = k * (n div k) + n mod k" by simp
  then show "k * (n div k) \<le> n" "n < k * (n div k) + k"
    using pos_mod_sign [OF assms, of n] pos_mod_bound [OF assms, of n] by linarith+
qed

lemma leap_terms:
  "(y - 1968) div 4 = (y - 1969) div 4 + (if y mod 4 = 0 then 1 else 0)"
  "(y - 1900) div 100 = (y - 1901) div 100 + (if y mod 100 = 0 then 1 else 0)"
  "(y - 1600) div 400 = (y - 1601) div 400 + (if y mod 400 = 0 then 1 else 0)" for y :: int
proof -
  have m: "(y - 1968) mod 4 = y mod 4" "(y - 1900) mod 100 = y mod 100" "(y - 1600) mod 400 = y mod 400"
    using mod_mult_self2 [of y 4 "- 492"] mod_mult_self2 [of y 100 "- 19"] mod_mult_self2 [of y 400 "- 4"] by simp_all
  have p: "y - 1968 - 1 = y - 1969" "y - 1900 - 1 = y - 1901" "y - 1600 - 1 = y - 1601" by simp_all
  have "(y - 1968) div 4 = (y - 1968 - 1) div 4 + (if (y - 1968) mod 4 = 0 then 1 else 0)"
    by (rule div_step) simp
  then show "(y - 1968) div 4 = (y - 1969) div 4 + (if y mod 4 = 0 then 1 else 0)" unfolding m p .
  have "(y - 1900) div 100 = (y - 1900 - 1) div 100 + (if (y - 1900) mod 100 = 0 then 1 else 0)"
    by (rule div_step) simp
  then show "(y - 1900) div 100 = (y - 1901) div 100 + (if y mod 100 = 0 then 1 else 0)" unfolding m p .
  have "(y - 1600) div 400 = (y - 1600 - 1) div 400 + (if (y - 1600) mod 400 = 0 then 1 else 0)"
    by (rule div_step) simp
  then show "(y - 1600) div 400 = (y - 1601) div 400 + (if y mod 400 = 0 then 1 else 0)" unfolding m p .
qed

text \<open>The terms of \<open>day_from_year\<close> with the quotients left abstract.\<close>

lemma year_terms:
  "365 * (y + 1 - 1970) + (a + u) - (b + v) + (c + w) = 365 * (y - 1970) + a - b + c + (365 + u - v + w)" for y :: int
  by simp

lemma year_bounds:
  fixes y a b c :: int
  assumes "4 * a \<le> y - 1969" "y - 1969 < 4 * a + 4" "100 * b \<le> y - 1901" "y - 1901 < 100 * b + 100"
    "400 * c \<le> y - 1601" "y - 1601 < 400 * c + 400"
  shows year_lower: "146097 * y - 396 \<le> 400 * (365 * (y - 1970) + a - b + c + 719528)" (is ?lower)
    and year_upper: "400 * (365 * (y - 1970) + a - b + c + 719528) \<le> 146097 * y + 699" (is ?upper)
proof -
  show ?lower using assms unfolding distrib_left right_diff_distrib mult.assoc [symmetric] by linarith
  show ?upper using assms unfolding distrib_left right_diff_distrib mult.assoc [symmetric] by linarith
qed

lemma day_from_year_next: "day_from_year (y + 1) = day_from_year y + (if leap y then 366 else 365)"
proof -
  have imp: "y mod 100 = 0 \<longrightarrow> y mod 4 = 0" "y mod 400 = 0 \<longrightarrow> y mod 100 = 0"
    using mod_mod_cancel [of 4 100 y] mod_mod_cancel [of 100 400 y] by auto
  have p: "y + 1 - 1969 = y - 1968" "y + 1 - 1901 = y - 1900" "y + 1 - 1601 = y - 1600" by simp_all
  have eq: "(if leap y then 366 else 365 :: int) = 365 + (if y mod 4 = 0 then 1 else 0) - (if y mod 100 = 0 then 1 else 0)
      + (if y mod 400 = 0 then 1 else 0)"
    using imp by (simp only: leap_def split: if_split) auto
  show ?thesis unfolding day_from_year_def p leap_terms eq by (rule year_terms)
qed

lemma day_from_year_mono: "a \<le> b \<Longrightarrow> day_from_year a + 365 * (b - a) \<le> day_from_year b"
proof -
  assume le: "a \<le> b"
  have "day_from_year a + 365 * int n \<le> day_from_year (a + int n)" for n
  proof (induction n)
    case (Suc n)
    then show ?case using day_from_year_next [of "a + int n"] by (auto simp: algebra_simps split: if_splits)
  qed simp
  from this [of "nat (b - a)"] le show ?thesis by simp
qed

lemma year_of_day: "day_from_year (year_of_day d) \<le> d \<and> d < day_from_year (year_of_day d + 1)"
proof -
  note quarter = div_within [where k = 4, OF zero_less_numeral] and century = div_within [where k = 100, OF zero_less_numeral]
    and cycle = div_within [where k = 400, OF zero_less_numeral]
  have lower: "146097 * y - 396 \<le> 400 * (day_from_year y + 719528)"
    and upper: "400 * (day_from_year y + 719528) \<le> 146097 * y + 699" for y
    unfolding day_from_year_def by (rule year_bounds quarter century cycle)+
  define y where "y = (400 * (d + 719528)) div 146097"
  have y: "146097 * y \<le> 400 * (d + 719528)" "400 * (d + 719528) < 146097 * (y + 1)"
    unfolding y_def using div_within [of 146097 "400 * (d + 719528)"] by (simp_all add: algebra_simps)
  have "day_from_year (y - 1) \<le> d" using upper [of "y - 1"] y unfolding distrib_left right_diff_distrib by linarith
  moreover have "d < day_from_year (y + 2)" using lower [of "y + 2"] y unfolding distrib_left right_diff_distrib by linarith
  ultimately show ?thesis
    unfolding year_of_day_def Let_def y_def [symmetric] by (auto simp: algebra_simps)
qed

lemma month_length_pos: "28 \<le> month_length lp m" "month_length lp m \<le> 31"
  by (auto simp: month_length_def)

lemma month_start_0 [simp]: "month_start lp 0 = 0"
  by (simp add: month_start_def)

lemma month_start_Suc: "month_start lp (Suc m) = month_start lp m + month_length lp m"
  by (simp add: month_start_def)

lemma month_start_12: "month_start lp 12 = (if lp then 366 else 365)"
  by (simp add: month_start_def month_length_def upt_rec)

lemma month_start_mono: "a \<le> b \<Longrightarrow> month_start lp a \<le> month_start lp b"
proof (induction b)
  case (Suc b)
  then show ?case using month_length_pos [of lp b] by (cases "a = Suc b") (auto simp: month_start_Suc)
qed simp

lemma month_and_day:
  "0 \<le> k \<Longrightarrow> m \<le> 11 \<Longrightarrow> month_start lp m + k < month_start lp 12 \<Longrightarrow> month_and_day lp m k = (m', d)
    \<Longrightarrow> m' \<le> 11 \<and> 1 \<le> d \<and> d \<le> month_length lp m' \<and> month_start lp m + k = month_start lp m' + d - 1"
proof (induction lp m k rule: month_and_day.induct)
  case (1 lp m k)
  show ?case
  proof (cases "k < month_length lp m \<or> 11 \<le> m")
    case True
    then have "m' = m" "d = k + 1" using "1.prems"(4) by (simp_all add: month_and_day.simps [of lp m])
    moreover have "k < month_length lp m"
      using True "1.prems"(2,3) month_start_Suc [of lp m] by (cases "m = 11") auto
    ultimately show ?thesis using "1.prems" by auto
  next
    case False
    then have "month_and_day lp (Suc m) (k - month_length lp m) = (m', d)"
      using "1.prems"(4) by (simp add: month_and_day.simps [of lp m])
    with "1.IH" False "1.prems" show ?thesis by (auto simp: month_start_Suc)
  qed
qed

definition civil_date :: "int \<Rightarrow> nat \<Rightarrow> int \<Rightarrow> bool" where
  "civil_date y m d \<longleftrightarrow> m \<le> 11 \<and> 1 \<le> d \<and> d \<le> month_length (leap y) m"

lemma civil_inverse:
  assumes "civil n = (y, m, d)"
  shows "civil_date y m d \<and> day_of y m d = n"
proof -
  have y: "y = year_of_day n" and md: "month_and_day (leap y) 0 (n - day_from_year y) = (m, d)"
    using assms by (auto simp: civil_def Let_def)
  have "0 \<le> n - day_from_year y" "month_start (leap y) 0 + (n - day_from_year y) < month_start (leap y) 12"
    using year_of_day [of n] day_from_year_next [of y] by (auto simp: y month_start_12)
  from month_and_day [OF this(1) _ this(2) md] show ?thesis
    by (auto simp: civil_date_def day_of_def)
qed

lemma civil_date_in_year:
  assumes "civil_date y m d"
  shows "day_from_year y \<le> day_of y m d" and "day_of y m d < day_from_year (y + 1)"
proof -
  have "month_start (leap y) 0 \<le> month_start (leap y) m" by (rule month_start_mono) simp
  then show "day_from_year y \<le> day_of y m d" using assms by (simp add: civil_date_def day_of_def)
  have "month_start (leap y) (Suc m) \<le> month_start (leap y) 12"
    using assms by (intro month_start_mono) (simp add: civil_date_def)
  then show "day_of y m d < day_from_year (y + 1)"
    using assms day_from_year_next [of y] by (auto simp: civil_date_def day_of_def month_start_Suc month_start_12)
qed

text \<open>Calendar dates are ordered as their days.\<close>

lemma civil_date_less:
  assumes "civil_date y m d" "civil_date y' m' d'" "day_of y m d < day_of y' m' d'"
  shows "y < y' \<or> y = y' \<and> (m < m' \<or> m = m' \<and> d < d')"
proof (cases y y' rule: linorder_cases)
  case equal
  show ?thesis
  proof (cases m m' rule: linorder_cases)
    case greater
    then have "month_start (leap y) (Suc m') \<le> month_start (leap y) m" by (intro month_start_mono) simp
    then show ?thesis using assms equal by (auto simp: civil_date_def day_of_def month_start_Suc)
  qed (use assms equal in \<open>auto simp: day_of_def\<close>)
next
  case greater
  then have "day_from_year (y' + 1) \<le> day_from_year y" using day_from_year_mono [of "y' + 1" y] by simp
  then show ?thesis using assms civil_date_in_year [OF assms(1)] civil_date_in_year [OF assms(2)] by linarith
qed simp

lemma civil_date_unique:
  "civil_date y m d \<Longrightarrow> civil_date y' m' d' \<Longrightarrow> day_of y m d = day_of y' m' d' \<Longrightarrow> y = y' \<and> m = m' \<and> d = d'"
proof -
  assume a: "civil_date y m d" "civil_date y' m' d'" "day_of y m d = day_of y' m' d'"
  have "y = y'"
    using civil_date_in_year [OF a(1)] civil_date_in_year [OF a(2)] a(3)
      day_from_year_mono [of "y + 1" y'] day_from_year_mono [of "y' + 1" y] by (cases y y' rule: linorder_cases) auto
  moreover have "m = m'" if "y = y'"
    using a that month_start_mono [of "Suc m" m' "leap y"] month_start_mono [of "Suc m'" m "leap y"]
    by (cases m m' rule: linorder_cases) (auto simp: civil_date_def day_of_def month_start_Suc)
  ultimately show ?thesis using a(3) by (auto simp: day_of_def)
qed

section \<open>Fixed-width numbers\<close>

lemma length_pad [simp]: "length (pad k n) = k"
  by (induction k arbitrary: n) auto

lemma digit_value: "k < 10 \<Longrightarrow> code_unit (char_of (48 + k)) = 48 + k"
  by (simp add: code_unit_def)

lemma pad_digits: "list_all digit_char (pad k n)"
proof (induction k arbitrary: n)
  case (Suc k)
  have "n mod 10 < 10" by simp
  then show ?case using Suc digit_value [of "n mod 10"] by (simp add: digit_char_def)
qed simp

lemma digits_value_snoc: "digits_value (s @ [c]) = 10 * digits_value s + (code_unit c - 48)"
  by (simp add: digits_value_def)

lemma digits_value_pad: "n < 10 ^ k \<Longrightarrow> digits_value (pad k n) = n"
proof (induction k arbitrary: n)
  case 0
  then show ?case by (simp add: digits_value_def)
next
  case (Suc k)
  have "n div 10 < 10 ^ k" using Suc.prems by (simp add: div_less_iff_less_mult mult.commute)
  moreover have "n mod 10 < 10" by simp
  ultimately show ?case using Suc.IH [of "n div 10"] digit_value [of "n mod 10"]
    by (simp add: digits_value_snoc)
qed

lemma text_less_append: "length u = length v \<Longrightarrow> u < v \<Longrightarrow> u @ x < v @ (y :: string)"
  by (induction u v rule: list_induct2) auto

lemma text_less_same: "x < y \<Longrightarrow> u @ x < u @ (y :: string)"
  by (induction u) auto

lemma pad_less: "a < b \<Longrightarrow> b < 10 ^ k \<Longrightarrow> pad k a < pad k b"
proof (induction k arbitrary: a b)
  case (Suc k)
  have bound: "b div 10 < 10 ^ k" using Suc.prems(2) by (simp add: div_less_iff_less_mult mult.commute)
  show ?case
  proof (cases "a div 10 < b div 10")
    case True
    then show ?thesis using text_less_append [OF _ Suc.IH [OF True bound]] by simp
  next
    case False
    then have "a div 10 = b div 10" using Suc.prems(1) by (meson div_le_mono le_antisym less_imp_le not_le)
    moreover from this have "a mod 10 < b mod 10" using Suc.prems(1) by (metis div_mult_mod_eq nat_add_left_cancel_less)
    moreover have "(char_of (48 + a mod 10) :: char) < char_of (48 + b mod 10)" if "a mod 10 < b mod 10"
      using that digit_value [of "a mod 10"] digit_value [of "b mod 10"]
      by (simp add: less_char_def code_unit_def)
    ultimately show ?thesis by (simp add: text_less_same)
  qed
qed simp

section \<open>Reading what was written\<close>

lemma read_year_text:
  assumes "- 999999 \<le> y" "y \<le> 999999" and "s \<noteq> []" and "\<not> digit_char (hd s)"
  shows "read_year (year_text y @ s) = (y, s)"
proof -
  consider "0 \<le> y \<and> y \<le> 9999" | "y < 0" | "9999 < y" by linarith
  then show ?thesis
  proof cases
    case 1
    then have "nat y < 10 ^ 4" by auto
    then have v: "digits_value (pad 4 (nat y)) = nat y" by (rule digits_value_pad)
    obtain c r where p: "pad 4 (nat y) = c # r" using length_pad [of 4 "nat y"] by (cases "pad 4 (nat y)") auto
    then have "digit_char c" "length r = 3" using pad_digits [of 4 "nat y"] length_pad [of 4 "nat y"] by auto
    then have "c \<noteq> CHR ''-''" "c \<noteq> CHR ''+''" by (auto simp: digit_char_def code_unit_def)
    then show ?thesis using 1 v p \<open>length r = 3\<close> by (simp add: read_year_def year_text_def)
  next
    case 2
    then have "nat (- y) < 10 ^ 6" using assms by simp
    then have "digits_value (pad 6 (nat (- y))) = nat (- y)" by (rule digits_value_pad)
    then show ?thesis using 2 by (simp add: read_year_def year_text_def)
  next
    case 3
    then have "nat y < 10 ^ 6" using assms by simp
    then have "digits_value (pad 6 (nat y)) = nat y" by (rule digits_value_pad)
    then show ?thesis using 3 by (simp add: read_year_def year_text_def)
  qed
qed

lemma clock_parts:
  assumes "0 \<le> r" "r < ms_per_day"
  shows "r div 3600000 < 24" "r div 60000 mod 60 < 60" "r div 1000 mod 60 < 60" "r mod 1000 < 1000"
    and "0 \<le> r div 3600000" "0 \<le> r div 60000 mod 60" "0 \<le> r div 1000 mod 60" "0 \<le> r mod 1000"
    and "r div 3600000 * 3600000 + r div 60000 mod 60 * 60000 + r div 1000 mod 60 * 1000 + r mod 1000 = r"
proof -
  show "r div 3600000 < 24" using assms by (simp add: div_less_iff_less_mult)
  have "r div 60000 div 60 = r div 3600000" "r div 1000 div 60 = r div 60000"
    by (simp_all add: div_mult2_eq [symmetric] zdiv_zmult2_eq [symmetric])
  then show "r div 3600000 * 3600000 + r div 60000 mod 60 * 60000 + r div 1000 mod 60 * 1000 + r mod 1000 = r"
    using div_mult_mod_eq [of "r div 60000" 60] div_mult_mod_eq [of "r div 1000" 60] div_mult_mod_eq [of r 1000] by linarith
  show "0 \<le> r div 3600000" using assms(1) by (simp add: pos_imp_zdiv_nonneg_iff)
qed simp_all

text \<open>The clock's parts are ordered as the times they make up.\<close>

lemma clock_order:
  fixes h m s f h' m' s' f' :: int
  assumes less: "h * 3600000 + m * 60000 + s * 1000 + f < h' * 3600000 + m' * 60000 + s' * 1000 + f'"
    and "0 \<le> m" "0 \<le> s" "0 \<le> f" "m' < 60" "s' < 60" "f' < 1000"
  shows "h < h' \<or> h = h' \<and> (m < m' \<or> m = m' \<and> (s < s' \<or> s = s' \<and> f < f'))"
proof -
  have "h \<le> h'" using assms by linarith
  moreover have "h = h' \<Longrightarrow> m \<le> m'" using assms by linarith
  moreover have "h = h' \<Longrightarrow> m = m' \<Longrightarrow> s \<le> s'" using assms by linarith
  moreover have "h = h' \<Longrightarrow> m = m' \<Longrightarrow> s = s' \<Longrightarrow> f < f'" using less by linarith
  ultimately show ?thesis by (meson le_less)
qed

lemma digits_of_pads:
  fixes s :: string
  assumes "s = CHR ''-'' # a @ CHR ''-'' # b @ CHR ''T'' # c @ CHR '':'' # d @ CHR '':'' # e @ CHR ''.'' # f @ ''Z''"
    and "length a = 2" "length b = 2" "length c = 2" "length d = 2" "length e = 2" "length f = 3"
  shows "digits_at 1 2 s = int (digits_value a)" "digits_at 4 2 s = int (digits_value b)"
    "digits_at 7 2 s = int (digits_value c)" "digits_at 10 2 s = int (digits_value d)"
    "digits_at 13 2 s = int (digits_value e)" "digits_at 16 3 s = int (digits_value f)"
  using assms by (simp_all add: digits_at_def)

lemma read_date_clock:
  assumes date: "civil_date y m d" and r: "0 \<le> r" "r < ms_per_day"
  defines "s \<equiv> date_text m d @ CHR ''T'' # clock_text r"
  shows "day_of y (nat (digits_at 1 2 s - 1)) (digits_at 4 2 s) * ms_per_day
     + digits_at 7 2 s * 3600000 + digits_at 10 2 s * 60000 + digits_at 13 2 s * 1000 + digits_at 16 3 s
     = day_of y m d * ms_per_day + r"
proof -
  have s: "s = CHR ''-'' # pad 2 (Suc m) @ CHR ''-'' # pad 2 (nat d) @ CHR ''T'' # pad 2 (nat (r div 3600000))
      @ CHR '':'' # pad 2 (nat (r div 60000 mod 60)) @ CHR '':'' # pad 2 (nat (r div 1000 mod 60))
      @ CHR ''.'' # pad 3 (nat (r mod 1000)) @ ''Z''"
    by (simp add: s_def date_text_def clock_text_def)
  note at = digits_of_pads [OF s length_pad length_pad length_pad length_pad length_pad length_pad]
  note clock = clock_parts [OF r]
  have two: "digits_value (pad 2 n) = n" if "n < 100" for n by (rule digits_value_pad) (use that in simp)
  have three: "digits_value (pad 3 n) = n" if "n < 1000" for n by (rule digits_value_pad) (use that in simp)
  have d: "1 \<le> d" "d \<le> 31" "m \<le> 11" using date month_length_pos(2) [of "leap y" m] by (auto simp: civil_date_def)
  have vals: "digits_value (pad 2 (Suc m)) = Suc m" "digits_value (pad 2 (nat d)) = nat d"
    "digits_value (pad 2 (nat (r div 3600000))) = nat (r div 3600000)"
    "digits_value (pad 2 (nat (r div 60000 mod 60))) = nat (r div 60000 mod 60)"
    "digits_value (pad 2 (nat (r div 1000 mod 60))) = nat (r div 1000 mod 60)"
    "digits_value (pad 3 (nat (r mod 1000))) = nat (r mod 1000)"
    using d clock(1-4) by (intro two three; auto)+
  show ?thesis
    unfolding at vals using d clock(5-8) by (simp add: clock(9) [unfolded add.assoc])
qed

lemma date_range_year:
  assumes "date_range t"
  shows "- 999999 \<le> year_of_day (t div ms_per_day)" "year_of_day (t div ms_per_day) \<le> 999999"
proof -
  let ?d = "t div ms_per_day"
  have d: "- 100000000 \<le> ?d" "?d \<le> 100000000"
    using assms div_within [of ms_per_day t] by (auto simp: date_range_def)
  show "- 999999 \<le> year_of_day ?d"
  proof (rule ccontr)
    assume "\<not> ?thesis"
    then have "day_from_year (year_of_day ?d + 1) \<le> day_from_year (- 999999)"
      using day_from_year_mono [of "year_of_day ?d + 1" "- 999999"] by simp
    moreover have "day_from_year (- 999999) < - 100000000" by (simp add: day_from_year_def)
    ultimately show False using year_of_day [of ?d] d by linarith
  qed
  show "year_of_day ?d \<le> 999999"
  proof (rule ccontr)
    assume "\<not> ?thesis"
    then have "day_from_year 1000000 \<le> day_from_year (year_of_day ?d)"
      using day_from_year_mono [of 1000000 "year_of_day ?d"] by simp
    moreover have "100000000 < day_from_year 1000000" by (simp add: day_from_year_def)
    ultimately show False using year_of_day [of ?d] d by linarith
  qed
qed

lemma read_iso_text: "date_range t \<Longrightarrow> read_iso (iso_text t) = t"
proof -
  assume t: "date_range t"
  obtain y m d where c: "civil (t div ms_per_day) = (y, m, d)" by (metis surj_pair)
  note date = civil_inverse [OF c]
  have y: "y = year_of_day (t div ms_per_day)" using c by (auto simp: civil_def Let_def)
  have "read_year (iso_text t) = (y, date_text m d @ CHR ''T'' # clock_text (t mod ms_per_day))"
    unfolding iso_text_def c prod.case
    by (rule read_year_text) (use date_range_year [OF t] in \<open>auto simp: y date_text_def digit_char_def code_unit_def\<close>)
  then show ?thesis
    unfolding read_iso_def using read_date_clock [of y m d "t mod ms_per_day"] date by simp
qed

lemma length_iso_text: "length (iso_text t) \<le> 27"
  by (auto simp: iso_text_def year_text_def date_text_def clock_text_def split: prod.splits)

lemma canonical_time_iff: "canonical_time v = Some t \<longleftrightarrow> date_range t \<and> v = iso_text t"
  using length_iso_text [of t] by (auto simp: canonical_time_def Let_def read_iso_text)

lemma iso_text_inj: "date_range t \<Longrightarrow> date_range u \<Longrightarrow> iso_text t = iso_text u \<longleftrightarrow> t = u"
  by (metis read_iso_text)

section \<open>The order of canonical texts\<close>

lemma field_less: "a < b \<Longrightarrow> 0 \<le> a \<Longrightarrow> nat b < 10 ^ k \<Longrightarrow> pad k (nat a) @ x < pad k (nat b) @ (y :: string)"
  by (intro text_less_append pad_less) auto

lemma fields_less:
  assumes "h < h' \<or> h = h' \<and> (m < m' \<or> m = m' \<and> (s < s' \<or> s = s' \<and> f < f'))"
    and "0 \<le> h" "0 \<le> m" "0 \<le> s" "0 \<le> f" "nat h' < 10 ^ i" "nat m' < 10 ^ j" "nat s' < 10 ^ k" "nat f' < 10 ^ l"
  shows "pad i (nat h) @ c # pad j (nat m) @ d # pad k (nat s) @ e # pad l (nat f) @ z
    < pad i (nat h') @ c # pad j (nat m') @ d # pad k (nat s') @ e # pad l (nat f') @ (z :: string)"
  using assms(1)
proof (elim disjE conjE)
  assume "h < h'"
  then show ?thesis using assms by (intro field_less)
next
  assume "h = h'" "m < m'"
  then show ?thesis using assms field_less [of m m' j] by (simp add: text_less_same)
next
  assume "h = h'" "m = m'" "s < s'"
  then show ?thesis using assms field_less [of s s' k] by (simp add: text_less_same)
next
  assume "h = h'" "m = m'" "s = s'" "f < f'"
  then show ?thesis using assms field_less [of f f' l z z] by (simp add: text_less_same)
qed

lemma clock_text_less:
  assumes "0 \<le> r" "r < u" "u < ms_per_day"
  shows "clock_text r < clock_text u"
proof -
  have r: "0 \<le> r" "r < ms_per_day" and u: "0 \<le> u" "u < ms_per_day" using assms by auto
  note cr = clock_parts [OF r] and cu = clock_parts [OF u]
  have order: "r div 3600000 < u div 3600000 \<or> r div 3600000 = u div 3600000 \<and> (r div 60000 mod 60 < u div 60000 mod 60
      \<or> r div 60000 mod 60 = u div 60000 mod 60 \<and> (r div 1000 mod 60 < u div 1000 mod 60
      \<or> r div 1000 mod 60 = u div 1000 mod 60 \<and> r mod 1000 < u mod 1000))"
    by (rule clock_order) (use assms(2) cr(9) cu(9) cr(6-8) cu(2-4) in \<open>simp_all only:\<close>)
  have two: "nat n < 10 ^ 2" if "n < 60" for n using that by auto
  have "nat (u div 3600000) < 10 ^ 2" "nat (u mod 1000) < 10 ^ 3" using cu(1,4) by auto
  then show ?thesis
    unfolding clock_text_def append_Cons [symmetric]
    using fields_less [OF order cr(5-8) _ two [OF cu(2)] two [OF cu(3)]] by simp
qed

lemma date_text_less:
  assumes "m < m' \<or> m = m' \<and> d < d'" and "m' \<le> 11" and "1 \<le> d" "d' \<le> 31"
  shows "date_text m d @ x < date_text m' d' @ y"
proof (cases "m < m'")
  case True
  then have "pad 2 (Suc m) @ u < pad 2 (Suc m') @ v" for u v
    using assms(2) by (intro text_less_append pad_less) auto
  then show ?thesis by (simp add: date_text_def)
next
  case False
  then have "m = m'" "d < d'" using assms(1) by auto
  moreover have "pad 2 (nat d) @ x < pad 2 (nat d') @ y" using \<open>d < d'\<close> assms(3,4) by (intro field_less) auto
  ultimately show ?thesis by (simp add: date_text_def text_less_same)
qed

text \<open>Between the years 0 and 9999 the program's comparison of texts is the comparison of times.\<close>

definition four_digit_year :: "time \<Rightarrow> bool" where
  "four_digit_year t \<longleftrightarrow> 0 \<le> year_of_day (t div ms_per_day) \<and> year_of_day (t div ms_per_day) \<le> 9999"

lemma iso_text_less:
  assumes "t < u" and years: "four_digit_year t" "four_digit_year u"
  shows "iso_text t < iso_text u"
proof -
  obtain y m d where t: "civil (t div ms_per_day) = (y, m, d)" by (metis surj_pair)
  obtain y' m' d' where u: "civil (u div ms_per_day) = (y', m', d')" by (metis surj_pair)
  note dt = civil_inverse [OF t] and du = civil_inverse [OF u]
  have y: "0 \<le> y" "y \<le> 9999" "0 \<le> y'" "y' \<le> 9999"
    using t u years by (auto simp: civil_def Let_def four_digit_year_def)
  have days: "1 \<le> d" "d' \<le> 31" "m' \<le> 11"
    using dt du month_length_pos(2) [of "leap y'" m'] by (auto simp: civil_date_def)
  show ?thesis
  proof (cases "t div ms_per_day = u div ms_per_day")
    case True
    have "t mod ms_per_day < u mod ms_per_day"
      using assms(1) True div_mult_mod_eq [of t ms_per_day] div_mult_mod_eq [of u ms_per_day] by linarith
    then have "clock_text (t mod ms_per_day) < clock_text (u mod ms_per_day)" by (intro clock_text_less) auto
    then show ?thesis using True t u by (simp add: iso_text_def text_less_same)
  next
    case False
    have "t div ms_per_day \<le> u div ms_per_day" using assms(1) by (simp add: zdiv_mono1)
    with False have "day_of y m d < day_of y' m' d'" using dt du by simp
    then have "y < y' \<or> y = y' \<and> (m < m' \<or> m = m' \<and> d < d')" using civil_date_less dt du by blast
    moreover have "year_text y @ s < year_text y' @ s'" if "y < y'" for s s'
      using that y by (simp add: year_text_def) (intro field_less, auto)
    ultimately show ?thesis
      using date_text_less [of m m' d d'] days by (auto simp: iso_text_def t u text_less_same)
  qed
qed

lemma iso_text_order:
  assumes "four_digit_year t" "four_digit_year u"
  shows "iso_text t < iso_text u \<longleftrightarrow> t < u" and "iso_text t \<le> iso_text u \<longleftrightarrow> t \<le> u"
  using iso_text_less [of t u] iso_text_less [of u t] assms by (cases t u rule: linorder_cases; auto)+

end
