(* ===== verification/CollaborationStore.thy ===== *)
theory CollaborationStore
  imports CalendarDates "HOL-Library.AList"
begin

text \<open>
  The store of subscriptions, channel bindings, notification preferences and notifications
  (\<open>server/collaboration-store.ts\<close> on the types of \<open>shared/collaboration.ts\<close>).

  A mutation takes its turn in a queue. Its action changes the lists in memory at once; the write
  that follows ends later, and only its failure takes the change back. So the state of the model has
  the lists readers see, the contents of the file, and the write under way with the snapshot that a
  failure restores.
\<close>

section \<open>Data\<close>

datatype target_type = ProjectTarget | GoalTarget | TopicTarget | WorkItemTarget
datatype delivery = PersonalDelivery | ChannelDelivery
datatype level = AllLevel | MentionsLevel | DigestLevel | NoneLevel
datatype period = Daily | Weekly | Monthly
datatype note_kind = UpdateNote | ReminderNote
datatype co_operation = CoFollow | CoUnfollow | CoBind | CoUnbind | CoPrefer | CoUpdate | CoReminder

fun target_name :: "target_type \<Rightarrow> string" where
  "target_name ProjectTarget = ''project''" | "target_name GoalTarget = ''goal''"
| "target_name TopicTarget = ''topic''" | "target_name WorkItemTarget = ''work-item''"

fun delivery_name :: "delivery \<Rightarrow> string" where
  "delivery_name PersonalDelivery = ''personal''" | "delivery_name ChannelDelivery = ''channel''"

fun level_name :: "level \<Rightarrow> string" where
  "level_name AllLevel = ''all''" | "level_name MentionsLevel = ''mentions''"
| "level_name DigestLevel = ''digest''" | "level_name NoneLevel = ''none''"

fun period_name :: "period \<Rightarrow> string" where
  "period_name Daily = ''daily''" | "period_name Weekly = ''weekly''" | "period_name Monthly = ''monthly''"

fun kind_name :: "note_kind \<Rightarrow> string" where
  "kind_name UpdateNote = ''update''" | "kind_name ReminderNote = ''reminder''"

fun co_operation_name :: "co_operation \<Rightarrow> string" where
  "co_operation_name CoFollow = ''follow''" | "co_operation_name CoUnfollow = ''unfollow''"
| "co_operation_name CoBind = ''bind-channel''" | "co_operation_name CoUnbind = ''unbind-channel''"
| "co_operation_name CoPrefer = ''set-notification-preference''"
| "co_operation_name CoUpdate = ''record-update''" | "co_operation_name CoReminder = ''record-reminder''"

text \<open>The scope of a request has the fields of a work item's.\<close>

type_synonym co_scope = wi_scope

record co_target =
  tg_type :: target_type
  tg_id :: string

record co_link =
  kl_type :: target_type
  kl_target :: string
  kl_path :: string
  kl_href :: string

record subscription =
  sb_id :: string
  sb_tenant :: string
  sb_conversation :: string
  sb_requester :: string
  sb_target :: co_target
  sb_delivery :: delivery
  sb_channel :: "string option"
  sb_active :: bool
  sb_link :: co_link
  sb_created :: time
  sb_updated :: time

text \<open>Metadata is an association list without repeated keys. The order of its fields, which
  JavaScript fixes for names that are array indices, is not observed by anything modelled here.\<close>

record binding =
  cb_id :: string
  cb_tenant :: string
  cb_conversation :: string
  cb_target :: co_target
  cb_channel :: string
  cb_metadata :: "(string \<times> string) list"
  cb_bound_by :: string
  cb_active :: bool
  cb_link :: co_link
  cb_created :: time
  cb_updated :: time

record preference =
  np_id :: string
  np_tenant :: string
  np_conversation :: string
  np_requester :: string
  np_target :: co_target
  np_delivery :: delivery
  np_channel :: "string option"
  np_level :: level
  np_period :: "period option"
  np_updated :: time

record notification =
  nt_id :: string
  nt_tenant :: string
  nt_conversation :: string
  nt_creator :: string
  nt_target :: co_target
  nt_kind :: note_kind
  nt_title :: string
  nt_body :: string
  nt_mentions :: "string list"
  nt_channel :: "string option"
  nt_occurred :: time
  nt_remind :: "time option"
  nt_link :: co_link
  nt_created :: time

definition encode_uri :: "string \<Rightarrow> string" where
  "encode_uri s = concat (map encode_uri_char s)"

definition build_collaboration_link :: "co_target \<Rightarrow> co_link" where
  "build_collaboration_link tg =
     (let path = ''/tabs/home/?collaborationType='' @ encode_uri (target_name (tg_type tg))
            @ ''&collaborationId='' @ encode_uri (tg_id tg)
      in \<lparr>kl_type = tg_type tg, kl_target = tg_id tg, kl_path = path, kl_href = path\<rparr>)"

definition same_target :: "co_target \<Rightarrow> co_target \<Rightarrow> bool" where
  "same_target l r \<longleftrightarrow> tg_type l = tg_type r \<and> tg_id l = tg_id r"

section \<open>Validation\<close>

definition assert_target :: "co_target \<Rightarrow> bool" where
  "assert_target tg \<longleftrightarrow> assert_text 200 True (tg_id tg)"

definition assert_delivery :: "delivery \<Rightarrow> string option \<Rightarrow> bool" where
  "assert_delivery dl channel \<longleftrightarrow> (dl = ChannelDelivery \<longrightarrow> channel \<noteq> None)
     \<and> (dl = PersonalDelivery \<longrightarrow> channel = None) \<and> pred_option (assert_text 256 True) channel"

definition assert_metadata :: "(string \<times> string) list \<Rightarrow> bool" where
  "assert_metadata md \<longleftrightarrow> length md \<le> 40
     \<and> list_all (\<lambda>(k, v). assert_text 120 True k \<and> assert_text 1000 False v) md"

definition validate_subscription :: "subscription \<Rightarrow> bool" where
  "validate_subscription s \<longleftrightarrow> assert_text 200 True (sb_id s)
     \<and> assert_scope \<lparr>ws_tenant = sb_tenant s, ws_requester = sb_requester s, ws_conversation = sb_conversation s\<rparr>
     \<and> assert_target (sb_target s) \<and> assert_delivery (sb_delivery s) (sb_channel s)
     \<and> sb_link s = build_collaboration_link (sb_target s)
     \<and> date_range (sb_created s) \<and> date_range (sb_updated s)"

definition validate_binding :: "binding \<Rightarrow> bool" where
  "validate_binding b \<longleftrightarrow> assert_text 200 True (cb_id b)
     \<and> assert_text 256 True (cb_tenant b) \<and> assert_text 256 True (cb_conversation b)
     \<and> assert_target (cb_target b) \<and> assert_text 256 True (cb_channel b) \<and> assert_metadata (cb_metadata b)
     \<and> assert_text 256 True (cb_bound_by b) \<and> cb_link b = build_collaboration_link (cb_target b)
     \<and> date_range (cb_created b) \<and> date_range (cb_updated b)"

definition validate_preference :: "preference \<Rightarrow> bool" where
  "validate_preference p \<longleftrightarrow> assert_text 200 True (np_id p)
     \<and> assert_scope \<lparr>ws_tenant = np_tenant p, ws_requester = np_requester p, ws_conversation = np_conversation p\<rparr>
     \<and> assert_target (np_target p) \<and> assert_delivery (np_delivery p) (np_channel p)
     \<and> (np_level p = DigestLevel \<longleftrightarrow> np_period p \<noteq> None) \<and> date_range (np_updated p)"

definition validate_notification :: "notification \<Rightarrow> bool" where
  "validate_notification n \<longleftrightarrow> assert_text 200 True (nt_id n)
     \<and> assert_text 256 True (nt_tenant n) \<and> assert_text 256 True (nt_conversation n)
     \<and> assert_text 256 True (nt_creator n) \<and> assert_target (nt_target n)
     \<and> assert_text 400 True (nt_title n) \<and> assert_text 4000 False (nt_body n)
     \<and> assert_unique_texts 256 100 (nt_mentions n) \<and> pred_option (assert_text 256 True) (nt_channel n)
     \<and> date_range (nt_occurred n) \<and> pred_option date_range (nt_remind n)
     \<and> (nt_kind n = ReminderNote \<longrightarrow> nt_remind n \<noteq> None)
     \<and> nt_link n = build_collaboration_link (nt_target n) \<and> date_range (nt_created n)"

section \<open>The store\<close>

datatype co_result = SubscriptionResult subscription | BindingResult binding
  | PreferenceResult preference | NotificationResult notification

text \<open>\<open>CoRefused\<close> is a plain \<open>Error\<close> of the store, \<open>CoRange\<close> the \<open>RangeError\<close> of a date outside the
  range of \<open>Date\<close>.\<close>

datatype co_error = CoInvalid | CoNotFound string | CoForbidden string | CoConflict string
  | CoRefused | CoWriteFailed | CoRange

record co_mutation =
  km_scope :: co_scope
  km_key :: string
  km_operation :: co_operation
  km_fingerprint :: string
  km_result :: co_result
  km_created :: time

record co_context =
  cc_subscriptions :: "subscription list"
  cc_bindings :: "binding list"
  cc_preferences :: "preference list"
  cc_notifications :: "notification list"

record co_data =
  cd_context :: co_context
  cd_mutations :: "co_mutation list"

record co_store =
  cs_data :: co_data
  cs_disk :: co_data
  cs_pending :: "(co_data \<times> co_result) option"

text \<open>The keys join their parts with the code unit 0, which no part contains.\<close>

fun nul_join :: "string list \<Rightarrow> string" where
  "nul_join [] = []"
| "nul_join [s] = s"
| "nul_join (s # t # ts) = s @ CHR 0x00 # nul_join (t # ts)"

definition target_key :: "co_target \<Rightarrow> string" where
  "target_key tg = nul_join [target_name (tg_type tg), tg_id tg]"

definition subscription_key :: "subscription \<Rightarrow> string" where
  "subscription_key s = nul_join [sb_tenant s, sb_conversation s, sb_requester s, target_key (sb_target s),
     delivery_name (sb_delivery s), or_else (sb_channel s) []]"

definition binding_key :: "binding \<Rightarrow> string" where
  "binding_key b = nul_join [cb_tenant b, cb_conversation b, target_key (cb_target b), cb_channel b]"

definition preference_key :: "preference \<Rightarrow> string" where
  "preference_key p = nul_join [np_tenant p, np_conversation p, np_requester p, target_key (np_target p),
     delivery_name (np_delivery p), or_else (np_channel p) []]"

definition co_mutation_key :: "co_mutation \<Rightarrow> string" where
  "co_mutation_key m = nul_join [ws_tenant (km_scope m), ws_requester (km_scope m),
     ws_conversation (km_scope m), km_key m]"

definition validate_co_mutation :: "co_mutation \<Rightarrow> bool" where
  "validate_co_mutation m \<longleftrightarrow> assert_scope (km_scope m) \<and> assert_text 200 True (km_key m)
     \<and> assert_text 20000 True (km_fingerprint m) \<and> date_range (km_created m)"

text \<open>A result stays in the scope of its mutation: each test looks at a field the record has.\<close>

definition result_in_scope :: "co_mutation \<Rightarrow> bool" where
  "result_in_scope m \<longleftrightarrow> (let sc = km_scope m in case km_result m of
       SubscriptionResult s \<Rightarrow> sb_tenant s = ws_tenant sc \<and> sb_conversation s = ws_conversation sc
         \<and> sb_requester s = ws_requester sc
     | BindingResult b \<Rightarrow> cb_tenant b = ws_tenant sc \<and> cb_conversation b = ws_conversation sc
     | PreferenceResult p \<Rightarrow> np_tenant p = ws_tenant sc \<and> np_conversation p = ws_conversation sc
         \<and> np_requester p = ws_requester sc
     | NotificationResult n \<Rightarrow> nt_tenant n = ws_tenant sc \<and> nt_conversation n = ws_conversation sc
         \<and> nt_creator n = ws_requester sc)"

definition validate_store :: "co_data \<Rightarrow> bool" where
  "validate_store d \<longleftrightarrow> (let c = cd_context d in
     list_all validate_subscription (cc_subscriptions c) \<and> distinct (map sb_id (cc_subscriptions c))
     \<and> distinct (map subscription_key (cc_subscriptions c))
     \<and> list_all validate_binding (cc_bindings c) \<and> distinct (map cb_id (cc_bindings c))
     \<and> distinct (map binding_key (cc_bindings c))
     \<and> list_all validate_preference (cc_preferences c) \<and> distinct (map np_id (cc_preferences c))
     \<and> distinct (map preference_key (cc_preferences c))
     \<and> list_all validate_notification (cc_notifications c) \<and> distinct (map nt_id (cc_notifications c))
     \<and> list_all validate_co_mutation (cd_mutations d) \<and> distinct (map co_mutation_key (cd_mutations d))
     \<and> list_all result_in_scope (cd_mutations d))"

section \<open>Reading\<close>

definition in_conversation :: "co_scope \<Rightarrow> string \<Rightarrow> string \<Rightarrow> bool" where
  "in_conversation sc tenant conversation \<longleftrightarrow> tenant = ws_tenant sc \<and> conversation = ws_conversation sc"

definition list_subscriptions :: "co_scope \<Rightarrow> co_context \<Rightarrow> subscription list" where
  "list_subscriptions sc c = filter (\<lambda>s. sb_active s \<and> in_conversation sc (sb_tenant s) (sb_conversation s)
     \<and> sb_requester s = ws_requester sc) (cc_subscriptions c)"

text \<open>The identity the finders of the store and \<open>sameSubscriptionIdentity\<close> of the service test.\<close>

definition same_subscription ::
  "co_scope \<Rightarrow> co_target \<Rightarrow> delivery \<Rightarrow> string option \<Rightarrow> subscription \<Rightarrow> bool" where
  "same_subscription sc tg dl channel s \<longleftrightarrow> sb_tenant s = ws_tenant sc \<and> sb_conversation s = ws_conversation sc
     \<and> sb_requester s = ws_requester sc \<and> same_target (sb_target s) tg \<and> sb_delivery s = dl \<and> sb_channel s = channel"

definition find_subscription ::
  "co_scope \<Rightarrow> co_target \<Rightarrow> delivery \<Rightarrow> string option \<Rightarrow> co_context \<Rightarrow> subscription option" where
  "find_subscription sc tg dl channel c = find (same_subscription sc tg dl channel) (cc_subscriptions c)"

definition list_bindings :: "co_scope \<Rightarrow> co_context \<Rightarrow> binding list" where
  "list_bindings sc c = filter (\<lambda>b. cb_active b \<and> in_conversation sc (cb_tenant b) (cb_conversation b)) (cc_bindings c)"

definition same_binding :: "co_scope \<Rightarrow> co_target \<Rightarrow> string \<Rightarrow> binding \<Rightarrow> bool" where
  "same_binding sc tg channel b \<longleftrightarrow> cb_tenant b = ws_tenant sc \<and> cb_conversation b = ws_conversation sc
     \<and> same_target (cb_target b) tg \<and> cb_channel b = channel"

definition find_binding :: "co_scope \<Rightarrow> co_target \<Rightarrow> string \<Rightarrow> co_context \<Rightarrow> binding option" where
  "find_binding sc tg channel c = find (same_binding sc tg channel) (cc_bindings c)"

definition list_preferences :: "co_scope \<Rightarrow> co_context \<Rightarrow> preference list" where
  "list_preferences sc c = filter (\<lambda>p. in_conversation sc (np_tenant p) (np_conversation p)
     \<and> np_requester p = ws_requester sc) (cc_preferences c)"

definition same_preference ::
  "co_scope \<Rightarrow> co_target \<Rightarrow> delivery \<Rightarrow> string option \<Rightarrow> preference \<Rightarrow> bool" where
  "same_preference sc tg dl channel p \<longleftrightarrow> np_tenant p = ws_tenant sc \<and> np_conversation p = ws_conversation sc
     \<and> np_requester p = ws_requester sc \<and> same_target (np_target p) tg \<and> np_delivery p = dl \<and> np_channel p = channel"

definition find_preference ::
  "co_scope \<Rightarrow> co_target \<Rightarrow> delivery \<Rightarrow> string option \<Rightarrow> co_context \<Rightarrow> preference option" where
  "find_preference sc tg dl channel c = find (same_preference sc tg dl channel) (cc_preferences c)"

definition list_notifications :: "co_scope \<Rightarrow> co_context \<Rightarrow> notification list" where
  "list_notifications sc c = filter (\<lambda>n. in_conversation sc (nt_tenant n) (nt_conversation n)) (cc_notifications c)"

section \<open>Mutations\<close>

type_synonym co_action = "co_context \<Rightarrow> co_error + co_context \<times> co_result"

definition same_co_scope :: "co_mutation \<Rightarrow> co_scope \<Rightarrow> bool" where
  "same_co_scope m sc \<longleftrightarrow> ws_tenant (km_scope m) = ws_tenant sc \<and> ws_requester (km_scope m) = ws_requester sc
     \<and> ws_conversation (km_scope m) = ws_conversation sc"

definition find_co_mutation :: "co_scope \<Rightarrow> string \<Rightarrow> co_mutation list \<Rightarrow> co_mutation option" where
  "find_co_mutation sc mkey ms = find (\<lambda>m. km_key m = mkey \<and> same_co_scope m sc) ms"

text \<open>The turn of a mutation, up to its write: it is answered at once, by an error or by the recorded
  result of its key, or it leaves its change in memory and a write under way. An error of the action
  or of the validation restores what was there.\<close>

definition take_turn ::
  "co_scope \<Rightarrow> string \<Rightarrow> co_operation \<Rightarrow> string \<Rightarrow> co_action \<Rightarrow> time \<Rightarrow> co_store
     \<Rightarrow> co_store \<times> (co_error + co_result) option" where
  "take_turn sc mkey operation fp action now st =
     (if \<not> assert_text 200 True mkey then (st, Some (Inl CoRefused))
      else if fp = [] then (st, Some (Inl CoRefused))
      else case find_co_mutation sc mkey (cd_mutations (cs_data st)) of
        Some m \<Rightarrow> (st, Some (if km_operation m \<noteq> operation \<or> km_fingerprint m \<noteq> fp then Inl (CoConflict mkey)
                    else Inr (km_result m)))
      | None \<Rightarrow>
          (case action (cd_context (cs_data st)) of
             Inl e \<Rightarrow> (st, Some (Inl e))
           | Inr (c, result) \<Rightarrow>
               let d = \<lparr>cd_context = c, cd_mutations =
                      \<lparr>km_scope = sc, km_key = mkey, km_operation = operation, km_fingerprint = fp,
                       km_result = result, km_created = now\<rparr> # cd_mutations (cs_data st)\<rparr>
               in if \<not> validate_store d then (st, Some (Inl CoRefused))
                  else (st\<lparr>cs_data := d, cs_pending := Some (cs_data st, result)\<rparr>, None)))"

text \<open>The end of the write under way.\<close>

definition settle :: "bool \<Rightarrow> co_store \<Rightarrow> co_store \<times> (co_error + co_result) option" where
  "settle ok st = (case cs_pending st of
       None \<Rightarrow> (st, None)
     | Some (snapshot, result) \<Rightarrow>
         if ok then (st\<lparr>cs_disk := cs_data st, cs_pending := None\<rparr>, Some (Inr result))
         else (st\<lparr>cs_data := snapshot, cs_pending := None\<rparr>, Some (Inl CoWriteFailed)))"

text \<open>A whole call of \<open>runMutation\<close>, with nothing between its turn and the end of its write.\<close>

definition run_co_mutation ::
  "co_scope \<Rightarrow> string \<Rightarrow> co_operation \<Rightarrow> string \<Rightarrow> co_action \<Rightarrow> time \<Rightarrow> bool \<Rightarrow> co_store
     \<Rightarrow> co_store \<times> (co_error + co_result)" where
  "run_co_mutation sc mkey operation fp action now ok st =
     (case take_turn sc mkey operation fp action now st of
        (st', Some r) \<Rightarrow> (st', r)
      | (st', None) \<Rightarrow> (case settle ok st' of (st'', r) \<Rightarrow> (st'', or_else r (Inl CoWriteFailed))))"

section \<open>Loading\<close>

text \<open>The loader validates each record, then the store as a whole. The results of the mutations are
  read as the records they were written as: the loader tests their scope only.\<close>

definition load_co_store :: "nat \<Rightarrow> co_data \<Rightarrow> co_error + co_data" where
  "load_co_store version d =
     (if version \<noteq> 1 then Inl CoRefused
      else let c = cd_context d in
        if list_all validate_subscription (cc_subscriptions c) \<and> list_all validate_binding (cc_bindings c)
           \<and> list_all validate_preference (cc_preferences c) \<and> list_all validate_notification (cc_notifications c)
           \<and> list_all validate_co_mutation (cd_mutations d) \<and> validate_store d
        then Inr d else Inl CoRefused)"

definition empty_co_data :: co_data where
  "empty_co_data = \<lparr>cd_context = \<lparr>cc_subscriptions = [], cc_bindings = [], cc_preferences = [],
     cc_notifications = []\<rparr>, cd_mutations = []\<rparr>"

definition initialize_co_store :: "(nat \<times> co_data) option \<Rightarrow> bool \<Rightarrow> co_error + co_store" where
  "initialize_co_store file ok = (case file of
       None \<Rightarrow> if ok then Inr \<lparr>cs_data = empty_co_data, cs_disk = empty_co_data, cs_pending = None\<rparr> else Inl CoWriteFailed
     | Some (version, v) \<Rightarrow> chain (load_co_store version v) (\<lambda>d. Inr \<lparr>cs_data = d, cs_disk = v, cs_pending = None\<rparr>))"

end
