(* ===== verification/WorkItemHistory.thy ===== *)
theory WorkItemHistory
  imports WorkItems
begin

text \<open>
  Histories of the work-item store: the operations as one type of commands, what one command does to
  the items, and what every history keeps.
\<close>

section \<open>What an action does\<close>

lemma find_mutation_Some:
  "find_mutation sc k ms = Some m \<Longrightarrow> m \<in> set ms \<and> wm_key m = k \<and> wm_scope m = sc"
  by (auto simp: find_mutation_def same_wi_scope_def dest!: find_Some_mem)

lemma update_found_success:
  assumes "update_found sc p iid upd (items, n) = ((items', n'), Inr r)"
  obtains k c where "find_index (candidate sc p iid) items = Some k" "upd (items ! k) = Inr c"
    "r = c\<lparr>wi_seq := Some (Suc n)\<rparr>" "validate_item r" "identity_kept (items ! k) r"
    "items' = items[k := r]" "n' = Suc n"
proof (cases "find_index (candidate sc p iid) items")
  case None
  with assms show thesis by (simp add: update_found_def ctx_update_def)
next
  case (Some k)
  show thesis
  proof (cases "upd (items ! k)")
    case (Inl e)
    with assms Some show thesis by (simp add: update_found_def ctx_update_def)
  next
    case (Inr c)
    let ?u = "c\<lparr>wi_seq := Some (Suc n)\<rparr>"
    have "validate_item ?u \<and> identity_kept (items ! k) ?u \<and> items' = items[k := ?u] \<and> n' = Suc n \<and> r = ?u"
      by (cases "validate_item ?u"; cases "identity_kept (items ! k) ?u")
        (use assms Some Inr in \<open>auto simp: update_found_def ctx_update_def Let_def\<close>)
    then show thesis using that [OF Some Inr] by blast
  qed
qed

lemma update_found_error:
  assumes "update_found sc p iid upd (items, n) = ((items', n'), Inl e)"
  shows "n \<le> n'"
proof (cases "find_index (candidate sc p iid) items")
  case None
  with assms show ?thesis by (simp add: update_found_def ctx_update_def)
next
  case (Some k)
  with assms show ?thesis
    by (cases "upd (items ! k)") (auto simp: update_found_def ctx_update_def Let_def split: if_splits)
qed

text \<open>The part of an item that no operation changes, and the order in which the rest may change:
  comments are appended, a deletion stays.\<close>

definition item_evolves :: "work_item \<Rightarrow> work_item \<Rightarrow> bool" where
  "item_evolves i u \<longleftrightarrow> wi_id u = wi_id i \<and> wi_tenant u = wi_tenant i \<and> wi_conversation u = wi_conversation i
     \<and> wi_creator u = wi_creator i \<and> wi_link u = wi_link i \<and> wi_job u = wi_job i \<and> wi_created u = wi_created i
     \<and> (\<exists>cs. wi_comments u = wi_comments i @ cs) \<and> (wi_deleted i \<noteq> None \<longrightarrow> wi_deleted u = wi_deleted i)"

lemma item_evolves_refl [simp]: "item_evolves i i"
  by (simp add: item_evolves_def)

lemma item_evolves_trans: "item_evolves a b \<Longrightarrow> item_evolves b c \<Longrightarrow> item_evolves a c"
  by (auto simp: item_evolves_def)

text \<open>The effect of a successful action: nothing new, one item in front, or one item replaced.\<close>

inductive wi_effect :: "wi_scope \<Rightarrow> wi_context \<Rightarrow> wi_context \<Rightarrow> work_item \<Rightarrow> bool" where
  effect_same: "r \<in> set items \<Longrightarrow> same_conversation sc r \<Longrightarrow> wi_effect sc (items, n) (items, n) r"
| effect_insert: "\<forall>c \<in> set items. wi_id c \<noteq> wi_id r \<Longrightarrow> same_conversation sc r \<Longrightarrow> wi_creator r = ws_requester sc
    \<Longrightarrow> wi_seq r = Some (Suc n) \<Longrightarrow> wi_effect sc (items, n) (r # items, Suc n) r"
| effect_update: "k < length items \<Longrightarrow> same_conversation sc (items ! k) \<Longrightarrow> item_evolves (items ! k) r
    \<Longrightarrow> wi_seq r = Some (Suc n) \<Longrightarrow> validate_item r \<Longrightarrow> wi_effect sc (items, n) (items[k := r], Suc n) r"

definition effective :: "wi_scope \<Rightarrow> wi_action \<Rightarrow> bool" where
  "effective sc action \<longleftrightarrow> (\<forall>items n items' n' r.
     (action (items, n) = ((items', n'), Inr r) \<longrightarrow> wi_effect sc (items, n) (items', n') r)
     \<and> (\<forall>e. action (items, n) = ((items', n'), Inl e) \<longrightarrow> n \<le> n'))"

lemma effectiveI:
  assumes "\<And>items n items' n' r. action (items, n) = ((items', n'), Inr r) \<Longrightarrow> wi_effect sc (items, n) (items', n') r"
    and "\<And>items n items' n' e. action (items, n) = ((items', n'), Inl e) \<Longrightarrow> n \<le> n'"
  shows "effective sc action"
  using assms unfolding effective_def by blast

lemma effective_insert: "effective sc (ctx_insert sc i)"
  by (rule effectiveI)
    (auto simp: ctx_insert_def Let_def same_conversation_def list_ex_iff split: if_splits
      intro!: effect_insert)

lemma effective_update:
  assumes "\<And>i c. upd i = Inr c \<Longrightarrow> (p \<Longrightarrow> wi_deleted i = None) \<Longrightarrow> item_evolves i (c\<lparr>wi_seq := s\<rparr>)"
  shows "effective sc (update_found sc p iid upd)"
proof (rule effectiveI)
  fix items n items' n' r
  assume "update_found sc p iid upd (items, n) = ((items', n'), Inr r)"
  then show "wi_effect sc (items, n) (items', n') r"
  proof (rule update_found_success)
    fix k c
    assume k: "find_index (candidate sc p iid) items = Some k" and c: "upd (items ! k) = Inr c"
      and r: "r = c\<lparr>wi_seq := Some (Suc n)\<rparr>" "validate_item r" and eqs: "items' = items[k := r]" "n' = Suc n"
    have "item_evolves (items ! k) r"
      using assms [OF c] find_index_holds [OF k] unfolding r
      by (auto simp: item_evolves_def candidate_def visible_to_def)
    then show "wi_effect sc (items, n) (items', n') r"
      unfolding eqs using find_index_bound [OF k] find_index_holds [OF k] r
      by (intro effect_update) (simp_all add: candidate_def)
  qed
qed (rule update_found_error)

lemma effective_guarded: "effective sc action \<Longrightarrow> effective sc (guarded check action)"
  unfolding effective_def guarded_def by (auto split: option.splits)

lemma effective_found:
  assumes "effective sc action"
  shows "effective sc (\<lambda>(items, n). case ctx_get sc p iid items of None \<Rightarrow> ((items, n), Inl (WiNotFound iid))
     | Some i \<Rightarrow> if P i then ((items, n), Inr i) else action (items, n))"
proof (rule effectiveI)
  fix items n items' n' r
  assume eq: "(case (items, n) of (items, n) \<Rightarrow> case ctx_get sc p iid items of None \<Rightarrow> ((items, n), Inl (WiNotFound iid))
     | Some i \<Rightarrow> if P i then ((items, n), Inr i) else action (items, n)) = ((items', n'), Inr r)"
  then obtain i where i: "ctx_get sc p iid items = Some i" by (auto split: option.splits)
  then have "i \<in> set items \<and> same_conversation sc i"
    by (auto simp: ctx_get_def candidate_def dest: find_Some_mem)
  with eq i assms show "wi_effect sc (items, n) (items', n') r"
    by (auto simp: effective_def intro: effect_same split: if_splits)
next
  fix items n items' n' e
  assume "(case (items, n) of (items, n) \<Rightarrow> case ctx_get sc p iid items of None \<Rightarrow> ((items, n), Inl (WiNotFound iid))
     | Some i \<Rightarrow> if P i then ((items, n), Inr i) else action (items, n)) = ((items', n'), Inl e)"
  with assms show "n \<le> n'" by (fastforce simp: effective_def split: option.splits if_splits)
qed

lemma stamped_Inr: "stamped env f i = Inr c \<longleftrightarrow> date_range (we_now env) \<and> c = (f i)\<lparr>wi_updated := we_now env\<rparr>"
  by (auto simp: stamped_def wi_timestamp_def)

lemma effective_watch: "effective sc (watch_action env sc iid)"
  unfolding watch_action_def
  by (rule effective_found [OF effective_update]) (auto simp: stamped_Inr item_evolves_def)

lemma effective_unwatch: "effective sc (unwatch_action env sc iid)"
  unfolding unwatch_action_def
  by (rule effective_found [OF effective_update]) (auto simp: stamped_Inr item_evolves_def)

section \<open>Commands\<close>

datatype wi_command = CmdCreate wi_create_input | CmdEdit string string wi_patch_input
  | CmdTransition string string string | CmdAssign string string "string option"
  | CmdComment string string string | CmdWatch string string | CmdUnwatch string string
  | CmdDelete string string

fun exec_wi :: "wi_env \<Rightarrow> wi_scope \<Rightarrow> wi_command \<Rightarrow> wi_store \<Rightarrow> wi_store \<times> (wi_error + work_item)" where
  "exec_wi env sc (CmdCreate x) = wi_create env sc x"
| "exec_wi env sc (CmdEdit iid k p) = wi_edit env sc iid k p"
| "exec_wi env sc (CmdTransition iid k s) = wi_transition env sc iid k s"
| "exec_wi env sc (CmdAssign iid k a) = wi_assign env sc iid k a"
| "exec_wi env sc (CmdComment iid k b) = wi_add_comment env sc iid k b"
| "exec_wi env sc (CmdWatch iid k) = wi_watch env sc iid k"
| "exec_wi env sc (CmdUnwatch iid k) = wi_unwatch env sc iid k"
| "exec_wi env sc (CmdDelete iid k) = wi_delete env sc iid k"

text \<open>What a command asks of the store: its normalised scope, key, operation, payload, action and
  replay check. A refused input asks nothing.\<close>

record wi_request =
  wq_scope :: wi_scope
  wq_key :: string
  wq_operation :: wi_operation
  wq_payload :: json
  wq_action :: wi_action
  wq_check :: "work_item list \<Rightarrow> wi_error option"

fun wi_asks :: "wi_env \<Rightarrow> wi_scope \<Rightarrow> wi_command \<Rightarrow> wi_error + wi_request" where
  "wi_asks env sc (CmdCreate x) = chain (normalize_create x) (\<lambda>n. chain (wi_timestamp env) (\<lambda>t.
     Inr \<lparr>wq_scope = sc, wq_key = wn_key n, wq_operation = WCreate, wq_payload = create_payload n,
          wq_action = ctx_insert sc (created_item sc n (create_id ''wi'' env) t), wq_check = (\<lambda>_. None)\<rparr>))"
| "wi_asks env sc (CmdEdit iid k p) = chain (normalize_edit iid k p) (\<lambda>(i, k, patch).
     Inr \<lparr>wq_scope = sc, wq_key = k, wq_operation = WEdit,
          wq_payload = JObject [(''itemId'', JText i), (''patch'', patch_json patch)],
          wq_action = guarded (require_managed sc True i) (update_found sc True i (stamped env (apply_edit patch))),
          wq_check = require_managed sc True i\<rparr>)"
| "wi_asks env sc (CmdTransition iid k s) = chain (normalize_transition iid k s) (\<lambda>(i, k, s).
     Inr \<lparr>wq_scope = sc, wq_key = k, wq_operation = WTransition,
          wq_payload = JObject [(''itemId'', JText i), (''status'', JText (status_name s))],
          wq_action = guarded (require_managed sc True i)
            (update_found sc True i (stamped env (\<lambda>c. c\<lparr>wi_status := s\<rparr>))),
          wq_check = require_managed sc True i\<rparr>)"
| "wi_asks env sc (CmdAssign iid k a) = chain (normalize_assign iid k a) (\<lambda>(i, k, a).
     Inr \<lparr>wq_scope = sc, wq_key = k, wq_operation = WAssign,
          wq_payload = JObject [(''itemId'', JText i), (''assigneeId'', json_option a)],
          wq_action = guarded (require_assignable env sc i a)
            (update_found sc True i (stamped env (\<lambda>c. c\<lparr>wi_assignee := a\<rparr>))),
          wq_check = require_assignable env sc i a\<rparr>)"
| "wi_asks env sc (CmdComment iid k b) = chain (normalize_comment iid k b) (\<lambda>(i, k, b). chain (wi_timestamp env) (\<lambda>t.
     Inr \<lparr>wq_scope = sc, wq_key = k, wq_operation = WComment,
          wq_payload = JObject [(''itemId'', JText i), (''body'', JText b)],
          wq_action = guarded (require_visible sc i) (update_found sc True i (\<lambda>c. Inr (c\<lparr>wi_comments := wi_comments c @
            [\<lparr>wc_id = create_id ''comment'' env, wc_author = ws_requester sc, wc_body = b, wc_created = t\<rparr>],
            wi_updated := t\<rparr>))),
          wq_check = require_visible sc i\<rparr>))"
| "wi_asks env sc (CmdWatch iid k) = chain (normalize_target iid k) (\<lambda>(i, k).
     Inr \<lparr>wq_scope = sc, wq_key = k, wq_operation = WWatch, wq_payload = JObject [(''itemId'', JText i)],
          wq_action = watch_action env sc i,
          wq_check = (\<lambda>items. if ctx_get sc False i items = None then Some (WiNotFound i) else None)\<rparr>)"
| "wi_asks env sc (CmdUnwatch iid k) = chain (normalize_target iid k) (\<lambda>(i, k).
     Inr \<lparr>wq_scope = sc, wq_key = k, wq_operation = WUnwatch, wq_payload = JObject [(''itemId'', JText i)],
          wq_action = unwatch_action env sc i, wq_check = require_visible sc i\<rparr>)"
| "wi_asks env sc (CmdDelete iid k) = chain (normalize_target iid k) (\<lambda>(i, k). chain (wi_timestamp env) (\<lambda>t.
     Inr \<lparr>wq_scope = sc, wq_key = k, wq_operation = WDelete, wq_payload = JObject [(''itemId'', JText i)],
          wq_action = guarded (require_managed sc True i) (update_found sc True i
            (\<lambda>c. Inr (c\<lparr>wi_deleted := Some t, wi_updated := t\<rparr>))),
          wq_check = require_managed sc False i\<rparr>))"

definition wi_request_of :: "wi_env \<Rightarrow> wi_scope \<Rightarrow> wi_command \<Rightarrow> wi_error + wi_request" where
  "wi_request_of env raw cmd = chain (normalize_wi_scope raw) (\<lambda>sc. wi_asks env sc cmd)"

lemma normal_chain: "normal (chain x f) st g = normal x st (\<lambda>a. normal (f a) st g)"
  by (simp add: normal_def chain_def split: sum.splits)

lemma normal_Inr [simp]: "normal (Inr a) st g = g a"
  by (simp add: normal_def)

lemma exec_wi_request:
  "exec_wi env raw cmd st = normal (wi_request_of env raw cmd) st
     (\<lambda>q. serve env (wq_scope q) (wq_operation q) (wq_key q) (wq_payload q) (wq_action q) (wq_check q) st)"
  by (cases cmd) (simp_all add: wi_request_of_def normal_chain wi_create_def wi_edit_def wi_transition_def
      wi_assign_def wi_add_comment_def wi_watch_def wi_unwatch_def wi_delete_def case_prod_unfold)

lemma wi_request_effective:
  assumes "wi_request_of env raw cmd = Inr q"
  shows "effective (wq_scope q) (wq_action q)"
proof -
  obtain sc where sc: "normalize_wi_scope raw = Inr sc" "wi_asks env sc cmd = Inr q"
    using assms by (auto simp: wi_request_of_def chain_Inr)
  show ?thesis
    using sc(2)
    by (cases cmd)
      (auto simp: chain_Inr effective_insert effective_watch effective_unwatch stamped_Inr item_evolves_def
        apply_edit_def intro!: effective_guarded effective_update)
qed

section \<open>One command\<close>

text \<open>What one command can do to the store: nothing but advance the counter, or commit the effect of
  its action together with the record of its result.\<close>

inductive wi_committed :: "wi_scope \<Rightarrow> string \<Rightarrow> wi_operation \<Rightarrow> string \<Rightarrow> time \<Rightarrow> wi_store \<Rightarrow> work_item \<Rightarrow> wi_store \<Rightarrow> bool"
  where
  "wi_effect sc (wt_items st, wt_next st) (items, n) r \<Longrightarrow> find_mutation sc k (wt_mutations st) = None
    \<Longrightarrow> assert_text 200 True k \<Longrightarrow> validate_item r
    \<Longrightarrow> ms = \<lparr>wm_scope = sc, wm_key = k, wm_operation = operation, wm_fingerprint = fp, wm_result = r,
        wm_created = t\<rparr> # wt_mutations st
    \<Longrightarrow> wi_committed sc k operation fp t st r \<lparr>wt_items = items, wt_mutations = ms, wt_next = n, wt_disk = (items, ms)\<rparr>"

lemma wi_committedE:
  assumes "wi_committed sc k operation fp t st r st'"
  obtains items n where "wi_effect sc (wt_items st, wt_next st) (items, n) r"
    "find_mutation sc k (wt_mutations st) = None" "assert_text 200 True k" "validate_item r"
    "wt_items st' = items" "wt_next st' = n"
    "wt_mutations st' = \<lparr>wm_scope = sc, wm_key = k, wm_operation = operation, wm_fingerprint = fp, wm_result = r,
        wm_created = t\<rparr> # wt_mutations st"
    "wt_disk st' = (wt_items st', wt_mutations st')"
  using assms by cases simp

lemma run_mutation_cases:
  assumes "effective sc action"
  shows "(\<exists>n \<ge> wt_next st. fst (run_mutation sc k operation fp action check t ok st) = st\<lparr>wt_next := n\<rparr>)
     \<or> (\<exists>r. wi_committed sc k operation fp t st r (fst (run_mutation sc k operation fp action check t ok st))
          \<and> snd (run_mutation sc k operation fp action check t ok st) = Inr r)"
proof -
  obtain items n x where a: "action (wt_items st, wt_next st) = ((items, n), x)" by (metis prod.exhaust)
  have same: "\<exists>n \<ge> wt_next st. st = st\<lparr>wt_next := n\<rparr>" by (rule exI [of _ "wt_next st"]) simp
  show ?thesis
  proof (cases "assert_text 200 True k \<and> fp \<noteq> [] \<and> find_mutation sc k (wt_mutations st) = None")
    case False
    then have "fst (run_mutation sc k operation fp action check t ok st) = st"
      by (auto simp: run_mutation_def split: option.splits)
    with same show ?thesis by simp
  next
    case new: True
    show ?thesis
    proof (cases x)
      case (Inl e)
      with a assms have "wt_next st \<le> n" unfolding effective_def by blast
      with new a Inl show ?thesis by (auto simp: run_mutation_def)
    next
      case (Inr r)
      with a assms have eff: "wi_effect sc (wt_items st, wt_next st) (items, n) r" by (auto simp: effective_def)
      then have "wt_next st \<le> n" by (auto elim: wi_effect.cases)
      with eff new a Inr show ?thesis
        by (cases "validate_item r \<and> ok") (auto simp: run_mutation_def Let_def intro!: wi_committed.intros)
    qed
  qed
qed

lemma exec_wi_cases:
  obtains (idle) n where "wt_next st \<le> n" "fst (exec_wi env raw cmd st) = st\<lparr>wt_next := n\<rparr>"
  | (commit) q r where "wi_request_of env raw cmd = Inr q"
      "wi_committed (wq_scope q) (wq_key q) (wq_operation q) (fingerprint (wq_operation q) (wq_payload q))
         (we_date env) st r (fst (exec_wi env raw cmd st))"
      "snd (exec_wi env raw cmd st) = (if we_published env then Inr r else Inl WiUnpublished)"
proof (cases "wi_request_of env raw cmd")
  case (Inl e)
  then have "fst (exec_wi env raw cmd st) = st\<lparr>wt_next := wt_next st\<rparr>" by (simp add: exec_wi_request normal_def)
  then show thesis using idle by blast
next
  case (Inr q)
  let ?run = "run_mutation (wq_scope q) (wq_key q) (wq_operation q) (fingerprint (wq_operation q) (wq_payload q))
     (wq_action q) (wq_check q) (we_date env) (we_written env) st"
  have eq: "exec_wi env raw cmd st = (case ?run of (st', Inl e) \<Rightarrow> (st', Inl e)
      | (st', Inr i) \<Rightarrow> (st', if we_published env then Inr i else Inl WiUnpublished))"
    by (simp add: exec_wi_request Inr serve_def)
  then have fst_eq: "fst (exec_wi env raw cmd st) = fst ?run" by (simp split: prod.splits sum.splits)
  from run_mutation_cases [OF wi_request_effective [OF Inr], of st "wq_key q" "wq_operation q"
      "fingerprint (wq_operation q) (wq_payload q)" "wq_check q" "we_date env" "we_written env"]
  show thesis
  proof (elim disjE exE conjE)
    fix n assume "wt_next st \<le> n" "fst ?run = st\<lparr>wt_next := n\<rparr>"
    then show thesis using idle fst_eq by metis
  next
    fix r assume r: "snd ?run = Inr r"
    assume "wi_committed (wq_scope q) (wq_key q) (wq_operation q) (fingerprint (wq_operation q) (wq_payload q))
       (we_date env) st r (fst ?run)"
    moreover have "snd (exec_wi env raw cmd st) = (if we_published env then Inr r else Inl WiUnpublished)"
      using r unfolding eq by (cases ?run) simp
    ultimately show thesis using commit [OF Inr] fst_eq by metis
  qed
qed

section \<open>The invariant\<close>

definition seq_of :: "work_item \<Rightarrow> nat" where
  "seq_of i = (case wi_seq i of None \<Rightarrow> 0 | Some k \<Rightarrow> k)"

definition recorded_ok :: "wi_mutation \<Rightarrow> bool" where
  "recorded_ok m \<longleftrightarrow> assert_scope (wm_scope m) \<and> assert_text 200 True (wm_key m) \<and> validate_item (wm_result m)
     \<and> wi_tenant (wm_result m) = ws_tenant (wm_scope m)
     \<and> wi_conversation (wm_result m) = ws_conversation (wm_scope m)"

definition wi_good :: "wi_store \<Rightarrow> bool" where
  "wi_good st \<longleftrightarrow> list_all validate_item (wt_items st) \<and> distinct (map wi_id (wt_items st))
     \<and> (\<forall>i \<in> set (wt_items st). seq_of i \<le> wt_next st)
     \<and> (\<forall>m \<in> set (wt_mutations st). recorded_ok m)
     \<and> distinct (map (\<lambda>m. (wm_scope m, wm_key m)) (wt_mutations st))
     \<and> wt_disk st = (wt_items st, wt_mutations st)"

lemma normalize_text_Inr: "normalize_text n v = Inr s \<Longrightarrow> assert_text n True s"
  by (auto simp: normalize_text_def assert_text_def blank_def Let_def split: if_splits)

lemma normalize_scope_ok: "normalize_wi_scope raw = Inr sc \<Longrightarrow> assert_scope sc"
  by (auto simp: normalize_wi_scope_def chain_Inr assert_scope_def dest: normalize_text_Inr)

lemma wi_asks_scope: "wi_asks env sc cmd = Inr q \<Longrightarrow> wq_scope q = sc"
  by (cases cmd) (auto simp: chain_Inr)

lemma wi_request_scope:
  assumes "wi_request_of env raw cmd = Inr q"
  shows "normalize_wi_scope raw = Inr (wq_scope q)" and "assert_scope (wq_scope q)"
proof -
  obtain sc where "normalize_wi_scope raw = Inr sc" "wi_asks env sc cmd = Inr q"
    using assms by (auto simp: wi_request_of_def chain_Inr)
  then show "normalize_wi_scope raw = Inr (wq_scope q)" by (simp add: wi_asks_scope)
  then show "assert_scope (wq_scope q)" by (rule normalize_scope_ok)
qed

lemma find_mutation_None:
  "find_mutation sc k ms = None \<longleftrightarrow> (\<forall>m \<in> set ms. \<not> (wm_key m = k \<and> wm_scope m = sc))"
  by (auto simp: find_mutation_def same_wi_scope_def find_None_iff)

lemma effect_items:
  assumes "wi_effect sc (items, n) (items', n') r" and "validate_item r"
    and "list_all validate_item items" and "distinct (map wi_id items)" and "\<forall>i \<in> set items. seq_of i \<le> n"
  shows "list_all validate_item items' \<and> distinct (map wi_id items') \<and> (\<forall>i \<in> set items'. seq_of i \<le> n')
     \<and> same_conversation sc r"
  using assms(1)
proof cases
  case effect_same
  with assms show ?thesis by simp
next
  case effect_insert
  with assms show ?thesis by (auto simp: seq_of_def le_SucI)
next
  case (effect_update k)
  have ids: "map wi_id items' = map wi_id items"
    using effect_update by (simp add: map_update_same item_evolves_def)
  moreover have "list_all validate_item items'"
    using assms(3) effect_update by (auto simp: list_all_iff dest!: set_update_subset_insert [THEN subsetD])
  moreover have "\<forall>i \<in> set items'. seq_of i \<le> n'"
    using assms(5) effect_update by (auto simp: seq_of_def dest!: set_update_subset_insert [THEN subsetD] intro: le_SucI)
  moreover have "same_conversation sc r"
    using effect_update by (simp add: same_conversation_def item_evolves_def)
  ultimately show ?thesis using assms(4) by metis
qed

lemma exec_wi_good:
  assumes "wi_good st"
  shows "wi_good (fst (exec_wi env raw cmd st))"
proof (cases rule: exec_wi_cases [of st env raw cmd])
  case (idle n)
  with assms show ?thesis by (auto simp: wi_good_def intro: order_trans)
next
  case (commit q r)
  from commit(2) obtain items n where c: "wi_effect (wq_scope q) (wt_items st, wt_next st) (items, n) r"
    "find_mutation (wq_scope q) (wq_key q) (wt_mutations st) = None" "assert_text 200 True (wq_key q)" "validate_item r"
    "wt_items (fst (exec_wi env raw cmd st)) = items" "wt_next (fst (exec_wi env raw cmd st)) = n"
    "wt_mutations (fst (exec_wi env raw cmd st)) = \<lparr>wm_scope = wq_scope q, wm_key = wq_key q,
        wm_operation = wq_operation q, wm_fingerprint = fingerprint (wq_operation q) (wq_payload q),
        wm_result = r, wm_created = we_date env\<rparr> # wt_mutations st"
    "wt_disk (fst (exec_wi env raw cmd st)) = (wt_items (fst (exec_wi env raw cmd st)), wt_mutations (fst (exec_wi env raw cmd st)))"
    by (rule wi_committedE)
  have "list_all validate_item items \<and> distinct (map wi_id items) \<and> (\<forall>i \<in> set items. seq_of i \<le> n)
      \<and> same_conversation (wq_scope q) r"
    using effect_items [OF c(1,4)] assms by (simp add: wi_good_def)
  then show ?thesis
    using assms c wi_request_scope(2) [OF commit(1)]
    by (auto simp: wi_good_def recorded_ok_def same_conversation_def find_mutation_None)
qed

section \<open>Histories\<close>

text \<open>An event is a run of a command or a restart, which loads the file again.\<close>

datatype wi_event = WiRun wi_env wi_scope wi_command "wi_error + work_item" | WiRestart

inductive wi_step :: "wi_store \<Rightarrow> wi_event \<Rightarrow> wi_store \<Rightarrow> bool" where
  wi_step_run: "exec_wi env raw cmd st = (st', r) \<Longrightarrow> wi_step st (WiRun env raw cmd r) st'"
| wi_step_restart: "initialize_wi_store (Some (1, wt_disk st)) True = Inr st' \<Longrightarrow> wi_step st WiRestart st'"

end
