(* ===== verification/WorkItemRuns.thy ===== *)
theory WorkItemRuns
  imports WorkItemHistory
begin

text \<open>
  Runs of the work-item store across restarts: every request's fingerprint passes the loader, so that
  what a run wrote loads again; what a history keeps of items and records; what a retried command
  does; and who may change what.
\<close>

section \<open>Fingerprints fit the loader\<close>

text \<open>The texts the service hands on have no control characters other than tab and line breaks, so
  that each is written in at most two code units and none of them is a control character.\<close>

definition clean_text :: "string \<Rightarrow> bool" where
  "clean_text s \<longleftrightarrow> list_all (\<lambda>c. \<not> text_control c) s"

lemma clean_simps [simp]:
  "clean_text []" "clean_text (c # s) \<longleftrightarrow> \<not> text_control c \<and> clean_text s"
  "clean_text (s @ t) \<longleftrightarrow> clean_text s \<and> clean_text t"
  by (auto simp: clean_text_def)

lemma json_char_clean: "\<not> text_control c \<Longrightarrow> clean_text (json_char c) \<and> length (json_char c) \<le> 2"
  by (auto simp: json_char_def Let_def text_control_def code_unit_def)

lemma json_text_clean:
  "clean_text s \<Longrightarrow> clean_text (json_text s) \<and> length (json_text s) \<le> 2 + 2 * length s"
proof -
  have "clean_text s \<Longrightarrow> clean_text (concat (map json_char s)) \<and> length (concat (map json_char s)) \<le> 2 * length s"
  proof (induction s)
    case Nil
    then show ?case by simp
  next
    case (Cons c s)
    with json_char_clean [of c] show ?case by auto
  qed
  then show "clean_text s \<Longrightarrow> ?thesis"
    by (auto simp: json_text_def text_control_def code_unit_def)
qed

lemma join_with_length: "length (join_with c xs) \<le> sum_list (map length xs) + length xs"
  by (induction c xs rule: join_with.induct) auto

lemma join_with_clean: "\<not> text_control c \<Longrightarrow> list_all clean_text xs \<Longrightarrow> clean_text (join_with c xs)"
  by (induction c xs rule: join_with.induct) auto

text \<open>The size of a rendering, however its fields are ordered.\<close>

fun json_size :: "json \<Rightarrow> nat" where
  "json_size JNull = 4"
| "json_size (JText s) = 2 + 2 * length s"
| "json_size (JArray vs) = 2 + sum_list (map (\<lambda>v. json_size v + 1) vs)"
| "json_size (JObject kvs) = 2 + sum_list (map (\<lambda>(k, v). json_size v + 2 * length k + 4) kvs)"

fun json_clean :: "json \<Rightarrow> bool" where
  "json_clean JNull \<longleftrightarrow> True"
| "json_clean (JText s) \<longleftrightarrow> clean_text s"
| "json_clean (JArray vs) \<longleftrightarrow> list_all json_clean vs"
| "json_clean (JObject kvs) \<longleftrightarrow> list_all (\<lambda>(k, v). clean_text k \<and> json_clean v) kvs"

lemma sum_list_sort_key: "sum_list (map (g :: 'a \<Rightarrow> nat) (sort_key f xs)) = sum_list (map g xs)"
proof -
  have "sum_list (map g (insort_key f x ys)) = g x + sum_list (map g ys)" for x ys
    by (induction ys) auto
  then show ?thesis by (induction xs) simp_all
qed

lemma stringify_size:
  "json_clean v \<Longrightarrow> clean_text (stable_stringify v) \<and> length (stable_stringify v) \<le> json_size v"
proof (induction v rule: stable_stringify.induct)
  case 1
  then show ?case by (simp add: text_control_def code_unit_def)
next
  case (2 s)
  then show ?case using json_text_clean by simp
next
  case (3 vs)
  have "length (join_with CHR '','' (map stable_stringify vs))
      \<le> sum_list (map length (map stable_stringify vs)) + length (map stable_stringify vs)"
    by (rule join_with_length)
  also have "\<dots> = sum_list (map (\<lambda>v. length (stable_stringify v) + 1) vs)"
    by (induction vs) auto
  also have "\<dots> \<le> sum_list (map (\<lambda>v. json_size v + 1) vs)"
    by (rule sum_list_mono) (use 3 in \<open>auto simp: list_all_iff\<close>)
  finally have "length (join_with CHR '','' (map stable_stringify vs)) \<le> sum_list (map (\<lambda>v. json_size v + 1) vs)" .
  moreover have "clean_text (join_with CHR '','' (map stable_stringify vs))"
    by (rule join_with_clean) (use 3 in \<open>auto simp: list_all_iff text_control_def code_unit_def\<close>)
  ultimately show ?case by (simp add: text_control_def code_unit_def)
next
  case (4 kvs)
  let ?part = "\<lambda>(k, v). (k, json_text k @ CHR '':'' # stable_stringify v)"
  let ?parts = "map snd (sort_key fst (map ?part kvs))"
  have each: "clean_text (snd (?part kv)) \<and> length (snd (?part kv)) + 1 \<le> json_size (snd kv) + 2 * length (fst kv) + 4"
    if "kv \<in> set kvs" for kv
    using 4 that json_text_clean [of "fst kv"]
    by (cases kv) (fastforce simp: list_all_iff text_control_def code_unit_def)
  have "length (join_with CHR '','' ?parts) \<le> sum_list (map length ?parts) + length ?parts"
    by (rule join_with_length)
  also have "\<dots> = sum_list (map (\<lambda>x. length (snd x)) (sort_key fst (map ?part kvs))) + length kvs"
    by (simp add: o_def)
  also have "\<dots> = sum_list (map (\<lambda>kv. length (snd (?part kv)) + 1) kvs)"
    by (simp only: sum_list_sort_key) (induction kvs, auto)
  also have "\<dots> \<le> sum_list (map (\<lambda>kv. json_size (snd kv) + 2 * length (fst kv) + 4) kvs)"
    by (rule sum_list_mono) (use each in blast)
  finally have "length (join_with CHR '','' ?parts) \<le> sum_list (map (\<lambda>(k, v). json_size v + 2 * length k + 4) kvs)"
    by (simp add: case_prod_unfold)
  moreover have "clean_text (join_with CHR '','' ?parts)"
    by (rule join_with_clean) (use each in \<open>auto simp: list_all_iff text_control_def code_unit_def\<close>)
  ultimately show ?case by (simp add: text_control_def code_unit_def)
qed

lemma stringify_not_blank: "\<not> blank (stable_stringify (JObject kvs))"
  by (simp add: blank_def js_trim_def js_space_def code_unit_def dropWhile_eq_Nil_conv)

lemma read_name_Inr: "read_name name all v = Inr x \<Longrightarrow> x \<in> set all \<and> name x = v"
  by (auto simp: read_name_def split: option.splits dest: find_Some_mem)

lemma normalize_text_clean:
  "normalize_text n v = Inr s \<Longrightarrow> clean_text s \<and> length s \<le> n \<and> s \<noteq> []"
  by (auto simp: normalize_text_def Let_def clean_text_def list_all_iff list_ex_iff split: if_splits)

lemma normalize_optional_clean:
  "normalize_optional_text n v = Inr s \<Longrightarrow> clean_text s \<and> length s \<le> n"
  by (auto simp: normalize_optional_text_def Let_def clean_text_def list_all_iff list_ex_iff split: if_splits)

lemma label_list_clean:
  "normalize_label_list seen vs = Inr ls \<Longrightarrow> length ls = length vs
     \<and> list_all (\<lambda>l. clean_text l \<and> length l \<le> 80 \<and> assert_text 80 True l) ls \<and> distinct ls \<and> set ls \<inter> set seen = {}"
proof (induction seen vs arbitrary: ls rule: normalize_label_list.induct)
  case (1 seen)
  then show ?case by simp
next
  case (2 seen v vs)
  then obtain l rest where l: "normalize_text 80 v = Inr l" "l \<notin> set seen"
    and rest: "normalize_label_list (l # seen) vs = Inr rest" and ls: "ls = l # rest"
    by (auto simp: chain_Inr split: if_splits)
  from "2.IH" [OF l(2) rest] normalize_text_clean [OF l(1)] normalize_text_Inr [OF l(1)] l(2) show ?case
    by (auto simp: ls)
qed

lemma labels_clean:
  "normalize_labels vs = Inr ls \<Longrightarrow> length ls \<le> 40
     \<and> list_all (\<lambda>l. clean_text l \<and> length l \<le> 80 \<and> assert_text 80 True l) ls \<and> distinct ls"
  by (auto simp: normalize_labels_def dest!: label_list_clean split: if_splits)

lemma digit_clean: "digit_char c \<Longrightarrow> \<not> text_control c"
  by (auto simp: digit_char_def text_control_def Let_def)

lemma date_clean: "normalize_date v = Inr s \<Longrightarrow> clean_text s \<and> length s = 10 \<and> assert_date s"
proof -
  assume "normalize_date v = Inr s"
  then have s: "assert_date s" by (simp add: normalize_date_def split: if_splits)
  then have "date_shape s" by (simp add: assert_date_def)
  then have l: "length s = 10" and at: "\<forall>i < 10. if i \<in> {4, 7} then s ! i = CHR ''-'' else digit_char (s ! i)"
    by (auto simp: date_shape_def)
  have dash: "\<not> text_control (CHR ''-'')" by (simp add: text_control_def code_unit_def)
  have "clean_text s"
    unfolding clean_text_def list_all_length l
    using at digit_clean dash by metis
  with l s show ?thesis by simp
qed

lemma labels_size:
  "length ls \<le> 40 \<Longrightarrow> list_all (\<lambda>l. clean_text l \<and> length l \<le> 80 \<and> assert_text 80 True l) ls
     \<Longrightarrow> json_clean (JArray (map JText ls)) \<and> json_size (JArray (map JText ls)) \<le> 6522"
proof -
  assume l: "length ls \<le> 40" and a: "list_all (\<lambda>l. clean_text l \<and> length l \<le> 80 \<and> assert_text 80 True l) ls"
  have "sum_list (map (\<lambda>l. 3 + 2 * length l) ls) \<le> sum_list (map (\<lambda>l. 163) ls)"
    by (rule sum_list_mono) (use a in \<open>auto simp: list_all_iff\<close>)
  also have "\<dots> = 163 * length ls" by (simp add: sum_list_triv)
  finally have "sum_list (map (\<lambda>l. 3 + 2 * length l) ls) \<le> 6520" using l by linarith
  moreover have "(\<lambda>l. Suc (Suc (Suc (2 * length l)))) = (\<lambda>l :: string. 3 + 2 * length l)" by auto
  ultimately show ?thesis using a by (simp add: o_def list_all_iff)
qed

lemma names_clean:
  "clean_text (status_name s) \<and> length (status_name s) \<le> 11"
  "clean_text (priority_name p) \<and> length (priority_name p) \<le> 6"
  "clean_text (relation_name r) \<and> length (relation_name r) \<le> 12"
  "clean_text (operation_name k) \<and> length (operation_name k) \<le> 10"
  subgoal by (cases s) (simp_all add: text_control_def code_unit_def)
  subgoal by (cases p) (simp_all add: text_control_def code_unit_def)
  subgoal by (cases r) (simp_all add: text_control_def code_unit_def)
  subgoal by (cases k) (simp_all add: text_control_def code_unit_def)
  done

lemma small_payloads:
  assumes "clean_text i \<and> length i \<le> 200"
  shows "json_clean (JObject [(''itemId'', JText i)]) \<and> json_size (JObject [(''itemId'', JText i)]) \<le> 17000"
    and "clean_text k \<Longrightarrow> length k \<le> 10 \<Longrightarrow> json_clean v \<Longrightarrow> json_size v \<le> 5000
      \<Longrightarrow> json_clean (JObject [(''itemId'', JText i), (k, v)]) \<and> json_size (JObject [(''itemId'', JText i), (k, v)]) \<le> 17000"
  using assms by (simp_all add: text_control_def code_unit_def)

lemma asks_payload_fits:
  assumes "wi_asks env sc cmd = Inr q"
  shows "json_clean (wq_payload q) \<and> json_size (wq_payload q) \<le> 17000"
proof (cases cmd)
  case (CmdCreate x)
  then obtain n where n: "normalize_create x = Inr n" "wq_payload q = create_payload n"
    using assms by (auto simp: chain_Inr)
  have job: "pred_option (\<lambda>s. clean_text s \<and> length s \<le> 256) (wn_job n)"
    and due: "pred_option (\<lambda>s. clean_text s \<and> length s = 10) (wn_due n)"
    and texts: "clean_text (wn_title n) \<and> length (wn_title n) \<le> 400"
      "clean_text (wn_description n) \<and> length (wn_description n) \<le> 4000"
    and labels: "length (wn_labels n) \<le> 40"
      "list_all (\<lambda>l. clean_text l \<and> length l \<le> 80 \<and> assert_text 80 True l) (wn_labels n)"
    using n(1) by (auto simp: normalize_create_def chain_Inr optionally_def split: option.splits
        dest: normalize_text_clean normalize_optional_clean labels_clean date_clean)
  have opt: "json_clean (json_option v) \<and> json_size (json_option v) \<le> 2 + 2 * m"
    if "pred_option (\<lambda>s. clean_text s \<and> length s \<le> m) v" "1 \<le> m" for v m
    using that by (cases v) (auto simp: json_option_def)
  have due': "pred_option (\<lambda>s. clean_text s \<and> length s \<le> 10) (wn_due n)"
    using due by (cases "wn_due n") auto
  show ?thesis
    using texts labels_size [OF labels] names_clean(1) [of "wn_status n"] names_clean(2) [of "wn_priority n"]
      names_clean(3) [of "wn_relation n"] opt [OF job] opt [OF due']
    by (auto simp: n(2) create_payload_def text_control_def code_unit_def)
next
  case (CmdEdit iid k p)
  then obtain i patch where q: "normalize_edit iid k p = Inr (i, wq_key q, patch)"
    "wq_payload q = JObject [(''itemId'', JText i), (''patch'', patch_json patch)]"
    using assms by (auto simp: chain_Inr)
  have i: "clean_text i \<and> length i \<le> 200" and p': "normalize_patch p = Inr patch"
    using q(1) by (auto simp: normalize_edit_def chain_Inr normalize_id_def dest: normalize_text_clean)
  have title: "pred_option (\<lambda>s. clean_text s \<and> length s \<le> 400) (pn_title patch)"
    and description: "pred_option (pred_option (\<lambda>s. clean_text s \<and> length s \<le> 4000)) (pn_description patch)"
    and labels: "pred_option (\<lambda>ls. length ls \<le> 40
      \<and> list_all (\<lambda>l. clean_text l \<and> length l \<le> 80 \<and> assert_text 80 True l) ls) (pn_labels patch)"
    and due: "pred_option (pred_option (\<lambda>s. clean_text s \<and> length s \<le> 10)) (pn_due patch)"
    using p' by (auto simp: normalize_patch_def chain_Inr optionally_def split: option.splits if_splits
        dest: normalize_text_clean normalize_optional_clean labels_clean date_clean)
  have f1: "list_all (\<lambda>(k, v). clean_text k \<and> json_clean v) (field ''title'' JText (pn_title patch))
      \<and> sum_list (map (\<lambda>(k, v). json_size v + 2 * length k + 4) (field ''title'' JText (pn_title patch))) \<le> 816"
    using title by (auto simp: field_def text_control_def code_unit_def split: option.splits)
  have f2: "list_all (\<lambda>(k, v). clean_text k \<and> json_clean v) (field ''description'' json_option (pn_description patch))
      \<and> sum_list (map (\<lambda>(k, v). json_size v + 2 * length k + 4) (field ''description'' json_option (pn_description patch))) \<le> 8028"
    using description by (auto simp: field_def json_option_def text_control_def code_unit_def split: option.splits)
  have f3: "list_all (\<lambda>(k, v). clean_text k \<and> json_clean v) (field ''priority'' (\<lambda>x. JText (priority_name x)) (pn_priority patch))
      \<and> sum_list (map (\<lambda>(k, v). json_size v + 2 * length k + 4) (field ''priority'' (\<lambda>x. JText (priority_name x)) (pn_priority patch))) \<le> 34"
    using names_clean(2) by (auto simp: field_def text_control_def code_unit_def split: option.splits)
  have f4: "list_all (\<lambda>(k, v). clean_text k \<and> json_clean v) (field ''labels'' (\<lambda>ls. JArray (map JText ls)) (pn_labels patch))
      \<and> sum_list (map (\<lambda>(k, v). json_size v + 2 * length k + 4) (field ''labels'' (\<lambda>ls. JArray (map JText ls)) (pn_labels patch))) \<le> 6538"
    using labels labels_size by (fastforce simp: field_def text_control_def code_unit_def split: option.splits)
  have f5: "list_all (\<lambda>(k, v). clean_text k \<and> json_clean v) (field ''dueDate'' json_option (pn_due patch))
      \<and> sum_list (map (\<lambda>(k, v). json_size v + 2 * length k + 4) (field ''dueDate'' json_option (pn_due patch))) \<le> 40"
    using due by (auto simp: field_def json_option_def text_control_def code_unit_def split: option.splits)
  show ?thesis
    using f1 f2 f3 f4 f5 i by (auto simp: q(2) patch_json_def text_control_def code_unit_def)
next
  case (CmdTransition iid k v)
  then obtain i s where i: "normalize_text 200 iid = Inr i"
    and q: "wq_payload q = JObject [(''itemId'', JText i), (''status'', JText (status_name s))]"
    using assms by (auto simp: chain_Inr normalize_transition_def normalize_id_def)
  show ?thesis
    unfolding q using normalize_text_clean [OF i] names_clean(1) [of s]
    by (intro small_payloads(2)) (auto simp: text_control_def code_unit_def)
next
  case (CmdAssign iid k v)
  then obtain i a where i: "normalize_text 200 iid = Inr i" and a: "optionally (normalize_text 256) v = Inr a"
    and q: "wq_payload q = JObject [(''itemId'', JText i), (''assigneeId'', json_option a)]"
    using assms by (auto simp: chain_Inr normalize_assign_def normalize_id_def)
  have "json_clean (json_option a) \<and> json_size (json_option a) \<le> 5000"
    using a by (auto simp: optionally_def chain_Inr json_option_def split: option.splits dest!: normalize_text_clean)
  then show ?thesis
    unfolding q using normalize_text_clean [OF i]
    by (intro small_payloads(2)) (auto simp: text_control_def code_unit_def)
next
  case (CmdComment iid k v)
  then obtain i b where i: "normalize_text 200 iid = Inr i" and b: "normalize_text 2000 v = Inr b"
    and q: "wq_payload q = JObject [(''itemId'', JText i), (''body'', JText b)]"
    using assms by (auto simp: chain_Inr normalize_comment_def normalize_id_def)
  show ?thesis
    unfolding q using normalize_text_clean [OF i] normalize_text_clean [OF b]
    by (intro small_payloads(2)) (auto simp: text_control_def code_unit_def)
qed (use assms small_payloads(1) normalize_text_clean in
    \<open>auto simp: chain_Inr normalize_target_def normalize_id_def simp del: json_clean.simps json_size.simps\<close>)

lemma request_fingerprint:
  assumes "wi_request_of env raw cmd = Inr q"
  shows "assert_text 20000 True (fingerprint (wq_operation q) (wq_payload q))"
proof -
  have payload: "json_clean (wq_payload q)" "json_size (wq_payload q) \<le> 17000"
    using assms asks_payload_fits by (auto simp: wi_request_of_def chain_Inr)
  let ?v = "JObject [(''operation'', JText (operation_name (wq_operation q))), (''payload'', wq_payload q)]"
  have "json_clean ?v" "json_size ?v \<le> 20000"
    using payload names_clean(4) [of "wq_operation q"] by (auto simp: text_control_def code_unit_def)
  then have "clean_text (stable_stringify ?v) \<and> length (stable_stringify ?v) \<le> 20000"
    using stringify_size [of ?v] by linarith
  then show ?thesis
    unfolding assert_text_def fingerprint_def using stringify_not_blank
    by (simp add: clean_text_def list_all_iff list_ex_iff del: stable_stringify.simps)
qed

section \<open>Restarting\<close>

definition wi_loadable :: "wi_store \<Rightarrow> bool" where
  "wi_loadable st \<longleftrightarrow> (\<forall>m \<in> set (wt_mutations st). assert_text 20000 True (wm_fingerprint m) \<and> date_range (wm_created m))"

lemma scope_key_inj:
  assumes "assert_scope (wm_scope a)" "assert_scope (wm_scope b)" "mutation_scope_key a = mutation_scope_key b"
  shows "wm_scope a = wm_scope b \<and> wm_key a = wm_key b"
proof -
  have nul: "CHR 0x00 \<notin> set s" if "assert_text n True s" for n s
  proof
    assume "CHR 0x00 \<in> set s"
    moreover have "text_control (CHR 0x00)" by (simp add: text_control_def code_unit_def)
    ultimately show False using that by (auto simp: assert_text_def list_ex_iff)
  qed
  have cut: "x = x' \<and> y = y'" if "x @ CHR 0x00 # y = x' @ CHR 0x00 # y'" "CHR 0x00 \<notin> set x" "CHR 0x00 \<notin> set x'"
    for x x' y y' :: string
  proof -
    have "takeWhile (\<lambda>c. c \<noteq> CHR 0x00) (x @ CHR 0x00 # y) = x" if "CHR 0x00 \<notin> set x" for x y :: string
      using that by (induction x) auto
    from this [OF that(2), of y] this [OF that(3), of y'] have "x = x'" using that(1) by simp
    with that(1) show ?thesis by simp
  qed
  from assms(3) have eq: "ws_tenant (wm_scope a) @ CHR 0x00 # ws_requester (wm_scope a) @ CHR 0x00 # ws_conversation (wm_scope a) @ CHR 0x00 # wm_key a
    = ws_tenant (wm_scope b) @ CHR 0x00 # ws_requester (wm_scope b) @ CHR 0x00 # ws_conversation (wm_scope b) @ CHR 0x00 # wm_key b"
    by (simp add: mutation_scope_key_def)
  note parts = assms(1,2) [unfolded assert_scope_def]
  have t: "ws_tenant (wm_scope a) = ws_tenant (wm_scope b)"
    and eq2: "ws_requester (wm_scope a) @ CHR 0x00 # ws_conversation (wm_scope a) @ CHR 0x00 # wm_key a
      = ws_requester (wm_scope b) @ CHR 0x00 # ws_conversation (wm_scope b) @ CHR 0x00 # wm_key b"
    using cut [OF eq] nul parts by blast+
  have r: "ws_requester (wm_scope a) = ws_requester (wm_scope b)"
    and eq3: "ws_conversation (wm_scope a) @ CHR 0x00 # wm_key a = ws_conversation (wm_scope b) @ CHR 0x00 # wm_key b"
    using cut [OF eq2] nul parts by blast+
  have "ws_conversation (wm_scope a) = ws_conversation (wm_scope b) \<and> wm_key a = wm_key b"
    using cut [OF eq3] nul parts by blast
  with t r show ?thesis by (simp add: wi_scope.equality)
qed

lemma load_items_ok:
  "list_all validate_item items \<Longrightarrow> distinct (map wi_id items) \<Longrightarrow> set (map wi_id items) \<inter> set seen = {}
     \<Longrightarrow> load_items seen items = Inr items"
  by (induction items arbitrary: seen) auto

lemma load_mutations_ok:
  "list_all validate_mutation ms \<Longrightarrow> distinct (map mutation_scope_key ms)
     \<Longrightarrow> set (map mutation_scope_key ms) \<inter> set seen = {} \<Longrightarrow> load_mutations seen ms = Inr ms"
  by (induction ms arbitrary: seen) auto

lemma distinct_scope_keys:
  "\<forall>m \<in> set ms. recorded_ok m \<Longrightarrow> distinct (map (\<lambda>m. (wm_scope m, wm_key m)) ms) \<Longrightarrow> distinct (map mutation_scope_key ms)"
proof (induction ms)
  case Nil
  then show ?case by simp
next
  case (Cons m ms)
  have "mutation_scope_key m \<notin> set (map mutation_scope_key ms)"
  proof
    assume "mutation_scope_key m \<in> set (map mutation_scope_key ms)"
    then obtain m' where "m' \<in> set ms" "mutation_scope_key m = mutation_scope_key m'" by auto
    then have "wm_scope m = wm_scope m' \<and> wm_key m = wm_key m'"
      using Cons.prems(1) by (intro scope_key_inj) (auto simp: recorded_ok_def)
    moreover have "(wm_scope m, wm_key m) \<notin> (\<lambda>m. (wm_scope m, wm_key m)) ` set ms" using Cons.prems(2) by simp
    ultimately show False using \<open>m' \<in> set ms\<close> by force
  qed
  with Cons show ?case by simp
qed

lemma max_sequence_le: "(\<forall>i \<in> set items. seq_of i \<le> n) \<Longrightarrow> max_sequence items \<le> n"
  and seq_le_max: "i \<in> set items \<Longrightarrow> seq_of i \<le> max_sequence items"
proof -
  have eq: "max_sequence items = foldl (\<lambda>n i. max n (seq_of i)) 0 items" for items
    by (simp add: max_sequence_def seq_of_def)
  have "(\<forall>i \<in> set items. seq_of i \<le> n) \<Longrightarrow> b \<le> n \<Longrightarrow> foldl (\<lambda>n i. max n (seq_of i)) b items \<le> n" for b
    by (induction items arbitrary: b) auto
  then show "(\<forall>i \<in> set items. seq_of i \<le> n) \<Longrightarrow> max_sequence items \<le> n" by (simp add: eq)
  have lower: "b \<le> foldl (\<lambda>n i. max n (seq_of i)) b items" for b and items :: "work_item list"
  proof (induction items arbitrary: b)
    case (Cons x items)
    from Cons [of "max b (seq_of x)"] show ?case by simp
  qed simp
  have "i \<in> set items \<Longrightarrow> seq_of i \<le> foldl (\<lambda>n i. max n (seq_of i)) b items" for b
  proof (induction items arbitrary: b)
    case (Cons x items)
    with lower [of "max b (seq_of x)" items] show ?case by auto
  qed simp
  then show "i \<in> set items \<Longrightarrow> seq_of i \<le> max_sequence items" by (simp add: eq)
qed

lemma wi_restart:
  assumes "wi_good st" and "wi_loadable st"
  shows "initialize_wi_store (Some (1, wt_disk st)) ok
    = Inr (st\<lparr>wt_next := max_sequence (wt_items st)\<rparr>)"
proof -
  have items: "load_items [] (wt_items st) = Inr (wt_items st)"
    using assms(1) by (intro load_items_ok) (simp_all add: wi_good_def)
  have "list_all validate_mutation (wt_mutations st)"
    using assms by (auto simp: list_all_iff wi_good_def wi_loadable_def recorded_ok_def validate_mutation_def)
  moreover have "distinct (map mutation_scope_key (wt_mutations st))"
    using assms(1) by (intro distinct_scope_keys) (simp_all add: wi_good_def)
  ultimately have ms: "load_mutations [] (wt_mutations st) = Inr (wt_mutations st)"
    by (intro load_mutations_ok) simp_all
  have disk: "wt_disk st = (wt_items st, wt_mutations st)" using assms(1) by (simp add: wi_good_def)
  show ?thesis by (simp add: initialize_wi_store_def load_wi_store_def disk items ms)
qed

lemma load_items_same: "load_items seen items = Inr xs \<Longrightarrow> xs = items"
  by (induction seen items arbitrary: xs rule: load_items.induct) (auto simp: chain_Inr split: if_splits)

lemma load_mutations_same: "load_mutations seen ms = Inr xs \<Longrightarrow> xs = ms"
  by (induction seen ms arbitrary: xs rule: load_mutations.induct) (auto simp: chain_Inr split: if_splits)

lemma wi_restart_same:
  assumes "initialize_wi_store (Some (v, wt_disk st)) ok = Inr st'" and "wi_good st"
  shows "st' = st\<lparr>wt_next := max_sequence (wt_items st)\<rparr>"
proof -
  have disk: "wt_disk st = (wt_items st, wt_mutations st)" using assms(2) by (simp add: wi_good_def)
  show ?thesis
    using assms(1) by (auto simp: initialize_wi_store_def load_wi_store_def disk chain_Inr
        dest!: load_items_same load_mutations_same split: if_splits)
qed

section \<open>What a history keeps\<close>

definition timely :: "wi_event \<Rightarrow> bool" where
  "timely ev \<longleftrightarrow> (case ev of WiRun env _ _ _ \<Rightarrow> date_range (we_date env) | WiRestart \<Rightarrow> True)"

lemma exec_wi_loadable:
  assumes "wi_loadable st" and "date_range (we_date env)"
  shows "wi_loadable (fst (exec_wi env raw cmd st))"
proof (cases rule: exec_wi_cases [of st env raw cmd])
  case (idle n)
  with assms show ?thesis by (simp add: wi_loadable_def)
next
  case (commit q r)
  from commit(2) show ?thesis
    by (rule wi_committedE) (use assms request_fingerprint [OF commit(1)] in \<open>simp add: wi_loadable_def\<close>)
qed

lemma wi_step_good:
  assumes "wi_step st ev st'" and "wi_good st"
  shows "wi_good st'"
  using assms(1)
proof cases
  case (wi_step_run env raw cmd r)
  with exec_wi_good [OF assms(2), of env raw cmd] show ?thesis by simp
next
  case wi_step_restart
  then have "st' = st\<lparr>wt_next := max_sequence (wt_items st)\<rparr>" using wi_restart_same assms(2) by blast
  then show ?thesis using assms(2) seq_le_max by (simp add: wi_good_def)
qed

lemma wi_step_loadable:
  assumes "wi_step st ev st'" and "timely ev" and "wi_good st \<and> wi_loadable st"
  shows "wi_good st' \<and> wi_loadable st'"
proof -
  have "wi_loadable st'"
    using assms(1)
  proof cases
    case (wi_step_run env raw cmd r)
    with exec_wi_loadable [of st env raw cmd] assms(2,3) show ?thesis by (simp add: timely_def)
  next
    case wi_step_restart
    then have "st' = st\<lparr>wt_next := max_sequence (wt_items st)\<rparr>" using wi_restart_same assms(3) by blast
    then show ?thesis using assms(3) by (simp add: wi_loadable_def)
  qed
  with wi_step_good assms show ?thesis by blast
qed

lemma wi_steps_good: "steps_of wi_step st evs st' \<Longrightarrow> wi_good st \<Longrightarrow> wi_good st'"
  by (erule steps_of_invariant [where step = wi_step and I = wi_good]) (rule wi_step_good)

lemma wi_steps_loadable:
  "steps_of wi_step st evs st' \<Longrightarrow> \<forall>ev \<in> set evs. timely ev \<Longrightarrow> wi_good st \<Longrightarrow> wi_loadable st
     \<Longrightarrow> wi_good st' \<and> wi_loadable st'"
  by (erule steps_of_invariant_on [where step = wi_step and I = "\<lambda>s. wi_good s \<and> wi_loadable s" and Q = timely])
    (simp_all add: wi_step_loadable)

text \<open>Records are only ever added, and every item lives on.\<close>

definition wi_extends :: "wi_store \<Rightarrow> wi_store \<Rightarrow> bool" where
  "wi_extends st st' \<longleftrightarrow> (\<exists>new. wt_mutations st' = new @ wt_mutations st)
     \<and> (\<forall>i \<in> set (wt_items st). \<exists>u \<in> set (wt_items st'). item_evolves i u)"

lemma item_kept: "i \<in> A \<Longrightarrow> \<exists>u \<in> A. item_evolves i u"
  by (rule bexI [of _ i]) simp

lemma wi_extends_refl [simp]: "wi_extends st st"
  by (auto simp: wi_extends_def intro: item_kept)

lemma wi_extends_trans: "wi_extends a b \<Longrightarrow> wi_extends b c \<Longrightarrow> wi_extends a c"
  unfolding wi_extends_def by (metis append_assoc item_evolves_trans)

lemma effect_extends:
  assumes "wi_effect sc (items, n) (items', n') r" and "i \<in> set items"
  shows "\<exists>u \<in> set items'. item_evolves i u"
  using assms(1)
proof cases
  case effect_same
  with assms(2) show ?thesis by (auto intro: bexI [of _ i])
next
  case effect_insert
  with assms(2) show ?thesis by (auto intro: bexI [of _ i])
next
  case (effect_update k)
  from assms(2) obtain m where m: "m < length items" "items ! m = i" by (auto simp: in_set_conv_nth)
  show ?thesis
  proof (cases "m = k")
    case True
    with effect_update m show ?thesis by (auto intro: bexI [of _ r] set_update_memI)
  next
    case False
    with effect_update m have "i \<in> set items'" by (metis length_list_update nth_list_update_neq nth_mem)
    then show ?thesis by (auto intro: bexI [of _ i])
  qed
qed

lemma wi_step_extends:
  assumes "wi_step st ev st'" and "wi_good st"
  shows "wi_good st' \<and> wi_extends st st'"
proof -
  have "wi_extends st st'"
    using assms(1)
  proof cases
    case (wi_step_run env raw cmd r)
    then have st': "st' = fst (exec_wi env raw cmd st)" by simp
    show ?thesis
    proof (cases rule: exec_wi_cases [of st env raw cmd])
      case (idle n)
      then show ?thesis by (auto simp: st' wi_extends_def intro: item_kept)
    next
      case (commit q r')
      from commit(2) show ?thesis
        by (rule wi_committedE) (auto simp: st' wi_extends_def dest: effect_extends)
    qed
  next
    case wi_step_restart
    then have "st' = st\<lparr>wt_next := max_sequence (wt_items st)\<rparr>" using wi_restart_same assms(2) by blast
    then show ?thesis by (auto simp: wi_extends_def intro: item_kept)
  qed
  with wi_step_good [OF assms] show ?thesis by blast
qed

lemma wi_steps_extend: "steps_of wi_step st evs st' \<Longrightarrow> wi_good st \<Longrightarrow> wi_extends st st'"
  by (erule steps_of_relation [where step = wi_step and I = wi_good and R = wi_extends])
    (assumption | rule wi_extends_refl | erule wi_step_extends wi_extends_trans)+

section \<open>Retries\<close>

lemma asks_same_request:
  "wi_asks env sc cmd = Inr q \<Longrightarrow> wi_asks env' sc cmd = Inr q'
     \<Longrightarrow> wq_scope q' = wq_scope q \<and> wq_key q' = wq_key q \<and> wq_operation q' = wq_operation q \<and> wq_payload q' = wq_payload q"
  by (cases cmd) (auto simp: chain_Inr)

lemma request_same:
  assumes "wi_request_of env raw cmd = Inr q" and "wi_request_of env' raw cmd = Inr q'"
  shows "wq_scope q' = wq_scope q \<and> wq_key q' = wq_key q \<and> wq_operation q' = wq_operation q \<and> wq_payload q' = wq_payload q"
proof -
  obtain sc where "wi_asks env sc cmd = Inr q" "wi_asks env' sc cmd = Inr q'"
    using assms by (auto simp: wi_request_of_def chain_Inr simp del: wi_asks.simps)
  then show ?thesis by (rule asks_same_request)
qed

definition answered :: "wi_request \<Rightarrow> work_item \<Rightarrow> wi_mutation list \<Rightarrow> bool" where
  "answered q i ms \<longleftrightarrow> (\<exists>m. find_mutation (wq_scope q) (wq_key q) ms = Some m \<and> wm_operation m = wq_operation q
     \<and> wm_fingerprint m = fingerprint (wq_operation q) (wq_payload q) \<and> wm_result m = i)"

lemma serve_answered:
  assumes "serve env (wq_scope q) (wq_operation q) (wq_key q) (wq_payload q) action check st = (st', Inr i)"
  shows "answered q i (wt_mutations st')"
proof -
  have "run_mutation (wq_scope q) (wq_key q) (wq_operation q) (fingerprint (wq_operation q) (wq_payload q))
      action check (we_date env) (we_written env) st = (st', Inr i)"
    using assms by (auto simp: serve_def split: prod.splits sum.splits if_splits)
  note run = this
  show ?thesis
  proof (cases "find_mutation (wq_scope q) (wq_key q) (wt_mutations st)")
    case (Some m)
    with run show ?thesis
      by (auto simp: run_mutation_def answered_def split: if_splits option.splits)
  next
    case None
    obtain items n x where a: "action (wt_items st, wt_next st) = ((items, n), x)" by (metis prod.exhaust)
    have "\<exists>t. wt_mutations st' = \<lparr>wm_scope = wq_scope q, wm_key = wq_key q, wm_operation = wq_operation q,
        wm_fingerprint = fingerprint (wq_operation q) (wq_payload q), wm_result = i, wm_created = t\<rparr> # wt_mutations st"
      using run None a by (cases x) (auto simp: run_mutation_def Let_def split: if_splits)
    then show ?thesis by (auto simp: answered_def find_mutation_def same_wi_scope_def)
  qed
qed

lemma exec_answered:
  assumes "exec_wi env raw cmd st = (st', Inr i)"
  obtains q where "wi_request_of env raw cmd = Inr q" "answered q i (wt_mutations st')"
  using assms serve_answered by (auto simp: exec_wi_request normal_def split: sum.splits)

lemma find_mutation_unique:
  "m \<in> set ms \<Longrightarrow> distinct (map (\<lambda>m. (wm_scope m, wm_key m)) ms) \<Longrightarrow> find_mutation (wm_scope m) (wm_key m) ms = Some m"
proof (induction ms)
  case Nil
  then show ?case by simp
next
  case (Cons x ms)
  show ?case
  proof (cases "m = x")
    case True
    then show ?thesis by (simp add: find_mutation_def same_wi_scope_def)
  next
    case False
    then have m: "m \<in> set ms" using Cons.prems by simp
    have "(wm_scope m, wm_key m) \<noteq> (wm_scope x, wm_key x)"
    proof -
      have "(wm_scope m, wm_key m) \<in> (\<lambda>m. (wm_scope m, wm_key m)) ` set ms" using m by (rule imageI)
      with Cons.prems(2) show ?thesis by auto
    qed
    then have "find_mutation (wm_scope m) (wm_key m) (x # ms) = find_mutation (wm_scope m) (wm_key m) ms"
      by (auto simp: find_mutation_def same_wi_scope_def intro: wi_scope.equality)
    with Cons m show ?thesis by simp
  qed
qed

lemma answered_persists:
  assumes "answered q i ms" and "distinct (map (\<lambda>m. (wm_scope m, wm_key m)) (new @ ms))"
  shows "answered q i (new @ ms)"
proof -
  obtain m where m: "find_mutation (wq_scope q) (wq_key q) ms = Some m" "wm_operation m = wq_operation q"
    "wm_fingerprint m = fingerprint (wq_operation q) (wq_payload q)" "wm_result m = i"
    using assms(1) by (auto simp: answered_def)
  note eqs = find_mutation_Some [OF m(1)]
  then have "find_mutation (wm_scope m) (wm_key m) (new @ ms) = Some m"
    using assms(2) by (intro find_mutation_unique) simp_all
  with m eqs show ?thesis by (auto simp: answered_def)
qed

lemma serve_again:
  assumes "answered q i (wt_mutations st)" and "wq_scope q' = wq_scope q" "wq_key q' = wq_key q"
    "wq_operation q' = wq_operation q" "wq_payload q' = wq_payload q"
  shows "fst (serve env (wq_scope q') (wq_operation q') (wq_key q') (wq_payload q') action check st) = st"
    and "snd (serve env (wq_scope q') (wq_operation q') (wq_key q') (wq_payload q') action check st) = Inr r \<Longrightarrow> r = i"
proof -
  let ?run = "run_mutation (wq_scope q) (wq_key q) (wq_operation q) (fingerprint (wq_operation q) (wq_payload q))
      action check (we_date env) (we_written env) st"
  have run: "fst ?run = st \<and> (\<forall>r. snd ?run = Inr r \<longrightarrow> r = i)"
    using assms(1) unfolding run_mutation_def answered_def by (auto split: option.splits)
  then show "fst (serve env (wq_scope q') (wq_operation q') (wq_key q') (wq_payload q') action check st) = st"
    unfolding serve_def assms(2-5) by (auto split: prod.splits sum.splits)
  show "snd (serve env (wq_scope q') (wq_operation q') (wq_key q') (wq_payload q') action check st) = Inr r \<Longrightarrow> r = i"
    using run unfolding serve_def assms(2-5) by (auto split: prod.splits sum.splits if_splits)
qed

lemma exec_retry:
  assumes "exec_wi env raw cmd st = (st1, Inr i)" and "wi_good st1" and "steps_of wi_step st1 evs st2"
  shows "fst (exec_wi env' raw cmd st2) = st2 \<and> (\<forall>r. snd (exec_wi env' raw cmd st2) = Inr r \<longrightarrow> r = i)"
proof -
  obtain q where q: "wi_request_of env raw cmd = Inr q" "answered q i (wt_mutations st1)"
    using assms(1) by (rule exec_answered)
  obtain new where new: "wt_mutations st2 = new @ wt_mutations st1"
    using wi_steps_extend [OF assms(3,2)] by (auto simp: wi_extends_def)
  have "distinct (map (\<lambda>m. (wm_scope m, wm_key m)) (wt_mutations st2))"
    using wi_steps_good [OF assms(3,2)] by (simp add: wi_good_def)
  then have ans: "answered q i (wt_mutations st2)"
    unfolding new by (rule answered_persists [OF q(2)])
  show ?thesis
  proof (cases "wi_request_of env' raw cmd")
    case (Inl e)
    then show ?thesis by (simp add: exec_wi_request normal_def)
  next
    case (Inr q')
    have "exec_wi env' raw cmd st2
        = serve env' (wq_scope q') (wq_operation q') (wq_key q') (wq_payload q') (wq_action q') (wq_check q') st2"
      by (simp add: exec_wi_request Inr)
    with serve_again [OF ans] request_same [OF q(1) Inr] show ?thesis by metis
  qed
qed

section \<open>Who may change what\<close>

lemma ctx_get_index: "ctx_get sc p iid items = map_option ((!) items) (find_index (candidate sc p iid) items)"
  by (simp add: ctx_get_def find_find_index)

lemma exec_action:
  assumes "wt_items (fst (exec_wi env raw cmd st)) \<noteq> wt_items st"
  obtains sc q items n r where "normalize_wi_scope raw = Inr sc" "wi_asks env sc cmd = Inr q"
    "wq_action q (wt_items st, wt_next st) = ((items, n), Inr r)" "wt_items (fst (exec_wi env raw cmd st)) = items"
proof -
  obtain sc q where q: "normalize_wi_scope raw = Inr sc" "wi_asks env sc cmd = Inr q"
    and req: "wi_request_of env raw cmd = Inr q"
    using assms by (auto simp: exec_wi_request normal_def wi_request_of_def chain_Inr split: sum.splits)
  let ?run = "run_mutation (wq_scope q) (wq_key q) (wq_operation q) (fingerprint (wq_operation q) (wq_payload q))
      (wq_action q) (wq_check q) (we_date env) (we_written env) st"
  have st': "fst (exec_wi env raw cmd st) = fst ?run"
    by (simp add: exec_wi_request req serve_def split: prod.splits sum.splits)
  obtain items n x where a: "wq_action q (wt_items st, wt_next st) = ((items, n), x)" by (metis prod.exhaust)
  have "\<exists>r. x = Inr r \<and> wt_items (fst ?run) = items"
    using assms unfolding st' run_mutation_def a
    by (cases x) (auto simp: Let_def split: option.splits if_splits)
  with q a st' that show thesis by metis
qed

lemma update_found_changes:
  assumes "update_found sc p iid upd (items, n) = ((items', n'), Inr r)" and "c \<in> set items" and "c \<notin> set items'"
  shows "ctx_get sc p iid items = Some c"
  using assms(1)
proof (rule update_found_success)
  fix k d assume k: "find_index (candidate sc p iid) items = Some k" and eq: "items' = items[k := r]"
  obtain m where m: "m < length items" "items ! m = c" using assms(2) by (auto simp: in_set_conv_nth)
  have "m = k"
  proof (rule ccontr)
    assume "m \<noteq> k"
    with m have "c \<in> set items'" unfolding eq by (metis length_list_update nth_list_update_neq nth_mem)
    with assms(3) show False ..
  qed
  with k m show ?thesis by (simp add: ctx_get_index)
qed

lemma guarded_success: "guarded check action (items, n) = (c, Inr r) \<longleftrightarrow> check items = None \<and> action (items, n) = (c, Inr r)"
  by (auto simp: guarded_def split: option.splits)

lemma ctx_get_candidate: "ctx_get sc p iid items = Some c \<Longrightarrow> candidate sc p iid c"
  by (auto simp: ctx_get_def dest: find_Some_mem)

lemma exec_changes:
  assumes "c \<in> set (wt_items st)" and "c \<notin> set (wt_items (fst (exec_wi env raw cmd st)))"
  obtains sc where "normalize_wi_scope raw = Inr sc" "same_conversation sc c"
    "(\<exists>iid k. cmd = CmdWatch iid k) \<or> visible_to (ws_requester sc) c"
    "(\<exists>iid k. cmd = CmdWatch iid k) \<or> (\<exists>iid k. cmd = CmdUnwatch iid k) \<or> (\<exists>iid k b. cmd = CmdComment iid k b)
       \<or> can_manage (ws_requester sc) c"
proof -
  have "wt_items (fst (exec_wi env raw cmd st)) \<noteq> wt_items st" using assms by metis
  then obtain sc q items n r where sc: "normalize_wi_scope raw = Inr sc" and q: "wi_asks env sc cmd = Inr q"
    and act: "wq_action q (wt_items st, wt_next st) = ((items, n), Inr r)"
    and items: "wt_items (fst (exec_wi env raw cmd st)) = items"
    by (rule exec_action)
  have gone: "c \<notin> set items" using assms(2) items by simp
  have at: "ctx_get sc p i (wt_items st) = Some c \<and> same_conversation sc c \<and> (p \<longrightarrow> visible_to (ws_requester sc) c)"
    if "update_found sc p i upd (wt_items st, wt_next st) = ((items, n), Inr r)" for p i upd
    using update_found_changes [OF that assms(1) gone] by (auto simp: candidate_def dest: ctx_get_candidate)
  have full: "same_conversation sc c \<and> visible_to (ws_requester sc) c \<and> can_manage (ws_requester sc) c"
    if "update_found sc True i upd (wt_items st, wt_next st) = ((items, n), Inr r)"
      "require_managed sc True i (wt_items st) = None" for i upd
    using at [OF that(1)] that(2) by (auto simp: require_managed_def split: if_splits)
  have "same_conversation sc c \<and> ((\<exists>iid k. cmd = CmdWatch iid k) \<or> visible_to (ws_requester sc) c)
    \<and> ((\<exists>iid k. cmd = CmdWatch iid k) \<or> (\<exists>iid k. cmd = CmdUnwatch iid k) \<or> (\<exists>iid k b. cmd = CmdComment iid k b)
       \<or> can_manage (ws_requester sc) c)"
  proof (cases cmd)
    case (CmdCreate x)
    with q act gone assms(1) show ?thesis
      by (auto simp: chain_Inr ctx_insert_def Let_def split: if_splits)
  next
    case (CmdAssign iid k a)
    with q act show ?thesis
      by (auto simp: chain_Inr guarded_success require_assignable_def split: option.splits dest: full)
  next
    case (CmdComment iid k b)
    with q act show ?thesis by (auto simp: chain_Inr guarded_success dest: at)
  next
    case (CmdWatch iid k)
    with q act gone assms(1) show ?thesis
      by (auto simp: chain_Inr watch_action_def split: option.splits if_splits dest: at)
  next
    case (CmdUnwatch iid k)
    with q act gone assms(1) show ?thesis
      by (auto simp: chain_Inr unwatch_action_def split: option.splits if_splits dest: at)
  qed (use q act full in \<open>auto simp: chain_Inr guarded_success\<close>)
  with sc that show thesis by blast
qed

section \<open>Outcomes\<close>

lemma wi_get_candidate: "wi_get sc iid items = find (candidate sc True iid) items"
  unfolding wi_get_def by (rule arg_cong [where f = "\<lambda>P. find P items"]) (auto simp: candidate_def)

text \<open>Replacing the item an id names, in a list whose ids are distinct.\<close>

lemma update_by_id:
  assumes "distinct (map wi_id items)" and "k < length items"
  shows "items[k := u] = map (\<lambda>c. if wi_id c = wi_id (items ! k) then u else c) items"
proof (rule nth_equalityI)
  fix m assume "m < length (items[k := u])"
  then have m: "m < length items" by simp
  have "wi_id (items ! m) = wi_id (items ! k) \<longleftrightarrow> m = k"
    using nth_eq_iff_index_eq [OF assms(1), of m k] m assms(2) by simp
  with m show "items[k := u] ! m = map (\<lambda>c. if wi_id c = wi_id (items ! k) then u else c) items ! m"
    by simp
qed simp

lemma status_change_valid:
  assumes "validate_item c" and "date_range t" and "safe_integer (1 + int n)"
  shows "validate_item (c\<lparr>wi_status := s, wi_updated := t, wi_seq := Some (Suc n)\<rparr>)"
  using assms by (simp add: validate_item_def)

lemma fingerprint_nonempty: "fingerprint operation payload \<noteq> []"
  by (simp add: fingerprint_def)

lemma normalize_transition_key: "normalize_transition iid mkey v = Inr (i, k, s) \<Longrightarrow> assert_text 200 True k"
  by (auto simp: normalize_transition_def normalize_key_def chain_Inr dest: normalize_text_Inr)

lemma transition_run:
  assumes good: "wi_good st" and sc: "normalize_wi_scope raw = Inr sc"
    and n: "normalize_transition iid mkey v = Inr (i, k, s)"
    and new: "find_mutation sc k (wt_mutations st) = None" and date: "date_range (we_now env)"
    and room: "safe_integer (1 + int (wt_next st))" and ok: "we_written env" "we_published env"
  shows "exec_wi env raw (CmdTransition iid mkey v) st =
    (case wi_get sc i (wt_items st) of
       None \<Rightarrow> (st, Inl (WiNotFound i))
     | Some c \<Rightarrow> if \<not> can_manage (ws_requester sc) c then (st, Inl (WiForbidden i))
         else let u = c\<lparr>wi_status := s, wi_updated := we_now env, wi_seq := Some (wt_next st + 1)\<rparr>;
                  items = map (\<lambda>d. if wi_id d = i then u else d) (wt_items st);
                  ms = \<lparr>wm_scope = sc, wm_key = k, wm_operation = WTransition,
                        wm_fingerprint = fingerprint WTransition (JObject [(''itemId'', JText i), (''status'', JText (status_name s))]),
                        wm_result = u, wm_created = we_date env\<rparr> # wt_mutations st
              in (\<lparr>wt_items = items, wt_mutations = ms, wt_next = wt_next st + 1, wt_disk = (items, ms)\<rparr>, Inr u))"
proof -
  let ?P = "candidate sc True i"
  have get: "wi_get sc i (wt_items st) = map_option ((!) (wt_items st)) (find_index ?P (wt_items st))"
    by (simp add: wi_get_candidate find_find_index)
  note run = wi_transition_def normal_def sc n serve_def run_mutation_def normalize_transition_key [OF n] fingerprint_nonempty
    new guarded_def require_managed_def ctx_get_index
  show ?thesis
  proof (cases "find_index ?P (wt_items st)")
    case None
    then show ?thesis by (simp add: run get)
  next
    case (Some m)
    have m: "m < length (wt_items st)" "wi_id (wt_items st ! m) = i"
      using find_index_bound [OF Some] find_index_holds [OF Some] by (auto simp: candidate_def)
    have valid: "validate_item (wt_items st ! m)" using good m(1) by (simp add: wi_good_def list_all_length)
    have ids: "distinct (map wi_id (wt_items st))" using good by (simp add: wi_good_def)
    have upd: "(wt_items st)[m := u] = map (\<lambda>d. if wi_id d = i then u else d) (wt_items st)" for u
      using update_by_id [OF ids m(1)] m(2) by simp
    have validu: "validate_item ((wt_items st ! m)\<lparr>wi_status := s, wi_updated := we_now env, wi_seq := Some (Suc (wt_next st))\<rparr>)"
      using status_change_valid [OF valid date] room by simp
    show ?thesis
    proof (cases "can_manage (ws_requester sc) (wt_items st ! m)")
      case False
      then show ?thesis using m(2) by (simp add: run get Some)
    next
      case True
      then show ?thesis
        using validu date ok
        by (simp add: run get Some update_found_def ctx_update_def stamped_def wi_timestamp_def identity_kept_def Let_def upd)
    qed
  qed
qed

text \<open>A requester who only watched an item sees it no more after unwatching. The replay of the unwatch is
  checked against the items as they are now, and refused.\<close>

lemma unwatch_replay:
  assumes sc: "normalize_wi_scope raw = Inr sc" and n: "normalize_target iid mkey = Inr (i, k)"
    and run: "exec_wi env raw (CmdUnwatch iid mkey) st = (st', Inr r)" and good: "wi_good st'"
    and only: "wi_creator r \<noteq> ws_requester sc" "wi_assignee r \<noteq> Some (ws_requester sc)"
    and watched: "\<exists>c. wi_get sc i (wt_items st) = Some c \<and> ws_requester sc \<in> set (wi_watchers c)"
    and new: "find_mutation sc k (wt_mutations st) = None"
  shows "exec_wi env' raw (CmdUnwatch iid mkey) st' = (st', Inl (WiNotFound i))"
proof -
  have key: "assert_text 200 True k"
    using n by (auto simp: normalize_target_def normalize_key_def chain_Inr dest: normalize_text_Inr)
  let ?fp = "fingerprint WUnwatch (JObject [(''itemId'', JText i)])"
  have ex: "exec_wi env raw (CmdUnwatch iid mkey) st = serve env sc WUnwatch k (JObject [(''itemId'', JText i)])
      (unwatch_action env sc i) (require_visible sc i) st" for env st
    by (simp add: wi_unwatch_def normal_def sc n)
  obtain items m x where a: "unwatch_action env sc i (wt_items st, wt_next st) = ((items, m), x)" by (metis prod.exhaust)
  have rm: "run_mutation sc k WUnwatch ?fp (unwatch_action env sc i) (require_visible sc i) (we_date env) (we_written env) st
      = (st', Inr r)"
    using run unfolding ex serve_def by (auto split: prod.splits sum.splits if_splits)
  have x: "x = Inr r"
    using rm by (cases x) (auto simp: run_mutation_def new key fingerprint_nonempty a Let_def split: if_splits)
  have out: "wt_items st' = items" and ms: "\<exists>t. wt_mutations st' = \<lparr>wm_scope = sc, wm_key = k,
      wm_operation = WUnwatch, wm_fingerprint = ?fp, wm_result = r, wm_created = t\<rparr> # wt_mutations st"
    using rm by (auto simp: run_mutation_def new key fingerprint_nonempty a x Let_def split: if_splits)
  obtain c where c: "wi_get sc i (wt_items st) = Some c" "ws_requester sc \<in> set (wi_watchers c)" using watched by blast
  then have got: "ctx_get sc True i (wt_items st) = Some c"
    by (simp add: wi_get_candidate ctx_get_def)
  have act: "update_found sc True i (stamped env (\<lambda>c. c\<lparr>wi_watchers := filter (\<lambda>u. u \<noteq> ws_requester sc) (wi_watchers c)\<rparr>))
      (wt_items st, wt_next st) = ((items, m), Inr r)"
    using a x got c(2) by (simp add: unwatch_action_def)
  obtain j d where j: "find_index (candidate sc True i) (wt_items st) = Some j"
    and r: "r = d\<lparr>wi_seq := Some (Suc (wt_next st))\<rparr>"
    and d: "stamped env (\<lambda>c. c\<lparr>wi_watchers := filter (\<lambda>u. u \<noteq> ws_requester sc) (wi_watchers c)\<rparr>) (wt_items st ! j) = Inr d"
    and kept: "identity_kept (wt_items st ! j) r" and items: "items = (wt_items st)[j := r]"
    using act by (rule update_found_success)
  have j': "j < length (wt_items st)" "candidate sc True i (wt_items st ! j)"
    using find_index_bound [OF j] find_index_holds [OF j] by auto
  have rid: "wi_id r = i" using kept j'(2) by (simp add: identity_kept_def candidate_def)
  have "ws_requester sc \<notin> set (wi_watchers r)" using d r by (auto simp: stamped_Inr)
  then have hidden: "\<not> visible_to (ws_requester sc) r" using only by (simp add: visible_to_def)
  have "ctx_get sc True i items = None"
    unfolding ctx_get_def find_None_iff
  proof (intro notI)
    assume "\<exists>z. z \<in> set items \<and> candidate sc True i z"
    then obtain z where z: "z \<in> set items" "candidate sc True i z" by blast
    have "r \<in> set items" unfolding items using j'(1) by (rule set_update_memI)
    moreover have "distinct (map wi_id items)" using good out by (simp add: wi_good_def)
    moreover have "wi_id z = wi_id r" using z(2) rid by (simp add: candidate_def)
    ultimately have "z = r" using z(1) by (metis distinct_map inj_onD)
    with z(2) hidden show False by (simp add: candidate_def)
  qed
  then show ?thesis
    unfolding ex using ms by (auto simp: serve_def run_mutation_def key fingerprint_nonempty find_mutation_def same_wi_scope_def
        require_visible_def out)
qed

text \<open>The service lets a linked job id of up to 256 code units pass, the store 200.\<close>

lemma long_job_id_refused:
  assumes "normalize_wi_scope raw = Inr sc" and "normalize_create x = Inr n" and "wn_job n = Some j" and "200 < length j"
    and "date_range (we_now env)" and "find_mutation sc (wn_key n) (wt_mutations st) = None"
  shows "exec_wi env raw (CmdCreate x) st = (st, Inl WiRefused)"
proof -
  have "\<not> validate_item (created_item sc n iid t)" for iid t
    using assms(3,4) by (simp add: validate_item_def created_item_def assert_text_def)
  then show ?thesis
    using assms by (simp add: wi_create_def normal_def wi_timestamp_def serve_def run_mutation_def ctx_insert_def)
qed

end
