(* ===== verification/WorkItemQueries.thy ===== *)
theory WorkItemQueries
  imports WorkItemRuns
begin

text \<open>
  The queries of the work-item service (\<open>server/work-item-service.ts\<close>): search, recent, assigned,
  the summary of the assigned items and the calendar.
\<close>

section \<open>Sorting\<close>

text \<open>\<open>Array.prototype.sort\<close> with a comparison: a stable sort, when the comparison is consistent.\<close>

fun js_insert :: "('a \<Rightarrow> 'a \<Rightarrow> int) \<Rightarrow> 'a \<Rightarrow> 'a list \<Rightarrow> 'a list" where
  "js_insert cmp x [] = [x]"
| "js_insert cmp x (y # ys) = (if cmp x y \<le> 0 then x # y # ys else y # js_insert cmp x ys)"

definition js_sort :: "('a \<Rightarrow> 'a \<Rightarrow> int) \<Rightarrow> 'a list \<Rightarrow> 'a list" where
  "js_sort cmp xs = foldr (js_insert cmp) xs []"

definition consistent :: "('a \<Rightarrow> 'a \<Rightarrow> int) \<Rightarrow> bool" where
  "consistent cmp \<longleftrightarrow> (\<forall>a b. sgn (cmp a b) = - sgn (cmp b a)) \<and> (\<forall>a b c. cmp a b \<le> 0 \<longrightarrow> cmp b c \<le> 0 \<longrightarrow> cmp a c \<le> 0)"

definition then_by :: "int \<Rightarrow> int \<Rightarrow> int" where
  "then_by d e = (if d \<noteq> 0 then d else e)"

type_synonym collation = "string \<Rightarrow> string \<Rightarrow> int"

text \<open>The order of the recent views: the last activity first. Canonical timestamps collate as they
  follow each other in time.\<close>

definition compare_updated :: "collation \<Rightarrow> work_item \<Rightarrow> work_item \<Rightarrow> int" where
  "compare_updated loc left right = then_by (int (seq_of right) - int (seq_of left))
     (then_by (sgn (wi_updated right - wi_updated left)) (loc (wi_id right) (wi_id left)))"

definition sort_by_updated :: "collation \<Rightarrow> work_item list \<Rightarrow> work_item list" where
  "sort_by_updated loc items = js_sort (compare_updated loc) items"

section \<open>Queries\<close>

record wi_query =
  qy_text :: "string option"
  qy_status :: "string list option"
  qy_assignee :: "string option option"
  qy_watcher :: "string option"
  qy_labels :: "string list option"
  qy_from :: "string option"
  qy_to :: "string option"
  qy_limit :: "int option"

record wi_normal_query =
  nq_text :: "string option"
  nq_statuses :: "wi_status list option"
  nq_assignee :: "string option option"
  nq_watcher :: "string option"
  nq_labels :: "string list option"
  nq_from :: "string option"
  nq_to :: "string option"
  nq_limit :: nat

fun normalize_statuses :: "string list \<Rightarrow> wi_error + wi_status list" where
  "normalize_statuses [] = Inr []"
| "normalize_statuses (v # vs) = chain (normalize_status v) (\<lambda>s. chain (normalize_statuses vs) (\<lambda>ss. Inr (s # ss)))"

text \<open>Both ends of a range given, the first must not come after the second.\<close>

definition range_refused :: "string option \<Rightarrow> string option \<Rightarrow> bool" where
  "range_refused a b = (case (a, b) of (Some x, Some y) \<Rightarrow> y < x | _ \<Rightarrow> False)"

definition normalize_query :: "wi_query \<Rightarrow> wi_error + wi_normal_query" where
  "normalize_query q =
     chain (optionally normalize_statuses (qy_status q)) (\<lambda>statuses.
     chain (optionally normalize_labels (qy_labels q)) (\<lambda>labels.
     chain (optionally normalize_date (qy_from q)) (\<lambda>from.
     chain (optionally normalize_date (qy_to q)) (\<lambda>to.
     if range_refused from to then Inl WiInvalid else
     chain (optionally (normalize_optional_text 400) (qy_text q)) (\<lambda>text.
     chain (optionally (optionally (normalize_text 256)) (qy_assignee q)) (\<lambda>assignee.
     chain (optionally (normalize_text 256) (qy_watcher q)) (\<lambda>watcher.
     chain (normalize_limit (or_else (qy_limit q) 100)) (\<lambda>limit.
     Inr \<lparr>nq_text = text, nq_statuses = statuses, nq_assignee = assignee, nq_watcher = watcher,
          nq_labels = labels, nq_from = from, nq_to = to, nq_limit = limit\<rparr>))))))))"

fun join_lines :: "string list \<Rightarrow> string" where
  "join_lines xs = join_with (CHR 0x0A) xs"

definition haystack :: "work_item \<Rightarrow> string" where
  "haystack i = lower_text (join_lines (wi_title i # wi_description i # wi_labels i @ map wc_body (wi_comments i)))"

definition matches_text :: "string option \<Rightarrow> work_item \<Rightarrow> bool" where
  "matches_text t i = (case t of None \<Rightarrow> True
     | Some s \<Rightarrow> s = [] \<or> includes_text (haystack i) (lower_text s))"

definition due_from :: "string option \<Rightarrow> work_item \<Rightarrow> bool" where
  "due_from a i = (case a of None \<Rightarrow> True
     | Some x \<Rightarrow> (case wi_due i of None \<Rightarrow> False | Some d \<Rightarrow> \<not> d < x))"

definition due_to :: "string option \<Rightarrow> work_item \<Rightarrow> bool" where
  "due_to b i = (case b of None \<Rightarrow> True
     | Some y \<Rightarrow> (case wi_due i of None \<Rightarrow> False | Some d \<Rightarrow> \<not> y < d))"

definition matches_query :: "wi_normal_query \<Rightarrow> work_item \<Rightarrow> bool" where
  "matches_query q i \<longleftrightarrow> matches_text (nq_text q) i
     \<and> pred_option (\<lambda>ss. wi_status i \<in> set ss) (nq_statuses q)
     \<and> pred_option (\<lambda>a. wi_assignee i = a) (nq_assignee q)
     \<and> pred_option (\<lambda>w. w \<in> set (wi_watchers i)) (nq_watcher q)
     \<and> pred_option (\<lambda>ls. set ls \<subseteq> set (wi_labels i)) (nq_labels q)
     \<and> due_from (nq_from q) i \<and> due_to (nq_to q) i"

definition wi_search :: "collation \<Rightarrow> wi_scope \<Rightarrow> wi_query \<Rightarrow> work_item list \<Rightarrow> wi_error + work_item list" where
  "wi_search loc raw q items =
     chain (normalize_wi_scope raw) (\<lambda>sc. chain (normalize_query q) (\<lambda>n.
       Inr (take (nq_limit n) (sort_by_updated loc (filter (matches_query n) (wi_list sc items))))))"

definition wi_recent :: "collation \<Rightarrow> wi_scope \<Rightarrow> int \<Rightarrow> work_item list \<Rightarrow> wi_error + work_item list" where
  "wi_recent loc raw limit items =
     chain (normalize_wi_scope raw) (\<lambda>sc. chain (normalize_limit limit) (\<lambda>n.
       Inr (take n (sort_by_updated loc (wi_list sc items)))))"

definition no_query :: wi_query where
  "no_query = \<lparr>qy_text = None, qy_status = None, qy_assignee = None, qy_watcher = None, qy_labels = None,
     qy_from = None, qy_to = None, qy_limit = None\<rparr>"

definition wi_assigned :: "collation \<Rightarrow> wi_scope \<Rightarrow> int \<Rightarrow> work_item list \<Rightarrow> wi_error + work_item list" where
  "wi_assigned loc raw limit items =
     chain (normalize_wi_scope raw) (\<lambda>sc.
       wi_search loc sc (no_query\<lparr>qy_assignee := Some (Some (ws_requester sc)), qy_limit := Some limit\<rparr>) items)"

record wi_summary =
  su_assigned :: nat
  su_due_today :: nat
  su_overdue :: nat

definition wi_assigned_summary :: "wi_scope \<Rightarrow> string \<Rightarrow> work_item list \<Rightarrow> wi_error + wi_summary" where
  "wi_assigned_summary raw today items =
     chain (normalize_wi_scope raw) (\<lambda>sc. chain (normalize_date today) (\<lambda>t.
       (let assigned = filter (\<lambda>i. wi_assignee i = Some (ws_requester sc)) (wi_list sc items)
        in Inr \<lparr>su_assigned = length assigned,
             su_due_today = length (filter (\<lambda>i. wi_due i = Some t) assigned),
             su_overdue = length (filter (\<lambda>i. (case wi_due i of None \<Rightarrow> False | Some d \<Rightarrow> d < t)
               \<and> wi_status i \<noteq> WDone \<and> wi_status i \<noteq> WCancelled) assigned)\<rparr>)))"

definition compare_due :: "collation \<Rightarrow> work_item \<Rightarrow> work_item \<Rightarrow> int" where
  "compare_due loc left right = then_by (loc (the (wi_due left)) (the (wi_due right))) (compare_updated loc left right)"

definition wi_calendar ::
  "collation \<Rightarrow> wi_scope \<Rightarrow> string option \<Rightarrow> string option \<Rightarrow> int option \<Rightarrow> work_item list
     \<Rightarrow> wi_error + work_item list" where
  "wi_calendar loc raw qfrom qto limit items =
     chain (normalize_wi_scope raw) (\<lambda>sc.
     chain (optionally normalize_date qfrom) (\<lambda>from.
     chain (optionally normalize_date qto) (\<lambda>to.
     if range_refused from to then Inl WiInvalid else
     chain (normalize_limit (or_else limit 100)) (\<lambda>n.
       Inr (take n (js_sort (compare_due loc)
         (filter (due_to to) (filter (due_from from) (filter (\<lambda>i. wi_due i \<noteq> None) (wi_list sc items))))))))))"

record wi_presentation =
  wp_item :: work_item
  wp_watching :: bool
  wp_assigned :: bool

definition present_item :: "work_item \<Rightarrow> wi_scope \<Rightarrow> wi_presentation" where
  "present_item i sc = \<lparr>wp_item = i, wp_watching = (ws_requester sc \<in> set (wi_watchers i)),
     wp_assigned = (wi_assignee i = Some (ws_requester sc))\<rparr>"

section \<open>What the queries return\<close>

lemma set_js_insert [simp]: "set (js_insert cmp x ys) = insert x (set ys)"
  by (induction ys) auto

lemma distinct_js_insert: "distinct (js_insert cmp x ys) \<longleftrightarrow> x \<notin> set ys \<and> distinct ys"
  by (induction ys) auto

lemma set_js_sort [simp]: "set (js_sort cmp xs) = set xs"
  by (induction xs) (simp_all add: js_sort_def)

lemma distinct_js_sort [simp]: "distinct (js_sort cmp xs) \<longleftrightarrow> distinct xs"
proof (induction xs)
  case Nil
  then show ?case by (simp add: js_sort_def)
next
  case (Cons x xs)
  have "js_sort cmp (x # xs) = js_insert cmp x (js_sort cmp xs)" by (simp add: js_sort_def)
  with Cons show ?case by (simp add: distinct_js_insert)
qed

lemma length_js_sort [simp]: "length (js_sort cmp xs) = length xs"
proof -
  have "length (js_insert cmp x ys) = Suc (length ys)" for x ys by (induction ys) auto
  then show ?thesis by (induction xs) (simp_all add: js_sort_def)
qed

lemma count_js_sort [simp]: "count_list (js_sort cmp xs) i = count_list xs i"
proof -
  have "count_list (js_insert cmp x ys) i = count_list (x # ys) i" for x ys by (induction ys) auto
  then show ?thesis by (induction xs) (simp_all add: js_sort_def)
qed

lemma consistent_flip:
  assumes "consistent cmp"
  shows "cmp b a \<le> 0 \<longleftrightarrow> \<not> cmp a b < 0" and "cmp a b = 0 \<longleftrightarrow> cmp b a = 0"
proof -
  have s: "sgn (cmp a b) = - sgn (cmp b a)" using assms unfolding consistent_def by blast
  have "cmp b a \<le> 0 \<longleftrightarrow> sgn (cmp b a) \<le> 0" and "cmp a b < 0 \<longleftrightarrow> sgn (cmp a b) < 0"
    by (simp_all add: sgn_if)
  then show "cmp b a \<le> 0 \<longleftrightarrow> \<not> cmp a b < 0" unfolding s by linarith
  have "cmp b a = 0 \<longleftrightarrow> sgn (cmp b a) = 0" and "cmp a b = 0 \<longleftrightarrow> sgn (cmp a b) = 0"
    by (simp_all add: sgn_if)
  then show "cmp a b = 0 \<longleftrightarrow> cmp b a = 0" unfolding s by linarith
qed

lemma consistent_trans: "consistent cmp \<Longrightarrow> cmp a b \<le> 0 \<Longrightarrow> cmp b c \<le> 0 \<Longrightarrow> cmp a c \<le> 0"
  unfolding consistent_def by blast

lemma consistentI:
  assumes "\<And>a b. cmp a b < 0 \<longleftrightarrow> 0 < cmp b a" and "\<And>a b c. cmp a b \<le> 0 \<Longrightarrow> cmp b c \<le> 0 \<Longrightarrow> cmp a c \<le> 0"
  shows "consistent cmp"
  unfolding consistent_def
proof (intro conjI allI impI)
  fix a b
  consider "cmp a b < 0" | "0 < cmp a b" | "cmp a b = 0" "cmp b a = 0"
    using assms(1) [of a b] assms(1) [of b a] by linarith
  then show "sgn (cmp a b) = - sgn (cmp b a)"
  proof cases
    case 1
    with assms(1) [of a b] show ?thesis by simp
  next
    case 2
    with assms(1) [of b a] show ?thesis by simp
  qed simp
qed (rule assms(2))

lemma consistent_then_by:
  assumes f: "consistent f" and g: "consistent g"
  shows "consistent (\<lambda>a b. then_by (f a b) (g a b))"
proof (rule consistentI)
  fix a b
  show "then_by (f a b) (g a b) < 0 \<longleftrightarrow> 0 < then_by (f b a) (g b a)"
    using consistent_flip [OF f, of b a] consistent_flip [OF f, of a b] consistent_flip [OF g, of b a]
    by (auto simp: then_by_def)
next
  fix a b c
  assume ab: "then_by (f a b) (g a b) \<le> 0" and bc: "then_by (f b c) (g b c) \<le> 0"
  have le: "f a b \<le> 0" "f b c \<le> 0" using ab bc by (auto simp: then_by_def split: if_splits)
  then have ac: "f a c \<le> 0" by (rule consistent_trans [OF f])
  show "then_by (f a c) (g a c) \<le> 0"
  proof (cases "f a c = 0")
    case False
    with ac show ?thesis by (simp add: then_by_def)
  next
    case True
    then have ca: "f c a \<le> 0" using consistent_flip(2) [OF f, of a c] by simp
    have "f b a \<le> 0" using consistent_trans [OF f le(2) ca] .
    then have ab0: "f a b = 0" using consistent_flip(1) [OF f, of b a] le(1) by auto
    have "f c b \<le> 0" using consistent_trans [OF f ca le(1)] .
    then have bc0: "f b c = 0" using consistent_flip(1) [OF f, of c b] le(2) by auto
    have "g a c \<le> 0" using ab bc ab0 bc0 consistent_trans [OF g, of a b c] by (simp add: then_by_def)
    with True show ?thesis by (simp add: then_by_def)
  qed
qed

lemma sorted_js_insert:
  assumes "consistent cmp" and "sorted_wrt (\<lambda>a b. cmp a b \<le> 0) ys"
  shows "sorted_wrt (\<lambda>a b. cmp a b \<le> 0) (js_insert cmp x ys)"
  using assms(2)
proof (induction ys)
  case Nil
  then show ?case by simp
next
  case (Cons y ys)
  show ?case
  proof (cases "cmp x y \<le> 0")
    case True
    have "cmp x z \<le> 0" if "z \<in> set ys" for z
      using True Cons.prems that assms(1) unfolding consistent_def by (metis sorted_wrt.simps(2))
    with True Cons.prems show ?thesis by simp
  next
    case False
    then have "cmp y x \<le> 0" using consistent_flip(1) [OF assms(1), of y x] by auto
    with False Cons show ?thesis by auto
  qed
qed

lemma sorted_js_sort: "consistent cmp \<Longrightarrow> sorted_wrt (\<lambda>a b. cmp a b \<le> 0) (js_sort cmp xs)"
  by (induction xs) (simp_all add: js_sort_def sorted_js_insert)

text \<open>The order of the views is consistent whenever the collation is.\<close>

lemma consistent_updated:
  assumes "consistent loc"
  shows "consistent (compare_updated loc)"
  unfolding compare_updated_def
proof (intro consistent_then_by)
  show "consistent (\<lambda>a b. int (seq_of b) - int (seq_of a))" by (rule consistentI) auto
  show "consistent (\<lambda>a b. sgn (wi_updated b - wi_updated a))"
    by (rule consistentI) (auto simp: sgn_if split: if_splits)
  show "consistent (\<lambda>a b. loc (wi_id b) (wi_id a))"
  proof (rule consistentI)
    fix a b
    show "loc (wi_id b) (wi_id a) < 0 \<longleftrightarrow> 0 < loc (wi_id a) (wi_id b)"
      using consistent_flip(1) [OF assms, of "wi_id a" "wi_id b"] by linarith
  qed (rule consistent_trans [OF assms])
qed

lemma seq_of_first:
  assumes "consistent loc" and "compare_updated loc a b \<le> 0"
  shows "seq_of b \<le> seq_of a"
  using assms(2) by (auto simp: compare_updated_def then_by_def split: if_splits)

lemma wi_search_result:
  assumes "normalize_wi_scope raw = Inr sc" and "normalize_query q = Inr n" and "consistent loc"
    and "distinct (map wi_id items)"
  obtains full where "wi_search loc raw q items = Inr (take (nq_limit n) full)" "distinct full"
    "set full = {i \<in> set items. same_conversation sc i \<and> visible_to (ws_requester sc) i \<and> matches_query n i}"
    "sorted_wrt (\<lambda>a b. compare_updated loc a b \<le> 0) full"
proof
  show "wi_search loc raw q items = Inr (take (nq_limit n) (sort_by_updated loc (filter (matches_query n) (wi_list sc items))))"
    by (simp add: wi_search_def assms)
  show "distinct (sort_by_updated loc (filter (matches_query n) (wi_list sc items)))"
    using assms(4) by (simp add: sort_by_updated_def wi_list_def distinct_map)
  show "sorted_wrt (\<lambda>a b. compare_updated loc a b \<le> 0) (sort_by_updated loc (filter (matches_query n) (wi_list sc items)))"
    unfolding sort_by_updated_def by (rule sorted_js_sort [OF consistent_updated [OF assms(3)]])
  show "set (sort_by_updated loc (filter (matches_query n) (wi_list sc items)))
      = {i \<in> set items. same_conversation sc i \<and> visible_to (ws_requester sc) i \<and> matches_query n i}"
    by (auto simp: sort_by_updated_def wi_list_def)
qed

text \<open>Normalising is idempotent on texts, so a normalised scope can be handed to another query.\<close>

lemma normalize_text_idem: "normalize_text n v = Inr s \<Longrightarrow> normalize_text n s = Inr s"
  by (auto simp: normalize_text_def Let_def split: if_splits)

lemma normalize_scope_idem: "normalize_wi_scope raw = Inr sc \<Longrightarrow> normalize_wi_scope sc = Inr sc"
  by (auto simp: normalize_wi_scope_def chain_Inr dest: normalize_text_idem)

lemma range_query:
  assumes "optionally normalize_date a = Inr x" "optionally normalize_date b = Inr y" "\<not> range_refused x y"
    and "normalize_limit (or_else limit 100) = Inr n"
  shows "normalize_query (no_query\<lparr>qy_from := a, qy_to := b, qy_limit := limit\<rparr>)
    = Inr \<lparr>nq_text = None, nq_statuses = None, nq_assignee = None, nq_watcher = None, nq_labels = None,
        nq_from = x, nq_to = y, nq_limit = n\<rparr>"
  using assms by (simp add: normalize_query_def no_query_def optionally_def)

text \<open>The calendar shows the items with a due date in the range: those a search by due date finds.\<close>

lemma calendar_search:
  assumes "normalize_wi_scope raw = Inr sc" and "optionally normalize_date a = Inr x" "optionally normalize_date b = Inr y"
    and "\<not> range_refused x y" and "normalize_limit (or_else limit 100) = Inr n" and "a \<noteq> None \<or> b \<noteq> None"
  obtains found listed where "wi_search loc raw (no_query\<lparr>qy_from := a, qy_to := b, qy_limit := limit\<rparr>) items = Inr (take n found)"
    "wi_calendar loc raw a b limit items = Inr (take n listed)" "\<forall>i. count_list listed i = count_list found i"
proof -
  let ?q = "\<lparr>nq_text = None, nq_statuses = None, nq_assignee = None, nq_watcher = None, nq_labels = None,
        nq_from = x, nq_to = y, nq_limit = n\<rparr>"
  let ?shown = "filter (due_to y) (filter (due_from x) (filter (\<lambda>i. wi_due i \<noteq> None) (wi_list sc items)))"
  have some: "x \<noteq> None \<or> y \<noteq> None" using assms(2,3,6) by (auto simp: optionally_def chain_Inr split: option.splits)
  have same: "filter (matches_query ?q) (wi_list sc items) = ?shown"
    unfolding filter_filter
  proof (rule filter_cong [OF refl])
    fix i
    have "wi_due i \<noteq> None" if "due_from x i" "due_to y i"
      using that some by (auto simp: due_from_def due_to_def split: option.splits)
    then show "matches_query ?q i \<longleftrightarrow> (wi_due i \<noteq> None \<and> due_from x i) \<and> due_to y i"
      by (auto simp: matches_query_def matches_text_def)
  qed
  show thesis
  proof
    show "wi_search loc raw (no_query\<lparr>qy_from := a, qy_to := b, qy_limit := limit\<rparr>) items
        = Inr (take n (sort_by_updated loc ?shown))"
      by (simp add: wi_search_def assms(1) range_query [OF assms(2-5)] same)
    show "wi_calendar loc raw a b limit items = Inr (take n (js_sort (compare_due loc) ?shown))"
      by (simp add: wi_calendar_def assms)
  qed (simp_all add: sort_by_updated_def)
qed

end
