(* ===== verification/Collaboration.thy ===== *)
theory Collaboration
  imports CollaborationStore WorkItemQueries
begin

text \<open>
  The collaboration service (\<open>server/collaboration-service.ts\<close>): the normalisation of its inputs, and
  each of its seven mutations as the request it hands to the store: scope, key, operation, payload and
  action. \<open>localeCompare\<close> depends on the host's collation and is an argument.
\<close>

section \<open>Inputs\<close>

definition co_text :: "nat \<Rightarrow> string \<Rightarrow> co_error + string" where
  "co_text maximum v = (let n = js_trim v in
     if n = [] \<or> maximum < length n \<or> list_ex text_control n then Inl CoInvalid else Inr n)"

definition co_optional_text :: "nat \<Rightarrow> string \<Rightarrow> co_error + string" where
  "co_optional_text maximum v = (let n = js_trim v in
     if maximum < length n \<or> list_ex text_control n then Inl CoInvalid else Inr n)"

definition co_enum :: "('a \<Rightarrow> string) \<Rightarrow> 'a list \<Rightarrow> string \<Rightarrow> co_error + 'a" where
  "co_enum name allowed v = (case find (\<lambda>x. name x = v) allowed of None \<Rightarrow> Inl CoInvalid | Some x \<Rightarrow> Inr x)"

definition normalize_timestamp :: "string \<Rightarrow> co_error + time" where
  "normalize_timestamp v = (case canonical_time v of None \<Rightarrow> Inl CoInvalid | Some t \<Rightarrow> Inr t)"

text \<open>An optional field: absent stays absent.\<close>

definition co_optionally :: "('a \<Rightarrow> co_error + 'b) \<Rightarrow> 'a option \<Rightarrow> co_error + 'b option" where
  "co_optionally f v = (case v of None \<Rightarrow> Inr None | Some x \<Rightarrow> chain (f x) (\<lambda>y. Inr (Some y)))"

fun co_map :: "('a \<Rightarrow> co_error + 'b) \<Rightarrow> 'a list \<Rightarrow> co_error + 'b list" where
  "co_map f [] = Inr []"
| "co_map f (x # xs) = chain (f x) (\<lambda>y. chain (co_map f xs) (\<lambda>ys. Inr (y # ys)))"

definition normalize_co_scope :: "co_scope \<Rightarrow> co_error + co_scope" where
  "normalize_co_scope sc =
     chain (co_text 256 (ws_tenant sc)) (\<lambda>t.
     chain (co_text 256 (ws_requester sc)) (\<lambda>r.
     chain (co_text 256 (ws_conversation sc)) (\<lambda>c.
     Inr \<lparr>ws_tenant = t, ws_requester = r, ws_conversation = c\<rparr>)))"

text \<open>A target as it comes in: the names of its type and its id.\<close>

type_synonym raw_target = "string \<times> string"

definition normalize_co_target :: "raw_target \<Rightarrow> co_error + co_target" where
  "normalize_co_target v =
     chain (co_enum target_name [ProjectTarget, GoalTarget, TopicTarget, WorkItemTarget] (fst v)) (\<lambda>ty.
     chain (co_text 200 (snd v)) (\<lambda>i. Inr \<lparr>tg_type = ty, tg_id = i\<rparr>))"

definition normalize_delivery :: "string option \<Rightarrow> string option \<Rightarrow> co_error + delivery \<times> string option" where
  "normalize_delivery v channel =
     chain (co_enum delivery_name [PersonalDelivery, ChannelDelivery] (or_else v ''personal'')) (\<lambda>dl.
     if dl = ChannelDelivery
     then (case channel of None \<Rightarrow> Inl CoInvalid | Some c \<Rightarrow> chain (co_text 256 c) (\<lambda>c. Inr (dl, Some c)))
     else if channel \<noteq> None then Inl CoInvalid else Inr (dl, None))"

text \<open>Assigning a field of a plain object: the name \<open>__proto__\<close> names the prototype, and giving it a
  string has no effect.\<close>

definition assign_field :: "string \<Rightarrow> string \<Rightarrow> (string \<times> string) list \<Rightarrow> (string \<times> string) list" where
  "assign_field k v md = (if k = ''__proto__'' then md else AList.update k v md)"

fun assign_entries :: "(string \<times> string) list \<Rightarrow> (string \<times> string) list \<Rightarrow> co_error + (string \<times> string) list" where
  "assign_entries md [] = Inr md"
| "assign_entries md ((k, v) # es) =
     chain (co_text 120 k) (\<lambda>k'. chain (co_optional_text 1000 v) (\<lambda>v'. assign_entries (assign_field k' v' md) es))"

definition normalize_metadata ::
  "collation \<Rightarrow> (string \<times> string) list option \<Rightarrow> co_error + (string \<times> string) list" where
  "normalize_metadata loc v = (case v of None \<Rightarrow> Inr []
     | Some entries \<Rightarrow> if 40 < length entries then Inl CoInvalid
         else assign_entries [] (js_sort (\<lambda>l r. loc (fst l) (fst r)) entries))"

definition normalize_ids :: "collation \<Rightarrow> nat \<Rightarrow> string list \<Rightarrow> co_error + string list" where
  "normalize_ids loc maximum vs = (if maximum < length vs then Inl CoInvalid
     else chain (co_map (co_text 256) vs) (\<lambda>ids. if distinct ids then Inr (js_sort loc ids) else Inl CoInvalid))"

record follow_input =
  fi_key :: string
  fi_target :: raw_target
  fi_delivery :: "string option"
  fi_channel :: "string option"

record bind_input =
  bi_key :: string
  bi_target :: raw_target
  bi_channel :: string
  bi_metadata :: "(string \<times> string) list option"

record prefer_input =
  pi_key :: string
  pi_target :: raw_target
  pi_delivery :: "string option"
  pi_channel :: "string option"
  pi_level :: string
  pi_period :: "string option"

text \<open>\<open>no_when\<close> is the field \<open>occurredAt\<close> of an update and \<open>remindAt\<close> of a reminder.\<close>

record note_input =
  no_key :: string
  no_target :: raw_target
  no_title :: string
  no_body :: "string option"
  no_mentions :: "string list option"
  no_channel :: "string option"
  no_when :: "string option"

record note_normal =
  nn_key :: string
  nn_target :: co_target
  nn_title :: string
  nn_body :: string
  nn_mentions :: "string list"
  nn_channel :: "string option"
  nn_when :: time

definition normalize_identity ::
  "raw_target \<Rightarrow> string option \<Rightarrow> string option \<Rightarrow> co_error + co_target \<times> delivery \<times> string option" where
  "normalize_identity tg dl channel =
     chain (normalize_co_target tg) (\<lambda>t. chain (normalize_delivery dl channel) (\<lambda>(d, c). Inr (t, d, c)))"

definition normalize_follow ::
  "follow_input \<Rightarrow> co_error + string \<times> co_target \<times> delivery \<times> string option" where
  "normalize_follow x =
     chain (normalize_identity (fi_target x) (fi_delivery x) (fi_channel x)) (\<lambda>i.
     chain (co_text 200 (fi_key x)) (\<lambda>k. Inr (k, i)))"

definition normalize_bind ::
  "collation \<Rightarrow> bind_input \<Rightarrow> co_error + string \<times> co_target \<times> string \<times> (string \<times> string) list" where
  "normalize_bind loc x =
     chain (normalize_co_target (bi_target x)) (\<lambda>t.
     chain (co_text 256 (bi_channel x)) (\<lambda>c.
     chain (co_text 200 (bi_key x)) (\<lambda>k.
     chain (normalize_metadata loc (bi_metadata x)) (\<lambda>md. Inr (k, t, c, md)))))"

definition normalize_unbind :: "string \<Rightarrow> raw_target \<Rightarrow> string \<Rightarrow> co_error + string \<times> co_target \<times> string" where
  "normalize_unbind mkey tg channel =
     chain (co_text 200 mkey) (\<lambda>k.
     chain (normalize_co_target tg) (\<lambda>t.
     chain (co_text 256 channel) (\<lambda>c. Inr (k, t, c))))"

definition normalize_prefer ::
  "prefer_input \<Rightarrow> co_error + string \<times> (co_target \<times> delivery \<times> string option) \<times> level \<times> period option" where
  "normalize_prefer x =
     chain (normalize_identity (pi_target x) (pi_delivery x) (pi_channel x)) (\<lambda>i.
     chain (co_enum level_name [AllLevel, MentionsLevel, DigestLevel, NoneLevel] (pi_level x)) (\<lambda>l.
     if l = DigestLevel
     then chain (co_text 200 (pi_key x)) (\<lambda>k.
          chain (co_enum period_name [Daily, Weekly, Monthly] (or_else (pi_period x) ''weekly'')) (\<lambda>p.
          Inr (k, i, l, Some p)))
     else if pi_period x \<noteq> None then Inl CoInvalid
     else chain (co_text 200 (pi_key x)) (\<lambda>k. Inr (k, i, l, None))))"

text \<open>The time an update occurred, or a reminder is for, is the service's time when it is not given.\<close>

definition normalize_note :: "collation \<Rightarrow> time \<Rightarrow> note_input \<Rightarrow> co_error + note_normal" where
  "normalize_note loc now x =
     chain (case no_when x of None \<Rightarrow> Inr now | Some v \<Rightarrow> normalize_timestamp v) (\<lambda>when_at.
     chain (co_text 200 (no_key x)) (\<lambda>k.
     chain (normalize_co_target (no_target x)) (\<lambda>t.
     chain (co_text 400 (no_title x)) (\<lambda>title.
     chain (co_optional_text 4000 (or_else (no_body x) [])) (\<lambda>body.
     chain (normalize_ids loc 100 (or_else (no_mentions x) [])) (\<lambda>mentions.
     chain (co_optionally (co_text 256) (no_channel x)) (\<lambda>channel.
     Inr \<lparr>nn_key = k, nn_target = t, nn_title = title, nn_body = body, nn_mentions = mentions,
          nn_channel = channel, nn_when = when_at\<rparr>)))))))"

section \<open>Requests\<close>

text \<open>What a mutation takes from its surroundings: two readings of the service's clock (the second is
  taken by updates and reminders only), the system's clock, a random UUID and the host's collation.\<close>

record co_env =
  ce_now :: time
  ce_then :: time
  ce_date :: time
  ce_uuid :: string
  ce_collation :: collation

definition co_create_id :: "string \<Rightarrow> co_env \<Rightarrow> string" where
  "co_create_id prefix env = prefix @ ''-'' @ base36 (nat (ce_date env)) @ ''-'' @ take 12 (ce_uuid env)"

definition co_timestamp :: "time \<Rightarrow> co_error + time" where
  "co_timestamp t = (if date_range t then Inr t else Inl CoInvalid)"

definition target_json :: "co_target \<Rightarrow> json" where
  "target_json tg = JObject [(''type'', JText (target_name (tg_type tg))), (''id'', JText (tg_id tg))]"

definition co_fingerprint :: "co_operation \<Rightarrow> json \<Rightarrow> string" where
  "co_fingerprint operation payload =
     stable_stringify (JObject [(''operation'', JText (co_operation_name operation)), (''payload'', payload)])"

definition resource_name :: "co_target \<Rightarrow> string" where
  "resource_name tg = target_name (tg_type tg) @ '':'' @ tg_id tg"

record co_request =
  cq_scope :: co_scope
  cq_operation :: co_operation
  cq_key :: string
  cq_payload :: json
  cq_action :: co_action

definition identity_json :: "co_target \<Rightarrow> delivery \<Rightarrow> string option \<Rightarrow> (string \<times> json) list" where
  "identity_json tg dl channel = [(''target'', target_json tg), (''delivery'', JText (delivery_name dl)),
     (''channelId'', json_option channel)]"

definition new_subscription ::
  "co_scope \<Rightarrow> co_target \<Rightarrow> delivery \<Rightarrow> string option \<Rightarrow> string \<Rightarrow> time \<Rightarrow> subscription" where
  "new_subscription sc tg dl channel sid t = \<lparr>sb_id = sid, sb_tenant = ws_tenant sc,
     sb_conversation = ws_conversation sc, sb_requester = ws_requester sc, sb_target = tg, sb_delivery = dl,
     sb_channel = channel, sb_active = True, sb_link = build_collaboration_link tg, sb_created = t, sb_updated = t\<rparr>"

definition follow_action ::
  "co_scope \<Rightarrow> co_target \<Rightarrow> delivery \<Rightarrow> string option \<Rightarrow> string \<Rightarrow> time \<Rightarrow> co_action" where
  "follow_action sc tg dl channel sid t c =
     (case find_index (same_subscription sc tg dl channel) (cc_subscriptions c) of
        Some i \<Rightarrow>
          (let s = cc_subscriptions c ! i in
           if sb_active s then Inr (c, SubscriptionResult s)
           else let s' = s\<lparr>sb_active := True, sb_updated := t\<rparr>
                in Inr (c\<lparr>cc_subscriptions := (cc_subscriptions c)[i := s']\<rparr>, SubscriptionResult s'))
      | None \<Rightarrow>
          let s = new_subscription sc tg dl channel sid t
          in Inr (c\<lparr>cc_subscriptions := s # cc_subscriptions c\<rparr>, SubscriptionResult s))"

definition follow_request :: "co_env \<Rightarrow> co_scope \<Rightarrow> follow_input \<Rightarrow> co_error + co_request" where
  "follow_request env raw x =
     chain (normalize_co_scope raw) (\<lambda>sc. chain (normalize_follow x) (\<lambda>(k, tg, dl, channel).
     chain (co_timestamp (ce_now env)) (\<lambda>t.
     Inr \<lparr>cq_scope = sc, cq_operation = CoFollow, cq_key = k, cq_payload = JObject (identity_json tg dl channel),
          cq_action = follow_action sc tg dl channel (co_create_id ''subscription'' env) t\<rparr>)))"

definition unfollow_action ::
  "co_scope \<Rightarrow> co_target \<Rightarrow> delivery \<Rightarrow> string option \<Rightarrow> time \<Rightarrow> co_action" where
  "unfollow_action sc tg dl channel t c =
     (case find_index (same_subscription sc tg dl channel) (cc_subscriptions c) of
        None \<Rightarrow> Inl (CoNotFound (resource_name tg))
      | Some i \<Rightarrow>
          (let s = cc_subscriptions c ! i in
           if \<not> sb_active s then Inr (c, SubscriptionResult s)
           else let s' = s\<lparr>sb_active := False, sb_updated := t\<rparr>
                in Inr (c\<lparr>cc_subscriptions := (cc_subscriptions c)[i := s']\<rparr>, SubscriptionResult s')))"

definition unfollow_request :: "co_env \<Rightarrow> co_scope \<Rightarrow> follow_input \<Rightarrow> co_error + co_request" where
  "unfollow_request env raw x =
     chain (normalize_co_scope raw) (\<lambda>sc. chain (normalize_follow x) (\<lambda>(k, tg, dl, channel).
     chain (co_timestamp (ce_now env)) (\<lambda>t.
     Inr \<lparr>cq_scope = sc, cq_operation = CoUnfollow, cq_key = k, cq_payload = JObject (identity_json tg dl channel),
          cq_action = unfollow_action sc tg dl channel t\<rparr>)))"

definition metadata_json :: "(string \<times> string) list \<Rightarrow> json" where
  "metadata_json md = JObject (map (\<lambda>(k, v). (k, JText v)) md)"

definition new_binding ::
  "co_scope \<Rightarrow> co_target \<Rightarrow> string \<Rightarrow> (string \<times> string) list \<Rightarrow> string \<Rightarrow> time \<Rightarrow> binding" where
  "new_binding sc tg channel md bid t = \<lparr>cb_id = bid, cb_tenant = ws_tenant sc,
     cb_conversation = ws_conversation sc, cb_target = tg, cb_channel = channel, cb_metadata = md,
     cb_bound_by = ws_requester sc, cb_active = True, cb_link = build_collaboration_link tg,
     cb_created = t, cb_updated = t\<rparr>"

definition bind_action ::
  "co_scope \<Rightarrow> co_target \<Rightarrow> string \<Rightarrow> (string \<times> string) list \<Rightarrow> string \<Rightarrow> time \<Rightarrow> co_action" where
  "bind_action sc tg channel md bid t c =
     (case find_index (same_binding sc tg channel) (cc_bindings c) of
        Some i \<Rightarrow>
          (let b = cc_bindings c ! i in
           if cb_bound_by b \<noteq> ws_requester sc then Inl (CoForbidden (resource_name tg))
           else if cb_active b \<and> stable_stringify (metadata_json (cb_metadata b)) = stable_stringify (metadata_json md)
           then Inr (c, BindingResult b)
           else let b' = b\<lparr>cb_metadata := md, cb_active := True, cb_updated := t\<rparr>
                in Inr (c\<lparr>cc_bindings := (cc_bindings c)[i := b']\<rparr>, BindingResult b'))
      | None \<Rightarrow>
          let b = new_binding sc tg channel md bid t
          in Inr (c\<lparr>cc_bindings := b # cc_bindings c\<rparr>, BindingResult b))"

definition bind_request :: "co_env \<Rightarrow> co_scope \<Rightarrow> bind_input \<Rightarrow> co_error + co_request" where
  "bind_request env raw x =
     chain (normalize_co_scope raw) (\<lambda>sc. chain (normalize_bind (ce_collation env) x) (\<lambda>(k, tg, channel, md).
     chain (co_timestamp (ce_now env)) (\<lambda>t.
     Inr \<lparr>cq_scope = sc, cq_operation = CoBind, cq_key = k,
          cq_payload = JObject [(''target'', target_json tg), (''channelId'', JText channel), (''metadata'', metadata_json md)],
          cq_action = bind_action sc tg channel md (co_create_id ''channel-binding'' env) t\<rparr>)))"

definition unbind_action :: "co_scope \<Rightarrow> co_target \<Rightarrow> string \<Rightarrow> time \<Rightarrow> co_action" where
  "unbind_action sc tg channel t c =
     (case find_index (same_binding sc tg channel) (cc_bindings c) of
        None \<Rightarrow> Inl (CoNotFound (resource_name tg))
      | Some i \<Rightarrow>
          (let b = cc_bindings c ! i in
           if \<not> cb_active b then Inl (CoNotFound (resource_name tg))
           else if cb_bound_by b \<noteq> ws_requester sc then Inl (CoForbidden (resource_name tg))
           else let b' = b\<lparr>cb_active := False, cb_updated := t\<rparr>
                in Inr (c\<lparr>cc_bindings := (cc_bindings c)[i := b']\<rparr>, BindingResult b')))"

definition unbind_request :: "co_env \<Rightarrow> co_scope \<Rightarrow> string \<Rightarrow> raw_target \<Rightarrow> string \<Rightarrow> co_error + co_request" where
  "unbind_request env raw mkey v channel =
     chain (normalize_co_scope raw) (\<lambda>sc. chain (normalize_unbind mkey v channel) (\<lambda>(k, tg, channel).
     chain (co_timestamp (ce_now env)) (\<lambda>t.
     Inr \<lparr>cq_scope = sc, cq_operation = CoUnbind, cq_key = k,
          cq_payload = JObject [(''target'', target_json tg), (''channelId'', JText channel)],
          cq_action = unbind_action sc tg channel t\<rparr>)))"

definition new_preference ::
  "co_scope \<Rightarrow> co_target \<Rightarrow> delivery \<Rightarrow> string option \<Rightarrow> level \<Rightarrow> period option \<Rightarrow> string \<Rightarrow> time \<Rightarrow> preference" where
  "new_preference sc tg dl channel l p pid t = \<lparr>np_id = pid, np_tenant = ws_tenant sc,
     np_conversation = ws_conversation sc, np_requester = ws_requester sc, np_target = tg, np_delivery = dl,
     np_channel = channel, np_level = l, np_period = p, np_updated = t\<rparr>"

definition prefer_action ::
  "co_scope \<Rightarrow> co_target \<Rightarrow> delivery \<Rightarrow> string option \<Rightarrow> level \<Rightarrow> period option \<Rightarrow> string \<Rightarrow> time \<Rightarrow> co_action" where
  "prefer_action sc tg dl channel l p pid t c =
     (case find_index (same_preference sc tg dl channel) (cc_preferences c) of
        Some i \<Rightarrow>
          (let q = cc_preferences c ! i in
           if np_level q = l \<and> np_period q = p then Inr (c, PreferenceResult q)
           else let q' = q\<lparr>np_level := l, np_period := p, np_updated := t\<rparr>
                in Inr (c\<lparr>cc_preferences := (cc_preferences c)[i := q']\<rparr>, PreferenceResult q'))
      | None \<Rightarrow>
          let q = new_preference sc tg dl channel l p pid t
          in Inr (c\<lparr>cc_preferences := q # cc_preferences c\<rparr>, PreferenceResult q))"

definition prefer_request :: "co_env \<Rightarrow> co_scope \<Rightarrow> prefer_input \<Rightarrow> co_error + co_request" where
  "prefer_request env raw x =
     chain (normalize_co_scope raw) (\<lambda>sc. chain (normalize_prefer x) (\<lambda>(k, (tg, dl, channel), l, p).
     chain (co_timestamp (ce_now env)) (\<lambda>t.
     Inr \<lparr>cq_scope = sc, cq_operation = CoPrefer, cq_key = k,
          cq_payload = JObject (identity_json tg dl channel @ [(''level'', JText (level_name l)),
            (''digestPeriod'', json_option (map_option period_name p))]),
          cq_action = prefer_action sc tg dl channel l p (co_create_id ''notification-preference'' env) t\<rparr>)))"

definition new_notification ::
  "co_scope \<Rightarrow> note_kind \<Rightarrow> note_normal \<Rightarrow> string \<Rightarrow> time \<Rightarrow> notification" where
  "new_notification sc kind n nid t = \<lparr>nt_id = nid, nt_tenant = ws_tenant sc,
     nt_conversation = ws_conversation sc, nt_creator = ws_requester sc, nt_target = nn_target n, nt_kind = kind,
     nt_title = nn_title n, nt_body = nn_body n, nt_mentions = nn_mentions n, nt_channel = nn_channel n,
     nt_occurred = nn_when n, nt_remind = (if kind = ReminderNote then Some (nn_when n) else None),
     nt_link = build_collaboration_link (nn_target n), nt_created = t\<rparr>"

definition trim_notifications :: "notification list \<Rightarrow> notification list" where
  "trim_notifications ns = (if 5000 < length ns then take 5000 ns else ns)"

definition note_action :: "notification \<Rightarrow> co_action" where
  "note_action n c = Inr (c\<lparr>cc_notifications := trim_notifications (n # cc_notifications c)\<rparr>, NotificationResult n)"

definition note_json :: "string \<Rightarrow> note_normal \<Rightarrow> json" where
  "note_json when_name n = JObject [(''target'', target_json (nn_target n)), (''title'', JText (nn_title n)),
     (''body'', JText (nn_body n)), (''mentionUserIds'', JArray (map JText (nn_mentions n))),
     (''channelId'', json_option (nn_channel n)), (when_name, JText (iso_text (nn_when n)))]"

definition update_request :: "co_env \<Rightarrow> co_scope \<Rightarrow> note_input \<Rightarrow> co_error + co_request" where
  "update_request env raw x =
     chain (normalize_co_scope raw) (\<lambda>sc. chain (co_timestamp (ce_now env)) (\<lambda>now.
     chain (normalize_note (ce_collation env) now x) (\<lambda>n. chain (co_timestamp (ce_then env)) (\<lambda>created.
     Inr \<lparr>cq_scope = sc, cq_operation = CoUpdate, cq_key = nn_key n, cq_payload = note_json ''occurredAt'' n,
          cq_action = note_action (new_notification sc UpdateNote n (co_create_id ''notification'' env) created)\<rparr>))))"

definition reminder_request :: "co_env \<Rightarrow> co_scope \<Rightarrow> note_input \<Rightarrow> co_error + co_request" where
  "reminder_request env raw x =
     chain (normalize_co_scope raw) (\<lambda>sc. chain (co_timestamp (ce_now env)) (\<lambda>now.
     chain (normalize_note (ce_collation env) now x) (\<lambda>n. chain (co_timestamp (ce_then env)) (\<lambda>created.
     Inr \<lparr>cq_scope = sc, cq_operation = CoReminder, cq_key = nn_key n, cq_payload = note_json ''remindAt'' n,
          cq_action = note_action (new_notification sc ReminderNote n (co_create_id ''notification'' env) created)\<rparr>))))"

section \<open>Commands\<close>

datatype co_command = Follow follow_input | Unfollow follow_input | BindChannel bind_input
  | UnbindChannel string raw_target string | SetPreference prefer_input | RecordUpdate note_input | RecordReminder note_input

fun co_ask :: "co_env \<Rightarrow> co_scope \<Rightarrow> co_command \<Rightarrow> co_error + co_request" where
  "co_ask env raw (Follow x) = follow_request env raw x"
| "co_ask env raw (Unfollow x) = unfollow_request env raw x"
| "co_ask env raw (BindChannel x) = bind_request env raw x"
| "co_ask env raw (UnbindChannel k tg c) = unbind_request env raw k tg c"
| "co_ask env raw (SetPreference x) = prefer_request env raw x"
| "co_ask env raw (RecordUpdate x) = update_request env raw x"
| "co_ask env raw (RecordReminder x) = reminder_request env raw x"

text \<open>The service's \<open>runMutation\<close>, up to the write and in one piece.\<close>

definition co_begin ::
  "co_env \<Rightarrow> co_scope \<Rightarrow> co_command \<Rightarrow> co_store \<Rightarrow> co_store \<times> (co_error + co_result) option" where
  "co_begin env raw cmd st = (case co_ask env raw cmd of
       Inl e \<Rightarrow> (st, Some (Inl e))
     | Inr q \<Rightarrow> take_turn (cq_scope q) (cq_key q) (cq_operation q) (co_fingerprint (cq_operation q) (cq_payload q))
         (cq_action q) (ce_date env) st)"

definition exec_co ::
  "co_env \<Rightarrow> co_scope \<Rightarrow> co_command \<Rightarrow> bool \<Rightarrow> co_store \<Rightarrow> co_store \<times> (co_error + co_result)" where
  "exec_co env raw cmd ok st = (case co_ask env raw cmd of
       Inl e \<Rightarrow> (st, Inl e)
     | Inr q \<Rightarrow> run_co_mutation (cq_scope q) (cq_key q) (cq_operation q)
         (co_fingerprint (cq_operation q) (cq_payload q)) (cq_action q) (ce_date env) ok st)"

lemma exec_co_begin:
  "exec_co env raw cmd ok st = (case co_begin env raw cmd st of
       (st', Some r) \<Rightarrow> (st', r)
     | (st', None) \<Rightarrow> (case settle ok st' of (st'', r) \<Rightarrow> (st'', or_else r (Inl CoWriteFailed))))"
  by (auto simp: exec_co_def co_begin_def run_co_mutation_def split: sum.split)

end
