(* ===== verification/CollaborationQueries.thy ===== *)
theory CollaborationQueries
  imports Collaboration "HOL-Library.Multiset"
begin

text \<open>
  The queries of the collaboration service (\<open>server/collaboration-service.ts\<close>): the notifications a
  requester gets at once, and the digests of a day, a week or a month. The service compares the
  canonical texts of timestamps, by code units in its filters and by \<open>localeCompare\<close> when it sorts.
\<close>

section \<open>Notifications\<close>

definition co_limit :: "int \<Rightarrow> co_error + nat" where
  "co_limit v = (if v < 1 \<or> 100 < v then Inl CoInvalid else Inr (nat v))"

definition normalize_note_query ::
  "string option \<Rightarrow> string option \<Rightarrow> int option \<Rightarrow> co_error + time option \<times> time option \<times> nat" where
  "normalize_note_query from to limit =
     chain (co_optionally normalize_timestamp from) (\<lambda>f.
     chain (co_optionally normalize_timestamp to) (\<lambda>t.
     if (case (f, t) of (Some a, Some b) \<Rightarrow> iso_text b \<le> iso_text a | _ \<Rightarrow> False) then Inl CoInvalid
     else chain (co_limit (or_else limit 100)) (\<lambda>n. Inr (f, t, n))))"

definition since :: "time option \<Rightarrow> notification \<Rightarrow> bool" where
  "since f n \<longleftrightarrow> (case f of None \<Rightarrow> True | Some a \<Rightarrow> iso_text a \<le> iso_text (nt_occurred n))"

definition is_before :: "time option \<Rightarrow> notification \<Rightarrow> bool" where
  "is_before t n \<longleftrightarrow> (case t of None \<Rightarrow> True | Some b \<Rightarrow> iso_text (nt_occurred n) < iso_text b)"

text \<open>A subscription covers a notification of its target; a channel subscription one of its channel.\<close>

definition covers :: "subscription \<Rightarrow> notification \<Rightarrow> bool" where
  "covers s n \<longleftrightarrow> same_target (sb_target s) (nt_target n)
     \<and> (sb_delivery s = ChannelDelivery \<longrightarrow> sb_channel s = nt_channel n)"

definition preference_of :: "co_scope \<Rightarrow> subscription \<Rightarrow> co_context \<Rightarrow> preference option" where
  "preference_of sc s c = find_preference sc (sb_target s) (sb_delivery s) (sb_channel s) c"

definition is_immediate :: "co_scope \<Rightarrow> subscription list \<Rightarrow> co_context \<Rightarrow> notification \<Rightarrow> bool" where
  "is_immediate sc subs c n \<longleftrightarrow> list_ex (\<lambda>s. covers s n \<and>
     (let l = (case preference_of sc s c of None \<Rightarrow> AllLevel | Some p \<Rightarrow> np_level p)
      in l = AllLevel \<or> (l = MentionsLevel \<and> ws_requester sc \<in> set (nt_mentions n)))) subs"

definition is_digest :: "co_scope \<Rightarrow> subscription list \<Rightarrow> co_context \<Rightarrow> notification \<Rightarrow> bool" where
  "is_digest sc subs c n \<longleftrightarrow> list_ex (\<lambda>s. covers s n \<and>
     (case preference_of sc s c of None \<Rightarrow> False | Some p \<Rightarrow> np_level p = DigestLevel)) subs"

definition compare_newest :: "collation \<Rightarrow> notification \<Rightarrow> notification \<Rightarrow> int" where
  "compare_newest loc l r = then_by (loc (iso_text (nt_occurred r)) (iso_text (nt_occurred l))) (loc (nt_id r) (nt_id l))"

definition co_notifications ::
  "collation \<Rightarrow> co_scope \<Rightarrow> string option \<Rightarrow> string option \<Rightarrow> int option \<Rightarrow> co_context \<Rightarrow> co_error + notification list" where
  "co_notifications loc raw from to limit c =
     chain (normalize_co_scope raw) (\<lambda>sc. chain (normalize_note_query from to limit) (\<lambda>(f, t, n).
     Inr (take n (js_sort (compare_newest loc)
       (filter (is_immediate sc (list_subscriptions sc c) c)
         (filter (is_before t) (filter (since f) (list_notifications sc c))))))))"

section \<open>Digest windows\<close>

text \<open>\<open>Date.UTC\<close> reads a year from 0 to 99 as one of the twentieth century.\<close>

definition utc_day :: "int \<Rightarrow> nat \<Rightarrow> int \<Rightarrow> int" where
  "utc_day y m d = day_of (if 0 \<le> y \<and> y \<le> 99 then 1900 + y else y) m d"

definition week_day :: "int \<Rightarrow> int" where
  "week_day d = (d + 4) mod 7"

definition window_start :: "period \<Rightarrow> time \<Rightarrow> int" where
  "window_start p at = (case civil (at div ms_per_day) of (y, m, d) \<Rightarrow>
     let start = utc_day y m d in
     (case p of Daily \<Rightarrow> start
      | Weekly \<Rightarrow> start - (week_day start + 6) mod 7
      | Monthly \<Rightarrow> (case civil start of (y', m', _) \<Rightarrow> day_of y' m' 1)))"

definition window_end :: "period \<Rightarrow> int \<Rightarrow> int" where
  "window_end p start = (case p of Daily \<Rightarrow> start + 1 | Weekly \<Rightarrow> start + 7
     | Monthly \<Rightarrow> (case civil start of (y, m, d) \<Rightarrow>
         if m = 11 then day_of (y + 1) 0 d else day_of y (Suc m) d))"

definition digest_window :: "period \<Rightarrow> time \<Rightarrow> co_error + time \<times> time" where
  "digest_window p at = (let start = window_start p at * ms_per_day; stop = window_end p (window_start p at) * ms_per_day in
     if date_range start \<and> date_range stop then Inr (start, stop) else Inl CoRange)"

definition normalize_digest_query :: "string \<Rightarrow> string option \<Rightarrow> time \<Rightarrow> co_error + period \<times> time \<times> time" where
  "normalize_digest_query period_text at now =
     chain (co_enum period_name [Daily, Weekly, Monthly] period_text) (\<lambda>p.
     chain (case at of None \<Rightarrow> Inr now | Some v \<Rightarrow> normalize_timestamp v) (\<lambda>a.
     chain (digest_window p a) (\<lambda>(start, stop). Inr (p, start, stop))))"

section \<open>Digests\<close>

record digest_entry =
  de_target :: co_target
  de_kind :: note_kind
  de_title :: string
  de_body :: string
  de_count :: nat
  de_ids :: "string list"
  de_first :: time
  de_last :: time
  de_link :: co_link

record co_digest =
  dg_period :: period
  dg_from :: time
  dg_to :: time
  dg_total :: nat
  dg_entries :: "digest_entry list"

definition group_key :: "notification \<Rightarrow> string" where
  "group_key n = nul_join [target_name (tg_type (nt_target n)), tg_id (nt_target n), kind_name (nt_kind n)]"

text \<open>The groups of a \<open>Map\<close>: \<open>set\<close> keeps the place of a key it finds and appends a new one.\<close>

fun group_events :: "(string \<times> notification list) list \<Rightarrow> notification list \<Rightarrow> (string \<times> notification list) list" where
  "group_events gs [] = gs"
| "group_events gs (e # es) =
     group_events (AList.update (group_key e) (or_else (map_of gs (group_key e)) [] @ [e]) gs) es"

definition compare_oldest :: "collation \<Rightarrow> notification \<Rightarrow> notification \<Rightarrow> int" where
  "compare_oldest loc l r = then_by (loc (iso_text (nt_occurred l)) (iso_text (nt_occurred r))) (loc (nt_id l) (nt_id r))"

definition digest_of_group :: "collation \<Rightarrow> notification list \<Rightarrow> digest_entry" where
  "digest_of_group loc events = (let ordered = js_sort (compare_oldest loc) events; latest = last ordered in
     \<lparr>de_target = nt_target latest, de_kind = nt_kind latest, de_title = nt_title latest, de_body = nt_body latest,
      de_count = length ordered, de_ids = map nt_id ordered, de_first = nt_occurred (hd ordered),
      de_last = nt_occurred latest, de_link = build_collaboration_link (nt_target latest)\<rparr>)"

definition compare_entries :: "collation \<Rightarrow> digest_entry \<Rightarrow> digest_entry \<Rightarrow> int" where
  "compare_entries loc l r = then_by (loc (iso_text (de_last r)) (iso_text (de_last l)))
     (then_by (loc (kind_name (de_kind r)) (kind_name (de_kind l)))
       (loc (resource_name (de_target r)) (resource_name (de_target l))))"

definition digest_events :: "co_scope \<Rightarrow> time \<Rightarrow> time \<Rightarrow> co_context \<Rightarrow> notification list" where
  "digest_events sc from to c = filter (is_digest sc (list_subscriptions sc c) c)
     (filter (is_before (Some to)) (filter (since (Some from)) (list_notifications sc c)))"

definition collaboration_digest ::
  "collation \<Rightarrow> time \<Rightarrow> co_scope \<Rightarrow> string \<Rightarrow> string option \<Rightarrow> co_context \<Rightarrow> co_error + co_digest" where
  "collaboration_digest loc now raw period_text at c =
     chain (normalize_co_scope raw) (\<lambda>sc. chain (co_timestamp now) (\<lambda>t.
     chain (normalize_digest_query period_text at t) (\<lambda>(p, from, to).
     let events = digest_events sc from to c in
     Inr \<lparr>dg_period = p, dg_from = from, dg_to = to, dg_total = length events,
          dg_entries = js_sort (compare_entries loc) (map (digest_of_group loc) (map snd (group_events [] events)))\<rparr>)))"

text \<open>\<open>dailyDigest\<close>, \<open>weeklyDigest\<close> and \<open>monthlyDigest\<close>: an empty text counts as no time given.\<close>

definition period_digest ::
  "period \<Rightarrow> collation \<Rightarrow> time \<Rightarrow> co_scope \<Rightarrow> string option \<Rightarrow> co_context \<Rightarrow> co_error + co_digest" where
  "period_digest p loc now raw at c = collaboration_digest loc now raw (period_name p) (if at = Some [] then None else at) c"

section \<open>Lists and single records\<close>

definition get_subscription ::
  "co_scope \<Rightarrow> raw_target \<Rightarrow> string option \<Rightarrow> string option \<Rightarrow> co_context \<Rightarrow> co_error + subscription option" where
  "get_subscription raw v dl channel c =
     chain (normalize_co_scope raw) (\<lambda>sc. chain (normalize_identity v dl channel) (\<lambda>(tg, d, ch).
     Inr (find_subscription sc tg d ch c)))"

definition get_binding :: "co_scope \<Rightarrow> raw_target \<Rightarrow> string \<Rightarrow> co_context \<Rightarrow> co_error + binding option" where
  "get_binding raw v channel c =
     chain (normalize_co_scope raw) (\<lambda>sc. chain (normalize_co_target v) (\<lambda>tg. chain (co_text 256 channel) (\<lambda>ch.
     Inr (find_binding sc tg ch c))))"

definition get_preference ::
  "co_scope \<Rightarrow> raw_target \<Rightarrow> string option \<Rightarrow> string option \<Rightarrow> co_context \<Rightarrow> co_error + preference option" where
  "get_preference raw v dl channel c =
     chain (normalize_co_scope raw) (\<lambda>sc. chain (normalize_identity v dl channel) (\<lambda>(tg, d, ch).
     Inr (find_preference sc tg d ch c)))"

definition service_subscriptions :: "co_scope \<Rightarrow> co_context \<Rightarrow> co_error + subscription list" where
  "service_subscriptions raw c = chain (normalize_co_scope raw) (\<lambda>sc. Inr (list_subscriptions sc c))"

definition service_bindings :: "co_scope \<Rightarrow> co_context \<Rightarrow> co_error + binding list" where
  "service_bindings raw c = chain (normalize_co_scope raw) (\<lambda>sc. Inr (list_bindings sc c))"

definition service_preferences :: "co_scope \<Rightarrow> co_context \<Rightarrow> co_error + preference list" where
  "service_preferences raw c = chain (normalize_co_scope raw) (\<lambda>sc. Inr (list_preferences sc c))"

section \<open>What a window contains\<close>

lemma week_start: "(week_day (d - (week_day d + 6) mod 7)) = 1" "0 \<le> (week_day d + 6) mod 7" "(week_day d + 6) mod 7 < 7"
proof -
  show "week_day (d - (week_day d + 6) mod 7) = 1" unfolding week_day_def by presburger
qed simp_all

text \<open>The days of a window: it starts on or before the day of its anchor and ends after it.\<close>

definition old_year :: "time \<Rightarrow> bool" where
  "old_year t \<longleftrightarrow> 0 \<le> year_of_day (t div ms_per_day) \<and> year_of_day (t div ms_per_day) \<le> 99"

lemma civil_of_date: "civil_date y m d \<Longrightarrow> civil (day_of y m d) = (y, m, d)"
proof -
  assume date: "civil_date y m d"
  obtain y' m' d' where c: "civil (day_of y m d) = (y', m', d')" by (metis surj_pair)
  from civil_inverse [OF c] civil_date_unique [OF date] show ?thesis by (metis c)
qed

lemma window_start_day:
  assumes "\<not> old_year t"
  shows "window_start p t = (let day = t div ms_per_day in
     case p of Daily \<Rightarrow> day | Weekly \<Rightarrow> day - (week_day day + 6) mod 7
     | Monthly \<Rightarrow> (case civil day of (y, m, _) \<Rightarrow> day_of y m 1))"
proof -
  obtain y m d where c: "civil (t div ms_per_day) = (y, m, d)" by (metis surj_pair)
  then have "y = year_of_day (t div ms_per_day)" by (auto simp: civil_def Let_def)
  with assms have "\<not> (0 \<le> y \<and> y \<le> 99)" by (simp add: old_year_def)
  then have "utc_day y m d = t div ms_per_day"
    using civil_inverse [OF c] by (auto simp: utc_day_def)
  then show ?thesis by (cases p) (simp_all add: window_start_def c Let_def)
qed

text \<open>The first of a month and the first of the next.\<close>

lemma month_first:
  assumes "civil_date y m d"
  shows "civil_date y m 1" and "window_end Monthly (day_of y m 1) = day_of y m 1 + month_length (leap y) m"
    and "day_of y m d = day_of y m 1 + (d - 1)"
proof -
  show first: "civil_date y m 1" using assms by (simp add: civil_date_def)
  have "day_of (y + 1) 0 1 = day_of y 11 1 + month_length (leap y) 11"
    using day_from_year_next [of y] month_start_Suc [of "leap y" 11] month_start_12 [of "leap y"]
    by (auto simp: day_of_def)
  moreover have "day_of y (Suc m) 1 = day_of y m 1 + month_length (leap y) m"
    by (simp add: day_of_def month_start_Suc)
  ultimately show "window_end Monthly (day_of y m 1) = day_of y m 1 + month_length (leap y) m"
    by (simp add: window_end_def civil_of_date [OF first])
qed (simp add: day_of_def)

lemma week_window:
  fixes x d :: int
  assumes "x \<le> d" "d < x + 7" "week_day x = 1"
  shows "d - (week_day d + 6) mod 7 = x"
  using assms unfolding week_day_def by presburger

lemma day_window:
  fixes p :: period
  assumes "\<not> old_year t"
  defines "s \<equiv> window_start p t"
  shows "s \<le> t div ms_per_day \<and> t div ms_per_day < window_end p s"
    and "s \<le> u div ms_per_day \<Longrightarrow> u div ms_per_day < window_end p s \<Longrightarrow> \<not> old_year u \<Longrightarrow> window_start p u = s"
    and "p = Weekly \<Longrightarrow> week_day s = 1"
    and "p = Monthly \<Longrightarrow> \<exists>y m. civil s = (y, m, 1) \<and> window_end p s = s + month_length (leap y) m"
proof -
  note start = window_start_day [OF assms(1)]
  obtain y m d where c: "civil (t div ms_per_day) = (y, m, d)" by (metis surj_pair)
  note date = civil_inverse [OF c]
  note first = month_first [of y m d, OF conjunct1 [OF date]]
  have month: "p = Monthly \<Longrightarrow> s = day_of y m 1" by (simp add: s_def start c)
  have week: "p = Weekly \<Longrightarrow> s = t div ms_per_day - (week_day (t div ms_per_day) + 6) mod 7"
    by (simp add: s_def start Let_def)
  show "s \<le> t div ms_per_day \<and> t div ms_per_day < window_end p s"
  proof (cases p)
    case Daily
    then show ?thesis by (simp add: s_def start window_end_def)
  next
    case Weekly
    then show ?thesis using week week_start [of "t div ms_per_day"] by (simp add: window_end_def)
  next
    case Monthly
    then show ?thesis using month first date by (simp add: civil_date_def)
  qed
  show "p = Weekly \<Longrightarrow> week_day s = 1" using week week_start(1) by simp
  show "p = Monthly \<Longrightarrow> \<exists>y m. civil s = (y, m, 1) \<and> window_end p s = s + month_length (leap y) m"
    using month first civil_of_date [OF first(1)] by auto
  show "window_start p u = s" if u: "s \<le> u div ms_per_day" "u div ms_per_day < window_end p s" "\<not> old_year u"
  proof (cases p)
    case Daily
    then show ?thesis using u window_start_day [OF u(3)] by (simp add: window_end_def)
  next
    case Weekly
    then have "week_day s = 1" "u div ms_per_day < s + 7"
      using week week_start(1) u(2) by (simp_all add: window_end_def)
    then show ?thesis using week_window [OF u(1)] Weekly by (simp add: window_start_day [OF u(3)])
  next
    case Monthly
    define k where "k = u div ms_per_day - s"
    have k: "0 \<le> k" "k < month_length (leap y) m"
      using u Monthly month first(2) by (auto simp: k_def)
    then have "civil_date y m (k + 1)" using date by (auto simp: civil_date_def)
    moreover have "day_of y m (k + 1) = u div ms_per_day" using month [OF Monthly] by (simp add: k_def day_of_def)
    ultimately have "civil (u div ms_per_day) = (y, m, k + 1)" using civil_of_date by metis
    then show ?thesis using Monthly month by (simp add: window_start_day [OF u(3)])
  qed
qed

lemma time_within_days: "a * ms_per_day \<le> t \<and> t < b * ms_per_day \<longleftrightarrow> a \<le> t div ms_per_day \<and> t div ms_per_day < b"
proof -
  have "ms_per_day * (t div ms_per_day) \<le> t" "t < ms_per_day * (t div ms_per_day) + ms_per_day"
    by (rule div_within, simp)+
  then show ?thesis by linarith
qed

section \<open>Digests account for every event\<close>

lemma keys_group_events: "distinct (map fst gs) \<Longrightarrow> distinct (map fst (group_events gs es))"
  by (induction gs es rule: group_events.induct) (simp_all add: distinct_update)

text \<open>The group of a key: its events, in the order they came.\<close>

lemma group_of_key:
  "or_else (map_of (group_events gs es) k) [] = or_else (map_of gs k) [] @ filter (\<lambda>e. group_key e = k) es"
proof (induction gs es rule: group_events.induct)
  case (1 gs)
  then show ?case by simp
next
  case (2 gs e es)
  then show ?case by (simp add: update_conv' or_else_def)
qed

lemma groups_nonempty:
  "\<forall>g \<in> set (map snd gs). g \<noteq> [] \<Longrightarrow> \<forall>g \<in> set (map snd (group_events gs es)). g \<noteq> []"
proof (induction gs es rule: group_events.induct)
  case (1 gs)
  then show ?case by simp
next
  case (2 gs e es)
  have "\<forall>g \<in> set (map snd (AList.update k (v @ [e]) gs)). g \<noteq> []" for k v
    using 2(2) by (induction gs) auto
  with 2(1) show ?case by simp
qed

lemma mset_update:
  "distinct (map fst gs) \<Longrightarrow> mset (concat (map snd (AList.update k (or_else (map_of gs k) [] @ [e]) gs)))
     = add_mset e (mset (concat (map snd gs)))"
  by (induction gs) (auto simp: or_else_def dest: map_of_SomeD split: option.splits)

lemma mset_group_events:
  "distinct (map fst gs) \<Longrightarrow> mset (concat (map snd (group_events gs es))) = mset (concat (map snd gs)) + mset es"
  by (induction gs es rule: group_events.induct) (simp_all add: distinct_update mset_update)

lemma mset_js_sort: "mset (js_sort cmp xs) = mset xs"
proof -
  have "mset (js_insert cmp x ys) = add_mset x (mset ys)" for x ys by (induction ys) auto
  then show ?thesis by (induction xs) (simp_all add: js_sort_def)
qed

lemma group_members: "(k, g) \<in> set (group_events [] es) \<Longrightarrow> g = filter (\<lambda>e. group_key e = k) es \<and> g \<noteq> []"
proof -
  assume g: "(k, g) \<in> set (group_events [] es)"
  have "map_of (group_events [] es) k = Some g" using g keys_group_events [of "[]" es] by simp
  then have "g = filter (\<lambda>e. group_key e = k) es" using group_of_key [of "[]" es k] by (simp add: or_else_def)
  moreover have "g \<noteq> []" using groups_nonempty [of "[]" es] g by force
  ultimately show ?thesis by simp
qed

lemma digest_of_group_parts:
  assumes "g \<noteq> []"
  shows "mset (de_ids (digest_of_group loc g)) = image_mset nt_id (mset g)"
    and "de_count (digest_of_group loc g) = length g"
    and "\<exists>n \<in> set g. de_target (digest_of_group loc g) = nt_target n \<and> de_kind (digest_of_group loc g) = nt_kind n"
proof -
  have "js_sort (compare_oldest loc) g \<noteq> []" using assms by (metis length_js_sort length_0_conv)
  then have "last (js_sort (compare_oldest loc) g) \<in> set g" by (metis last_in_set set_js_sort)
  then show "\<exists>n \<in> set g. de_target (digest_of_group loc g) = nt_target n \<and> de_kind (digest_of_group loc g) = nt_kind n"
    by (auto simp: digest_of_group_def Let_def)
qed (simp_all add: digest_of_group_def Let_def mset_js_sort)

lemma digest_ids:
  "mset (concat (map de_ids (js_sort (compare_entries loc) (map (digest_of_group loc) (map snd (group_events [] es))))))
     = image_mset nt_id (mset es)"
proof -
  have concat: "mset (concat (map f (js_sort cmp xs))) = mset (concat (map f xs))" for f :: "'c \<Rightarrow> 'b list" and cmp xs
  proof -
    have "mset (concat (map f xs)) = \<Sum>\<^sub># (image_mset (\<lambda>x. mset (f x)) (mset xs))" for xs
      by (induction xs) auto
    then show ?thesis by (simp add: mset_js_sort)
  qed
  have "mset (concat (map (\<lambda>g. de_ids (digest_of_group loc g)) gs)) = image_mset nt_id (mset (concat gs))"
    if "\<forall>g \<in> set gs. g \<noteq> []" for gs
    using that by (induction gs) (auto simp: digest_of_group_parts)
  from this [of "map snd (group_events [] es)"] groups_nonempty [of "[]" es] mset_group_events [of "[]" es]
  show ?thesis by (simp add: concat o_def)
qed

lemma digest_total:
  "sum_list (map de_count (js_sort (compare_entries loc) (map (digest_of_group loc) (map snd (group_events [] es)))))
     = length es"
proof -
  have sorted: "sum_list (map f (js_sort cmp xs)) = sum_list (map f xs)" for f :: "'c \<Rightarrow> nat" and cmp xs
    by (metis mset_js_sort mset_map sum_mset_sum_list)
  have "sum_list (map (\<lambda>g. de_count (digest_of_group loc g)) gs) = length (concat gs)"
    if "\<forall>g \<in> set gs. g \<noteq> []" for gs
    using that by (induction gs) (auto simp: digest_of_group_parts)
  from this [of "map snd (group_events [] es)"] groups_nonempty [of "[]" es] mset_group_events [of "[]" es]
  show ?thesis by (simp add: sorted o_def) (metis size_mset)
qed

text \<open>Targets and kinds are told apart by the keys: an id has no code unit 0.\<close>

lemma nul_cut:
  assumes "CHR 0x00 \<notin> set x" "CHR 0x00 \<notin> set x'"
  shows "x @ CHR 0x00 # y = x' @ CHR 0x00 # y' \<longleftrightarrow> x = x' \<and> y = (y' :: string)"
proof
  have "takeWhile (\<lambda>c. c \<noteq> CHR 0x00) (x @ CHR 0x00 # y) = x" if "CHR 0x00 \<notin> set x" for x y :: string
    using that by (induction x) auto
  from this [OF assms(1), of y] this [OF assms(2), of y']
  show "x @ CHR 0x00 # y = x' @ CHR 0x00 # y' \<Longrightarrow> x = x' \<and> y = y'" by (metis append_Cons append_same_eq list.inject same_append_eq)
qed simp

lemma assert_text_no_nul: "assert_text n b s \<Longrightarrow> CHR 0x00 \<notin> set s"
proof
  assume "assert_text n b s" "CHR 0x00 \<in> set s"
  moreover have "text_control (CHR 0x00)" by (simp add: text_control_def code_unit_def)
  ultimately show False by (auto simp: assert_text_def list_ex_iff)
qed

lemma name_inject [simp]:
  "target_name a = target_name b \<longleftrightarrow> a = b" "kind_name k = kind_name l \<longleftrightarrow> k = l"
  "delivery_name d = delivery_name e \<longleftrightarrow> d = e"
  subgoal by (cases a; cases b; simp)
  subgoal by (cases k; cases l; simp)
  subgoal by (cases d; cases e; simp)
  done

lemma names_no_nul [simp]:
  "CHR 0x00 \<notin> set (target_name a)" "CHR 0x00 \<notin> set (kind_name k)" "CHR 0x00 \<notin> set (delivery_name d)"
  subgoal by (cases a; simp)
  subgoal by (cases k; simp)
  subgoal by (cases d; simp)
  done

lemma group_key_iff:
  assumes "assert_target (nt_target a)" "assert_target (nt_target b)"
  shows "group_key a = group_key b \<longleftrightarrow> nt_target a = nt_target b \<and> nt_kind a = nt_kind b"
  using assms [unfolded assert_target_def, THEN assert_text_no_nul]
  by (auto simp: group_key_def nul_cut intro: co_target.equality)

section \<open>Exact answers\<close>

text \<open>The part of the data whose timestamps have years of four digits, and a collation that orders
  such timestamps as their code units do.\<close>

definition dated :: "co_context \<Rightarrow> bool" where
  "dated c \<longleftrightarrow> (\<forall>n \<in> set (cc_notifications c). four_digit_year (nt_occurred n))"

definition collates_dates :: "collation \<Rightarrow> bool" where
  "collates_dates loc \<longleftrightarrow> consistent loc
     \<and> (\<forall>t u. four_digit_year t \<longrightarrow> four_digit_year u \<longrightarrow> t < u \<longrightarrow> loc (iso_text t) (iso_text u) < 0)"

definition code_unit_order :: collation where
  "code_unit_order a b = (if a < b then -1 else if b < a then 1 else 0)"

lemma code_unit_order: "collates_dates code_unit_order"
  unfolding collates_dates_def
proof (intro conjI allI impI)
  show "consistent code_unit_order" by (rule consistentI) (auto simp: code_unit_order_def split: if_splits)
qed (simp add: code_unit_order_def iso_text_less)

lemma window_order:
  assumes "four_digit_year (nt_occurred n)" "four_digit_year a"
  shows "since (Some a) n \<longleftrightarrow> a \<le> nt_occurred n" and "is_before (Some a) n \<longleftrightarrow> nt_occurred n < a"
  using iso_text_order(1) [OF assms] iso_text_order(2) [OF assms(2,1)] by (simp_all add: since_def is_before_def)

lemma consistent_on: "consistent cmp \<Longrightarrow> consistent (\<lambda>a b. cmp (f a) (f b))"
  unfolding consistent_def by blast

lemma consistent_swap:
  assumes "consistent cmp"
  shows "consistent (\<lambda>a b. cmp b a)"
proof (rule consistentI)
  show "cmp b a < 0 \<longleftrightarrow> 0 < cmp a b" for a b using consistent_flip(1) [OF assms, of a b] by linarith
  show "cmp b a \<le> 0 \<Longrightarrow> cmp c b \<le> 0 \<Longrightarrow> cmp c a \<le> 0" for a b c
    using consistent_trans [OF assms, of c b a] by blast
qed

lemma consistent_newest:
  assumes "consistent loc"
  shows "consistent (compare_newest loc)"
  unfolding compare_newest_def
proof (rule consistent_then_by)
  show "consistent (\<lambda>a b. loc (iso_text (nt_occurred b)) (iso_text (nt_occurred a)))"
    by (rule consistent_swap [OF consistent_on [OF assms]])
  show "consistent (\<lambda>a b. loc (nt_id b) (nt_id a))" by (rule consistent_swap [OF consistent_on [OF assms]])
qed

text \<open>What makes a notification immediate: some active subscription of the requester covers it, with no
  preference, a preference for everything, or one for mentions of the requester.\<close>

definition wants :: "co_scope \<Rightarrow> co_context \<Rightarrow> (level \<Rightarrow> bool) \<Rightarrow> notification \<Rightarrow> bool" where
  "wants sc c P n \<longleftrightarrow> (\<exists>s \<in> set (cc_subscriptions c). sb_active s \<and> sb_tenant s = ws_tenant sc
     \<and> sb_conversation s = ws_conversation sc \<and> sb_requester s = ws_requester sc \<and> covers s n
     \<and> P (case preference_of sc s c of None \<Rightarrow> AllLevel | Some p \<Rightarrow> np_level p))"

lemma immediate_wants: "is_immediate sc (list_subscriptions sc c) c n
    \<longleftrightarrow> wants sc c (\<lambda>l. l = AllLevel \<or> (l = MentionsLevel \<and> ws_requester sc \<in> set (nt_mentions n))) n"
  by (auto simp: is_immediate_def wants_def list_ex_iff list_subscriptions_def in_conversation_def Let_def)

lemma digest_wants: "is_digest sc (list_subscriptions sc c) c n \<longleftrightarrow> wants sc c (\<lambda>l. l = DigestLevel) n"
  by (auto simp: is_digest_def wants_def list_ex_iff list_subscriptions_def in_conversation_def split: option.splits)

lemma sorted_by_time:
  assumes "collates_dates loc" and "sorted_wrt (\<lambda>a b. compare_newest loc a b \<le> 0) ns"
    and "\<forall>n \<in> set ns. four_digit_year (nt_occurred n)"
  shows "sorted_wrt (\<lambda>a b. nt_occurred b \<le> nt_occurred a) ns"
proof (rule sorted_wrt_mono_rel [OF _ assms(2)])
  fix a b
  assume n: "a \<in> set ns" "b \<in> set ns" and le: "compare_newest loc a b \<le> 0"
  show "nt_occurred b \<le> nt_occurred a"
  proof (rule ccontr)
    assume "\<not> nt_occurred b \<le> nt_occurred a"
    then have "loc (iso_text (nt_occurred a)) (iso_text (nt_occurred b)) < 0"
      using assms(1,3) n by (simp add: collates_dates_def)
    then have "0 < loc (iso_text (nt_occurred b)) (iso_text (nt_occurred a))"
      using assms(1) consistent_flip(1) [of loc] by (metis collates_dates_def not_le)
    then show False using le by (simp add: compare_newest_def then_by_def)
  qed
qed

lemma notifications_answer:
  assumes raw: "normalize_co_scope raw = Inr sc" and q: "normalize_note_query from to limit = Inr (f, t, n)"
    and loc: "collates_dates loc" and dated: "dated c" "pred_option four_digit_year f" "pred_option four_digit_year t"
  obtains full where "co_notifications loc raw from to limit c = Inr (take n full)"
    "mset full = filter_mset (\<lambda>x. nt_tenant x = ws_tenant sc \<and> nt_conversation x = ws_conversation sc
       \<and> (\<forall>a. f = Some a \<longrightarrow> a \<le> nt_occurred x) \<and> (\<forall>b. t = Some b \<longrightarrow> nt_occurred x < b)
       \<and> wants sc c (\<lambda>l. l = AllLevel \<or> (l = MentionsLevel \<and> ws_requester sc \<in> set (nt_mentions x))) x)
       (mset (cc_notifications c))"
    "sorted_wrt (\<lambda>a b. nt_occurred b \<le> nt_occurred a) full"
proof
  let ?sel = "filter (is_immediate sc (list_subscriptions sc c) c) (filter (is_before t) (filter (since f) (list_notifications sc c)))"
  show "co_notifications loc raw from to limit c = Inr (take n (js_sort (compare_newest loc) ?sel))"
    by (simp add: co_notifications_def raw q)
  have order: "since f x \<longleftrightarrow> (\<forall>a. f = Some a \<longrightarrow> a \<le> nt_occurred x)" "is_before t x \<longleftrightarrow> (\<forall>b. t = Some b \<longrightarrow> nt_occurred x < b)"
    if "x \<in> set (cc_notifications c)" for x
    using window_order [of x "the f"] window_order [of x "the t"] dated that
    by (cases f; cases t; auto simp: dated_def since_def is_before_def)+
  have "?sel = filter (\<lambda>x. nt_tenant x = ws_tenant sc \<and> nt_conversation x = ws_conversation sc
       \<and> (\<forall>a. f = Some a \<longrightarrow> a \<le> nt_occurred x) \<and> (\<forall>b. t = Some b \<longrightarrow> nt_occurred x < b)
       \<and> wants sc c (\<lambda>l. l = AllLevel \<or> (l = MentionsLevel \<and> ws_requester sc \<in> set (nt_mentions x))) x) (cc_notifications c)"
    unfolding list_notifications_def filter_filter
    by (rule filter_cong) (auto simp: order immediate_wants in_conversation_def)
  then show "mset (js_sort (compare_newest loc) ?sel) = filter_mset (\<lambda>x. nt_tenant x = ws_tenant sc \<and> nt_conversation x = ws_conversation sc
       \<and> (\<forall>a. f = Some a \<longrightarrow> a \<le> nt_occurred x) \<and> (\<forall>b. t = Some b \<longrightarrow> nt_occurred x < b)
       \<and> wants sc c (\<lambda>l. l = AllLevel \<or> (l = MentionsLevel \<and> ws_requester sc \<in> set (nt_mentions x))) x)
       (mset (cc_notifications c))"
    by (simp add: mset_js_sort)
  show "sorted_wrt (\<lambda>a b. nt_occurred b \<le> nt_occurred a) (js_sort (compare_newest loc) ?sel)"
  proof (rule sorted_by_time [OF loc sorted_js_sort])
    show "consistent (compare_newest loc)" using loc by (simp add: collates_dates_def consistent_newest)
    show "\<forall>n \<in> set (js_sort (compare_newest loc) ?sel). four_digit_year (nt_occurred n)"
      using dated(1) by (auto simp: dated_def list_notifications_def)
  qed
qed

text \<open>A digest accounts for the events of its window: each is counted in the entry of its target and kind.\<close>

lemma digest_entries:
  assumes "\<forall>n \<in> set events. assert_target (nt_target n)"
  shows "\<forall>e \<in> set (js_sort (compare_entries loc) (map (digest_of_group loc) (map snd (group_events [] events)))).
      mset (de_ids e) = image_mset nt_id (filter_mset (\<lambda>n. nt_target n = de_target e \<and> nt_kind n = de_kind e) (mset events))
      \<and> de_count e = length (de_ids e) \<and> de_count e \<noteq> 0"
proof
  fix e assume "e \<in> set (js_sort (compare_entries loc) (map (digest_of_group loc) (map snd (group_events [] events))))"
  then obtain k g where g: "(k, g) \<in> set (group_events [] events)" "e = digest_of_group loc g" by auto
  note members = group_members [OF g(1)]
  obtain n where n: "n \<in> set g" "de_target e = nt_target n" "de_kind e = nt_kind n"
    using digest_of_group_parts(3) [of g loc] members g(2) by auto
  have "g = filter (\<lambda>x. nt_target x = de_target e \<and> nt_kind x = de_kind e) events"
  proof -
    have "group_key x = k \<longleftrightarrow> nt_target x = de_target e \<and> nt_kind x = de_kind e" if "x \<in> set events" for x
      using group_key_iff [of x n] that n members assms by auto
    then show ?thesis using members filter_cong [OF refl] by (metis (mono_tags, lifting))
  qed
  then have "mset g = filter_mset (\<lambda>x. nt_target x = de_target e \<and> nt_kind x = de_kind e) (mset events)"
    by (metis mset_filter)
  moreover have "length (de_ids e) = length g" by (simp add: g(2) digest_of_group_def Let_def)
  ultimately show "mset (de_ids e) = image_mset nt_id (filter_mset (\<lambda>n. nt_target n = de_target e \<and> nt_kind n = de_kind e) (mset events))
      \<and> de_count e = length (de_ids e) \<and> de_count e \<noteq> 0"
    using digest_of_group_parts(1,2) [of g loc] members unfolding g(2) by auto
qed

lemma digest_answer:
  assumes raw: "normalize_co_scope raw = Inr sc" and now: "date_range now" and q: "normalize_digest_query pt at now = Inr (p, a, b)"
    and dated: "dated c" "four_digit_year a" "four_digit_year b" and valid: "\<forall>n \<in> set (cc_notifications c). assert_target (nt_target n)"
  defines "events \<equiv> filter_mset (\<lambda>n. nt_tenant n = ws_tenant sc \<and> nt_conversation n = ws_conversation sc
     \<and> a \<le> nt_occurred n \<and> nt_occurred n < b \<and> wants sc c (\<lambda>l. l = DigestLevel) n) (mset (cc_notifications c))"
  obtains d where "collaboration_digest loc now raw pt at c = Inr d" "dg_from d = a" "dg_to d = b" "dg_total d = size events"
    "sum_list (map de_count (dg_entries d)) = dg_total d"
    "mset (concat (map de_ids (dg_entries d))) = image_mset nt_id events"
    "\<forall>e \<in> set (dg_entries d). mset (de_ids e) = image_mset nt_id (filter_mset (\<lambda>n. nt_target n = de_target e \<and> nt_kind n = de_kind e) events)"
proof -
  let ?es = "digest_events sc a b c"
  let ?d = "\<lparr>dg_period = p, dg_from = a, dg_to = b, dg_total = length ?es,
      dg_entries = js_sort (compare_entries loc) (map (digest_of_group loc) (map snd (group_events [] ?es)))\<rparr>"
  have run: "collaboration_digest loc now raw pt at c = Inr ?d"
    by (simp add: collaboration_digest_def raw now co_timestamp_def q Let_def)
  have order: "since (Some a) x \<longleftrightarrow> a \<le> nt_occurred x" "is_before (Some b) x \<longleftrightarrow> nt_occurred x < b" if "x \<in> set (cc_notifications c)" for x
    using window_order [of x] dated that by (auto simp: dated_def)
  have "?es = filter (\<lambda>n. nt_tenant n = ws_tenant sc \<and> nt_conversation n = ws_conversation sc
     \<and> a \<le> nt_occurred n \<and> nt_occurred n < b \<and> wants sc c (\<lambda>l. l = DigestLevel) n) (cc_notifications c)"
    unfolding digest_events_def list_notifications_def filter_filter
    by (rule filter_cong) (auto simp: order digest_wants in_conversation_def)
  then have es: "mset ?es = events" by (simp add: events_def)
  have "\<forall>n \<in> set ?es. assert_target (nt_target n)" using valid by (auto simp: digest_events_def list_notifications_def)
  then show thesis
    using that [OF run] digest_total [of loc ?es] digest_ids [of loc ?es] digest_entries [of ?es loc] es size_mset [of ?es]
    by auto
qed

text \<open>A digest at a time of the years 0 to 99 is one of the twentieth century.\<close>

lemma old_year_window:
  assumes "old_year t" and "digest_window p t = Inr (a, b)"
  shows "t < a"
proof -
  let ?d = "t div ms_per_day"
  obtain y m d where c: "civil ?d = (y, m, d)" by (metis surj_pair)
  have y: "0 \<le> y" "y \<le> 99" using assms(1) c by (auto simp: old_year_def civil_def Let_def)
  have "?d < day_from_year (y + 1)" using civil_inverse [OF c] civil_date_in_year [of y m d] by simp
  moreover have "day_from_year (y + 1) \<le> day_from_year 100" using day_from_year_mono [of "y + 1" 100] y by simp
  ultimately have t: "?d < day_from_year 100" by linarith
  have "0 \<le> month_start (leap (1900 + y)) m" using month_start_mono [of 0 m] by simp
  moreover have "1 \<le> d" using civil_inverse [OF c] by (simp add: civil_date_def)
  moreover have "day_from_year 1900 \<le> day_from_year (1900 + y)" using day_from_year_mono [of 1900 "1900 + y"] y by simp
  ultimately have u: "day_from_year 1900 \<le> utc_day y m d" using y by (simp add: utc_day_def day_of_def)
  have "utc_day y m d - 31 \<le> window_start p t"
  proof (cases p)
    case Weekly
    then show ?thesis using week_start(2,3) [of "utc_day y m d"] by (simp add: window_start_def c Let_def)
  next
    case Monthly
    obtain y' m' d' where c': "civil (utc_day y m d) = (y', m', d')" by (metis surj_pair)
    have "civil_date y' m' d'" "day_of y' m' d' = utc_day y m d" using civil_inverse [OF c'] by auto
    then have "utc_day y m d - 31 \<le> day_of y' m' 1"
      using month_first(3) [of y' m' d'] month_length_pos(2) [of "leap y'" m'] by (simp add: civil_date_def)
    then show ?thesis using Monthly by (simp add: window_start_def c c' Let_def)
  qed (simp add: window_start_def c Let_def)
  moreover have "day_from_year 100 + 31 < day_from_year 1900" by (simp add: day_from_year_def)
  ultimately have "?d < window_start p t" using t u by linarith
  moreover have "a = window_start p t * ms_per_day" using assms(2) by (simp add: digest_window_def Let_def split: if_splits)
  moreover have "t < ms_per_day * ?d + ms_per_day" by (rule div_within) simp
  ultimately show ?thesis by linarith
qed

end
