(* ===== verification/CollaborationRuns.thy ===== *)
theory CollaborationRuns
  imports CollaborationQueries WorkItemRuns
begin

text \<open>
  Histories of the collaboration store: turns of mutations, ends of their writes, and restarts at any
  moment. What an accepted input can change, that the store's own validation refuses a change of the
  service for two reasons only, and what of a mutation survives.
\<close>

section \<open>Texts and ids\<close>

lemma co_text_Inr: "co_text n v = Inr s \<Longrightarrow> assert_text n True s \<and> clean_text s \<and> length s \<le> n"
  by (auto simp: co_text_def assert_text_def blank_def clean_text_def list_all_iff list_ex_iff Let_def split: if_splits)

lemma co_optional_text_Inr: "co_optional_text n v = Inr s \<Longrightarrow> assert_text n False s \<and> clean_text s \<and> length s \<le> n"
  by (auto simp: co_optional_text_def assert_text_def clean_text_def list_all_iff list_ex_iff Let_def split: if_splits)

lemma co_enum_Inr: "co_enum name allowed v = Inr x \<Longrightarrow> x \<in> set allowed \<and> name x = v"
  by (auto simp: co_enum_def split: option.splits dest: find_Some_mem)

lemma normalize_co_scope_ok: "normalize_co_scope raw = Inr sc \<Longrightarrow> assert_scope sc"
  by (auto simp: normalize_co_scope_def chain_Inr assert_scope_def dest: co_text_Inr)

lemma normalize_co_target_ok:
  "normalize_co_target v = Inr tg \<Longrightarrow> assert_target tg \<and> clean_text (tg_id tg) \<and> length (tg_id tg) \<le> 200"
  by (auto simp: normalize_co_target_def chain_Inr assert_target_def dest: co_text_Inr)

lemma normalize_identity_ok:
  assumes "normalize_identity v dl channel = Inr (tg, d, c)"
  shows "assert_target tg" "assert_delivery d c" "clean_text (tg_id tg) \<and> length (tg_id tg) \<le> 200"
    "pred_option (\<lambda>s. clean_text s \<and> length s \<le> 256) c"
  using assms co_text_Inr
  by (auto simp: normalize_identity_def normalize_delivery_def chain_Inr assert_delivery_def
      dest!: normalize_co_target_ok split: if_splits option.splits elim: delivery.exhaust)

lemma co_map_Inr: "co_map f xs = Inr ys \<Longrightarrow> length ys = length xs \<and> (\<forall>y \<in> set ys. \<exists>x \<in> set xs. f x = Inr y)"
proof (induction xs arbitrary: ys)
  case (Cons x xs)
  then obtain z zs where "f x = Inr z" "co_map f xs = Inr zs" "ys = z # zs" by (auto simp: chain_Inr)
  with Cons.IH [of zs] show ?case by auto
qed simp

lemma normalize_ids_ok:
  assumes "normalize_ids loc maximum vs = Inr ids"
  shows "assert_unique_texts 256 maximum ids" and "list_all (\<lambda>s. clean_text s \<and> length s \<le> 256) ids"
proof -
  obtain us where us: "length vs \<le> maximum" "co_map (co_text 256) vs = Inr us" "distinct us" "ids = js_sort loc us"
    using assms by (auto simp: normalize_ids_def chain_Inr split: if_splits)
  have each: "\<forall>u \<in> set us. \<exists>v. co_text 256 v = Inr u"
    using co_map_Inr [OF us(2)] by blast
  have texts: "\<forall>u \<in> set us. assert_text 256 True u \<and> clean_text u \<and> length u \<le> 256"
    using each co_text_Inr by blast
  have "length us \<le> maximum" using us(1) co_map_Inr [OF us(2)] by simp
  then show "assert_unique_texts 256 maximum ids"
    using us(3,4) texts by (simp add: assert_unique_texts_def list_all_iff)
  show "list_all (\<lambda>s. clean_text s \<and> length s \<le> 256) ids"
    using us(4) texts by (simp add: list_all_iff)
qed

lemma normalize_ids_both:
  "normalize_ids loc maximum vs = Inr ids
     \<Longrightarrow> assert_unique_texts 256 maximum ids \<and> list_all (\<lambda>s. clean_text s \<and> length s \<le> 256) ids"
  using normalize_ids_ok by blast

lemma assign_entries_ok:
  assumes "assign_entries md es = Inr md'" and "distinct (map fst md)"
    and "list_all (\<lambda>(k, v). assert_text 120 True k \<and> assert_text 1000 False v \<and> clean_text k \<and> clean_text v) md"
  shows "length md' \<le> length md + length es \<and> distinct (map fst md')
     \<and> list_all (\<lambda>(k, v). assert_text 120 True k \<and> assert_text 1000 False v \<and> clean_text k \<and> clean_text v) md'"
  using assms
proof (induction md es rule: assign_entries.induct)
  case (1 md)
  then show ?case by simp
next
  case (2 md k v es)
  obtain k' v' where n: "co_text 120 k = Inr k'" "co_optional_text 1000 v = Inr v'"
    "assign_entries (assign_field k' v' md) es = Inr md'"
    using "2.prems"(1) by (auto simp: chain_Inr)
  have update: "list_all P (AList.update k' v' md)" if "list_all P md" "P (k', v')" for P
    using that by (induction md) auto
  have len: "length (AList.update k' v' md) \<le> Suc (length md)" by (induction md) auto
  have "length (assign_field k' v' md) \<le> Suc (length md) \<and> distinct (map fst (assign_field k' v' md))
     \<and> list_all (\<lambda>(k, v). assert_text 120 True k \<and> assert_text 1000 False v \<and> clean_text k \<and> clean_text v) (assign_field k' v' md)"
    using "2.prems"(2,3) len update co_text_Inr [OF n(1)] co_optional_text_Inr [OF n(2)]
    by (simp add: assign_field_def distinct_update)
  with "2.IH" [OF n(3)] show ?case by auto
qed

lemma normalize_metadata_ok:
  assumes "normalize_metadata loc v = Inr md"
  shows "assert_metadata md" and "distinct (map fst md)" and "list_all (\<lambda>(k, v). clean_text k \<and> clean_text v) md"
proof -
  have "length md \<le> 40 \<and> distinct (map fst md)
     \<and> list_all (\<lambda>(k, v). assert_text 120 True k \<and> assert_text 1000 False v \<and> clean_text k \<and> clean_text v) md"
    using assms assign_entries_ok [of "[]" "js_sort (\<lambda>l r. loc (fst l) (fst r)) (the v)" md]
    by (auto simp: normalize_metadata_def split: option.splits if_splits)
  then show "assert_metadata md" "distinct (map fst md)" "list_all (\<lambda>(k, v). clean_text k \<and> clean_text v) md"
    by (auto simp: assert_metadata_def list_all_iff)
qed

lemma canonical_range: "normalize_timestamp v = Inr t \<Longrightarrow> date_range t"
  by (auto simp: normalize_timestamp_def canonical_time_iff split: option.splits)

lemma normalize_note_ok:
  assumes "normalize_note loc now x = Inr n" and "date_range now"
  shows "assert_target (nn_target n)" "assert_text 400 True (nn_title n)" "assert_text 4000 False (nn_body n)"
    "assert_unique_texts 256 100 (nn_mentions n)" "pred_option (assert_text 256 True) (nn_channel n)" "date_range (nn_when n)"
    "clean_text (tg_id (nn_target n))" "clean_text (nn_title n)" "clean_text (nn_body n)"
    "list_all clean_text (nn_mentions n)" "pred_option clean_text (nn_channel n)"
  using assms
  by (auto simp: normalize_note_def chain_Inr co_optionally_def split: option.splits
      dest!: normalize_co_target_ok co_text_Inr co_optional_text_Inr normalize_ids_both dest: canonical_range
      simp: list_all_iff)

text \<open>The ids the service makes.\<close>

lemma base36_text: "list_all alnum_char (base36 n)"
proof (induction n rule: base36.induct)
  case (1 n)
  have "alnum_char (base36_digit k)" if "k < 36" for k
  proof -
    have "list_all (\<lambda>k. alnum_char (base36_digit k)) [0..<36]" by code_simp
    with that show ?thesis by (simp add: list_all_iff)
  qed
  then show ?case using 1 by (subst base36.simps) auto
qed

lemma base36_length: "n < 36 ^ k \<Longrightarrow> 0 < k \<Longrightarrow> length (base36 n) \<le> k"
proof (induction n arbitrary: k rule: base36.induct)
  case (1 n)
  show ?case
  proof (cases "n < 36")
    case True
    then show ?thesis using 1(3) by (simp add: base36.simps [of n])
  next
    case False
    then obtain j where j: "k = Suc j" "0 < j" using 1(2,3) by (cases k; cases "k - 1") auto
    then have "n div 36 < 36 ^ j" using 1(2) by (simp add: div_less_iff_less_mult mult.commute)
    from 1(1) [OF False this j(2)] show ?thesis using False j by (simp add: base36.simps [of n])
  qed
qed

definition co_env_ok :: "co_env \<Rightarrow> bool" where
  "co_env_ok env \<longleftrightarrow> 0 \<le> ce_date env \<and> date_range (ce_date env) \<and> uuid_text (ce_uuid env)"

lemma alnum_clean: "alnum_char c \<Longrightarrow> \<not> text_control c \<and> \<not> js_space c"
proof -
  have "list_all (\<lambda>c. \<not> text_control c \<and> \<not> js_space c) ''ABCDEFGHIJKLMNOPQRSTUVWXYZabcdefghijklmnopqrstuvwxyz0123456789''"
    by code_simp
  then show "alnum_char c \<Longrightarrow> \<not> text_control c \<and> \<not> js_space c"
    unfolding alnum_char_def list_all_iff by (rule bspec)
qed

lemma hex_clean: "hex_char c \<Longrightarrow> \<not> text_control c"
proof -
  have "set ''0123456789abcdef'' \<subseteq> set ''ABCDEFGHIJKLMNOPQRSTUVWXYZabcdefghijklmnopqrstuvwxyz0123456789''" by code_simp
  then show "hex_char c \<Longrightarrow> \<not> text_control c"
    using alnum_clean [of c] unfolding hex_char_def alnum_char_def by blast
qed

lemma uuid_clean: "uuid_text u \<Longrightarrow> clean_text u"
proof -
  assume u: "uuid_text u"
  have "\<not> text_control (u ! i)" if "i < length u" for i
    using u that hex_clean [of "u ! i"] by (fastforce simp: uuid_text_def text_control_def code_unit_def split: if_splits)
  then show ?thesis by (simp add: clean_text_def list_all_length)
qed

lemma clean_take: "clean_text s \<Longrightarrow> clean_text (take n s)"
  by (auto simp: clean_text_def list_all_iff dest: in_set_takeD)

lemma co_create_id_ok:
  assumes "co_env_ok env" and "clean_text p" "length p \<le> 100" "p \<noteq> []" "\<not> js_space (hd p)"
  shows "assert_text 200 True (co_create_id p env)"
proof -
  have "nat (ce_date env) < 36 ^ 11" using assms(1) by (auto simp: co_env_ok_def date_range_def)
  then have "length (base36 (nat (ce_date env))) \<le> 11" by (rule base36_length) simp
  moreover have "clean_text (base36 (nat (ce_date env)))"
    using base36_text alnum_clean by (auto simp: clean_text_def list_all_iff)
  moreover have "clean_text (take 12 (ce_uuid env))" using assms(1) uuid_clean clean_take by (simp add: co_env_ok_def)
  moreover have "\<not> text_control CHR ''-''" by (simp add: text_control_def code_unit_def)
  moreover have "\<not> blank (p @ s)" for s
    using assms(4,5) by (cases p) (simp_all add: blank_def js_trim_def dropWhile_eq_Nil_conv)
  ultimately show ?thesis
    using assms(2,3) by (auto simp: assert_text_def co_create_id_def clean_text_def list_all_iff list_ex_iff)
qed

section \<open>Keys tell records apart\<close>

lemma delivery_channel_key:
  "assert_delivery d c \<Longrightarrow> assert_delivery e c' \<Longrightarrow> d = e \<Longrightarrow> or_else c [] = or_else c' [] \<longleftrightarrow> c = c'"
  by (cases d; cases c; cases c') (auto simp: assert_delivery_def or_else_def)

lemma subscription_key_iff:
  assumes "validate_subscription a" "validate_subscription b"
  shows "subscription_key a = subscription_key b \<longleftrightarrow> sb_tenant a = sb_tenant b \<and> sb_conversation a = sb_conversation b
    \<and> sb_requester a = sb_requester b \<and> sb_target a = sb_target b \<and> sb_delivery a = sb_delivery b \<and> sb_channel a = sb_channel b"
proof -
  have nul: "CHR 0x00 \<notin> set (sb_tenant s)" "CHR 0x00 \<notin> set (sb_conversation s)" "CHR 0x00 \<notin> set (sb_requester s)"
    "CHR 0x00 \<notin> set (tg_id (sb_target s))" if "validate_subscription s" for s
    using that assert_text_no_nul by (auto simp: validate_subscription_def assert_scope_def assert_target_def)
  have delivery: "assert_delivery (sb_delivery a) (sb_channel a)" "assert_delivery (sb_delivery b) (sb_channel b)"
    using assms by (simp_all add: validate_subscription_def)
  show ?thesis
    using delivery_channel_key [OF delivery] nul [OF assms(1)] nul [OF assms(2)]
    by (auto simp: subscription_key_def target_key_def nul_cut intro: co_target.equality)
qed

lemma preference_key_iff:
  assumes "validate_preference a" "validate_preference b"
  shows "preference_key a = preference_key b \<longleftrightarrow> np_tenant a = np_tenant b \<and> np_conversation a = np_conversation b
    \<and> np_requester a = np_requester b \<and> np_target a = np_target b \<and> np_delivery a = np_delivery b \<and> np_channel a = np_channel b"
proof -
  have nul: "CHR 0x00 \<notin> set (np_tenant s)" "CHR 0x00 \<notin> set (np_conversation s)" "CHR 0x00 \<notin> set (np_requester s)"
    "CHR 0x00 \<notin> set (tg_id (np_target s))" if "validate_preference s" for s
    using that assert_text_no_nul by (auto simp: validate_preference_def assert_scope_def assert_target_def)
  have delivery: "assert_delivery (np_delivery a) (np_channel a)" "assert_delivery (np_delivery b) (np_channel b)"
    using assms by (simp_all add: validate_preference_def)
  show ?thesis
    using delivery_channel_key [OF delivery] nul [OF assms(1)] nul [OF assms(2)]
    by (auto simp: preference_key_def target_key_def nul_cut intro: co_target.equality)
qed

lemma binding_key_iff:
  assumes "validate_binding a" "validate_binding b"
  shows "binding_key a = binding_key b \<longleftrightarrow> cb_tenant a = cb_tenant b \<and> cb_conversation a = cb_conversation b
    \<and> cb_target a = cb_target b \<and> cb_channel a = cb_channel b"
proof -
  have nul: "CHR 0x00 \<notin> set (cb_tenant s)" "CHR 0x00 \<notin> set (cb_conversation s)" "CHR 0x00 \<notin> set (tg_id (cb_target s))"
    if "validate_binding s" for s
    using that assert_text_no_nul by (auto simp: validate_binding_def assert_target_def)
  show ?thesis
    using nul [OF assms(1)] nul [OF assms(2)]
    by (auto simp: binding_key_def target_key_def nul_cut intro: co_target.equality)
qed

lemma co_mutation_key_iff:
  assumes "assert_scope (km_scope a)" "assert_scope (km_scope b)"
  shows "co_mutation_key a = co_mutation_key b \<longleftrightarrow> km_scope a = km_scope b \<and> km_key a = km_key b"
proof -
  have nul: "CHR 0x00 \<notin> set (ws_tenant s)" "CHR 0x00 \<notin> set (ws_conversation s)" "CHR 0x00 \<notin> set (ws_requester s)"
    if "assert_scope s" for s
    using that assert_text_no_nul by (auto simp: assert_scope_def)
  show ?thesis
    using nul [OF assms(1)] nul [OF assms(2)]
    by (auto simp: co_mutation_key_def nul_cut intro: wi_scope.equality)
qed

section \<open>What an action does\<close>

definition owned_subscription :: "co_scope \<Rightarrow> subscription \<Rightarrow> bool" where
  "owned_subscription sc s \<longleftrightarrow> sb_tenant s = ws_tenant sc \<and> sb_conversation s = ws_conversation sc \<and> sb_requester s = ws_requester sc"

definition owned_binding :: "co_scope \<Rightarrow> binding \<Rightarrow> bool" where
  "owned_binding sc b \<longleftrightarrow> cb_tenant b = ws_tenant sc \<and> cb_conversation b = ws_conversation sc \<and> cb_bound_by b = ws_requester sc"

definition owned_preference :: "co_scope \<Rightarrow> preference \<Rightarrow> bool" where
  "owned_preference sc p \<longleftrightarrow> np_tenant p = ws_tenant sc \<and> np_conversation p = ws_conversation sc \<and> np_requester p = ws_requester sc"

inductive co_effect :: "co_env \<Rightarrow> co_scope \<Rightarrow> co_context \<Rightarrow> co_context \<Rightarrow> co_result \<Rightarrow> bool"
  for env :: co_env and sc :: co_scope and c :: co_context where
  subscription_same:
    "s \<in> set (cc_subscriptions c) \<Longrightarrow> owned_subscription sc s \<Longrightarrow> co_effect env sc c c (SubscriptionResult s)"
| subscription_update:
    "i < length (cc_subscriptions c) \<Longrightarrow> owned_subscription sc (cc_subscriptions c ! i) \<Longrightarrow> date_range t
     \<Longrightarrow> s = (cc_subscriptions c ! i)\<lparr>sb_active := active, sb_updated := t\<rparr>
     \<Longrightarrow> co_effect env sc c (c\<lparr>cc_subscriptions := (cc_subscriptions c)[i := s]\<rparr>) (SubscriptionResult s)"
| subscription_insert:
    "\<forall>x \<in> set (cc_subscriptions c). \<not> same_subscription sc tg dl ch x
     \<Longrightarrow> s = new_subscription sc tg dl ch (co_create_id ''subscription'' env) t
     \<Longrightarrow> co_env_ok env \<longrightarrow> validate_subscription s
     \<Longrightarrow> co_effect env sc c (c\<lparr>cc_subscriptions := s # cc_subscriptions c\<rparr>) (SubscriptionResult s)"
| binding_same:
    "b \<in> set (cc_bindings c) \<Longrightarrow> owned_binding sc b \<Longrightarrow> co_effect env sc c c (BindingResult b)"
| binding_update:
    "i < length (cc_bindings c) \<Longrightarrow> owned_binding sc (cc_bindings c ! i) \<Longrightarrow> date_range t
     \<Longrightarrow> assert_metadata md \<or> md = cb_metadata (cc_bindings c ! i)
     \<Longrightarrow> b = (cc_bindings c ! i)\<lparr>cb_metadata := md, cb_active := active, cb_updated := t\<rparr>
     \<Longrightarrow> co_effect env sc c (c\<lparr>cc_bindings := (cc_bindings c)[i := b]\<rparr>) (BindingResult b)"
| binding_insert:
    "\<forall>x \<in> set (cc_bindings c). \<not> same_binding sc tg channel x
     \<Longrightarrow> b = new_binding sc tg channel md (co_create_id ''channel-binding'' env) t
     \<Longrightarrow> co_env_ok env \<longrightarrow> validate_binding b
     \<Longrightarrow> co_effect env sc c (c\<lparr>cc_bindings := b # cc_bindings c\<rparr>) (BindingResult b)"
| preference_same:
    "p \<in> set (cc_preferences c) \<Longrightarrow> owned_preference sc p \<Longrightarrow> co_effect env sc c c (PreferenceResult p)"
| preference_update:
    "i < length (cc_preferences c) \<Longrightarrow> owned_preference sc (cc_preferences c ! i) \<Longrightarrow> date_range t
     \<Longrightarrow> (l = DigestLevel \<longleftrightarrow> pd \<noteq> None)
     \<Longrightarrow> p = (cc_preferences c ! i)\<lparr>np_level := l, np_period := pd, np_updated := t\<rparr>
     \<Longrightarrow> co_effect env sc c (c\<lparr>cc_preferences := (cc_preferences c)[i := p]\<rparr>) (PreferenceResult p)"
| preference_insert:
    "\<forall>x \<in> set (cc_preferences c). \<not> same_preference sc tg dl ch x
     \<Longrightarrow> p = new_preference sc tg dl ch l pd (co_create_id ''notification-preference'' env) t
     \<Longrightarrow> co_env_ok env \<longrightarrow> validate_preference p
     \<Longrightarrow> co_effect env sc c (c\<lparr>cc_preferences := p # cc_preferences c\<rparr>) (PreferenceResult p)"
| notification_insert:
    "n = new_notification sc kind nn (co_create_id ''notification'' env) t
     \<Longrightarrow> co_env_ok env \<longrightarrow> validate_notification n
     \<Longrightarrow> co_effect env sc c (c\<lparr>cc_notifications := trim_notifications (n # cc_notifications c)\<rparr>) (NotificationResult n)"

lemma prefixes_ok:
  assumes "co_env_ok env"
  shows "assert_text 200 True (co_create_id ''subscription'' env)" "assert_text 200 True (co_create_id ''channel-binding'' env)"
    "assert_text 200 True (co_create_id ''notification-preference'' env)" "assert_text 200 True (co_create_id ''notification'' env)"
  by (rule co_create_id_ok [OF assms]; simp add: text_control_def js_space_def code_unit_def)+

lemma timestamp_range: "co_timestamp t = Inr t' \<Longrightarrow> t' = t \<and> date_range t"
  by (auto simp: co_timestamp_def split: if_splits)

lemma follow_effect:
  assumes "follow_action sc tg dl ch (co_create_id ''subscription'' env) t c = Inr (c', r)"
    and "assert_scope sc" "assert_target tg" "assert_delivery dl ch" "date_range t"
  shows "co_effect env sc c c' r"
proof (cases "find_index (same_subscription sc tg dl ch) (cc_subscriptions c)")
  case None
  let ?s = "new_subscription sc tg dl ch (co_create_id ''subscription'' env) t"
  have "co_env_ok env \<longrightarrow> validate_subscription ?s"
    using assms prefixes_ok by (auto simp: new_subscription_def validate_subscription_def assert_scope_def)
  moreover have "c' = c\<lparr>cc_subscriptions := ?s # cc_subscriptions c\<rparr>" "r = SubscriptionResult ?s"
    using assms(1) None by (auto simp: follow_action_def Let_def)
  ultimately show ?thesis
    using subscription_insert [OF _ refl] None by (simp add: find_index_None)
next
  case (Some i)
  let ?s = "cc_subscriptions c ! i"
  have i: "i < length (cc_subscriptions c)" "owned_subscription sc ?s"
    using find_index_Some [OF Some] by (auto simp: same_subscription_def owned_subscription_def)
  show ?thesis
  proof (cases "sb_active ?s")
    case True
    with assms(1) Some have "c' = c" "r = SubscriptionResult ?s" by (auto simp: follow_action_def Let_def)
    then show ?thesis using i by (auto intro: subscription_same)
  next
    case False
    with assms(1) Some have "c' = c\<lparr>cc_subscriptions := (cc_subscriptions c)[i := ?s\<lparr>sb_active := True, sb_updated := t\<rparr>]\<rparr>"
      "r = SubscriptionResult (?s\<lparr>sb_active := True, sb_updated := t\<rparr>)"
      by (auto simp: follow_action_def Let_def)
    then show ?thesis using i assms(5) by (auto intro: subscription_update)
  qed
qed

lemma unfollow_effect:
  assumes "unfollow_action sc tg dl ch t c = Inr (c', r)" and "date_range t"
  shows "co_effect env sc c c' r"
proof (cases "find_index (same_subscription sc tg dl ch) (cc_subscriptions c)")
  case None
  with assms(1) show ?thesis by (simp add: unfollow_action_def)
next
  case (Some i)
  let ?s = "cc_subscriptions c ! i"
  have i: "i < length (cc_subscriptions c)" "owned_subscription sc ?s"
    using find_index_Some [OF Some] by (auto simp: same_subscription_def owned_subscription_def)
  show ?thesis
  proof (cases "sb_active ?s")
    case False
    with assms(1) Some have "c' = c" "r = SubscriptionResult ?s" by (auto simp: unfollow_action_def Let_def)
    then show ?thesis using i by (auto intro: subscription_same)
  next
    case True
    with assms(1) Some have "c' = c\<lparr>cc_subscriptions := (cc_subscriptions c)[i := ?s\<lparr>sb_active := False, sb_updated := t\<rparr>]\<rparr>"
      "r = SubscriptionResult (?s\<lparr>sb_active := False, sb_updated := t\<rparr>)"
      by (auto simp: unfollow_action_def Let_def)
    then show ?thesis using i assms(2) by (auto intro: subscription_update)
  qed
qed

lemma bind_effect:
  assumes "bind_action sc tg ch md (co_create_id ''channel-binding'' env) t c = Inr (c', r)"
    and "assert_scope sc" "assert_target tg" "assert_text 256 True ch" "assert_metadata md" "date_range t"
  shows "co_effect env sc c c' r"
proof (cases "find_index (same_binding sc tg ch) (cc_bindings c)")
  case None
  let ?b = "new_binding sc tg ch md (co_create_id ''channel-binding'' env) t"
  have "co_env_ok env \<longrightarrow> validate_binding ?b"
    using assms prefixes_ok by (auto simp: new_binding_def validate_binding_def assert_scope_def)
  moreover have "c' = c\<lparr>cc_bindings := ?b # cc_bindings c\<rparr>" "r = BindingResult ?b"
    using assms(1) None by (auto simp: bind_action_def Let_def)
  ultimately show ?thesis using binding_insert [OF _ refl] None by (simp add: find_index_None)
next
  case (Some i)
  let ?b = "cc_bindings c ! i"
  have by_me: "cb_bound_by ?b = ws_requester sc" using assms(1) Some by (auto simp: bind_action_def Let_def split: if_splits)
  then have i: "i < length (cc_bindings c)" "owned_binding sc ?b"
    using find_index_Some [OF Some] by (auto simp: same_binding_def owned_binding_def)
  consider "c' = c" "r = BindingResult ?b"
    | "c' = c\<lparr>cc_bindings := (cc_bindings c)[i := ?b\<lparr>cb_metadata := md, cb_active := True, cb_updated := t\<rparr>]\<rparr>"
      "r = BindingResult (?b\<lparr>cb_metadata := md, cb_active := True, cb_updated := t\<rparr>)"
    using assms(1) Some by_me by (auto simp: bind_action_def Let_def split: if_splits)
  then show ?thesis using i assms(5,6) by cases (auto intro: binding_same binding_update)
qed

lemma unbind_effect:
  assumes "unbind_action sc tg ch t c = Inr (c', r)" and "date_range t"
  shows "co_effect env sc c c' r"
proof (cases "find_index (same_binding sc tg ch) (cc_bindings c)")
  case None
  with assms(1) show ?thesis by (simp add: unbind_action_def)
next
  case (Some i)
  let ?b = "cc_bindings c ! i"
  have by_me: "cb_bound_by ?b = ws_requester sc" using assms(1) Some by (auto simp: unbind_action_def Let_def split: if_splits)
  then have i: "i < length (cc_bindings c)" "owned_binding sc ?b"
    using find_index_Some [OF Some] by (auto simp: same_binding_def owned_binding_def)
  have "c' = c\<lparr>cc_bindings := (cc_bindings c)[i := ?b\<lparr>cb_metadata := cb_metadata ?b, cb_active := False, cb_updated := t\<rparr>]\<rparr>"
    "r = BindingResult (?b\<lparr>cb_metadata := cb_metadata ?b, cb_active := False, cb_updated := t\<rparr>)"
    using assms(1) Some by_me by (auto simp: unbind_action_def Let_def split: if_splits)
  then show ?thesis using i assms(2) binding_update [OF i assms(2) disjI2 [OF refl] refl, of env] by simp
qed

lemma prefer_effect:
  assumes "prefer_action sc tg dl ch l pd (co_create_id ''notification-preference'' env) t c = Inr (c', r)"
    and "assert_scope sc" "assert_target tg" "assert_delivery dl ch" "date_range t" "l = DigestLevel \<longleftrightarrow> pd \<noteq> None"
  shows "co_effect env sc c c' r"
proof (cases "find_index (same_preference sc tg dl ch) (cc_preferences c)")
  case None
  let ?p = "new_preference sc tg dl ch l pd (co_create_id ''notification-preference'' env) t"
  have "co_env_ok env \<longrightarrow> validate_preference ?p"
    using assms prefixes_ok by (auto simp: new_preference_def validate_preference_def assert_scope_def)
  moreover have "c' = c\<lparr>cc_preferences := ?p # cc_preferences c\<rparr>" "r = PreferenceResult ?p"
    using assms(1) None by (auto simp: prefer_action_def Let_def)
  ultimately show ?thesis using preference_insert [OF _ refl] None by (simp add: find_index_None)
next
  case (Some i)
  let ?p = "cc_preferences c ! i"
  have i: "i < length (cc_preferences c)" "owned_preference sc ?p"
    using find_index_Some [OF Some] by (auto simp: same_preference_def owned_preference_def)
  consider "c' = c" "r = PreferenceResult ?p"
    | "c' = c\<lparr>cc_preferences := (cc_preferences c)[i := ?p\<lparr>np_level := l, np_period := pd, np_updated := t\<rparr>]\<rparr>"
      "r = PreferenceResult (?p\<lparr>np_level := l, np_period := pd, np_updated := t\<rparr>)"
    using assms(1) Some by (auto simp: prefer_action_def Let_def split: if_splits)
  then show ?thesis using i assms(5,6) by cases (auto intro: preference_same preference_update)
qed

lemma note_effect:
  assumes "note_action (new_notification sc kind n (co_create_id ''notification'' env) t) c = Inr (c', r)"
    and "normalize_note loc now x = Inr n" "date_range now" "assert_scope sc" "date_range t"
  shows "co_effect env sc c c' r"
proof -
  let ?n = "new_notification sc kind n (co_create_id ''notification'' env) t"
  have "co_env_ok env \<longrightarrow> validate_notification ?n"
    using normalize_note_ok [OF assms(2,3)] assms(4,5) prefixes_ok
    by (auto simp: new_notification_def validate_notification_def assert_scope_def)
  moreover have "c' = c\<lparr>cc_notifications := trim_notifications (?n # cc_notifications c)\<rparr>" "r = NotificationResult ?n"
    using assms(1) by (auto simp: note_action_def)
  ultimately show ?thesis using notification_insert [OF refl] by simp
qed

lemma normalize_prefer_ok:
  assumes "normalize_prefer x = Inr (k, (tg, dl, ch), l, pd)"
  shows "normalize_identity (pi_target x) (pi_delivery x) (pi_channel x) = Inr (tg, dl, ch)"
    and "l = DigestLevel \<longleftrightarrow> pd \<noteq> None" and "co_text 200 (pi_key x) = Inr k"
  using assms by (auto simp: normalize_prefer_def chain_Inr split: if_splits)

lemma co_ask_scope: "co_ask env raw cmd = Inr q \<Longrightarrow> normalize_co_scope raw = Inr (cq_scope q)"
  by (cases cmd) (auto simp: follow_request_def unfollow_request_def bind_request_def unbind_request_def
      prefer_request_def update_request_def reminder_request_def chain_Inr)

lemma co_ask_effect:
  assumes ask: "co_ask env raw cmd = Inr q" and run: "cq_action q c = Inr (c', r)"
  shows "co_effect env (cq_scope q) c c' r"
proof -
  have sc: "assert_scope (cq_scope q)" using co_ask_scope [OF ask] normalize_co_scope_ok by blast
  show ?thesis
  proof (cases cmd)
    case (Follow x)
    then obtain k tg dl ch where n: "normalize_follow x = Inr (k, tg, dl, ch)" "date_range (ce_now env)"
      "cq_action q = follow_action (cq_scope q) tg dl ch (co_create_id ''subscription'' env) (ce_now env)"
      using ask by (auto simp: follow_request_def chain_Inr dest!: timestamp_range)
    then have "normalize_identity (fi_target x) (fi_delivery x) (fi_channel x) = Inr (tg, dl, ch)"
      by (auto simp: normalize_follow_def chain_Inr)
    from normalize_identity_ok(1,2) [OF this] show ?thesis
      using run sc n by (auto intro: follow_effect)
  next
    case (Unfollow x)
    then show ?thesis using ask run
      by (auto simp: unfollow_request_def chain_Inr dest!: timestamp_range intro: unfollow_effect)
  next
    case (BindChannel x)
    then obtain k tg ch md where n: "normalize_bind (ce_collation env) x = Inr (k, tg, ch, md)" "date_range (ce_now env)"
      "cq_action q = bind_action (cq_scope q) tg ch md (co_create_id ''channel-binding'' env) (ce_now env)"
      using ask by (auto simp: bind_request_def chain_Inr dest!: timestamp_range)
    then have "assert_target tg" "assert_text 256 True ch" "assert_metadata md"
      by (auto simp: normalize_bind_def chain_Inr dest!: normalize_co_target_ok co_text_Inr normalize_metadata_ok(1))
    then show ?thesis using run sc n by (auto intro: bind_effect)
  next
    case (UnbindChannel k tg ch)
    then show ?thesis using ask run
      by (auto simp: unbind_request_def chain_Inr dest!: timestamp_range intro: unbind_effect)
  next
    case (SetPreference x)
    then obtain k tg dl ch l pd where n: "normalize_prefer x = Inr (k, (tg, dl, ch), l, pd)" "date_range (ce_now env)"
      "cq_action q = prefer_action (cq_scope q) tg dl ch l pd (co_create_id ''notification-preference'' env) (ce_now env)"
      using ask by (auto simp: prefer_request_def chain_Inr dest!: timestamp_range)
    note p = normalize_prefer_ok [OF n(1)]
    from normalize_identity_ok(1,2) [OF p(1)] show ?thesis
      using run sc n p(2) prefer_effect [of "cq_scope q" tg dl ch l pd env "ce_now env" c c' r] by simp
  next
    case (RecordUpdate x)
    then obtain n where "normalize_note (ce_collation env) (ce_now env) x = Inr n" "date_range (ce_now env)" "date_range (ce_then env)"
      "cq_action q = note_action (new_notification (cq_scope q) UpdateNote n (co_create_id ''notification'' env) (ce_then env))"
      using ask by (auto simp: update_request_def chain_Inr dest!: timestamp_range)
    then show ?thesis using run sc by (auto intro: note_effect)
  next
    case (RecordReminder x)
    then obtain n where "normalize_note (ce_collation env) (ce_now env) x = Inr n" "date_range (ce_now env)" "date_range (ce_then env)"
      "cq_action q = note_action (new_notification (cq_scope q) ReminderNote n (co_create_id ''notification'' env) (ce_then env))"
      using ask by (auto simp: reminder_request_def chain_Inr dest!: timestamp_range)
    then show ?thesis using run sc by (auto intro: note_effect)
  qed
qed

section \<open>Changes of the service validate\<close>

definition valid_context :: "co_context \<Rightarrow> bool" where
  "valid_context c \<longleftrightarrow>
     list_all validate_subscription (cc_subscriptions c) \<and> distinct (map sb_id (cc_subscriptions c))
     \<and> distinct (map subscription_key (cc_subscriptions c))
     \<and> list_all validate_binding (cc_bindings c) \<and> distinct (map cb_id (cc_bindings c))
     \<and> distinct (map binding_key (cc_bindings c))
     \<and> list_all validate_preference (cc_preferences c) \<and> distinct (map np_id (cc_preferences c))
     \<and> distinct (map preference_key (cc_preferences c))
     \<and> list_all validate_notification (cc_notifications c) \<and> distinct (map nt_id (cc_notifications c))"

definition valid_mutations :: "co_mutation list \<Rightarrow> bool" where
  "valid_mutations ms \<longleftrightarrow> list_all validate_co_mutation ms \<and> distinct (map co_mutation_key ms)
     \<and> list_all result_in_scope ms"

lemma validate_store_split: "validate_store d \<longleftrightarrow> valid_context (cd_context d) \<and> valid_mutations (cd_mutations d)"
  by (auto simp: validate_store_def valid_context_def valid_mutations_def Let_def)

text \<open>No record has the id that the service would give to a new one.\<close>

definition ids_fresh :: "co_env \<Rightarrow> co_context \<Rightarrow> bool" where
  "ids_fresh env c \<longleftrightarrow> co_create_id ''subscription'' env \<notin> set (map sb_id (cc_subscriptions c))
     \<and> co_create_id ''channel-binding'' env \<notin> set (map cb_id (cc_bindings c))
     \<and> co_create_id ''notification-preference'' env \<notin> set (map np_id (cc_preferences c))
     \<and> co_create_id ''notification'' env \<notin> set (map nt_id (cc_notifications c))"

lemma list_all_update: "list_all P xs \<Longrightarrow> P v \<Longrightarrow> list_all P (xs[i := v])"
  by (auto simp: list_all_iff dest!: set_update_subset_insert [THEN subsetD])

lemma trim_prefix: "trim_notifications ns = take 5000 ns"
  by (simp add: trim_notifications_def)

lemma effect_valid:
  assumes effect: "co_effect env sc c c' r" and c: "valid_context c" and env: "co_env_ok env" and ids: "ids_fresh env c"
  shows "valid_context c'"
  using effect
proof cases
  case (subscription_update i t s active)
  have "validate_subscription (cc_subscriptions c ! i)"
    using c subscription_update(3) by (simp add: valid_context_def list_all_length)
  then have "validate_subscription s" using subscription_update by (simp add: validate_subscription_def)
  then show ?thesis
    using c subscription_update by (simp add: valid_context_def list_all_update map_update_same subscription_key_def)
next
  case (subscription_insert tg dl ch s t)
  have s: "validate_subscription s" using subscription_insert env by simp
  have "subscription_key s \<noteq> subscription_key x" if "x \<in> set (cc_subscriptions c)" for x
  proof -
    have "validate_subscription x" using that c by (simp add: valid_context_def list_all_iff)
    then show ?thesis
      using subscription_insert(3,4) that subscription_key_iff [OF s, of x]
      by (fastforce simp: same_subscription_def new_subscription_def same_target_def)
  qed
  moreover have "sb_id s \<notin> sb_id ` set (cc_subscriptions c)"
    using ids subscription_insert(4) by (simp add: ids_fresh_def new_subscription_def)
  ultimately show ?thesis
    using c s subscription_insert(1) by (auto simp: valid_context_def)
next
  case (binding_update i t md b active)
  have "validate_binding (cc_bindings c ! i)"
    using c binding_update(3) by (simp add: valid_context_def list_all_length)
  then have "validate_binding b" using binding_update by (auto simp: validate_binding_def)
  then show ?thesis
    using c binding_update by (simp add: valid_context_def list_all_update map_update_same binding_key_def)
next
  case (binding_insert tg ch b md t)
  have b: "validate_binding b" using binding_insert env by simp
  have "binding_key b \<noteq> binding_key x" if "x \<in> set (cc_bindings c)" for x
  proof -
    have "validate_binding x" using that c by (simp add: valid_context_def list_all_iff)
    then show ?thesis
      using binding_insert(3,4) that binding_key_iff [OF b, of x]
      by (fastforce simp: same_binding_def new_binding_def same_target_def)
  qed
  moreover have "cb_id b \<notin> cb_id ` set (cc_bindings c)"
    using ids binding_insert(4) by (simp add: ids_fresh_def new_binding_def)
  ultimately show ?thesis
    using c b binding_insert(1) by (auto simp: valid_context_def)
next
  case (preference_update i t l pd p)
  have "validate_preference (cc_preferences c ! i)"
    using c preference_update(3) by (simp add: valid_context_def list_all_length)
  then have "validate_preference p" using preference_update by (simp add: validate_preference_def)
  then show ?thesis
    using c preference_update by (simp add: valid_context_def list_all_update map_update_same preference_key_def)
next
  case (preference_insert tg dl ch p l pd t)
  have p: "validate_preference p" using preference_insert env by simp
  have "preference_key p \<noteq> preference_key x" if "x \<in> set (cc_preferences c)" for x
  proof -
    have "validate_preference x" using that c by (simp add: valid_context_def list_all_iff)
    then show ?thesis
      using preference_insert(3,4) that preference_key_iff [OF p, of x]
      by (fastforce simp: same_preference_def new_preference_def same_target_def)
  qed
  moreover have "np_id p \<notin> np_id ` set (cc_preferences c)"
    using ids preference_insert(4) by (simp add: ids_fresh_def new_preference_def)
  ultimately show ?thesis
    using c p preference_insert(1) by (auto simp: valid_context_def)
next
  case (notification_insert n kind nn t)
  have n: "validate_notification n" using notification_insert env by simp
  have "nt_id n \<notin> nt_id ` set (cc_notifications c)"
    using ids notification_insert(3) by (simp add: ids_fresh_def new_notification_def)
  then have "distinct (map nt_id (n # cc_notifications c))" using c by (simp add: valid_context_def)
  then have "distinct (map nt_id (trim_notifications (n # cc_notifications c)))"
    by (simp only: trim_prefix take_map [symmetric] distinct_take)
  moreover have "list_all validate_notification (trim_notifications (n # cc_notifications c))"
    using n c by (auto simp: trim_prefix valid_context_def list_all_iff dest: in_set_takeD)
  ultimately show ?thesis using c notification_insert(1) by (simp add: valid_context_def)
qed (use c in simp_all)

lemma effect_scope:
  assumes "co_effect env sc c c' r"
  shows "result_in_scope \<lparr>km_scope = sc, km_key = k, km_operation = op, km_fingerprint = fp, km_result = r, km_created = t\<rparr>"
  using assms
  by cases (auto simp: result_in_scope_def owned_subscription_def owned_binding_def owned_preference_def
      new_subscription_def new_binding_def new_preference_def new_notification_def)

section \<open>Fingerprints\<close>

lemma iso_text_clean: "clean_text (iso_text t)"
proof -
  have pads: "clean_text (pad k n)" for k n
    using pad_digits [of k n] digit_clean by (auto simp: clean_text_def list_all_iff)
  show ?thesis
    by (auto simp: iso_text_def year_text_def date_text_def clock_text_def pads text_control_def code_unit_def split: prod.splits)
qed

lemma co_names_clean:
  "clean_text (target_name ty) \<and> length (target_name ty) \<le> 9"
  "clean_text (delivery_name d) \<and> length (delivery_name d) \<le> 8"
  "clean_text (level_name l) \<and> length (level_name l) \<le> 8"
  "clean_text (period_name p) \<and> length (period_name p) \<le> 7"
  "clean_text (co_operation_name q) \<and> length (co_operation_name q) \<le> 27"
  subgoal by (cases ty) (simp_all add: text_control_def code_unit_def)
  subgoal by (cases d) (simp_all add: text_control_def code_unit_def)
  subgoal by (cases l) (simp_all add: text_control_def code_unit_def)
  subgoal by (cases p) (simp_all add: text_control_def code_unit_def)
  subgoal by (cases q) (simp_all add: text_control_def code_unit_def)
  done

lemma letters_clean [simp]:
  "clean_text ''target''" "clean_text ''type''" "clean_text ''id''" "clean_text ''delivery''" "clean_text ''channelId''"
  "clean_text ''metadata''" "clean_text ''level''" "clean_text ''digestPeriod''" "clean_text ''title''" "clean_text ''body''"
  "clean_text ''mentionUserIds''" "clean_text ''occurredAt''" "clean_text ''remindAt''" "clean_text ''operation''" "clean_text ''payload''"
  by (simp_all add: text_control_def code_unit_def)

lemma target_json_clean:
  "clean_text (tg_id tg) \<Longrightarrow> json_clean (target_json tg)"
  "length (tg_id tg) \<le> 200 \<Longrightarrow> json_size (target_json tg) \<le> 450"
  using co_names_clean(1) [of "tg_type tg"] by (simp_all add: target_json_def del: clean_simps)

lemma json_option_clean:
  "pred_option clean_text v \<Longrightarrow> json_clean (json_option v)"
  "pred_option (\<lambda>s. length s \<le> n) v \<Longrightarrow> json_size (json_option v) \<le> 4 + 2 * n"
  by (cases v; simp add: json_option_def)+

lemma identity_json_clean:
  assumes "normalize_identity v dl channel = Inr (tg, d, c)"
  shows "json_clean (JObject (identity_json tg d c))" "json_size (JObject (identity_json tg d c)) \<le> 1100"
proof -
  note ok = normalize_identity_ok [OF assms]
  have c: "json_clean (json_option c)" "json_size (json_option c) \<le> 516"
    using ok(4) json_option_clean(2) [of 256 c] by (cases c; simp add: json_option_def)+
  show "json_clean (JObject (identity_json tg d c))"
    using ok(3) c co_names_clean(2) [of d] target_json_clean(1) [of tg] by (simp add: identity_json_def del: clean_simps)
  show "json_size (JObject (identity_json tg d c)) \<le> 1100"
    using ok(3) c co_names_clean(2) [of d] target_json_clean(2) [of tg] by (simp add: identity_json_def)
qed

text \<open>Every payload is clean; those without metadata and texts of an event are small.\<close>

fun sized_command :: "co_command \<Rightarrow> bool" where
  "sized_command (Follow _) = True" | "sized_command (Unfollow _) = True" | "sized_command (UnbindChannel _ _ _) = True"
| "sized_command (SetPreference _) = True" | "sized_command (BindChannel _) = False"
| "sized_command (RecordUpdate _) = False" | "sized_command (RecordReminder _) = False"

lemma co_payload:
  assumes "co_ask env raw cmd = Inr q"
  shows "json_clean (cq_payload q)" and "sized_command cmd \<Longrightarrow> json_size (cq_payload q) \<le> 2000"
proof -
  have "json_clean (cq_payload q) \<and> (sized_command cmd \<longrightarrow> json_size (cq_payload q) \<le> 2000)"
  proof (cases cmd)
    case (Follow x)
    then obtain tg dl ch where n: "normalize_identity (fi_target x) (fi_delivery x) (fi_channel x) = Inr (tg, dl, ch)"
      "cq_payload q = JObject (identity_json tg dl ch)"
      using assms by (auto simp: follow_request_def normalize_follow_def chain_Inr)
    show ?thesis unfolding n(2) using identity_json_clean [OF n(1)] by (simp only: simp_thms) linarith
  next
    case (Unfollow x)
    then obtain tg dl ch where n: "normalize_identity (fi_target x) (fi_delivery x) (fi_channel x) = Inr (tg, dl, ch)"
      "cq_payload q = JObject (identity_json tg dl ch)"
      using assms by (auto simp: unfollow_request_def normalize_follow_def chain_Inr)
    show ?thesis unfolding n(2) using identity_json_clean [OF n(1)] by (simp only: simp_thms) linarith
  next
    case (BindChannel x)
    then obtain tg ch md where n: "clean_text (tg_id tg)" "clean_text ch" "list_all (\<lambda>(k, v). clean_text k \<and> clean_text v) md"
      "cq_payload q = JObject [(''target'', target_json tg), (''channelId'', JText ch), (''metadata'', metadata_json md)]"
      using assms by (auto simp: bind_request_def normalize_bind_def chain_Inr
          dest!: normalize_co_target_ok co_text_Inr normalize_metadata_ok(3))
    then have "json_clean (metadata_json md)" by (auto simp: metadata_json_def list_all_iff)
    then show ?thesis using n target_json_clean(1) BindChannel by (simp del: clean_simps)
  next
    case (UnbindChannel k v channel)
    then obtain tg ch where n: "clean_text (tg_id tg)" "length (tg_id tg) \<le> 200" "clean_text ch" "length ch \<le> 256"
      "cq_payload q = JObject [(''target'', target_json tg), (''channelId'', JText ch)]"
      using assms by (auto simp: unbind_request_def normalize_unbind_def chain_Inr dest!: normalize_co_target_ok co_text_Inr)
    then show ?thesis using target_json_clean [of tg] by (simp del: clean_simps)
  next
    case (SetPreference x)
    then obtain k tg dl ch l pd where n: "normalize_prefer x = Inr (k, (tg, dl, ch), l, pd)"
      "cq_payload q = JObject (identity_json tg dl ch @ [(''level'', JText (level_name l)),
            (''digestPeriod'', json_option (map_option period_name pd))])"
      using assms by (auto simp: prefer_request_def chain_Inr)
    note i = identity_json_clean [OF normalize_prefer_ok(1) [OF n(1)]]
    have "json_clean (json_option (map_option period_name pd)) \<and> json_size (json_option (map_option period_name pd)) \<le> 18"
      using co_names_clean(4) [of "the pd"] by (cases pd) (auto simp: json_option_def)
    then show ?thesis using i co_names_clean(3) [of l] n(2) by (simp del: clean_simps)
  next
    case (RecordUpdate x)
    then obtain now n where "normalize_note (ce_collation env) now x = Inr n" "date_range now"
      "cq_payload q = note_json ''occurredAt'' n"
      using assms by (auto simp: update_request_def chain_Inr dest!: timestamp_range)
    with normalize_note_ok(7-11) [OF this(1,2)] show ?thesis
      using RecordUpdate iso_text_clean target_json_clean(1) json_option_clean(1)
      by (auto simp: note_json_def list_all_iff simp del: clean_simps)
  next
    case (RecordReminder x)
    then obtain now n where "normalize_note (ce_collation env) now x = Inr n" "date_range now"
      "cq_payload q = note_json ''remindAt'' n"
      using assms by (auto simp: reminder_request_def chain_Inr dest!: timestamp_range)
    with normalize_note_ok(7-11) [OF this(1,2)] show ?thesis
      using RecordReminder iso_text_clean target_json_clean(1) json_option_clean(1)
      by (auto simp: note_json_def list_all_iff simp del: clean_simps)
  qed
  then show "json_clean (cq_payload q)" "sized_command cmd \<Longrightarrow> json_size (cq_payload q) \<le> 2000" by auto
qed

lemma co_fingerprint_ok:
  assumes "co_ask env raw cmd = Inr q"
  defines "fp \<equiv> co_fingerprint (cq_operation q) (cq_payload q)"
  shows "assert_text 20000 True fp \<longleftrightarrow> length fp \<le> 20000" and "sized_command cmd \<Longrightarrow> length fp \<le> 20000" and "fp \<noteq> []"
proof -
  let ?v = "JObject [(''operation'', JText (co_operation_name (cq_operation q))), (''payload'', cq_payload q)]"
  have clean: "json_clean ?v" using co_payload(1) [OF assms(1)] co_names_clean(5) by (simp del: clean_simps)
  note size = stringify_size [OF clean]
  show "assert_text 20000 True fp \<longleftrightarrow> length fp \<le> 20000"
    unfolding assert_text_def fp_def co_fingerprint_def using size stringify_not_blank
    by (auto simp: clean_text_def list_all_iff list_ex_iff simp del: stable_stringify.simps)
  have "json_size ?v \<le> 20000" if "sized_command cmd"
    using co_payload(2) [OF assms(1) that] co_names_clean(5) [of "cq_operation q"] by simp
  then show "sized_command cmd \<Longrightarrow> length fp \<le> 20000"
    unfolding fp_def co_fingerprint_def using size by (meson order_trans)
  show "fp \<noteq> []" unfolding fp_def co_fingerprint_def by simp
qed

end
