(* ===== verification/CollaborationHistory.thy ===== *)
theory CollaborationHistory
  imports CollaborationRuns
begin

text \<open>
  Histories of the collaboration store as a step relation: turns of mutations, ends of writes, and
  restarts, which find the file before or after a write under way. Invariants by rule induction, and
  what outlives every history.
\<close>

section \<open>Turns\<close>

lemma chain_Inl: "chain x f = Inl e \<longleftrightarrow> x = Inl e \<or> (\<exists>a. x = Inr a \<and> f a = Inl e)"
  by (cases x) auto

lemma co_text_error [simp]: "co_text n v = Inl e \<Longrightarrow> e = CoInvalid"
  by (auto simp: co_text_def Let_def split: if_splits)

lemma normalize_errors:
  "co_optional_text n v = Inl e \<Longrightarrow> e = CoInvalid" "co_enum name xs v = Inl e \<Longrightarrow> e = CoInvalid"
  "normalize_timestamp v = Inl e \<Longrightarrow> e = CoInvalid" "co_timestamp t = Inl e \<Longrightarrow> e = CoInvalid"
  by (auto simp: co_optional_text_def co_enum_def normalize_timestamp_def co_timestamp_def Let_def
      split: if_splits option.splits)

lemma co_map_error: "co_map f xs = Inl e \<Longrightarrow> (\<And>x. f x = Inl e \<Longrightarrow> e = CoInvalid) \<Longrightarrow> e = CoInvalid"
  by (induction xs) (auto simp: chain_Inl)

lemma assign_entries_error: "assign_entries md es = Inl e \<Longrightarrow> e = CoInvalid"
  by (induction md es rule: assign_entries.induct) (auto simp: chain_Inl dest: normalize_errors co_text_error)

lemma composed_errors:
  "normalize_co_scope raw = Inl e \<Longrightarrow> e = CoInvalid" "normalize_co_target tg = Inl e \<Longrightarrow> e = CoInvalid"
  "normalize_delivery dl ch = Inl e \<Longrightarrow> e = CoInvalid" "normalize_metadata loc md = Inl e \<Longrightarrow> e = CoInvalid"
  "normalize_ids loc n vs = Inl e \<Longrightarrow> e = CoInvalid"
  by (auto simp: normalize_co_scope_def normalize_co_target_def normalize_delivery_def normalize_metadata_def
      normalize_ids_def chain_Inl split: if_splits option.splits
      dest: normalize_errors co_text_error assign_entries_error co_map_error)

lemma input_errors:
  "normalize_identity tg dl ch = Inl e \<Longrightarrow> e = CoInvalid" "normalize_bind loc b = Inl e \<Longrightarrow> e = CoInvalid"
  "normalize_unbind k tg c = Inl e \<Longrightarrow> e = CoInvalid" "normalize_note loc now x = Inl e \<Longrightarrow> e = CoInvalid"
  by (auto simp: normalize_identity_def normalize_bind_def normalize_unbind_def normalize_note_def co_optionally_def
      chain_Inl split: if_splits option.splits prod.splits dest: normalize_errors co_text_error composed_errors)

lemma choice_errors:
  "normalize_follow x = Inl e \<Longrightarrow> e = CoInvalid" "normalize_prefer p = Inl e \<Longrightarrow> e = CoInvalid"
  by (auto simp: normalize_follow_def normalize_prefer_def chain_Inl split: if_splits
      dest: normalize_errors co_text_error input_errors)

lemma co_ask_error: "co_ask env raw cmd = Inl e \<Longrightarrow> e = CoInvalid"
  by (cases cmd) (auto simp: follow_request_def unfollow_request_def bind_request_def unbind_request_def
      prefer_request_def update_request_def reminder_request_def chain_Inl
      dest: normalize_errors composed_errors input_errors choice_errors)

lemma normalize_note_key: "normalize_note loc now x = Inr n \<Longrightarrow> assert_text 200 True (nn_key n)"
  by (auto simp: normalize_note_def chain_Inr dest!: co_text_Inr)

lemma normalize_keys:
  "normalize_follow x = Inr (k, i) \<Longrightarrow> assert_text 200 True k" "normalize_bind loc b = Inr (k, j) \<Longrightarrow> assert_text 200 True k"
  "normalize_unbind m tg c = Inr (k, u) \<Longrightarrow> assert_text 200 True k" "normalize_prefer p = Inr (k, v) \<Longrightarrow> assert_text 200 True k"
  by (auto simp: normalize_follow_def normalize_bind_def normalize_unbind_def normalize_prefer_def chain_Inr
      split: if_splits dest!: co_text_Inr)

lemma co_ask_key: "co_ask env raw cmd = Inr q \<Longrightarrow> assert_text 200 True (cq_key q)"
  by (cases cmd) (auto simp: follow_request_def unfollow_request_def bind_request_def unbind_request_def
      prefer_request_def update_request_def reminder_request_def chain_Inr
      dest: normalize_keys normalize_note_key)

lemma action_error:
  assumes "co_ask env raw cmd = Inr q" and "cq_action q c = Inl e"
  shows "\<exists>n. e = CoNotFound n \<or> e = CoForbidden n"
  using assms
  by (cases cmd) (auto simp: follow_request_def unfollow_request_def bind_request_def unbind_request_def
      prefer_request_def update_request_def reminder_request_def chain_Inr follow_action_def unfollow_action_def
      bind_action_def unbind_action_def prefer_action_def note_action_def Let_def split: option.splits if_splits)

definition co_fp :: "co_request \<Rightarrow> string" where
  "co_fp q = co_fingerprint (cq_operation q) (cq_payload q)"

definition record_of :: "co_env \<Rightarrow> co_request \<Rightarrow> co_result \<Rightarrow> co_mutation" where
  "record_of env q r = \<lparr>km_scope = cq_scope q, km_key = cq_key q, km_operation = cq_operation q,
     km_fingerprint = co_fp q, km_result = r, km_created = ce_date env\<rparr>"

definition changed_data :: "co_env \<Rightarrow> co_request \<Rightarrow> co_context \<Rightarrow> co_result \<Rightarrow> co_data \<Rightarrow> co_data" where
  "changed_data env q c r d = \<lparr>cd_context = c, cd_mutations = record_of env q r # cd_mutations d\<rparr>"

text \<open>The four ways a turn goes.\<close>

lemma co_begin_outcome:
  assumes ask: "co_ask env raw cmd = Inr q"
  shows "co_begin env raw cmd st =
    (case find_co_mutation (cq_scope q) (cq_key q) (cd_mutations (cs_data st)) of
       Some m \<Rightarrow> (st, Some (if km_operation m \<noteq> cq_operation q \<or> km_fingerprint m \<noteq> co_fp q then Inl (CoConflict (cq_key q))
                   else Inr (km_result m)))
     | None \<Rightarrow> (case cq_action q (cd_context (cs_data st)) of
         Inl e \<Rightarrow> (st, Some (Inl e))
       | Inr (c, r) \<Rightarrow> let d = changed_data env q c r (cs_data st) in
           if \<not> validate_store d then (st, Some (Inl CoRefused))
           else (st\<lparr>cs_data := d, cs_pending := Some (cs_data st, r)\<rparr>, None)))"
  unfolding co_fp_def record_of_def changed_data_def
  using co_ask_key [OF ask] co_fingerprint_ok(3) [OF ask]
  by (simp add: co_begin_def take_turn_def ask)

lemma co_begin_answered:
  assumes "co_begin env raw cmd st = (st', Some a)"
  shows "st' = st"
proof (cases "co_ask env raw cmd")
  case (Inl e)
  with assms show ?thesis by (simp add: co_begin_def)
next
  case (Inr q)
  with assms show ?thesis
    by (auto simp: co_begin_outcome [OF Inr] Let_def split: option.splits sum.splits if_splits)
qed

lemma co_begin_started:
  assumes "co_begin env raw cmd st = (st', None)"
  obtains q c r where "co_ask env raw cmd = Inr q"
    "find_co_mutation (cq_scope q) (cq_key q) (cd_mutations (cs_data st)) = None"
    "cq_action q (cd_context (cs_data st)) = Inr (c, r)"
    "validate_store (changed_data env q c r (cs_data st))"
    "st' = st\<lparr>cs_data := changed_data env q c r (cs_data st), cs_pending := Some (cs_data st, r)\<rparr>"
proof (cases "co_ask env raw cmd")
  case (Inl e)
  with assms show ?thesis by (simp add: co_begin_def)
next
  case (Inr q)
  with assms show ?thesis
    by (auto simp: co_begin_outcome [OF Inr] Let_def intro: that split: option.splits sum.splits if_splits)
qed

lemma find_co_mutation_None:
  "find_co_mutation sc k ms = None \<longleftrightarrow> (\<forall>m \<in> set ms. \<not> (km_key m = k \<and> same_co_scope m sc))"
  by (auto simp: find_co_mutation_def find_None_iff)

lemma same_co_scope_eq: "same_co_scope m sc \<longleftrightarrow> km_scope m = sc"
  by (auto simp: same_co_scope_def intro: wi_scope.equality)

text \<open>The store's own validation refuses a change of the service for two reasons only.\<close>

lemma change_validates:
  assumes ask: "co_ask env raw cmd = Inr q" and run: "cq_action q (cd_context d) = Inr (c, r)"
    and fresh: "find_co_mutation (cq_scope q) (cq_key q) (cd_mutations d) = None"
    and good: "validate_store d" and env: "co_env_ok env" "ids_fresh env (cd_context d)" and size: "length (co_fp q) \<le> 20000"
  shows "validate_store (changed_data env q c r d)"
proof -
  have sc: "assert_scope (cq_scope q)" using co_ask_scope [OF ask] normalize_co_scope_ok by blast
  note effect = co_ask_effect [OF ask run]
  have "valid_context c"
    using effect_valid [OF effect _ env] good by (simp add: validate_store_split)
  moreover have "validate_co_mutation (record_of env q r)"
    using sc co_ask_key [OF ask] co_fingerprint_ok(1) [OF ask] size env(1)
    by (simp add: validate_co_mutation_def record_of_def co_fp_def co_env_ok_def)
  moreover have "co_mutation_key (record_of env q r) \<notin> co_mutation_key ` set (cd_mutations d)"
  proof
    assume "co_mutation_key (record_of env q r) \<in> co_mutation_key ` set (cd_mutations d)"
    then obtain m where m: "m \<in> set (cd_mutations d)" "co_mutation_key (record_of env q r) = co_mutation_key m" by auto
    have "assert_scope (km_scope m)"
      using m(1) good by (simp add: validate_store_split valid_mutations_def list_all_iff validate_co_mutation_def)
    then have "km_scope m = cq_scope q" "km_key m = cq_key q"
      using m(2) co_mutation_key_iff [of "record_of env q r" m] sc by (simp_all add: record_of_def)
    then show False using fresh m(1) by (auto simp: find_co_mutation_None same_co_scope_eq)
  qed
  moreover have "result_in_scope (record_of env q r)" unfolding record_of_def using effect by (rule effect_scope)
  ultimately show ?thesis
    using good by (simp add: validate_store_split valid_mutations_def changed_data_def)
qed

lemma refused_turn:
  assumes "co_begin env raw cmd st = (st', Some (Inl CoRefused))"
    and good: "validate_store (cs_data st)" and env: "co_env_ok env" "ids_fresh env (cd_context (cs_data st))"
  shows "\<not> sized_command cmd \<and> (\<exists>q. co_ask env raw cmd = Inr q \<and> 20000 < length (co_fp q))"
proof (cases "co_ask env raw cmd")
  case (Inl e)
  then show ?thesis using assms(1) co_ask_error [OF Inl] by (simp add: co_begin_def)
next
  case (Inr q)
  have none: "find_co_mutation (cq_scope q) (cq_key q) (cd_mutations (cs_data st)) = None"
    using assms(1) by (auto simp: co_begin_outcome [OF Inr] split: option.splits if_splits)
  show ?thesis
  proof (cases "cq_action q (cd_context (cs_data st))")
    case (Inl e)
    then show ?thesis using assms(1) none action_error [OF Inr Inl] by (auto simp: co_begin_outcome [OF Inr])
  next
    case (Inr p)
    obtain c r where p: "cq_action q (cd_context (cs_data st)) = Inr (c, r)" using Inr by (cases p) auto
    have "\<not> validate_store (changed_data env q c r (cs_data st))"
      using assms(1) none p by (auto simp: co_begin_outcome [OF \<open>co_ask env raw cmd = Inr q\<close>] Let_def split: if_splits)
    then have "\<not> length (co_fp q) \<le> 20000"
      using change_validates [OF \<open>co_ask env raw cmd = Inr q\<close> p none good env] by blast
    then show ?thesis
      using co_fingerprint_ok(2) [OF \<open>co_ask env raw cmd = Inr q\<close>] \<open>co_ask env raw cmd = Inr q\<close>
      by (auto simp: co_fp_def)
  qed
qed

section \<open>Histories\<close>

text \<open>A restart may come at any moment. It finds the file as it was, or with the write under way done:
  the file is replaced in one step.\<close>

datatype co_event = CoTurn co_env co_scope co_command "(co_error + co_result) option" | CoSettled bool | CoRestart

inductive co_step :: "co_store \<Rightarrow> co_event \<Rightarrow> co_store \<Rightarrow> bool" where
  co_step_turn: "cs_pending st = None \<Longrightarrow> co_begin env raw cmd st = (st', a) \<Longrightarrow> co_step st (CoTurn env raw cmd a) st'"
| co_step_settle: "cs_pending st \<noteq> None \<Longrightarrow> settle ok st = (st', a) \<Longrightarrow> co_step st (CoSettled ok) st'"
| co_step_restart: "d = cs_disk st \<or> (cs_pending st \<noteq> None \<and> d = cs_data st)
     \<Longrightarrow> initialize_co_store (Some (1, d)) True = Inr st' \<Longrightarrow> co_step st CoRestart st'"

inductive_cases co_turnE: "co_step st (CoTurn env raw cmd a) st'"
inductive_cases co_settleE: "co_step st (CoSettled ok) st'"
inductive_cases co_restartE: "co_step st CoRestart st'"

definition co_good :: "co_store \<Rightarrow> bool" where
  "co_good st \<longleftrightarrow> validate_store (cs_data st) \<and> validate_store (cs_disk st)
     \<and> (case cs_pending st of None \<Rightarrow> cs_data st = cs_disk st | Some (snapshot, _) \<Rightarrow> snapshot = cs_disk st)"

lemma load_valid: "load_co_store (Suc 0) d = (if validate_store d then Inr d else Inl CoRefused)"
  by (auto simp: load_co_store_def validate_store_def Let_def)

lemma initialize_valid:
  "initialize_co_store (Some (Suc 0, d)) ok = Inr st \<longleftrightarrow> validate_store d \<and> st = \<lparr>cs_data = d, cs_disk = d, cs_pending = None\<rparr>"
  by (auto simp: initialize_co_store_def load_valid)

lemma co_step_good: "co_step st ev st' \<Longrightarrow> co_good st \<Longrightarrow> co_good st'"
proof (induction rule: co_step.induct)
  case (co_step_turn st env raw cmd st' a)
  show ?case
  proof (cases a)
    case None
    obtain q c r where "validate_store (changed_data env q c r (cs_data st))"
      "st' = st\<lparr>cs_data := changed_data env q c r (cs_data st), cs_pending := Some (cs_data st, r)\<rparr>"
      using co_step_turn(2) None by (auto elim: co_begin_started)
    then show ?thesis using co_step_turn(1,3) by (simp add: co_good_def)
  next
    case (Some b)
    then show ?thesis using co_begin_answered co_step_turn by blast
  qed
next
  case (co_step_settle st ok st' a)
  then obtain s r where "cs_pending st = Some (s, r)" by auto
  then show ?case using co_step_settle(2,3) by (cases ok) (auto simp: settle_def co_good_def)
next
  case (co_step_restart d st st')
  then show ?case by (auto simp: initialize_valid co_good_def)
qed

lemma co_steps_good: "steps_of co_step st evs st' \<Longrightarrow> co_good st \<Longrightarrow> co_good st'"
  using steps_of_invariant [of co_step st evs st' co_good] co_step_good by blast

text \<open>A recorded mutation that is on disk stays there and in memory.\<close>

definition recorded :: "co_mutation \<Rightarrow> co_store \<Rightarrow> bool" where
  "recorded m st \<longleftrightarrow> m \<in> set (cd_mutations (cs_data st)) \<and> m \<in> set (cd_mutations (cs_disk st))"

lemma co_step_recorded: "co_step st ev st' \<Longrightarrow> co_good st \<and> recorded m st \<Longrightarrow> co_good st' \<and> recorded m st'"
proof (rule conjI)
  assume step: "co_step st ev st'" and "co_good st \<and> recorded m st"
  then show "co_good st'" using co_step_good by blast
  have good: "co_good st" and m: "recorded m st" using \<open>co_good st \<and> recorded m st\<close> by auto
  from step show "recorded m st'"
  proof cases
    case (co_step_turn env raw cmd a)
    show ?thesis
    proof (cases a)
      case None
      with co_step_turn show ?thesis using m by (auto simp: recorded_def changed_data_def elim: co_begin_started)
    next
      case (Some b)
      with co_step_turn show ?thesis using m co_begin_answered by blast
    qed
  next
    case (co_step_settle ok a)
    then obtain s r where "cs_pending st = Some (s, r)" by auto
    then show ?thesis using co_step_settle m good
      by (cases ok) (auto simp: settle_def recorded_def co_good_def)
  next
    case (co_step_restart d)
    then show ?thesis using m by (auto simp: initialize_valid recorded_def)
  qed
qed

lemma co_steps_recorded:
  "steps_of co_step st evs st' \<Longrightarrow> co_good st \<Longrightarrow> recorded m st \<Longrightarrow> co_good st' \<and> recorded m st'"
  using steps_of_invariant [of co_step st evs st' "\<lambda>st. co_good st \<and> recorded m st"] co_step_recorded by blast

lemma find_recorded:
  assumes "co_good st" "recorded m st"
  shows "find_co_mutation (km_scope m) (km_key m) (cd_mutations (cs_data st)) = Some m"
proof -
  let ?ms = "cd_mutations (cs_data st)"
  have keys: "distinct (map co_mutation_key ?ms)" using assms(1) by (simp add: co_good_def validate_store_def Let_def)
  have m: "m \<in> set ?ms" using assms(2) by (simp add: recorded_def)
  then have "find_co_mutation (km_scope m) (km_key m) ?ms \<noteq> None"
    by (auto simp: find_co_mutation_None same_co_scope_eq)
  then obtain m' where f: "find_co_mutation (km_scope m) (km_key m) ?ms = Some m'" by auto
  then have "m' \<in> set ?ms" "co_mutation_key m' = co_mutation_key m"
    using find_Some_mem [OF f [unfolded find_co_mutation_def]] by (auto simp: same_co_scope_eq co_mutation_key_def)
  then have "m' = m" using keys m by (simp add: distinct_map inj_on_def)
  then show ?thesis using f by simp
qed

section \<open>Retries\<close>

text \<open>An event without a time of its own takes the service's.\<close>

fun timed :: "co_command \<Rightarrow> bool" where
  "timed (RecordUpdate x) = (no_when x \<noteq> None)" | "timed (RecordReminder x) = (no_when x \<noteq> None)"
| "timed (Follow _) = True" | "timed (Unfollow _) = True" | "timed (BindChannel _) = True"
| "timed (UnbindChannel _ _ _) = True" | "timed (SetPreference _) = True"

lemma normalize_note_timed: "no_when x \<noteq> None \<Longrightarrow> normalize_note loc now x = normalize_note loc now' x"
  by (auto simp: normalize_note_def)

lemma co_ask_again:
  assumes ask: "co_ask env raw cmd = Inr q" and timed: "timed cmd"
    and env: "ce_collation env' = ce_collation env" "date_range (ce_now env')" "date_range (ce_then env')"
  shows "\<exists>q'. co_ask env' raw cmd = Inr q' \<and> cq_scope q' = cq_scope q \<and> cq_key q' = cq_key q
    \<and> cq_operation q' = cq_operation q \<and> cq_payload q' = cq_payload q"
proof -
  have now: "co_timestamp (ce_now env') = Inr (ce_now env')" "co_timestamp (ce_then env') = Inr (ce_then env')"
    using env by (simp_all add: co_timestamp_def)
  have same_note: "normalize_note (ce_collation env) (ce_now env') x = Inr n"
    if "normalize_note (ce_collation env) t x = Inr n" "no_when x = Some w" for x t n w
    using that normalize_note_timed [of x "ce_collation env" "ce_now env'" t] by simp
  show ?thesis
    using ask timed
    by (cases cmd) (auto simp: follow_request_def unfollow_request_def bind_request_def unbind_request_def
        prefer_request_def update_request_def reminder_request_def chain_Inr now env(1) dest: same_note)
qed

lemma answered_recorded:
  assumes "exec_co env raw cmd True st = (st1, Inr r)" and "co_good st" "cs_pending st = None"
  shows "\<exists>q m. co_ask env raw cmd = Inr q \<and> recorded m st1 \<and> co_good st1 \<and> cs_pending st1 = None \<and> km_scope m = cq_scope q \<and> km_key m = cq_key q
    \<and> km_operation m = cq_operation q \<and> km_fingerprint m = co_fp q \<and> km_result m = r"
proof -
  obtain q where ask: "co_ask env raw cmd = Inr q"
    using assms(1) by (cases "co_ask env raw cmd") (auto simp: exec_co_def)
  obtain st' a where b: "co_begin env raw cmd st = (st', a)" by (metis surj_pair)
  show ?thesis
  proof (cases a)
    case (Some x)
    then have "st' = st" "x = Inr r" "st1 = st" using b assms(1) co_begin_answered by (auto simp: exec_co_begin)
    then obtain m where m: "find_co_mutation (cq_scope q) (cq_key q) (cd_mutations (cs_data st)) = Some m"
      "km_operation m = cq_operation q" "km_fingerprint m = co_fp q" "km_result m = r"
      using b Some by (auto simp: co_begin_outcome [OF ask] Let_def split: option.splits if_splits sum.splits)
    from find_Some_mem [OF m(1) [unfolded find_co_mutation_def]]
    have "recorded m st" "km_scope m = cq_scope q" "km_key m = cq_key q"
      using assms(2,3) by (auto simp: recorded_def same_co_scope_eq co_good_def)
    then show ?thesis using ask m(2-4) assms(2,3) \<open>st1 = st\<close> by blast
  next
    case None
    then obtain c r' where n: "validate_store (changed_data env q c r' (cs_data st))"
      "st' = st\<lparr>cs_data := changed_data env q c r' (cs_data st), cs_pending := Some (cs_data st, r')\<rparr>"
      using b ask by (auto elim: co_begin_started)
    then have st1: "st1 = st'\<lparr>cs_disk := cs_data st', cs_pending := None\<rparr>" "r' = r"
      using assms(1) b None by (auto simp: exec_co_begin settle_def or_else_def)
    have "recorded (record_of env q r) st1" "co_good st1" "cs_pending st1 = None"
      using n st1 by (simp_all add: recorded_def changed_data_def co_good_def)
    then show ?thesis using ask by (intro exI [of _ q] exI [of _ "record_of env q r"]) (simp add: record_of_def)
  qed
qed

lemma co_retry:
  assumes run: "exec_co env raw cmd True st = (st1, Inr r)" and st: "co_good st" "cs_pending st = None"
    and history: "steps_of co_step st1 evs st2" and timed: "timed cmd"
    and env: "ce_collation env' = ce_collation env" "date_range (ce_now env')" "date_range (ce_then env')"
  shows "co_begin env' raw cmd st2 = (st2, Some (Inr r))"
proof -
  obtain q m where q: "co_ask env raw cmd = Inr q" and st1: "recorded m st1" "co_good st1"
    and m: "km_scope m = cq_scope q" "km_key m = cq_key q" "km_operation m = cq_operation q" "km_fingerprint m = co_fp q" "km_result m = r"
    using answered_recorded [OF run st] by blast
  obtain q' where q': "co_ask env' raw cmd = Inr q'" "cq_scope q' = cq_scope q" "cq_key q' = cq_key q"
    "cq_operation q' = cq_operation q" "cq_payload q' = cq_payload q"
    using co_ask_again [OF q timed env] by blast
  have "co_good st2" "recorded m st2" using co_steps_recorded [OF history st1(2,1)] by auto
  then have "find_co_mutation (cq_scope q') (cq_key q') (cd_mutations (cs_data st2)) = Some m"
    using find_recorded [of st2 m] m q' by simp
  then show ?thesis using m q' by (simp add: co_begin_outcome [OF q'(1)] co_fp_def)
qed

section \<open>Who changes what\<close>

lemma effect_owner:
  assumes "co_effect env sc c c' r"
  shows "s \<in> set (cc_subscriptions c) \<Longrightarrow> s \<notin> set (cc_subscriptions c') \<Longrightarrow> owned_subscription sc s"
    and "b \<in> set (cc_bindings c) \<Longrightarrow> b \<notin> set (cc_bindings c') \<Longrightarrow> owned_binding sc b"
    and "p \<in> set (cc_preferences c) \<Longrightarrow> p \<notin> set (cc_preferences c') \<Longrightarrow> owned_preference sc p"
proof -
  have kept: "x = xs ! i" if "x \<in> set xs" "x \<notin> set (xs[i := v])" for x :: 'x and xs i v
    using that by (metis in_set_conv_nth length_list_update nth_list_update_neq)
  show "s \<in> set (cc_subscriptions c) \<Longrightarrow> s \<notin> set (cc_subscriptions c') \<Longrightarrow> owned_subscription sc s"
    using assms by cases (auto dest: kept)
  show "b \<in> set (cc_bindings c) \<Longrightarrow> b \<notin> set (cc_bindings c') \<Longrightarrow> owned_binding sc b"
    using assms by cases (auto dest: kept)
  show "p \<in> set (cc_preferences c) \<Longrightarrow> p \<notin> set (cc_preferences c') \<Longrightarrow> owned_preference sc p"
    using assms by cases (auto dest: kept)
qed

section \<open>Calls that succeed\<close>

text \<open>A call with nothing between its turn and the end of its write.\<close>

lemma exec_co_success:
  assumes good: "co_good st" "cs_pending st = None" and env: "co_env_ok env" "ids_fresh env (cd_context (cs_data st))"
    and ask: "co_ask env raw cmd = Inr q"
    and fresh: "find_co_mutation (cq_scope q) (cq_key q) (cd_mutations (cs_data st)) = None"
    and run: "cq_action q (cd_context (cs_data st)) = Inr (c, r)" and size: "length (co_fp q) \<le> 20000"
  shows "exec_co env raw cmd True st = (\<lparr>cs_data = changed_data env q c r (cs_data st),
      cs_disk = changed_data env q c r (cs_data st), cs_pending = None\<rparr>, Inr r)"
proof -
  have "validate_store (changed_data env q c r (cs_data st))"
    by (rule change_validates [OF ask run fresh _ env size]) (use good(1) in \<open>simp add: co_good_def\<close>)
  then show ?thesis
    by (simp add: exec_co_begin co_begin_outcome [OF ask] fresh run settle_def or_else_def Let_def)
qed

lemma sized_fp: "co_ask env raw cmd = Inr q \<Longrightarrow> sized_command cmd \<Longrightarrow> length (co_fp q) \<le> 20000"
  unfolding co_fp_def by (rule co_fingerprint_ok(2))

text \<open>Following: afterwards there is one active subscription of that identity, and nothing else changed.\<close>

lemma find_index_update: "find_index P xs = Some i \<Longrightarrow> P v \<Longrightarrow> find P (xs[i := v]) = Some v"
proof (induction xs arbitrary: i)
  case (Cons x xs)
  then show ?case by (cases i) (auto split: if_splits)
qed simp

lemma set_update_other: "i < length xs \<Longrightarrow> P (xs ! i) \<Longrightarrow> P v \<Longrightarrow> \<not> P y \<Longrightarrow> y \<in> set (xs[i := v]) \<longleftrightarrow> y \<in> set xs"
  by (metis in_set_conv_nth length_list_update nth_list_update)

lemma follow_result:
  assumes "follow_action sc tg dl ch sid t c = Inr (c', r)"
  shows "\<exists>s. r = SubscriptionResult s \<and> sb_active s \<and> same_subscription sc tg dl ch s
    \<and> find_subscription sc tg dl ch c' = Some s
    \<and> (\<forall>y. \<not> same_subscription sc tg dl ch y \<longrightarrow> (y \<in> set (cc_subscriptions c') \<longleftrightarrow> y \<in> set (cc_subscriptions c)))
    \<and> cc_bindings c' = cc_bindings c \<and> cc_preferences c' = cc_preferences c \<and> cc_notifications c' = cc_notifications c"
proof (cases "find_index (same_subscription sc tg dl ch) (cc_subscriptions c)")
  case None
  let ?s = "new_subscription sc tg dl ch sid t"
  have "same_subscription sc tg dl ch ?s" by (simp add: same_subscription_def new_subscription_def same_target_def)
  then show ?thesis
    using assms None by (auto simp: follow_action_def Let_def find_subscription_def new_subscription_def)
next
  case (Some i)
  let ?s = "cc_subscriptions c ! i"
  let ?s' = "?s\<lparr>sb_active := True, sb_updated := t\<rparr>"
  note i = find_index_bound [OF Some] and s = find_index_holds [OF Some]
  show ?thesis
  proof (cases "sb_active ?s")
    case True
    then have "c' = c" "r = SubscriptionResult ?s" using assms Some by (auto simp: follow_action_def Let_def)
    then show ?thesis using True s Some by (simp add: find_subscription_def find_find_index)
  next
    case False
    then have c': "c' = c\<lparr>cc_subscriptions := (cc_subscriptions c)[i := ?s']\<rparr>" "r = SubscriptionResult ?s'"
      using assms Some by (auto simp: follow_action_def Let_def)
    have s': "same_subscription sc tg dl ch ?s'" using s by (simp add: same_subscription_def)
    show ?thesis
      using c' s' find_index_update [OF Some s'] set_update_other [OF i s s']
      by (simp add: find_subscription_def)
  qed
qed

lemma follow_total: "\<exists>c' r. follow_action sc tg dl ch sid t c = Inr (c', r)"
  by (auto simp: follow_action_def Let_def split: option.split)

lemma follow_outcome_lemma:
  assumes good: "co_good st" "cs_pending st = None" and env: "co_env_ok env" "ids_fresh env (cd_context (cs_data st))"
    and raw: "normalize_co_scope raw = Inr sc" "normalize_follow x = Inr (k, tg, dl, ch)" "date_range (ce_now env)"
    and fresh: "find_co_mutation sc k (cd_mutations (cs_data st)) = None"
  obtains st' s where "exec_co env raw (Follow x) True st = (st', Inr (SubscriptionResult s))"
    "sb_active s" "same_subscription sc tg dl ch s" "co_good st'" "cs_pending st' = None" "cs_disk st' = cs_data st'"
    "find_subscription sc tg dl ch (cd_context (cs_data st')) = Some s"
    "\<forall>y. \<not> same_subscription sc tg dl ch y \<longrightarrow> (y \<in> set (cc_subscriptions (cd_context (cs_data st')))
       \<longleftrightarrow> y \<in> set (cc_subscriptions (cd_context (cs_data st))))"
    "cc_bindings (cd_context (cs_data st')) = cc_bindings (cd_context (cs_data st))"
    "cc_preferences (cd_context (cs_data st')) = cc_preferences (cd_context (cs_data st))"
    "cc_notifications (cd_context (cs_data st')) = cc_notifications (cd_context (cs_data st))"
proof -
  obtain q where q: "co_ask env raw (Follow x) = Inr q" "cq_scope q = sc" "cq_key q = k"
    "cq_action q = follow_action sc tg dl ch (co_create_id ''subscription'' env) (ce_now env)"
    using raw by (simp add: follow_request_def co_timestamp_def)
  obtain c' r where run: "cq_action q (cd_context (cs_data st)) = Inr (c', r)" unfolding q(4) using follow_total by blast
  have exec: "exec_co env raw (Follow x) True st = (\<lparr>cs_data = changed_data env q c' r (cs_data st),
      cs_disk = changed_data env q c' r (cs_data st), cs_pending = None\<rparr>, Inr r)"
    by (rule exec_co_success [OF good env q(1) _ run sized_fp [OF q(1)]]) (use fresh q(2,3) in simp_all)
  have "validate_store (changed_data env q c' r (cs_data st))"
    by (rule change_validates [OF q(1) run _ _ env sized_fp [OF q(1)]]) (use fresh q(2,3) good(1) in \<open>simp_all add: co_good_def\<close>)
  then show thesis
    using follow_result [OF run [unfolded q(4)]] exec
    by (auto simp: changed_data_def co_good_def intro!: that)
qed

section \<open>Authorisation\<close>

lemma begin_owner:
  assumes "co_begin env raw cmd st = (st', a)"
  defines "c \<equiv> cd_context (cs_data st)" and "c' \<equiv> cd_context (cs_data st')"
  shows "s \<in> set (cc_subscriptions c) \<Longrightarrow> s \<notin> set (cc_subscriptions c') \<Longrightarrow> \<exists>sc. normalize_co_scope raw = Inr sc \<and> owned_subscription sc s"
    and "b \<in> set (cc_bindings c) \<Longrightarrow> b \<notin> set (cc_bindings c') \<Longrightarrow> \<exists>sc. normalize_co_scope raw = Inr sc \<and> owned_binding sc b"
    and "p \<in> set (cc_preferences c) \<Longrightarrow> p \<notin> set (cc_preferences c') \<Longrightarrow> \<exists>sc. normalize_co_scope raw = Inr sc \<and> owned_preference sc p"
proof -
  have "c' = c \<or> (\<exists>sc r. normalize_co_scope raw = Inr sc \<and> co_effect env sc c c' r)"
  proof (cases a)
    case (Some x)
    then show ?thesis using assms co_begin_answered by blast
  next
    case None
    then obtain q d r where "co_ask env raw cmd = Inr q" "cq_action q c = Inr (d, r)" "c' = d"
      using assms by (auto simp: changed_data_def elim: co_begin_started)
    then show ?thesis using co_ask_scope co_ask_effect by blast
  qed
  then consider "c' = c" | sc r where "normalize_co_scope raw = Inr sc" "co_effect env sc c c' r" by blast
  note change = this
  show "s \<in> set (cc_subscriptions c) \<Longrightarrow> s \<notin> set (cc_subscriptions c') \<Longrightarrow> \<exists>sc. normalize_co_scope raw = Inr sc \<and> owned_subscription sc s"
    using change effect_owner(1) by cases blast+
  show "b \<in> set (cc_bindings c) \<Longrightarrow> b \<notin> set (cc_bindings c') \<Longrightarrow> \<exists>sc. normalize_co_scope raw = Inr sc \<and> owned_binding sc b"
    using change effect_owner(2) by cases blast+
  show "p \<in> set (cc_preferences c) \<Longrightarrow> p \<notin> set (cc_preferences c') \<Longrightarrow> \<exists>sc. normalize_co_scope raw = Inr sc \<and> owned_preference sc p"
    using change effect_owner(3) by cases blast+
qed

section \<open>Where accepted input fails\<close>

text \<open>How long a fingerprint is at least.\<close>

fun json_texts :: "json \<Rightarrow> nat" where
  "json_texts JNull = 0"
| "json_texts (JText s) = length (json_text s)"
| "json_texts (JArray vs) = sum_list (map json_texts vs)"
| "json_texts (JObject kvs) = sum_list (map (\<lambda>(k, v). json_texts v) kvs)"

lemma join_with_lower: "sum_list (map length xs) \<le> length (join_with c xs)"
  by (induction c xs rule: join_with.induct) auto

lemma stringify_lower: "json_texts v \<le> length (stable_stringify v)"
proof (induction v rule: stable_stringify.induct)
  case (3 vs)
  have "sum_list (map json_texts vs) \<le> sum_list (map (\<lambda>v. length (stable_stringify v)) vs)"
    by (rule sum_list_mono) (use 3 in auto)
  also have "\<dots> \<le> length (join_with CHR '','' (map stable_stringify vs))"
    using join_with_lower [of "map stable_stringify vs"] by (simp add: o_def)
  finally show ?case by simp
next
  case (4 kvs)
  let ?part = "\<lambda>(k, v). (k, json_text k @ CHR '':'' # stable_stringify v)"
  have each: "json_texts v \<le> length (stable_stringify v)" if "(k, v) \<in> set kvs" for k v
    using 4 that by fastforce
  have "sum_list (map (\<lambda>(k, v). json_texts v) kvs) \<le> sum_list (map (\<lambda>kv. length (snd (?part kv))) kvs)"
    by (rule sum_list_mono) (use each in \<open>force simp: trans_le_add2\<close>)
  also have "\<dots> = sum_list (map (\<lambda>x. length (snd x)) (sort_key fst (map ?part kvs)))"
    by (simp only: sum_list_sort_key) (induction kvs, auto)
  also have "\<dots> \<le> length (join_with CHR '','' (map snd (sort_key fst (map ?part kvs))))"
    using join_with_lower [of "map snd (sort_key fst (map ?part kvs))" "CHR '',''"] by (simp add: o_def)
  finally show ?case by simp
qed simp_all

lemma json_text_quotes: "length (json_text (replicate n (CHR 0x22))) = 2 + 2 * n"
  by (induction n) (auto simp: json_text_def json_char_def code_unit_def)

text \<open>The fingerprint of an event tells its times apart.\<close>

lemma json_text_plain: "list_all (\<lambda>c. json_char c = [c]) s \<Longrightarrow> json_text s = CHR 0x22 # s @ [CHR 0x22]"
proof -
  assume "list_all (\<lambda>c. json_char c = [c]) s"
  then have "concat (map json_char s) = s" by (induction s) auto
  then show ?thesis by (simp add: json_text_def)
qed

lemma iso_text_plain: "list_all (\<lambda>c. json_char c = [c]) (iso_text t)"
proof -
  have "json_char c = [c]" if "digit_char c" for c
    using that by (auto simp: json_char_def digit_char_def Let_def)
  then have pads: "list_all (\<lambda>c. json_char c = [c]) (pad k n)" for k n
    using pad_digits [of k n] by (auto simp: list_all_iff)
  have marks: "json_char CHR ''-'' = ''-''" "json_char CHR ''+'' = ''+''" "json_char CHR '':'' = '':''"
    "json_char CHR ''.'' = ''.''" "json_char CHR ''T'' = ''T''" "json_char CHR ''Z'' = ''Z''"
    by (simp_all add: json_char_def code_unit_def)
  show ?thesis
    by (auto simp: iso_text_def year_text_def date_text_def clock_text_def pads marks split: prod.splits)
qed

lemma note_fp_when:
  assumes name: "w = ''occurredAt'' \<or> w = ''remindAt''"
    and same: "nn_target a = nn_target b" "nn_title a = nn_title b" "nn_body a = nn_body b" "nn_mentions a = nn_mentions b"
      "nn_channel a = nn_channel b"
    and fp: "co_fingerprint op (note_json w a) = co_fingerprint op (note_json w b)" and range: "date_range (nn_when a)" "date_range (nn_when b)"
  shows "nn_when a = nn_when b"
proof -
  have "json_text (iso_text (nn_when a)) = json_text (iso_text (nn_when b))"
    using name fp same by (auto simp: co_fingerprint_def note_json_def)
  then have "iso_text (nn_when a) = iso_text (nn_when b)"
    by (simp add: json_text_plain [OF iso_text_plain])
  then show ?thesis using iso_text_inj [OF range] by simp
qed

lemma normalize_note_when:
  assumes "no_when x = None" "normalize_note loc now x = Inr n"
  shows "normalize_note loc now' x = Inr (n\<lparr>nn_when := now'\<rparr>)" and "nn_when n = now"
  using assms by (auto simp: normalize_note_def chain_Inr)

text \<open>An event without a time, sent again under its key when the service's clock has moved.\<close>

lemma untimed_conflict:
  assumes run: "exec_co env raw cmd True st = (st1, Inr r)" and st: "co_good st" "cs_pending st = None"
    and cmd: "cmd = RecordUpdate x \<or> cmd = RecordReminder x" and untimed: "no_when x = None"
    and new: "\<And>q. co_ask env raw cmd = Inr q \<Longrightarrow> find_co_mutation (cq_scope q) (cq_key q) (cd_mutations (cs_data st)) = None"
    and env: "ce_collation env' = ce_collation env" "date_range (ce_now env')" "date_range (ce_then env')"
    and moved: "ce_now env' \<noteq> ce_now env"
  shows "\<exists>k. co_begin env' raw cmd st1 = (st1, Some (Inl (CoConflict k)))"
proof -
  obtain q m where q: "co_ask env raw cmd = Inr q" and st1: "recorded m st1" "co_good st1"
    and m: "km_scope m = cq_scope q" "km_key m = cq_key q" "km_operation m = cq_operation q" "km_fingerprint m = co_fp q"
    using answered_recorded [OF run st] by blast
  obtain n where n: "normalize_note (ce_collation env) (ce_now env) x = Inr n" "date_range (ce_now env)"
    and now: "co_timestamp (ce_now env') = Inr (ce_now env')" "co_timestamp (ce_then env') = Inr (ce_then env')"
    using q cmd env by (auto simp: update_request_def reminder_request_def chain_Inr co_timestamp_def split: if_splits)
  note again = normalize_note_when [OF untimed n(1)]
  obtain q' w where q': "co_ask env' raw cmd = Inr q'" "cq_scope q' = cq_scope q" "cq_key q' = cq_key q"
    "cq_operation q' = cq_operation q" "cq_payload q' = note_json w (n\<lparr>nn_when := ce_now env'\<rparr>)" "cq_payload q = note_json w n"
    and w: "w = ''occurredAt'' \<or> w = ''remindAt''"
    using cmd q n again(1) [of "ce_now env'"]
    by (auto simp: update_request_def reminder_request_def chain_Inr now env(1) dest!: timestamp_range)
  have "co_fp q' \<noteq> co_fp q"
  proof
    assume "co_fp q' = co_fp q"
    then have "nn_when (n\<lparr>nn_when := ce_now env'\<rparr>) = nn_when n"
      using q' env(2) n(2) again(2) by (intro note_fp_when [OF w, where op = "cq_operation q"]) (simp_all add: co_fp_def)
    then show False using moved again(2) by simp
  qed
  moreover have "find_co_mutation (cq_scope q') (cq_key q') (cd_mutations (cs_data st1)) = Some m"
    using find_recorded [OF st1(2,1)] m q' by simp
  ultimately show ?thesis using m by (simp add: co_begin_outcome [OF q'(1)])
qed

text \<open>A change is seen before it is written, and gone when the write fails.\<close>

lemma unwritten_change:
  assumes "co_begin env raw cmd st = (st', None)"
  shows "length (cd_mutations (cs_data st')) = Suc (length (cd_mutations (cs_data st)))"
    and "cs_data (fst (settle False st')) = cs_data st" and "cs_disk (fst (settle False st')) = cs_disk st"
  using assms by (auto simp: settle_def changed_data_def elim!: co_begin_started)

text \<open>The cap on notifications is one for all tenants: at the cap an event of one drops the oldest.\<close>

lemma shared_cap:
  assumes "length (cc_notifications c) = 5000"
  shows "map_sum id (\<lambda>(c', _). cc_notifications c') (note_action n c) = Inr (n # butlast (cc_notifications c))"
  using assms by (simp add: note_action_def trim_notifications_def butlast_conv_take)

end
