(* ===== verification/WorkItemSamples.thy ===== *)
theory WorkItemSamples
  imports WorkItemQueries
begin

text \<open>Concrete work items and runs at which the properties are instantiated: an item ann creates, bob
  watches and unwatches.\<close>

definition wi_ann :: wi_scope where
  "wi_ann = \<lparr>ws_tenant = ''t1'', ws_requester = ''ann'', ws_conversation = ''c1''\<rparr>"

definition wi_bob :: wi_scope where
  "wi_bob = \<lparr>ws_tenant = ''t1'', ws_requester = ''bob'', ws_conversation = ''c1''\<rparr>"

definition wi_env_at :: "time \<Rightarrow> wi_env" where
  "wi_env_at t = \<lparr>we_now = t, we_date = 35, we_uuid = ''aaaaaaaa-aaaa-aaaa'', we_member = (\<lambda>_ _. False),
     we_written = True, we_published = True\<rparr>"

definition wi_empty :: wi_store where
  "wi_empty = \<lparr>wt_items = [], wt_mutations = [], wt_next = 0, wt_disk = ([], [])\<rparr>"

definition ship_input :: wi_create_input where
  "ship_input = \<lparr>wx_key = ''k1'', wx_title = '' Ship '', wx_description = None, wx_status = None,
     wx_priority = None, wx_labels = None, wx_due = None, wx_job = None, wx_relation = None\<rparr>"

definition ship_id :: string where "ship_id = ''wi-z-aaaaaaaa-aaa''"

definition ship_item :: work_item where
  "ship_item = \<lparr>wi_id = ship_id, wi_tenant = ''t1'', wi_conversation = ''c1'', wi_creator = ''ann'',
     wi_title = ''Ship'', wi_description = [], wi_status = WTodo, wi_priority = WMedium, wi_assignee = None,
     wi_watchers = [], wi_labels = [], wi_due = None, wi_comments = [], wi_link = build_link ship_id,
     wi_job = None, wi_deleted = None, wi_created = 5, wi_updated = 5, wi_seq = Some 1\<rparr>"

definition ship_normal :: wi_create_normal where
  "ship_normal = \<lparr>wn_key = ''k1'', wn_title = ''Ship'', wn_description = [], wn_status = WTodo,
     wn_priority = WMedium, wn_labels = [], wn_due = None, wn_job = None, wn_relation = Supports\<rparr>"

definition ship_record :: wi_mutation where
  "ship_record = \<lparr>wm_scope = wi_ann, wm_key = ''k1'', wm_operation = WCreate,
     wm_fingerprint = fingerprint WCreate (create_payload ship_normal), wm_result = ship_item, wm_created = 35\<rparr>"

definition wi_shipped :: wi_store where
  "wi_shipped = \<lparr>wt_items = [ship_item], wt_mutations = [ship_record], wt_next = 1,
     wt_disk = ([ship_item], [ship_record])\<rparr>"

lemma wi_scopes_normal: "normalize_wi_scope wi_ann = Inr wi_ann" "normalize_wi_scope wi_bob = Inr wi_bob"
  by code_simp+

lemma ship_normalized: "normalize_create ship_input = Inr ship_normal"
  by code_simp

lemma ship_created_id: "create_id ''wi'' (wi_env_at t) = ship_id"
  by (simp add: create_id_def wi_env_at_def base36.simps base36_digit_def ship_id_def)

lemma ship_texts: "assert_text 200 True ship_id" "assert_text 400 True ''Ship''" "assert_text 4000 False []"
  "assert_scope wi_ann" "assert_text 256 True ''bob''" "assert_text 200 True ''k1''" "assert_text 200 True ''u1''"
  by code_simp+

lemma ship_valid_with:
  "date_range t \<Longrightarrow> set ws \<subseteq> {''bob''} \<Longrightarrow> distinct ws \<Longrightarrow> n \<in> {None, Some 1, Some 2}
    \<Longrightarrow> validate_item (ship_item\<lparr>wi_updated := t, wi_watchers := ws, wi_seq := n\<rparr>)"
  using ship_texts card_mono [of "{''bob''}" "set ws"]
  by (auto simp: validate_item_def ship_item_def assert_unique_texts_def date_range_def safe_integer_def
      wi_ann_def list_all_iff distinct_card)

lemma ship_valid: "validate_item ship_item" "validate_item (ship_item\<lparr>wi_seq := None\<rparr>)"
  using ship_valid_with [of 5 "[]" "Some 1"] ship_valid_with [of 5 "[]" None]
  by (simp_all add: ship_item_def date_range_def)

lemma ship_stored:
  "exec_wi (wi_env_at 5) wi_ann (CmdCreate ship_input) wi_empty = (wi_shipped, Inr ship_item)"
proof -
  have item: "created_item wi_ann ship_normal ship_id 5 = ship_item\<lparr>wi_seq := None\<rparr>"
    by (simp add: created_item_def ship_item_def wi_ann_def ship_normal_def)
  have env: "we_now (wi_env_at 5) = 5" "we_date (wi_env_at 5) = 35" "we_written (wi_env_at 5)" "we_published (wi_env_at 5)"
    by (simp_all add: wi_env_at_def)
  have owner: "wi_tenant ship_item = ws_tenant wi_ann" "wi_conversation ship_item = ws_conversation wi_ann"
    "wi_creator ship_item = ws_requester wi_ann"
    by (simp_all add: ship_item_def wi_ann_def)
  have n: "wn_key ship_normal = ''k1''" by (simp add: ship_normal_def)
  have seq: "ship_item\<lparr>wi_seq := Some (Suc 0)\<rparr> = ship_item" by (simp add: ship_item_def)
  show ?thesis
    using ship_valid ship_texts
    by (simp add: wi_create_def normal_def wi_scopes_normal ship_normalized wi_timestamp_def env date_range_def
        ship_created_id item serve_def run_mutation_def fingerprint_nonempty find_mutation_def ctx_insert_def owner n
        wi_empty_def wi_shipped_def ship_record_def Let_def seq)
qed

lemma wi_empty_good: "wi_good wi_empty" "wi_loadable wi_empty"
  by (simp_all add: wi_good_def wi_loadable_def wi_empty_def)

lemma ship_step: "wi_step wi_empty (WiRun (wi_env_at 5) wi_ann (CmdCreate ship_input) (Inr ship_item)) wi_shipped"
  by (rule wi_step_run [OF ship_stored])

lemma ship_run: "steps_of wi_step wi_empty [WiRun (wi_env_at 5) wi_ann (CmdCreate ship_input) (Inr ship_item)] wi_shipped"
  by (rule steps_one [where step = wi_step, OF ship_step])

lemma ship_timely: "\<forall>ev \<in> set [WiRun (wi_env_at 5) wi_ann (CmdCreate ship_input) (Inr ship_item)]. timely ev"
  by (simp add: timely_def wi_env_at_def date_range_def)

lemma wi_shipped_good: "wi_good wi_shipped" "wi_loadable wi_shipped"
  using wi_steps_loadable [OF ship_run ship_timely wi_empty_good] by auto

text \<open>A store in which bob watches ann's item.\<close>

definition watched_item :: work_item where
  "watched_item = ship_item\<lparr>wi_watchers := [''bob'']\<rparr>"

definition wi_watched :: wi_store where
  "wi_watched = \<lparr>wt_items = [watched_item], wt_mutations = [], wt_next = 1, wt_disk = ([watched_item], [])\<rparr>"

definition unwatched_item :: work_item where
  "unwatched_item = ship_item\<lparr>wi_updated := 9, wi_seq := Some 2\<rparr>"

definition unwatch_record :: wi_mutation where
  "unwatch_record = \<lparr>wm_scope = wi_bob, wm_key = ''u1'', wm_operation = WUnwatch,
     wm_fingerprint = fingerprint WUnwatch (JObject [(''itemId'', JText ship_id)]), wm_result = unwatched_item,
     wm_created = 35\<rparr>"

definition wi_unwatched :: wi_store where
  "wi_unwatched = \<lparr>wt_items = [unwatched_item], wt_mutations = [unwatch_record], wt_next = 2,
     wt_disk = ([unwatched_item], [unwatch_record])\<rparr>"

lemma watched_valid: "validate_item watched_item" "validate_item unwatched_item"
  using ship_valid_with [of 5 "[''bob'']" "Some 1"] ship_valid_with [of 9 "[]" "Some 2"]
  by (simp_all add: ship_item_def watched_item_def unwatched_item_def date_range_def)

lemma wi_watched_good: "wi_good wi_watched"
  using watched_valid by (simp add: wi_good_def wi_watched_def seq_of_def watched_item_def ship_item_def)

lemma unwatch_target: "normalize_target ship_id ''u1'' = Inr (ship_id, ''u1'')"
  by code_simp

lemma unwatch_runs:
  "exec_wi (wi_env_at 9) wi_bob (CmdUnwatch ship_id ''u1'') wi_watched = (wi_unwatched, Inr unwatched_item)"
proof -
  have env: "we_now (wi_env_at 9) = 9" "we_date (wi_env_at 9) = 35" "we_written (wi_env_at 9)" "we_published (wi_env_at 9)"
    by (simp_all add: wi_env_at_def)
  have cand: "candidate wi_bob True ship_id watched_item"
    by (simp add: candidate_def same_conversation_def visible_to_def watched_item_def ship_item_def wi_bob_def)
  have upd: "watched_item\<lparr>wi_watchers := [], wi_updated := 9, wi_seq := Some 2\<rparr> = unwatched_item"
    by (simp add: watched_item_def unwatched_item_def ship_item_def)
  have kept: "identity_kept watched_item unwatched_item"
    by (simp add: identity_kept_def watched_item_def unwatched_item_def)
  have two: "Suc (Suc 0) = 2" by simp
  have bob: "wi_watchers watched_item = [''bob'']" "ws_requester wi_bob = ''bob''"
    by (simp_all add: watched_item_def wi_bob_def)
  show ?thesis
    using watched_valid(2) ship_texts kept
    by (simp add: wi_unwatch_def normal_def wi_scopes_normal unwatch_target serve_def run_mutation_def
        fingerprint_nonempty find_mutation_def unwatch_action_def ctx_get_def cand update_found_def ctx_update_def
        stamped_def wi_timestamp_def env date_range_def wi_watched_def wi_unwatched_def unwatch_record_def Let_def upd two
        bob)
qed

end
