(* ===== verification/CollaborationSamples.thy ===== *)
theory CollaborationSamples
  imports CollaborationHistory WorkItemSamples
begin

text \<open>Concrete followers, preferences and events at which the properties are instantiated: ann follows
  a goal, prefers a weekly digest of it, and two updates of the first days of 1970 are recorded.\<close>

definition co_env_at :: "time \<Rightarrow> co_env" where
  "co_env_at t = \<lparr>ce_now = t, ce_then = t, ce_date = t + 30, ce_uuid = ''aaaaaaaa-aaaa-aaaa-aaaa-aaaaaaaaaaaa'',
     ce_collation = (\<lambda>_ _. 0)\<rparr>"

definition co_empty :: co_store where
  "co_empty = \<lparr>cs_data = empty_co_data, cs_disk = empty_co_data, cs_pending = None\<rparr>"

definition goal :: co_target where
  "goal = \<lparr>tg_type = GoalTarget, tg_id = ''g1''\<rparr>"

definition follow_goal :: "string \<Rightarrow> follow_input" where
  "follow_goal k = \<lparr>fi_key = k, fi_target = (''goal'', '' g1 ''), fi_delivery = None, fi_channel = None\<rparr>"

definition ann_follows :: subscription where
  "ann_follows = new_subscription wi_ann goal PersonalDelivery None ''subscription-z-aaaaaaaa-aaa'' 5"

definition follow_record :: co_mutation where
  "follow_record = \<lparr>km_scope = wi_ann, km_key = ''k1'', km_operation = CoFollow,
     km_fingerprint = co_fingerprint CoFollow (JObject (identity_json goal PersonalDelivery None)),
     km_result = SubscriptionResult ann_follows, km_created = 35\<rparr>"

definition co_followed_data :: co_data where
  "co_followed_data = \<lparr>cd_context = \<lparr>cc_subscriptions = [ann_follows], cc_bindings = [], cc_preferences = [],
     cc_notifications = []\<rparr>, cd_mutations = [follow_record]\<rparr>"

definition co_followed :: co_store where
  "co_followed = \<lparr>cs_data = co_followed_data, cs_disk = co_followed_data, cs_pending = None\<rparr>"

definition co_following :: co_store where
  "co_following = \<lparr>cs_data = co_followed_data, cs_disk = empty_co_data,
     cs_pending = Some (empty_co_data, SubscriptionResult ann_follows)\<rparr>"

lemma co_ann_normal: "normalize_co_scope wi_ann = Inr wi_ann" "normalize_co_scope wi_bob = Inr wi_bob"
  by code_simp+

lemma follow_goal_normal:
  "normalize_follow (follow_goal ''k1'') = Inr (''k1'', goal, PersonalDelivery, None)"
  "normalize_follow (follow_goal ''k2'') = Inr (''k2'', goal, PersonalDelivery, None)"
  by code_simp+

lemma co_env_at_ok: "t \<in> {5, 6, 7} \<Longrightarrow> co_env_ok (co_env_at t)"
proof -
  assume "t \<in> {5, 6, 7}"
  moreover
  have "uuid_text ''aaaaaaaa-aaaa-aaaa-aaaa-aaaaaaaaaaaa''" by code_simp
  ultimately show ?thesis by (auto simp: co_env_ok_def co_env_at_def date_range_def)
qed

lemma co_env_at_fields [simp]: "ce_now (co_env_at t) = t" "ce_then (co_env_at t) = t" "ce_date (co_env_at t) = t + 30"
  "ce_collation (co_env_at t) = (\<lambda>_ _. 0)"
  by (simp_all add: co_env_at_def)

lemma sample_id: "co_create_id p (co_env_at 5) = p @ ''-z-aaaaaaaa-aaa''" "co_create_id p (co_env_at 6) = p @ ''-10-aaaaaaaa-aaa''"
  by (simp_all add: co_create_id_def co_env_at_def base36.simps base36_digit_def)

lemma co_empty_good: "co_good co_empty"
  by (simp add: co_good_def co_empty_def empty_co_data_def validate_store_def)

lemma co_empty_fresh: "ids_fresh env (cd_context (cs_data co_empty))"
  by (simp add: ids_fresh_def co_empty_def empty_co_data_def)

definition follow_request_of :: co_request where
  "follow_request_of = \<lparr>cq_scope = wi_ann, cq_operation = CoFollow, cq_key = ''k1'',
     cq_payload = JObject (identity_json goal PersonalDelivery None),
     cq_action = follow_action wi_ann goal PersonalDelivery None ''subscription-z-aaaaaaaa-aaa'' 5\<rparr>"

lemma ask_follow: "co_ask (co_env_at 5) wi_ann (Follow (follow_goal ''k1'')) = Inr follow_request_of"
  by (simp add: date_range_def follow_request_def co_ann_normal follow_goal_normal co_timestamp_def follow_request_of_def sample_id)

lemma follow_begins: "co_begin (co_env_at 5) wi_ann (Follow (follow_goal ''k1'')) co_empty = (co_following, None)"
proof -
  have run: "cq_action follow_request_of (cd_context (cs_data co_empty))
      = Inr (cd_context co_followed_data, SubscriptionResult ann_follows)"
    by (simp add: follow_request_of_def follow_action_def co_empty_def empty_co_data_def co_followed_data_def ann_follows_def Let_def)
  have fresh: "find_co_mutation (cq_scope follow_request_of) (cq_key follow_request_of) (cd_mutations (cs_data co_empty)) = None"
    by (simp add: find_co_mutation_def co_empty_def empty_co_data_def)
  have data: "changed_data (co_env_at 5) follow_request_of (cd_context co_followed_data) (SubscriptionResult ann_follows) (cs_data co_empty)
      = co_followed_data"
    by (simp add: changed_data_def record_of_def co_fp_def follow_request_of_def co_followed_data_def follow_record_def
        co_empty_def empty_co_data_def)
  have "validate_store co_followed_data"
    using change_validates [OF ask_follow run fresh _ co_env_at_ok [of 5] co_empty_fresh sized_fp [OF ask_follow]]
      co_empty_good data by (simp add: co_good_def)
  then show ?thesis
    unfolding co_begin_outcome [OF ask_follow] fresh option.case run sum.case prod.case data Let_def
    by (simp add: co_following_def co_empty_def)
qed

lemma follow_runs: "exec_co (co_env_at 5) wi_ann (Follow (follow_goal ''k1'')) True co_empty
    = (co_followed, Inr (SubscriptionResult ann_follows))"
  by (simp add: exec_co_begin follow_begins settle_def co_following_def co_followed_def or_else_def)

lemma follow_steps: "steps_of co_step co_empty [CoTurn (co_env_at 5) wi_ann (Follow (follow_goal ''k1'')) None, CoSettled True] co_followed"
proof -
  have "co_step co_empty (CoTurn (co_env_at 5) wi_ann (Follow (follow_goal ''k1'')) None) co_following"
    by (rule co_step_turn [OF _ follow_begins]) (simp add: co_empty_def)
  moreover have "co_step co_following (CoSettled True) co_followed"
    by (rule co_step_settle [where a = "Some (Inr (SubscriptionResult ann_follows))"])
      (simp_all add: settle_def co_following_def co_followed_def)
  ultimately show ?thesis by auto
qed

lemma co_followed_good: "co_good co_followed"
  by (rule co_steps_good [OF follow_steps co_empty_good])

text \<open>Ann stops following.\<close>

definition unfollow_request_of :: "time \<Rightarrow> co_request" where
  "unfollow_request_of t = \<lparr>cq_scope = wi_ann, cq_operation = CoUnfollow, cq_key = ''k2'',
     cq_payload = JObject (identity_json goal PersonalDelivery None),
     cq_action = unfollow_action wi_ann goal PersonalDelivery None t\<rparr>"

lemma ask_unfollow: "date_range t \<Longrightarrow> co_ask (co_env_at t) wi_ann (Unfollow (follow_goal ''k2'')) = Inr (unfollow_request_of t)"
  by (simp add: unfollow_request_def co_ann_normal follow_goal_normal co_timestamp_def unfollow_request_of_def)

lemma follows_matches: "same_subscription wi_ann goal PersonalDelivery None ann_follows" "sb_active ann_follows"
  by (simp_all add: same_subscription_def ann_follows_def new_subscription_def same_target_def)

lemma unfollow_changes:
  "\<exists>st'. co_begin (co_env_at 6) wi_ann (Unfollow (follow_goal ''k2'')) co_followed = (st', None)
    \<and> ann_follows \<in> set (cc_subscriptions (cd_context (cs_data co_followed)))
    \<and> ann_follows \<notin> set (cc_subscriptions (cd_context (cs_data st')))"
proof -
  have range: "date_range 6" by (simp add: date_range_def)
  let ?q = "unfollow_request_of 6" and ?s = "ann_follows\<lparr>sb_active := False, sb_updated := 6\<rparr>"
  let ?c = "cd_context co_followed_data"
  have run: "cq_action ?q (cd_context (cs_data co_followed)) = Inr (?c\<lparr>cc_subscriptions := [?s]\<rparr>, SubscriptionResult ?s)"
    using follows_matches
    by (simp add: unfollow_request_of_def unfollow_action_def co_followed_def co_followed_data_def Let_def)
  have fresh: "find_co_mutation (cq_scope ?q) (cq_key ?q) (cd_mutations (cs_data co_followed)) = None"
    by (simp add: find_co_mutation_def co_followed_def co_followed_data_def follow_record_def unfollow_request_of_def)
  have ids: "ids_fresh (co_env_at 6) (cd_context (cs_data co_followed))"
    by (simp add: ids_fresh_def co_followed_def co_followed_data_def sample_id ann_follows_def new_subscription_def)
  have "validate_store (changed_data (co_env_at 6) ?q (?c\<lparr>cc_subscriptions := [?s]\<rparr>) (SubscriptionResult ?s) (cs_data co_followed))"
    by (rule change_validates [OF ask_unfollow [OF range] run fresh _ _ ids sized_fp [OF ask_unfollow [OF range]]])
      (use co_followed_good co_env_at_ok [of 6] in \<open>simp_all add: co_good_def\<close>)
  then have "co_begin (co_env_at 6) wi_ann (Unfollow (follow_goal ''k2'')) co_followed
      = (co_followed\<lparr>cs_data := changed_data (co_env_at 6) ?q (?c\<lparr>cc_subscriptions := [?s]\<rparr>) (SubscriptionResult ?s) (cs_data co_followed),
          cs_pending := Some (cs_data co_followed, SubscriptionResult ?s)\<rparr>, None)"
    by (simp add: co_begin_outcome [OF ask_unfollow [OF range]] fresh run Let_def)
  moreover have "ann_follows \<noteq> ?s" using follows_matches(2) by (metis subscription.select_convs(8) subscription.update_convs(8,11) subscription.surjective)
  ultimately show ?thesis
    by (simp add: changed_data_def co_followed_def co_followed_data_def)
qed

section \<open>A week of events\<close>

definition weekly :: preference where
  "weekly = new_preference wi_ann goal PersonalDelivery None DigestLevel (Some Weekly) ''p1'' 5"

definition note_at :: "string \<Rightarrow> time \<Rightarrow> notification" where
  "note_at nid t = \<lparr>nt_id = nid, nt_tenant = ''t1'', nt_conversation = ''c1'', nt_creator = ''bob'', nt_target = goal,
     nt_kind = UpdateNote, nt_title = ''News'', nt_body = [], nt_mentions = [], nt_channel = None, nt_occurred = t,
     nt_remind = None, nt_link = build_collaboration_link goal, nt_created = t\<rparr>"

text \<open>The last event is of the next week.\<close>

definition week_context :: "preference list \<Rightarrow> co_context" where
  "week_context ps = \<lparr>cc_subscriptions = [ann_follows], cc_bindings = [], cc_preferences = ps,
     cc_notifications = [note_at ''n1'' 9, note_at ''n2'' 7, note_at ''n3'' 345600000]\<rparr>"

lemma sample_years: "year_of_day 0 = 1970" "year_of_day 4 = 1970" "year_of_day (- 3) = 1969"
  by (simp_all add: year_of_day_def day_from_year_def)

lemma week_dated: "dated (week_context ps)" "four_digit_year (- 259200000)" "four_digit_year 345600000"
  by (simp_all add: sample_years dated_def week_context_def note_at_def four_digit_year_def)

lemma week_wants:
  "wants wi_ann (week_context [weekly]) P (note_at i t) \<longleftrightarrow> P DigestLevel"
  "wants wi_ann (week_context []) P (note_at i t) \<longleftrightarrow> P AllLevel"
  by (auto simp: wants_def week_context_def ann_follows_def new_subscription_def wi_ann_def covers_def note_at_def
      same_target_def preference_of_def find_preference_def same_preference_def weekly_def new_preference_def)

lemma sample_week_window: "digest_window Weekly 5 = Inr (- 259200000, 345600000)"
proof -
  have "civil 0 = (1970, 0, 1)"
    by (simp add: civil_def year_of_day_def day_from_year_def month_and_day.simps month_length_def leap_def)
  moreover have "day_of 1970 0 1 = 0" by (simp add: day_of_def day_from_year_def)
  ultimately show ?thesis
    by (simp add: digest_window_def window_start_def window_end_def utc_day_def week_day_def Let_def date_range_def)
qed

lemma not_old_1970: "\<not> old_year 5"
  by (simp add: old_year_def sample_years)

section \<open>Inputs that are refused\<close>

definition quotes :: string where
  "quotes = replicate 1000 (CHR 0x22)"

text \<open>Ten values of a thousand quotation marks.\<close>

definition quoted_metadata :: "(string \<times> string) list" where
  "quoted_metadata = map (\<lambda>k. ([k], quotes)) ''jihgfedcba''"

definition quoted_bind :: bind_input where
  "quoted_bind = \<lparr>bi_key = ''k3'', bi_target = (''goal'', ''g1''), bi_channel = ''general'', bi_metadata = Some quoted_metadata\<rparr>"

lemma quotes_text: "co_optional_text 1000 quotes = Inr quotes" "length (json_text quotes) = 2002"
proof -
  have q: "\<not> js_space (CHR 0x22)" "\<not> text_control (CHR 0x22)" by (simp_all add: js_space_def text_control_def code_unit_def)
  have "dropWhile js_space (replicate n (CHR 0x22)) = replicate n (CHR 0x22)" for n using q by (cases n) auto
  then have "js_trim quotes = quotes" by (simp add: js_trim_def quotes_def)
  then show "co_optional_text 1000 quotes = Inr quotes"
    using q(2) by (simp add: co_optional_text_def quotes_def Let_def list_ex_iff)
  show "length (json_text quotes) = 2002" by (simp add: quotes_def json_text_quotes)
qed

lemma letters_text: "list_all (\<lambda>k. co_text 120 [k] = Inr [k]) ''jihgfedcba''"
  by code_simp

lemma quoted_metadata_normal: "normalize_metadata (\<lambda>_ _. 0) (Some quoted_metadata) = Inr quoted_metadata"
proof -
  have sorted: "js_sort (\<lambda>_ _. 0) xs = xs" for xs :: "'a list"
  proof -
    have "js_insert (\<lambda>_ _. 0) x ys = x # ys" for x :: 'a and ys by (cases ys) auto
    then show ?thesis by (induction xs) (simp_all add: js_sort_def)
  qed
  show ?thesis
    using letters_text by (simp add: normalize_metadata_def quoted_metadata_def sorted quotes_text assign_field_def)
qed

definition quoted_payload :: json where
  "quoted_payload = JObject [(''target'', target_json goal), (''channelId'', JText ''general''), (''metadata'', metadata_json quoted_metadata)]"

lemma ask_bind:
  "\<exists>q. co_ask (co_env_at 6) wi_ann (BindChannel quoted_bind) = Inr q \<and> cq_payload q = quoted_payload \<and> cq_operation q = CoBind
     \<and> cq_scope q = wi_ann \<and> cq_key q = ''k3''
     \<and> cq_action q = bind_action wi_ann goal ''general'' quoted_metadata ''channel-binding-10-aaaaaaaa-aaa'' 6"
proof -
  have t: "normalize_co_target (''goal'', ''g1'') = Inr goal" "co_text 256 ''general'' = Inr ''general''" "co_text 200 ''k3'' = Inr ''k3''"
    by code_simp+
  show ?thesis
    by (simp add: bind_request_def co_ann_normal normalize_bind_def quoted_bind_def t quoted_metadata_normal co_timestamp_def
        date_range_def quoted_payload_def sample_id)
qed

lemma quoted_payload_long: "20000 < length (co_fingerprint CoBind quoted_payload)"
proof -
  have "20020 \<le> json_texts (JObject [(''operation'', JText (co_operation_name CoBind)), (''payload'', quoted_payload)])"
    by (simp add: quoted_payload_def metadata_json_def quoted_metadata_def quotes_text)
  then show ?thesis unfolding co_fingerprint_def using stringify_lower by (rule less_le_trans [rotated, OF order_trans]) simp
qed

lemma bind_is_refused: "co_begin (co_env_at 6) wi_ann (BindChannel quoted_bind) co_followed = (co_followed, Some (Inl CoRefused))"
proof -
  obtain q where q: "co_ask (co_env_at 6) wi_ann (BindChannel quoted_bind) = Inr q" "cq_payload q = quoted_payload"
    "cq_operation q = CoBind" "cq_scope q = wi_ann" "cq_key q = ''k3''"
    "cq_action q = bind_action wi_ann goal ''general'' quoted_metadata ''channel-binding-10-aaaaaaaa-aaa'' 6"
    using ask_bind by blast
  have "20000 < length (co_fp q)" using quoted_payload_long q(2,3) by (simp add: co_fp_def)
  then have "\<not> validate_store (changed_data (co_env_at 6) q c r d)" for c r d
    by (simp add: validate_store_def Let_def changed_data_def record_of_def validate_co_mutation_def assert_text_def)
  moreover have "find_co_mutation (cq_scope q) (cq_key q) (cd_mutations (cs_data co_followed)) = None"
    by (simp add: find_co_mutation_def co_followed_def co_followed_data_def follow_record_def q(5))
  moreover have "\<exists>c r. cq_action q (cd_context (cs_data co_followed)) = Inr (c, r)"
    by (simp add: q(6) bind_action_def co_followed_def co_followed_data_def Let_def)
  ultimately show ?thesis by (auto simp: co_begin_outcome [OF q(1)] Let_def)
qed

text \<open>An update that does not say when it occurred.\<close>

definition untimed_update :: note_input where
  "untimed_update = \<lparr>no_key = ''k4'', no_target = (''goal'', ''g1''), no_title = ''News'', no_body = None, no_mentions = None,
     no_channel = None, no_when = None\<rparr>"

definition untimed_normal :: "time \<Rightarrow> note_normal" where
  "untimed_normal t = \<lparr>nn_key = ''k4'', nn_target = goal, nn_title = ''News'', nn_body = [], nn_mentions = [],
     nn_channel = None, nn_when = t\<rparr>"

lemma untimed_normalized: "normalize_note (\<lambda>_ _. 0) t untimed_update = Inr (untimed_normal t)"
proof -
  have t: "normalize_co_target (''goal'', ''g1'') = Inr goal" "co_text 400 ''News'' = Inr ''News''" "co_text 200 ''k4'' = Inr ''k4''"
    "co_optional_text 4000 [] = Inr []"
    by code_simp+
  show ?thesis
    by (simp add: normalize_note_def untimed_update_def t or_else_def normalize_ids_def js_sort_def co_optionally_def untimed_normal_def)
qed

lemma ask_untimed: "co_ask (co_env_at t) wi_ann (RecordUpdate untimed_update) = Inr q
    \<Longrightarrow> date_range t \<and> cq_scope q = wi_ann \<and> cq_key q = ''k4'' \<and> cq_operation q = CoUpdate
      \<and> cq_payload q = note_json ''occurredAt'' (untimed_normal t)
      \<and> cq_action q = note_action (new_notification wi_ann UpdateNote (untimed_normal t) (co_create_id ''notification'' (co_env_at t)) t)"
  by (auto simp: update_request_def chain_Inr co_ann_normal untimed_normalized dest!: timestamp_range) (simp_all add: untimed_normal_def)

lemma untimed_size: "json_size (note_json ''occurredAt'' (untimed_normal t)) \<le> 2000"
  using length_iso_text [of t] by (simp add: note_json_def untimed_normal_def target_json_def goal_def json_option_def)

lemma untimed_runs: "\<exists>st r. exec_co (co_env_at 6) wi_ann (RecordUpdate untimed_update) True co_followed = (st, Inr r)"
proof -
  have "\<exists>q. co_ask (co_env_at 6) wi_ann (RecordUpdate untimed_update) = Inr q"
    by (simp add: update_request_def co_ann_normal untimed_normalized co_timestamp_def date_range_def)
  then obtain q where ask: "co_ask (co_env_at 6) wi_ann (RecordUpdate untimed_update) = Inr q" by blast
  note q = ask_untimed [OF ask]
  let ?v = "JObject [(''operation'', JText (co_operation_name (cq_operation q))), (''payload'', cq_payload q)]"
  have "json_clean ?v" using co_payload(1) [OF ask] co_names_clean(5) by (simp del: clean_simps)
  moreover have "json_size ?v \<le> 20000" using q untimed_size [of 6] by simp
  ultimately have size: "length (co_fp q) \<le> 20000"
    unfolding co_fp_def co_fingerprint_def using stringify_size [of ?v] by linarith
  have run: "\<exists>c r. cq_action q (cd_context (cs_data co_followed)) = Inr (c, r)"
    using q by (simp add: note_action_def)
  have "ids_fresh (co_env_at 6) (cd_context (cs_data co_followed))"
    by (simp add: ids_fresh_def co_followed_def co_followed_data_def sample_id ann_follows_def new_subscription_def)
  moreover have "find_co_mutation (cq_scope q) (cq_key q) (cd_mutations (cs_data co_followed)) = None"
    using q by (simp add: find_co_mutation_def co_followed_def co_followed_data_def follow_record_def)
  moreover have "cs_pending co_followed = None" by (simp add: co_followed_def)
  ultimately show ?thesis
    using run exec_co_success [OF co_followed_good _ co_env_at_ok [of 6] _ ask _ _ size] by auto
qed

end
