(* ===== verification/DispatchTask.thy ===== *)
theory DispatchTask
  imports JobLoad Publication WorkItems ModelCatalog
begin

text \<open>
  Tasks of the dispatch queue (\<open>server/queue/agent-dispatch-queue.ts\<close> and the canonical forms of
  \<open>server/azure-agent-dispatch-queue.ts\<close>): the task of a job, its canonical form, its JSON text and the
  hash that binds a durable record to it, references, tasks of the first schema, and the texts of
  diagnostics. A value read from a message is a record of \<open>raw\<close> fields. Arguments of the model are the
  digest (SHA-256), \<open>JSON.parse\<close> on the messages, and the regular expressions that hide credentials and
  paths in a diagnostic.
\<close>

section \<open>Data\<close>

datatype dispatch_error =
    DInvalid | DConflict | DLeaseConflict | DIdentityConflict | DInvalidState | DMigrationUnavailable
  | DScopeMismatch | DNoRecord | DLegacyMismatch | DCancelRequested | DReceiptChanged | DStoreRefused | DQueueFault

datatype execution = WriteExecution | ReadOnlyExecution

text \<open>Schema 2 and schema 3; only the latter has a model selection.\<close>

datatype task_schema = SchemaTwo | SchemaThree "selection option"

record dispatch_task =
  dt_schema :: task_schema
  dt_id :: string
  dt_key :: string
  dt_tenant :: string
  dt_requester :: string
  dt_conversation :: string
  dt_provider :: string
  dt_prompt :: string
  dt_created :: string
  dt_execution :: execution

record task_ref =
  rf_id :: string
  rf_tenant :: string
  rf_requester :: string
  rf_conversation :: string

record raw_execution =
  re_workspace :: "string raw"
  re_mode :: "string raw"
  re_isolation :: "string raw"

text \<open>A value that should be a task: its field names, its schema version when that is a whole number, and its
  fields; a selection or an execution that is no object of the right types is \<open>Wrong\<close>.\<close>

record raw_task =
  rd_names :: "string list"
  rd_schema :: "int option"
  rd_id :: "string raw"
  rd_key :: "string raw"
  rd_tenant :: "string raw"
  rd_requester :: "string raw"
  rd_conversation :: "string raw"
  rd_provider :: "string raw"
  rd_prompt :: "string raw"
  rd_created :: "string raw"
  rd_execution :: "raw_execution raw"
  rd_selection :: "selection raw"

text \<open>The task of the first schema, which says nothing about its execution.\<close>

record legacy_task =
  lt_id :: string
  lt_key :: string
  lt_tenant :: string
  lt_requester :: string
  lt_conversation :: string
  lt_provider :: string
  lt_prompt :: string
  lt_created :: string

section \<open>Texts\<close>

definition require_text :: "string raw \<Rightarrow> dispatch_error + string" where
  "require_text v = (case v of Is s \<Rightarrow> if blank s then Inl DInvalid else Inr (js_trim s) | _ \<Rightarrow> Inl DInvalid)"

definition task_id_text :: "string \<Rightarrow> bool" where
  "task_id_text s \<longleftrightarrow> (case s of [] \<Rightarrow> False
     | c # cs \<Rightarrow> alnum_char c \<and> length cs \<le> 199 \<and> list_all (\<lambda>d. alnum_char d \<or> d \<in> set ''._:-'') cs)"

definition canonical_task_id :: "string raw \<Rightarrow> dispatch_error + string" where
  "canonical_task_id v = chain (require_text v) (\<lambda>s. if task_id_text s then Inr s else Inl DInvalid)"

definition workspace_reference :: string where "workspace_reference = ''teams-core-worker-workspace''"
definition isolation_reference :: string where "isolation_reference = ''linux-read-only-required''"

definition canonical_execution :: "raw_execution raw \<Rightarrow> dispatch_error + execution" where
  "canonical_execution v = (case v of
     Is e \<Rightarrow>
       if re_workspace e \<noteq> Is workspace_reference then Inl DInvalid
       else if re_mode e = Is ''workspace-write''
       then (if re_isolation e \<noteq> Absent then Inl DInvalid else Inr WriteExecution)
       else if re_mode e = Is ''read-only'' \<and> re_isolation e = Is isolation_reference then Inr ReadOnlyExecution
       else Inl DInvalid
   | _ \<Rightarrow> Inl DInvalid)"

fun raw_of_execution :: "execution \<Rightarrow> raw_execution" where
  "raw_of_execution WriteExecution =
     \<lparr>re_workspace = Is workspace_reference, re_mode = Is ''workspace-write'', re_isolation = Absent\<rparr>"
| "raw_of_execution ReadOnlyExecution =
     \<lparr>re_workspace = Is workspace_reference, re_mode = Is ''read-only'', re_isolation = Is isolation_reference\<rparr>"

section \<open>JSON texts\<close>

text \<open>\<open>JSON.stringify\<close> of an object, from its field names and the texts of its fields in their order.\<close>

definition object_text :: "(string \<times> string) list \<Rightarrow> string" where
  "object_text fs = CHR ''{'' # join_with CHR '','' (map (\<lambda>(k, v). json_text k @ CHR '':'' # v) fs) @ ''}''"

fun execution_text :: "execution \<Rightarrow> string" where
  "execution_text WriteExecution = object_text
     [(''mode'', json_text ''workspace-write''), (''workspaceReference'', json_text workspace_reference)]"
| "execution_text ReadOnlyExecution = object_text
     [(''mode'', json_text ''read-only''), (''workspaceReference'', json_text workspace_reference),
      (''isolationReference'', json_text isolation_reference)]"

fun selection_text :: "selection \<Rightarrow> string" where
  "selection_text (m, e, rvn) = object_text
     [(''model'', json_text m), (''reasoningEffort'', json_text (effort_name e)), (''catalogRevision'', json_text rvn)]"

definition task_text :: "dispatch_task \<Rightarrow> string" where
  "task_text t = object_text
     ([(''schemaVersion'', case dt_schema t of SchemaTwo \<Rightarrow> ''2'' | SchemaThree _ \<Rightarrow> ''3''),
       (''taskId'', json_text (dt_id t)), (''idempotencyKey'', json_text (dt_key t)),
       (''tenantId'', json_text (dt_tenant t)), (''requesterId'', json_text (dt_requester t)),
       (''conversationId'', json_text (dt_conversation t)), (''provider'', json_text (dt_provider t)),
       (''prompt'', json_text (dt_prompt t)), (''createdAt'', json_text (dt_created t)),
       (''execution'', execution_text (dt_execution t))]
      @ (case dt_schema t of SchemaThree (Some s) \<Rightarrow> [(''modelSelection'', selection_text s)] | _ \<Rightarrow> []))"

definition hash_task :: "(string \<Rightarrow> string) \<Rightarrow> dispatch_task \<Rightarrow> string" where
  "hash_task sha t = sha (task_text t)"

definition legacy_text :: "legacy_task \<Rightarrow> string" where
  "legacy_text t = object_text
     [(''schemaVersion'', ''1''), (''taskId'', json_text (lt_id t)), (''idempotencyKey'', json_text (lt_key t)),
      (''tenantId'', json_text (lt_tenant t)), (''requesterId'', json_text (lt_requester t)),
      (''conversationId'', json_text (lt_conversation t)), (''provider'', json_text (lt_provider t)),
      (''prompt'', json_text (lt_prompt t)), (''createdAt'', json_text (lt_created t))]"

section \<open>Canonical tasks\<close>

definition read_task_selection :: "selection raw \<Rightarrow> dispatch_error + selection option" where
  "read_task_selection v = (case v of Absent \<Rightarrow> Inr None | Wrong \<Rightarrow> Inl DInvalid
     | Is s \<Rightarrow> (case assert_safe_selection s of Inl _ \<Rightarrow> Inl DInvalid | Inr s' \<Rightarrow> Inr (Some s')))"

definition read_schema :: "raw_task \<Rightarrow> dispatch_error + task_schema" where
  "read_schema r = (if rd_schema r = Some 2 then Inr SchemaTwo
     else chain (read_task_selection (rd_selection r)) (\<lambda>s. Inr (SchemaThree s)))"

definition max_task_bytes :: nat where "max_task_bytes = 49152"

definition bounded_task :: "dispatch_task \<Rightarrow> dispatch_error + dispatch_task" where
  "bounded_task t = (if max_task_bytes < byte_length (task_text t) then Inl DInvalid else Inr t)"

definition canonical_task :: "raw_task \<Rightarrow> dispatch_error + dispatch_task" where
  "canonical_task r =
     (if rd_schema r \<noteq> Some 2 \<and> rd_schema r \<noteq> Some 3 then Inl DInvalid
      else if rd_schema r = Some 2 \<and> rd_selection r \<noteq> Absent then Inl DInvalid
      else chain (canonical_task_id (rd_id r)) (\<lambda>i. chain (require_text (rd_key r)) (\<lambda>k.
        chain (require_text (rd_tenant r)) (\<lambda>tn. chain (require_text (rd_requester r)) (\<lambda>rq.
        chain (require_text (rd_conversation r)) (\<lambda>cv. chain (require_text (rd_provider r)) (\<lambda>pv.
        chain (require_text (rd_prompt r)) (\<lambda>pr. chain (require_text (rd_created r)) (\<lambda>ca.
        chain (canonical_execution (rd_execution r)) (\<lambda>x. chain (read_schema r) (\<lambda>s.
        bounded_task \<lparr>dt_schema = s, dt_id = i, dt_key = k, dt_tenant = tn, dt_requester = rq, dt_conversation = cv,
          dt_provider = pv, dt_prompt = pr, dt_created = ca, dt_execution = x\<rparr>)))))))))))"

text \<open>A typed task seen as a value again.\<close>

definition raw_of_task :: "dispatch_task \<Rightarrow> raw_task" where
  "raw_of_task t =
     \<lparr>rd_names = [''schemaVersion'', ''taskId'', ''idempotencyKey'', ''tenantId'', ''requesterId'', ''conversationId'',
        ''provider'', ''prompt'', ''createdAt'', ''execution'']
        @ (case dt_schema t of SchemaThree (Some _) \<Rightarrow> [''modelSelection''] | _ \<Rightarrow> []),
      rd_schema = Some (case dt_schema t of SchemaTwo \<Rightarrow> 2 | SchemaThree _ \<Rightarrow> 3),
      rd_id = Is (dt_id t), rd_key = Is (dt_key t), rd_tenant = Is (dt_tenant t), rd_requester = Is (dt_requester t),
      rd_conversation = Is (dt_conversation t), rd_provider = Is (dt_provider t), rd_prompt = Is (dt_prompt t),
      rd_created = Is (dt_created t), rd_execution = Is (raw_of_execution (dt_execution t)),
      rd_selection = (case dt_schema t of SchemaThree (Some s) \<Rightarrow> Is s | _ \<Rightarrow> Absent)\<rparr>"

definition task_canonical :: "dispatch_task \<Rightarrow> bool" where
  "task_canonical t \<longleftrightarrow> canonical_task (raw_of_task t) = Inr t"

definition ref_of_task :: "dispatch_task \<Rightarrow> task_ref" where
  "ref_of_task t = \<lparr>rf_id = dt_id t, rf_tenant = dt_tenant t, rf_requester = dt_requester t, rf_conversation = dt_conversation t\<rparr>"

definition canonical_ref :: "task_ref \<Rightarrow> dispatch_error + task_ref" where
  "canonical_ref r = chain (canonical_task_id (Is (rf_id r))) (\<lambda>i. chain (require_text (Is (rf_tenant r))) (\<lambda>tn.
     chain (require_text (Is (rf_requester r))) (\<lambda>rq. chain (require_text (Is (rf_conversation r))) (\<lambda>cv.
     Inr \<lparr>rf_id = i, rf_tenant = tn, rf_requester = rq, rf_conversation = cv\<rparr>))))"

section \<open>Tasks of the first schema\<close>

definition require_legacy_text :: "string raw \<Rightarrow> dispatch_error + string" where
  "require_legacy_text v = (case v of Is s \<Rightarrow> if s = [] \<or> js_trim s \<noteq> s then Inl DInvalid else Inr s | _ \<Rightarrow> Inl DInvalid)"

definition legacy_names :: "string list" where
  "legacy_names = [''schemaVersion'', ''taskId'', ''idempotencyKey'', ''tenantId'', ''requesterId'', ''conversationId'',
     ''provider'', ''prompt'', ''createdAt'']"

definition canonical_legacy :: "raw_task \<Rightarrow> dispatch_error + legacy_task" where
  "canonical_legacy r =
     (if rd_schema r \<noteq> Some 1 then Inl DInvalid
      else if sort (rd_names r) \<noteq> sort legacy_names then Inl DInvalid
      else chain (require_legacy_text (rd_id r)) (\<lambda>i. if \<not> task_id_text i then Inl DInvalid else
        chain (require_legacy_text (rd_key r)) (\<lambda>k.
        chain (require_legacy_text (rd_tenant r)) (\<lambda>tn. chain (require_legacy_text (rd_requester r)) (\<lambda>rq.
        chain (require_legacy_text (rd_conversation r)) (\<lambda>cv. chain (require_legacy_text (rd_provider r)) (\<lambda>pv.
        chain (require_legacy_text (rd_prompt r)) (\<lambda>pr. chain (require_legacy_text (rd_created r)) (\<lambda>ca.
        let t = \<lparr>lt_id = i, lt_key = k, lt_tenant = tn, lt_requester = rq, lt_conversation = cv,
                 lt_provider = pv, lt_prompt = pr, lt_created = ca\<rparr>
        in if max_task_bytes < byte_length (legacy_text t) then Inl DInvalid else Inr t)))))))))"

definition raw_of_legacy :: "legacy_task \<Rightarrow> raw_task" where
  "raw_of_legacy t =
     \<lparr>rd_names = legacy_names, rd_schema = Some 1, rd_id = Is (lt_id t), rd_key = Is (lt_key t), rd_tenant = Is (lt_tenant t),
      rd_requester = Is (lt_requester t), rd_conversation = Is (lt_conversation t), rd_provider = Is (lt_provider t),
      rd_prompt = Is (lt_prompt t), rd_created = Is (lt_created t), rd_execution = Absent, rd_selection = Absent\<rparr>"

definition hash_legacy :: "(string \<Rightarrow> string) \<Rightarrow> raw_task \<Rightarrow> dispatch_error + string" where
  "hash_legacy sha r = chain (canonical_legacy r) (\<lambda>t. Inr (sha (legacy_text t)))"

text \<open>The migrated task: what the message says, in schema 2, with the execution the server decided.\<close>

definition migrated_task :: "legacy_task \<Rightarrow> execution \<Rightarrow> dispatch_error + dispatch_task" where
  "migrated_task t x = canonical_task
     ((raw_of_legacy t)\<lparr>rd_schema := Some 2, rd_names := legacy_names @ [''execution''],
        rd_execution := Is (raw_of_execution x)\<rparr>)"

text \<open>\<open>createServerOwnedLegacyDispatchMigration\<close>: entries of a task and the execution decided for it.\<close>

fun migration_table ::
  "(string \<Rightarrow> string) \<Rightarrow> ((string \<times> string) \<times> execution) list \<Rightarrow> (raw_task \<times> raw_execution raw) list
     \<Rightarrow> dispatch_error + ((string \<times> string) \<times> execution) list" where
  "migration_table sha known [] = Inr known"
| "migration_table sha known ((r, v) # entries) =
     chain (canonical_legacy r) (\<lambda>t. chain (canonical_execution v) (\<lambda>x.
       let k = (lt_id t, sha (legacy_text t))
       in if map_of known k \<noteq> None then Inl DInvalid else migration_table sha (known @ [(k, x)]) entries))"

definition resolve_entry ::
  "(string \<Rightarrow> string) \<Rightarrow> ((string \<times> string) \<times> execution) list \<Rightarrow> raw_task \<Rightarrow> string
     \<Rightarrow> dispatch_error + execution option" where
  "resolve_entry sha known r h = chain (canonical_legacy r) (\<lambda>t.
     if h \<noteq> sha (legacy_text t) then Inr None else Inr (map_of known (lt_id t, h)))"

text \<open>\<open>createRuntimeStoreLegacyDispatchMigration\<close> (\<open>server/storage/agent-dispatch-state-port.ts\<close>): the execution
  is that of the job the server keeps under the id of the task, when the two agree.\<close>

fun provider_text :: "provider \<Rightarrow> string" where
  "provider_text Codex = ''codex''" | "provider_text Copilot = ''copilot''"

definition job_agrees :: "job \<Rightarrow> legacy_task \<Rightarrow> bool" where
  "job_agrees j t \<longleftrightarrow> job_id j = lt_id t \<and> job_prompt j = lt_prompt t \<and> job_tenant j = Some (lt_tenant t)
     \<and> job_requester j = lt_requester t \<and> job_conversation j = lt_conversation t
     \<and> provider_text (case job_provider j of None \<Rightarrow> Codex | Some p \<Rightarrow> p) = lt_provider t"

definition mode_execution :: "job_mode \<Rightarrow> execution" where
  "mode_execution m = (if m = ReadOnly then ReadOnlyExecution else WriteExecution)"

definition resolve_from_jobs ::
  "(string \<Rightarrow> string) \<Rightarrow> (string \<Rightarrow> job option) \<Rightarrow> raw_task \<Rightarrow> string \<Rightarrow> dispatch_error + execution option" where
  "resolve_from_jobs sha jobs r h =
     (if \<not> hex_text 64 h then Inr None
      else chain (hash_legacy sha r) (\<lambda>h'. if h' \<noteq> h then Inr None
      else chain (canonical_legacy r) (\<lambda>t. case jobs (lt_id t) of
          None \<Rightarrow> Inr None
        | Some j \<Rightarrow> Inr (if job_agrees j t then Some (mode_execution (job_mode j)) else None))))"

section \<open>Tasks of jobs\<close>

text \<open>\<open>createAgentDispatchTaskFromJob\<close>. The arguments beside the job are the texts of its creation time.\<close>

definition task_of_job :: "string \<Rightarrow> job \<Rightarrow> dispatch_error + dispatch_task" where
  "task_of_job made_at j = (case job_tenant j of
     None \<Rightarrow> Inl DInvalid
   | Some tn \<Rightarrow>
       if tn = [] then Inl DInvalid
       else let t = (\<lambda>s. \<lparr>dt_schema = SchemaThree s, dt_id = job_id j, dt_key = ''agent-job:'' @ job_id j,
                dt_tenant = tn, dt_requester = job_requester j, dt_conversation = job_conversation j,
                dt_provider = provider_text (case job_provider j of None \<Rightarrow> Codex | Some p \<Rightarrow> p),
                dt_prompt = job_prompt j, dt_created = made_at, dt_execution = mode_execution (job_mode j)\<rparr>)
       in (case (job_model j, job_effort j, job_catalog j) of
         (None, None, None) \<Rightarrow> Inr (t None)
       | (Some m, Some e, Some c) \<Rightarrow> (case assert_safe_selection (m, e, c) of
             Inl _ \<Rightarrow> Inl DInvalid | Inr s \<Rightarrow> Inr (t (Some s)))
       | _ \<Rightarrow> Inl DInvalid))"

definition ref_of_job :: "job \<Rightarrow> dispatch_error + task_ref" where
  "ref_of_job j = (case job_tenant j of
     None \<Rightarrow> Inl DInvalid
   | Some tn \<Rightarrow> if tn = [] then Inl DInvalid
       else Inr \<lparr>rf_id = job_id j, rf_tenant = tn, rf_requester = job_requester j, rf_conversation = job_conversation j\<rparr>)"

section \<open>Diagnostics\<close>

text \<open>UTF-8 of code units below 256, and the text of bytes that are whole characters.\<close>

definition utf8_char :: "char \<Rightarrow> nat list" where
  "utf8_char c = (let n = code_unit c in if n < 128 then [n] else [192 + n div 64, 128 + n mod 64])"

definition utf8_bytes :: "string \<Rightarrow> nat list" where
  "utf8_bytes s = concat (map utf8_char s)"

fun utf8_decode :: "nat list \<Rightarrow> string" where
  "utf8_decode [] = []"
| "utf8_decode [b] = [char_of b]"
| "utf8_decode (b # c # bs) = (if b < 128 then char_of b # utf8_decode (c # bs)
     else char_of ((b - 192) * 64 + (c - 128)) # utf8_decode bs)"

text \<open>A byte whose two upper bits are \<open>10\<close> continues a character; the cut moves back to its beginning.\<close>

definition continuation_byte :: "nat \<Rightarrow> bool" where
  "continuation_byte b \<longleftrightarrow> b div 64 = 2"

fun back_to_start :: "nat list \<Rightarrow> nat \<Rightarrow> nat" where
  "back_to_start bs 0 = 0"
| "back_to_start bs (Suc k) = (if continuation_byte (bs ! Suc k) then back_to_start bs k else Suc k)"

definition truncate_utf8 :: "nat \<Rightarrow> string \<Rightarrow> string" where
  "truncate_utf8 m s = (let bs = utf8_bytes s in
     if length bs \<le> m then s else utf8_decode (take (back_to_start bs m) bs))"

definition sanitize_diagnostic :: "(string \<Rightarrow> string) \<Rightarrow> nat \<Rightarrow> string \<Rightarrow> dispatch_error + string" where
  "sanitize_diagnostic scrub m v = chain (require_text (Is v)) (\<lambda>s. Inr (truncate_utf8 m (scrub s)))"

subsection \<open>What the definitions give\<close>

lemma require_text_Inr: "require_text v = Inr s \<longleftrightarrow> (\<exists>u. v = Is u \<and> \<not> blank u \<and> s = js_trim u)"
  by (cases v) (auto simp: require_text_def)

lemma blank_js_trim [simp]: "blank (js_trim s) = blank s"
  by (simp add: blank_def)

lemma require_text_again: "require_text v = Inr s \<Longrightarrow> require_text (Is s) = Inr s"
  by (auto simp: require_text_Inr)

lemma canonical_task_id_again: "canonical_task_id v = Inr s \<Longrightarrow> canonical_task_id (Is s) = Inr s"
  by (auto simp: canonical_task_id_def chain_Inr require_text_again split: if_splits)

lemma canonical_execution_again [simp]: "canonical_execution (Is (raw_of_execution x)) = Inr x"
  by (cases x) (simp_all add: canonical_execution_def workspace_reference_def isolation_reference_def)

lemma assert_safe_selection_again:
  "assert_safe_selection s = Inr s' \<Longrightarrow> s' = s \<and> assert_safe_selection s' = Inr s'"
  by (auto simp: assert_safe_selection_def split: prod.splits if_splits)

lemma read_task_selection_again:
  assumes "read_task_selection v = Inr s"
  shows "read_task_selection (case s of Some x \<Rightarrow> Is x | None \<Rightarrow> Absent) = Inr s"
proof (cases v)
  case (Is x)
  then obtain y where "assert_safe_selection x = Inr y" "s = Some y"
    using assms by (auto simp: read_task_selection_def split: sum.splits)
  then show ?thesis using assert_safe_selection_again [of x y] by (simp add: read_task_selection_def)
qed (use assms in \<open>auto simp: read_task_selection_def\<close>)

lemma dispatch_task_eq:
  "\<lparr>dt_schema = s, dt_id = i, dt_key = k, dt_tenant = tn, dt_requester = rq, dt_conversation = cv,
     dt_provider = pv, dt_prompt = pr, dt_created = ca, dt_execution = x\<rparr> = t
   \<longleftrightarrow> s = dt_schema t \<and> i = dt_id t \<and> k = dt_key t \<and> tn = dt_tenant t \<and> rq = dt_requester t
     \<and> cv = dt_conversation t \<and> pv = dt_provider t \<and> pr = dt_prompt t \<and> ca = dt_created t \<and> x = dt_execution t"
  by (cases t) auto

lemma bounded_task_Inr: "bounded_task t = Inr t' \<longleftrightarrow> t = t' \<and> byte_length (task_text t') \<le> max_task_bytes"
  by (auto simp: bounded_task_def)

lemma task_canonical_iff:
  "task_canonical t \<longleftrightarrow> canonical_task_id (Is (dt_id t)) = Inr (dt_id t)
     \<and> require_text (Is (dt_key t)) = Inr (dt_key t) \<and> require_text (Is (dt_tenant t)) = Inr (dt_tenant t)
     \<and> require_text (Is (dt_requester t)) = Inr (dt_requester t)
     \<and> require_text (Is (dt_conversation t)) = Inr (dt_conversation t)
     \<and> require_text (Is (dt_provider t)) = Inr (dt_provider t) \<and> require_text (Is (dt_prompt t)) = Inr (dt_prompt t)
     \<and> require_text (Is (dt_created t)) = Inr (dt_created t) \<and> read_schema (raw_of_task t) = Inr (dt_schema t)
     \<and> byte_length (task_text t) \<le> max_task_bytes"
proof -
  have schema: "rd_schema (raw_of_task t) = Some 2 \<or> rd_schema (raw_of_task t) = Some 3"
    "rd_schema (raw_of_task t) = Some 2 \<Longrightarrow> rd_selection (raw_of_task t) = Absent"
    by (auto simp: raw_of_task_def split: task_schema.splits)
  have fields: "rd_id (raw_of_task t) = Is (dt_id t)" "rd_key (raw_of_task t) = Is (dt_key t)"
    "rd_tenant (raw_of_task t) = Is (dt_tenant t)" "rd_requester (raw_of_task t) = Is (dt_requester t)"
    "rd_conversation (raw_of_task t) = Is (dt_conversation t)" "rd_provider (raw_of_task t) = Is (dt_provider t)"
    "rd_prompt (raw_of_task t) = Is (dt_prompt t)" "rd_created (raw_of_task t) = Is (dt_created t)"
    "rd_execution (raw_of_task t) = Is (raw_of_execution (dt_execution t))"
    by (simp_all add: raw_of_task_def)
  show ?thesis
    unfolding task_canonical_def canonical_task_def fields
    using schema by (auto simp: chain_Inr bounded_task_Inr dispatch_task_eq)
qed

lemma canonical_task_again: "canonical_task r = Inr t \<Longrightarrow> task_canonical t"
  unfolding canonical_task_def task_canonical_iff
  by (auto simp: chain_Inr bounded_task_Inr read_schema_def raw_of_task_def split: if_splits task_schema.splits
      intro: require_text_again canonical_task_id_again dest: read_task_selection_again)

lemma canonical_ref_of_task: "task_canonical t \<Longrightarrow> canonical_ref (ref_of_task t) = Inr (ref_of_task t)"
  by (simp add: task_canonical_iff canonical_ref_def ref_of_task_def)

lemma migrated_task_facts:
  assumes "migrated_task t x = Inr t'"
  shows "task_canonical t' \<and> dt_execution t' = x \<and> dt_schema t' = SchemaTwo"
proof -
  have "dt_execution t' = x" "dt_schema t' = SchemaTwo"
    using assms by (auto simp: migrated_task_def canonical_task_def chain_Inr bounded_task_Inr raw_of_legacy_def read_schema_def
        split: if_splits)
  then show ?thesis using assms canonical_task_again unfolding migrated_task_def by blast
qed

lemma task_of_job_ref: "task_of_job made_at j = Inr t \<Longrightarrow> ref_of_job j = Inr (ref_of_task t)"
  by (auto simp: task_of_job_def ref_of_job_def ref_of_task_def Let_def split: option.splits if_splits sum.splits)

text \<open>The server's answer for an old task never gives more than the job it keeps was accepted with.\<close>

lemma resolve_from_jobs_mode:
  assumes "resolve_from_jobs sha jobs r h = Inr (Some x)"
  obtains t j where "canonical_legacy r = Inr t" "jobs (lt_id t) = Some j" "job_agrees j t" "x = mode_execution (job_mode j)"
    "h = sha (legacy_text t)"
  using assms that
  by (auto simp: resolve_from_jobs_def hash_legacy_def chain_Inr split: if_splits option.splits)

subsection \<open>Truncation\<close>

lemma code_unit_less [simp]: "code_unit c < 256"
  unfolding code_unit_def using of_char_mod_256 [of c] mod_less_divisor [of "256::nat" "of_char c"] by simp

lemma char_of_code_unit [simp]: "char_of (code_unit c) = c"
  by (simp add: code_unit_def)

lemma length_utf8_char: "length (utf8_char c) = utf8_size c"
  by (simp add: utf8_char_def utf8_size_def Let_def)

lemma length_utf8_bytes: "length (utf8_bytes s) = byte_length s"
  by (induction s) (simp_all add: utf8_bytes_def byte_length_def length_utf8_char)

lemma decode_utf8_char: "utf8_decode (utf8_char c @ bs) = c # utf8_decode bs"
proof (cases "code_unit c < 128")
  case True
  then show ?thesis by (cases bs) (simp_all add: utf8_char_def Let_def)
next
  case False
  let ?n = "code_unit c"
  have "(192 + ?n div 64 - 192) * 64 + (128 + ?n mod 64 - 128) = ?n" by simp
  with False show ?thesis by (simp add: utf8_char_def Let_def)
qed

lemma decode_utf8_bytes: "utf8_decode (utf8_bytes s) = s"
  by (induction s) (simp_all add: utf8_bytes_def decode_utf8_char)

lemma back_to_start_append:
  assumes "pre \<noteq> []" and "k < length bs" and "\<not> continuation_byte (bs ! 0)"
  shows "back_to_start (pre @ bs) (length pre + k) = length pre + back_to_start bs k"
  using assms(2)
proof (induction k)
  case 0
  obtain n where "length pre = Suc n" using assms(1) by (cases pre) auto
  then show ?case using assms(3) nth_append_length [of pre "hd bs" "tl bs"] 0 by (cases bs) simp_all
next
  case (Suc k)
  have "(pre @ bs) ! Suc (length pre + k) = bs ! Suc k"
    by (simp add: nth_append)
  then show ?case using Suc by simp
qed

lemma start_byte: "utf8_bytes (c # cs) ! 0 = code_unit c \<and> code_unit c < 128
    \<or> utf8_bytes (c # cs) ! 0 = 192 + code_unit c div 64"
  by (simp add: utf8_bytes_def utf8_char_def Let_def)

lemma not_continuation_start: "s \<noteq> [] \<Longrightarrow> \<not> continuation_byte (utf8_bytes s ! 0)"
proof (cases s)
  case (Cons c cs)
  have "code_unit c div 64 < 4" by (simp add: less_mult_imp_div_less)
  then show ?thesis using start_byte [of c cs] Cons by (auto simp: continuation_byte_def)
qed simp

lemma take_bytes_shift: "take_bytes (a + b) (a + u) s = take_bytes b u s"
proof (induction s arbitrary: u)
  case (Cons c cs)
  show ?case using Cons [of "u + utf8_size c"] by (simp add: add.assoc)
qed simp

lemma utf8_size_cases: "utf8_size c = Suc 0 \<and> utf8_char c = [code_unit c]
    \<or> utf8_size c = 2 \<and> utf8_char c = [192 + code_unit c div 64, 128 + code_unit c mod 64]"
  by (simp add: utf8_size_def utf8_char_def Let_def)

lemma back_to_start_bytes:
  "m < byte_length s \<Longrightarrow> back_to_start (utf8_bytes s) m = byte_length (take_bytes m 0 s)"
proof (induction s arbitrary: m)
  case Nil
  then show ?case by (simp add: byte_length_def)
next
  case (Cons c cs)
  have bs: "utf8_bytes (c # cs) = utf8_char c @ utf8_bytes cs" by (simp add: utf8_bytes_def)
  show ?case
  proof (cases "m < utf8_size c")
    case True
    have "back_to_start (utf8_char c @ utf8_bytes cs) m = 0"
    proof (cases m)
      case (Suc k)
      then have "utf8_char c = [192 + code_unit c div 64, 128 + code_unit c mod 64]" "m = Suc 0"
        using True utf8_size_cases [of c] by auto
      moreover have "(128 + code_unit c mod 64) div 64 = 2" by simp
      ultimately show ?thesis by (simp add: continuation_byte_def)
    qed simp
    then show ?thesis using True by (simp add: bs byte_length_def)
  next
    case False
    define k where "k = m - utf8_size c"
    have m: "m = length (utf8_char c) + k" using False by (simp add: k_def length_utf8_char)
    have k: "k < byte_length cs" using Cons.prems m by (simp add: byte_length_def length_utf8_char)
    then have "cs \<noteq> []" by (auto simp: byte_length_def)
    then have "back_to_start (utf8_bytes (c # cs)) m = length (utf8_char c) + back_to_start (utf8_bytes cs) k"
      unfolding bs m
      by (intro back_to_start_append not_continuation_start)
        (use k in \<open>auto simp: length_utf8_bytes utf8_char_def Let_def\<close>)
    also have "\<dots> = utf8_size c + byte_length (take_bytes k 0 cs)"
      using Cons.IH [OF k] by (simp add: length_utf8_char)
    also have "take_bytes k 0 cs = take_bytes m (utf8_size c) cs"
      using take_bytes_shift [of "utf8_size c" k 0 cs] m by (simp add: length_utf8_char)
    finally show ?thesis using False by (simp add: byte_length_def)
  qed
qed

text \<open>The cut at a byte boundary is the longest beginning of the text that fits.\<close>

lemma take_utf8_prefix: "s = p @ q \<Longrightarrow> take (byte_length p) (utf8_bytes s) = utf8_bytes p"
  by (simp add: utf8_bytes_def length_utf8_bytes [unfolded utf8_bytes_def, symmetric])

lemma take_bytes_all: "byte_length s + u \<le> m \<Longrightarrow> take_bytes m u s = s"
proof (induction s arbitrary: u)
  case (Cons c cs)
  then show ?case using Cons.IH [of "u + utf8_size c"] by (simp add: byte_length_def)
qed simp

lemma truncate_take_bytes: "truncate_utf8 m s = take_bytes m 0 s"
proof (cases "byte_length s \<le> m")
  case True
  then show ?thesis by (simp add: truncate_utf8_def length_utf8_bytes take_bytes_all)
next
  case False
  obtain q where "s = take_bytes m 0 s @ q" using take_bytes_prefix by blast
  then have "take (byte_length (take_bytes m 0 s)) (utf8_bytes s) = utf8_bytes (take_bytes m 0 s)"
    by (rule take_utf8_prefix)
  then show ?thesis using False
    by (simp add: truncate_utf8_def length_utf8_bytes back_to_start_bytes decode_utf8_bytes Let_def)
qed

lemma sanitized_size:
  "sanitize_diagnostic scrub m v = Inr s \<Longrightarrow> byte_length s \<le> m"
  using take_bytes_bound [of 0 m] by (auto simp: sanitize_diagnostic_def chain_Inr truncate_take_bytes)

end
