(* ===== verification/DispatchQueue.thy ===== *)
theory DispatchQueue
  imports DispatchTask ToolObservation
begin

text \<open>
  The dispatch queue (\<open>server/azure-agent-dispatch-queue.ts\<close>) over its durable records
  (\<open>server/storage/agent-dispatch-state-port.ts\<close>): submitting a task, leasing it from a delivered message,
  renewing the lease, ending the task, and asking for its cancellation. The message service is outside the
  repository: what it delivers and which calls it accepts are arguments, and the calls made are listed. Whether
  the store accepts a record value, and whether four conditional writes in a row lose against others, are
  arguments too. Between a read and the write that depends on it others may change the store.
\<close>

section \<open>Records\<close>

datatype dispatch_status = DsQueued | DsLeased | DsCompleted | DsFailed | DsCancelled | DsQuarantined

text \<open>An optional property of an object: no such key, a key with the value \<open>undefined\<close>, a value.\<close>

datatype 'a entry = Missing | Undef | Given 'a

definition value_of :: "'a entry \<Rightarrow> 'a option" where
  "value_of e = (case e of Given v \<Rightarrow> Some v | _ \<Rightarrow> None)"

definition keep_value :: "'a entry \<Rightarrow> 'a entry" where
  "keep_value e = (case value_of e of Some v \<Rightarrow> Given v | None \<Rightarrow> Missing)"

definition copy_value :: "'a entry \<Rightarrow> 'a entry" where
  "copy_value e = (case value_of e of Some v \<Rightarrow> Given v | None \<Rightarrow> Undef)"

record checkpoint =
  ck_sequence :: int
  ck_message :: string
  ck_recorded :: "time option"
  ck_tools :: "tool_usage list"
  ck_invocation :: "cli_receipt option"

record completion =
  cp_result :: string
  cp_execution :: string
  cp_finished :: "time option"
  cp_usage :: "token_usage option"
  cp_observation :: "exec_receipt option"
  cp_invocation :: "cli_receipt option"

record failure =
  fl_code :: string
  fl_message :: string
  fl_at :: "time option"

record dispatch_record =
  qr_id :: string
  qr_key :: string
  qr_hash :: string
  qr_status :: dispatch_status
  qr_task :: dispatch_task
  qr_enqueued :: bool
  qr_dequeues :: int
  qr_updated :: time
  qr_owner :: "string entry"
  qr_generation :: int
  qr_message :: "string entry"
  qr_expires :: "time entry"
  qr_cancel :: "bool entry"
  qr_reason :: "string entry"
  qr_checkpoint :: "checkpoint entry"
  qr_receipt :: "completion entry"
  qr_error :: "failure entry"
  qr_quarantine :: "string entry"

record lease =
  dl_task :: dispatch_task
  dl_message :: string
  dl_pop :: string
  dl_dequeues :: int
  dl_owner :: string
  dl_generation :: int

text \<open>A delivered message, and the record of a task of the first schema.\<close>

record queue_message =
  qm_id :: string
  qm_pop :: string
  qm_text :: string
  qm_dequeues :: int

record legacy_record =
  lq_id :: string
  lq_key :: string
  lq_hash :: string
  lq_status :: dispatch_status
  lq_task :: raw_task
  lq_enqueued :: bool
  lq_dequeues :: int
  lq_updated :: time
  lq_owner :: "string entry"
  lq_generation :: "int option"
  lq_message :: "string entry"
  lq_expires :: "time entry"
  lq_cancel :: "bool entry"
  lq_reason :: "string entry"
  lq_checkpoint :: "checkpoint entry"
  lq_receipt :: "completion entry"
  lq_error :: "failure entry"
  lq_quarantine :: "string entry"

type_synonym dispatch_store = "task_ref \<Rightarrow> dispatch_record option"

datatype message_body = NotJson | NotObject | Body raw_task

datatype queue_call =
    SendMessage string | UpdateMessage string string int | DeleteMessage string string
  | SendPoison string string int string

text \<open>What the queue is built with.\<close>

record dispatch_cfg =
  dc_sha :: "string \<Rightarrow> string"
  dc_scrub :: "string \<Rightarrow> string"
  dc_redact :: "string \<Rightarrow> string \<times> bool"
  dc_parse :: "string \<Rightarrow> message_body"
  dc_accepts :: "dispatch_record \<Rightarrow> bool"
  dc_message :: "dispatch_error \<Rightarrow> string"
  dc_migration :: "(raw_task \<Rightarrow> string \<Rightarrow> execution option) option"

text \<open>What one operation meets: the clock when it begins and when it writes, a random id, the answers of the
  message service, the renewed receipt, what others do to the store before its \<open>k\<close>-th access, whether that
  access loses every conditional write, and the records of the first schema.\<close>

record dispatch_env =
  xe_now :: time
  xe_later :: time
  xe_uuid :: string
  xe_accepts :: "queue_call \<Rightarrow> bool"
  xe_pop :: string
  xe_others :: "nat \<Rightarrow> dispatch_store \<Rightarrow> dispatch_store"
  xe_contended :: "nat \<Rightarrow> bool"
  xe_legacy :: "task_ref \<Rightarrow> dispatch_error + legacy_record option"

definition terminal_dispatch :: "dispatch_status \<Rightarrow> bool" where
  "terminal_dispatch s \<longleftrightarrow> s = DsCompleted \<or> s = DsFailed \<or> s = DsCancelled \<or> s = DsQuarantined"

definition record_canonical :: "(string \<Rightarrow> string) \<Rightarrow> dispatch_record \<Rightarrow> bool" where
  "record_canonical sha r \<longleftrightarrow> task_canonical (qr_task r) \<and> qr_id r = dt_id (qr_task r)
     \<and> qr_key r = dt_key (qr_task r) \<and> qr_hash r = hash_task sha (qr_task r)"

definition assert_canonical :: "(string \<Rightarrow> string) \<Rightarrow> dispatch_record \<Rightarrow> dispatch_error + unit" where
  "assert_canonical sha r = (if record_canonical sha r then Inr () else Inl DInvalidState)"

definition assert_record_scope :: "(string \<Rightarrow> string) \<Rightarrow> dispatch_record \<Rightarrow> task_ref \<Rightarrow> dispatch_error + unit" where
  "assert_record_scope sha r ref = chain (assert_canonical sha r) (\<lambda>_.
     if qr_id r \<noteq> rf_id ref \<or> ref_of_task (qr_task r) \<noteq> ref then Inl DScopeMismatch else Inr ())"

definition immutable_identity :: "dispatch_record \<Rightarrow> string \<times> string \<times> string \<times> dispatch_task" where
  "immutable_identity r = (qr_id r, qr_key r, qr_hash r, qr_task r)"

type_synonym mutation = "dispatch_record \<Rightarrow> dispatch_error + dispatch_record"

definition apply_mutation :: "(string \<Rightarrow> string) \<Rightarrow> mutation \<Rightarrow> mutation" where
  "apply_mutation sha m cur = chain (assert_canonical sha cur) (\<lambda>_. chain (m cur) (\<lambda>r.
     if immutable_identity cur \<noteq> immutable_identity r then Inl DIdentityConflict
     else chain (assert_canonical sha r) (\<lambda>_. Inr r)))"

section \<open>The durable records\<close>

definition port_create :: "dispatch_cfg \<Rightarrow> dispatch_record \<Rightarrow> dispatch_store \<Rightarrow> dispatch_store \<times> (dispatch_error + bool)" where
  "port_create cfg r st =
     (if \<not> record_canonical (dc_sha cfg) r then (st, Inl DInvalidState)
      else if \<not> dc_accepts cfg r then (st, Inl DStoreRefused)
      else let ref = ref_of_task (qr_task r) in
        case st ref of None \<Rightarrow> (st(ref \<mapsto> r), Inr True) | Some cur \<Rightarrow> (st, Inr (cur = r)))"

definition port_get :: "dispatch_cfg \<Rightarrow> task_ref \<Rightarrow> dispatch_store \<Rightarrow> dispatch_error + dispatch_record option" where
  "port_get cfg ref st = (case st ref of None \<Rightarrow> Inr None
     | Some r \<Rightarrow> chain (assert_record_scope (dc_sha cfg) r ref) (\<lambda>_. Inr (Some r)))"

text \<open>The owner and the generation a write expects.\<close>

type_synonym lease_identity = "string option \<times> int"

definition identity_of :: "dispatch_record \<Rightarrow> lease_identity" where
  "identity_of r = (case value_of (qr_owner r) of
       Some ow \<Rightarrow> if ow = [] then (None, qr_generation r) else (Some ow, qr_generation r)
     | None \<Rightarrow> (None, qr_generation r))"

definition lease_identity :: "lease \<Rightarrow> lease_identity" where
  "lease_identity l = (if dl_owner l = [] then (None, dl_generation l) else (Some (dl_owner l), dl_generation l))"

definition port_swap ::
  "dispatch_cfg \<Rightarrow> bool \<Rightarrow> task_ref \<Rightarrow> lease_identity \<Rightarrow> mutation \<Rightarrow> dispatch_store
     \<Rightarrow> dispatch_store \<times> (dispatch_error + dispatch_record option)" where
  "port_swap cfg lost ref expected m st = (case st ref of None \<Rightarrow> (st, Inl DNoRecord)
     | Some cur \<Rightarrow>
         (case assert_record_scope (dc_sha cfg) cur ref of Inl e \<Rightarrow> (st, Inl e)
          | Inr _ \<Rightarrow>
              if value_of (qr_owner cur) \<noteq> fst expected \<or> qr_generation cur \<noteq> snd expected then (st, Inr None)
              else (case chain (apply_mutation (dc_sha cfg) m cur)
                             (\<lambda>r. chain (assert_record_scope (dc_sha cfg) r ref) (\<lambda>_. Inr r)) of
                  Inl e \<Rightarrow> (st, Inl e)
                | Inr r \<Rightarrow>
                    if \<not> dc_accepts cfg r then (st, Inl DStoreRefused)
                    else if lost then (st, Inr None)
                    else (st(ref \<mapsto> r), Inr (Some r)))))"

definition compare_and_swap ::
  "dispatch_cfg \<Rightarrow> bool \<Rightarrow> task_ref \<Rightarrow> lease_identity \<Rightarrow> mutation \<Rightarrow> dispatch_store
     \<Rightarrow> dispatch_store \<times> (dispatch_error + dispatch_record option)" where
  "compare_and_swap cfg lost ref expected m = port_swap cfg lost ref expected (apply_mutation (dc_sha cfg) m)"

definition required_record :: "dispatch_cfg \<Rightarrow> task_ref \<Rightarrow> dispatch_store \<Rightarrow> dispatch_error + dispatch_record" where
  "required_record cfg ref st = chain (port_get cfg ref st) (\<lambda>v.
     case v of None \<Rightarrow> Inl DNoRecord
     | Some r \<Rightarrow> chain (assert_record_scope (dc_sha cfg) r ref) (\<lambda>_. Inr r))"

section \<open>Responses\<close>

definition sanitize_entry :: "('a \<Rightarrow> dispatch_error + 'a) \<Rightarrow> 'a entry \<Rightarrow> dispatch_error + 'a entry" where
  "sanitize_entry f e = (case value_of e of None \<Rightarrow> Inr Missing | Some v \<Rightarrow> chain (f v) (\<lambda>w. Inr (Given w)))"

definition sanitize_reason :: "dispatch_cfg \<Rightarrow> string entry \<Rightarrow> dispatch_error + string entry" where
  "sanitize_reason cfg e = (case value_of e of None \<Rightarrow> Inr Missing
     | Some v \<Rightarrow> if v = [] then Inr Missing else chain (sanitize_diagnostic (dc_scrub cfg) 512 v) (\<lambda>w. Inr (Given w)))"

definition of_option :: "'a option \<Rightarrow> dispatch_error + 'a" where
  "of_option v = (case v of None \<Rightarrow> Inl DInvalid | Some a \<Rightarrow> Inr a)"

definition sanitize_checkpoint :: "dispatch_cfg \<Rightarrow> checkpoint \<Rightarrow> dispatch_error + checkpoint" where
  "sanitize_checkpoint cfg c = chain (sanitize_diagnostic (dc_scrub cfg) 1024 (ck_message c)) (\<lambda>m.
     chain (of_option (read_cli_receipt (ck_invocation c))) (\<lambda>i.
     Inr (c\<lparr>ck_message := m, ck_invocation := i, ck_tools := merge_tools (dc_redact cfg) [] (ck_tools c)\<rparr>)))"

definition sanitize_completion :: "dispatch_cfg \<Rightarrow> completion \<Rightarrow> dispatch_error + completion" where
  "sanitize_completion cfg c = chain (sanitize_diagnostic (dc_scrub cfg) 4096 (cp_result c)) (\<lambda>x.
     chain (sanitize_diagnostic (dc_scrub cfg) 256 (cp_execution c)) (\<lambda>y.
     chain (of_option (read_exec_receipt (cp_observation c))) (\<lambda>ob.
     chain (of_option (read_cli_receipt (cp_invocation c))) (\<lambda>i.
     Inr (c\<lparr>cp_result := x, cp_execution := y, cp_observation := ob, cp_invocation := i\<rparr>)))))"

definition sanitize_error_receipt :: "dispatch_cfg \<Rightarrow> failure \<Rightarrow> dispatch_error + failure" where
  "sanitize_error_receipt cfg f = chain (sanitize_diagnostic (dc_scrub cfg) 128 (fl_code f)) (\<lambda>x.
     chain (sanitize_diagnostic (dc_scrub cfg) 1024 (fl_message f)) (\<lambda>y. Inr (f\<lparr>fl_code := x, fl_message := y\<rparr>)))"

definition sanitize_record :: "dispatch_cfg \<Rightarrow> dispatch_record \<Rightarrow> dispatch_error + dispatch_record" where
  "sanitize_record cfg r =
     chain (sanitize_entry (sanitize_checkpoint cfg) (qr_checkpoint r)) (\<lambda>c.
     chain (sanitize_entry (sanitize_completion cfg) (qr_receipt r)) (\<lambda>p.
     chain (sanitize_entry (sanitize_error_receipt cfg) (qr_error r)) (\<lambda>f.
     chain (sanitize_reason cfg (qr_reason r)) (\<lambda>w. chain (sanitize_reason cfg (qr_quarantine r)) (\<lambda>q.
     Inr (r\<lparr>qr_owner := keep_value (qr_owner r), qr_message := keep_value (qr_message r),
       qr_expires := keep_value (qr_expires r), qr_cancel := keep_value (qr_cancel r), qr_reason := w,
       qr_checkpoint := c, qr_receipt := p, qr_error := f, qr_quarantine := q\<rparr>))))))"

section \<open>Calls of the message service\<close>

type_synonym 'a outcome = "dispatch_store \<times> queue_call list \<times> (dispatch_error + 'a)"

definition calling :: "dispatch_env \<Rightarrow> queue_call \<Rightarrow> dispatch_store \<Rightarrow> (dispatch_store \<Rightarrow> 'a outcome) \<Rightarrow> 'a outcome" where
  "calling env c st next = (if xe_accepts env c then (case next st of (st', cs, a) \<Rightarrow> (st', c # cs, a))
     else (st, [c], Inl DQueueFault))"

text \<open>A conditional write as the \<open>k\<close>-th access: others come first.\<close>

definition swapping ::
  "dispatch_cfg \<Rightarrow> dispatch_env \<Rightarrow> nat \<Rightarrow> task_ref \<Rightarrow> lease_identity \<Rightarrow> mutation \<Rightarrow> dispatch_store
     \<Rightarrow> (dispatch_record option \<Rightarrow> dispatch_store \<Rightarrow> 'a outcome) \<Rightarrow> 'a outcome" where
  "swapping cfg env k ref expected m st next =
     (case compare_and_swap cfg (xe_contended env k) ref expected m (xe_others env k st) of
        (st', Inl e) \<Rightarrow> (st', [], Inl e) | (st', Inr v) \<Rightarrow> next v st')"

definition with_answer :: "dispatch_error + 'a \<Rightarrow> dispatch_store \<Rightarrow> ('a \<Rightarrow> 'b outcome) \<Rightarrow> 'b outcome" where
  "with_answer x st next = (case x of Inl e \<Rightarrow> (st, [], Inl e) | Inr a \<Rightarrow> next a)"

section \<open>Submission\<close>

definition new_record :: "(string \<Rightarrow> string) \<Rightarrow> time \<Rightarrow> dispatch_task \<Rightarrow> dispatch_record" where
  "new_record sha now t =
     \<lparr>qr_id = dt_id t, qr_key = dt_key t, qr_hash = hash_task sha t, qr_status = DsQueued, qr_task = t,
      qr_enqueued = False, qr_dequeues = 0, qr_updated = now, qr_owner = Missing, qr_generation = 0,
      qr_message = Missing, qr_expires = Missing, qr_cancel = Missing, qr_reason = Missing,
      qr_checkpoint = Missing, qr_receipt = Missing, qr_error = Missing, qr_quarantine = Missing\<rparr>"

definition mark_enqueued :: "time \<Rightarrow> mutation" where
  "mark_enqueued now r = Inr (r\<lparr>qr_enqueued := True, qr_updated := now\<rparr>)"

text \<open>After the record is known to be there: the message, then the mark.\<close>

definition send_task :: "dispatch_cfg \<Rightarrow> dispatch_env \<Rightarrow> dispatch_task \<Rightarrow> dispatch_store \<Rightarrow> dispatch_record outcome" where
  "send_task cfg env t st = calling env (SendMessage (task_text t)) st (\<lambda>st.
     let st1 = xe_others env 1 st in
     with_answer (required_record cfg (ref_of_task t) st1) st1 (\<lambda>r.
     swapping cfg env 2 (ref_of_task t) (identity_of r) (mark_enqueued (xe_later env)) st1 (\<lambda>v st2.
       case v of None \<Rightarrow> (st2, [], Inl DLeaseConflict) | Some r' \<Rightarrow> (st2, [], sanitize_record cfg r'))))"

definition enqueue :: "dispatch_cfg \<Rightarrow> dispatch_env \<Rightarrow> raw_task \<Rightarrow> dispatch_store \<Rightarrow> dispatch_record outcome" where
  "enqueue cfg env raw st = with_answer (canonical_task raw) st (\<lambda>t.
     let ref = ref_of_task t in
     case port_create cfg (new_record (dc_sha cfg) (xe_now env) t) st of
       (st0, Inl e) \<Rightarrow> (st0, [], Inl e)
     | (st0, Inr True) \<Rightarrow> send_task cfg env t st0
     | (st0, Inr False) \<Rightarrow>
         let st1 = xe_others env 0 st0 in
         with_answer (port_get cfg ref st1) st1 (\<lambda>v. case v of
           None \<Rightarrow> (st1, [], Inl DConflict)
         | Some r \<Rightarrow>
             if qr_hash r \<noteq> hash_task (dc_sha cfg) t \<or> qr_key r \<noteq> dt_key t then (st1, [], Inl DConflict)
             else if qr_enqueued r \<or> terminal_dispatch (qr_status r) then (st1, [], sanitize_record cfg r)
             else send_task cfg env t st1))"

definition observe :: "dispatch_cfg \<Rightarrow> task_ref \<Rightarrow> dispatch_store \<Rightarrow> dispatch_error + dispatch_record option" where
  "observe cfg raw st = chain (canonical_ref raw) (\<lambda>ref. chain (port_get cfg ref st) (\<lambda>v.
     case v of None \<Rightarrow> Inr None
     | Some r \<Rightarrow> chain (assert_record_scope (dc_sha cfg) r ref) (\<lambda>_.
         chain (sanitize_record cfg r) (\<lambda>s. Inr (Some s)))))"

section \<open>Leasing\<close>

definition valid_visibility :: "int \<Rightarrow> bool" where
  "valid_visibility v \<longleftrightarrow> 1 \<le> v \<and> v \<le> 604800"

definition lease_expired :: "time \<Rightarrow> dispatch_record \<Rightarrow> bool" where
  "lease_expired now r \<longleftrightarrow> (case value_of (qr_expires r) of None \<Rightarrow> True | Some t \<Rightarrow> t \<le> now)"

definition redelivered :: "queue_message \<Rightarrow> dispatch_record \<Rightarrow> bool" where
  "redelivered m r \<longleftrightarrow> value_of (qr_message r) = Some (qm_id m) \<and> qr_dequeues r < qm_dequeues m"

definition has_owner :: "dispatch_record \<Rightarrow> bool" where
  "has_owner r \<longleftrightarrow> (case value_of (qr_owner r) of None \<Rightarrow> False | Some ow \<Rightarrow> ow \<noteq> [])"

definition held_by_another :: "time \<Rightarrow> queue_message \<Rightarrow> dispatch_record \<Rightarrow> bool" where
  "held_by_another now m r \<longleftrightarrow> has_owner r \<and> \<not> lease_expired now r \<and> \<not> redelivered m r"

definition claim_record :: "time \<Rightarrow> time \<Rightarrow> int \<Rightarrow> string \<Rightarrow> int \<Rightarrow> queue_message \<Rightarrow> mutation" where
  "claim_record now later vis ow gen m r =
     (if held_by_another now m r then Inl DLeaseConflict
      else if \<not> date_range (now + vis * 1000) then Inl DInvalid
      else Inr (r\<lparr>qr_status := DsLeased, qr_dequeues := qm_dequeues m, qr_owner := Given ow, qr_generation := gen,
        qr_message := Given (qm_id m), qr_expires := Given (now + vis * 1000), qr_updated := later\<rparr>))"

definition quarantine_record :: "time \<Rightarrow> string \<Rightarrow> mutation" where
  "quarantine_record later reason r =
     Inr (r\<lparr>qr_status := DsQuarantined, qr_quarantine := Given reason, qr_expires := Undef, qr_updated := later\<rparr>)"

text \<open>A message that cannot be worked on goes to the poison queue; its task, when known, is quarantined.\<close>

definition quarantine_message ::
  "dispatch_cfg \<Rightarrow> dispatch_env \<Rightarrow> queue_message \<Rightarrow> dispatch_record option \<Rightarrow> string \<Rightarrow> dispatch_store \<Rightarrow> unit outcome" where
  "quarantine_message cfg env m known reason st = with_answer (sanitize_diagnostic (dc_scrub cfg) 512 reason) st (\<lambda>why.
     calling env (SendPoison why (qm_id m) (qm_dequeues m) (dc_sha cfg (qm_text m))) st (\<lambda>st.
       let finish = (\<lambda>st. calling env (DeleteMessage (qm_id m) (qm_pop m)) st (\<lambda>st. (st, [], Inr ()))) in
       case known of
         None \<Rightarrow> finish st
       | Some r \<Rightarrow> swapping cfg env 4 (ref_of_task (qr_task r)) (identity_of r) (quarantine_record (xe_later env) why) st
           (\<lambda>v st'. case v of None \<Rightarrow> (st', [], Inl DLeaseConflict) | Some _ \<Rightarrow> finish st')))"

definition safe_message :: "dispatch_cfg \<Rightarrow> dispatch_error \<Rightarrow> dispatch_error + string" where
  "safe_message cfg e = sanitize_diagnostic (dc_scrub cfg) 1024 (dc_message cfg e)"

subsection \<open>Messages of the first schema\<close>

definition same_value :: "raw_task \<Rightarrow> raw_task \<Rightarrow> bool" where
  "same_value a b \<longleftrightarrow> sort (rd_names a) = sort (rd_names b) \<and> a\<lparr>rd_names := []\<rparr> = b\<lparr>rd_names := []\<rparr>"

definition matching_legacy :: "(string \<Rightarrow> string) \<Rightarrow> legacy_record \<Rightarrow> raw_task \<Rightarrow> string \<Rightarrow> bool" where
  "matching_legacy sha r raw h \<longleftrightarrow> same_value (lq_task r) raw \<and> Is (lq_id r) = rd_id raw \<and> Is (lq_key r) = rd_key raw
     \<and> lq_hash r = h \<and> safe_integer (lq_dequeues r) \<and> 0 \<le> lq_dequeues r
     \<and> (case lq_generation r of None \<Rightarrow> True | Some g \<Rightarrow> safe_integer g \<and> 0 \<le> g)
     \<and> hash_legacy sha raw = Inr h"

definition migrate_record :: "(string \<Rightarrow> string) \<Rightarrow> legacy_record \<Rightarrow> dispatch_task \<Rightarrow> dispatch_record" where
  "migrate_record sha l t =
     \<lparr>qr_id = dt_id t, qr_key = dt_key t, qr_hash = hash_task sha t, qr_status = lq_status l, qr_task = t,
      qr_enqueued = lq_enqueued l, qr_dequeues = lq_dequeues l, qr_updated = lq_updated l,
      qr_owner = copy_value (lq_owner l), qr_generation = (case lq_generation l of None \<Rightarrow> 0 | Some g \<Rightarrow> g),
      qr_message = copy_value (lq_message l), qr_expires = copy_value (lq_expires l), qr_cancel = copy_value (lq_cancel l),
      qr_reason = copy_value (lq_reason l), qr_checkpoint = copy_value (lq_checkpoint l),
      qr_receipt = copy_value (lq_receipt l), qr_error = copy_value (lq_error l), qr_quarantine = copy_value (lq_quarantine l)\<rparr>"

text \<open>\<open>Inl DMigrationUnavailable\<close> is the error that leaves the message for later; every other one quarantines it.\<close>

definition or_unavailable :: "dispatch_error + 'a \<Rightarrow> dispatch_error + 'a" where
  "or_unavailable x = (case x of Inl _ \<Rightarrow> Inl DMigrationUnavailable | Inr a \<Rightarrow> Inr a)"

definition check_migrated :: "dispatch_cfg \<Rightarrow> dispatch_task \<Rightarrow> dispatch_record option \<Rightarrow> dispatch_error + dispatch_task" where
  "check_migrated cfg t v = (case v of None \<Rightarrow> Inl DMigrationUnavailable
     | Some r \<Rightarrow> chain (assert_record_scope (dc_sha cfg) r (ref_of_task t)) (\<lambda>_.
         if qr_hash r \<noteq> hash_task (dc_sha cfg) t \<or> qr_key r \<noteq> dt_key t then Inl DLegacyMismatch else Inr t))"

definition decide_migration ::
  "dispatch_cfg \<Rightarrow> dispatch_env \<Rightarrow> raw_task \<Rightarrow> dispatch_error + (legacy_record option \<times> dispatch_task)" where
  "decide_migration cfg env raw = (case dc_migration cfg of None \<Rightarrow> Inl DMigrationUnavailable
     | Some resolve \<Rightarrow>
         chain (canonical_task_id (rd_id raw)) (\<lambda>i. chain (require_text (rd_tenant raw)) (\<lambda>tn.
         chain (require_text (rd_requester raw)) (\<lambda>rq. chain (require_text (rd_conversation raw)) (\<lambda>cv.
         chain (hash_legacy (dc_sha cfg) raw) (\<lambda>h.
         chain (or_unavailable (xe_legacy env \<lparr>rf_id = i, rf_tenant = tn, rf_requester = rq, rf_conversation = cv\<rparr>)) (\<lambda>l.
         if (case l of None \<Rightarrow> False | Some r \<Rightarrow> \<not> matching_legacy (dc_sha cfg) r raw h) then Inl DLegacyMismatch
         else (case resolve raw h of None \<Rightarrow> Inl DMigrationUnavailable
           | Some x \<Rightarrow> chain (canonical_legacy raw) (\<lambda>t. chain (migrated_task t x) (\<lambda>t'. Inr (l, t')))))))))))"

definition migrate_legacy ::
  "dispatch_cfg \<Rightarrow> dispatch_env \<Rightarrow> raw_task \<Rightarrow> dispatch_store \<Rightarrow> dispatch_store \<times> (dispatch_error + dispatch_task)" where
  "migrate_legacy cfg env raw st = (case decide_migration cfg env raw of Inl e \<Rightarrow> (st, Inl e)
     | Inr (l, t) \<Rightarrow>
        (case or_unavailable (port_get cfg (ref_of_task t) st) of Inl e \<Rightarrow> (st, Inl e)
         | Inr (Some r) \<Rightarrow> (st, check_migrated cfg t (Some r))
         | Inr None \<Rightarrow>
            (case l of None \<Rightarrow> (st, Inl DMigrationUnavailable)
             | Some lr \<Rightarrow>
                let r = migrate_record (dc_sha cfg) lr t in
                (case port_create cfg r (xe_others env 0 st) of
                   (st', Inl _) \<Rightarrow> (st', Inl DMigrationUnavailable)
                 | (st', Inr True) \<Rightarrow> (st', check_migrated cfg t (Some r))
                 | (st', Inr False) \<Rightarrow>
                    (case or_unavailable (port_get cfg (ref_of_task t) st') of
                       Inl e \<Rightarrow> (st', Inl e) | Inr v \<Rightarrow> (st', check_migrated cfg t v))))))"

definition parse_message ::
  "dispatch_cfg \<Rightarrow> dispatch_env \<Rightarrow> string \<Rightarrow> dispatch_store \<Rightarrow> dispatch_store \<times> (dispatch_error + dispatch_task)" where
  "parse_message cfg env text st = (case dc_parse cfg text of
     Body raw \<Rightarrow> if rd_schema raw = Some 1 then migrate_legacy cfg env raw st else (st, canonical_task raw)
   | _ \<Rightarrow> (st, Inl DInvalid))"

subsection \<open>The lease\<close>

text \<open>\<open>crypto.randomUUID\<close> is \<open>xe_uuid\<close>; \<open>max_dequeues\<close> is 5 unless the caller says otherwise.\<close>

definition lease_of :: "dispatch_task \<Rightarrow> queue_message \<Rightarrow> string \<Rightarrow> int \<Rightarrow> lease" where
  "lease_of t m ow gen = \<lparr>dl_task = t, dl_message = qm_id m, dl_pop = qm_pop m, dl_dequeues = qm_dequeues m,
     dl_owner = ow, dl_generation = gen\<rparr>"

definition terminal_owner :: "dispatch_record \<Rightarrow> string" where
  "terminal_owner r = (case value_of (qr_owner r) of None \<Rightarrow> ''terminal'' | Some ow \<Rightarrow> ow)"

definition drop_message :: "dispatch_env \<Rightarrow> queue_message \<Rightarrow> 'a \<Rightarrow> dispatch_store \<Rightarrow> 'a outcome" where
  "drop_message env m a st = calling env (DeleteMessage (qm_id m) (qm_pop m)) st (\<lambda>st. (st, [], Inr a))"

definition then_none :: "unit outcome \<Rightarrow> lease option outcome" where
  "then_none x = (case x of (st, cs, Inl e) \<Rightarrow> (st, cs, Inl e) | (st, cs, Inr _) \<Rightarrow> (st, cs, Inr None))"

definition lease_task ::
  "dispatch_cfg \<Rightarrow> dispatch_env \<Rightarrow> int \<Rightarrow> int \<Rightarrow> queue_message \<Rightarrow> dispatch_task \<Rightarrow> dispatch_store \<Rightarrow> lease option outcome" where
  "lease_task cfg env vis max_dequeues m t st1 =
     with_answer (port_get cfg (ref_of_task t) st1) st1 (\<lambda>v. case v of
       None \<Rightarrow> then_none (quarantine_message cfg env m None ''unknown or mismatched durable dispatch record'' st1)
     | Some r \<Rightarrow> with_answer (assert_record_scope (dc_sha cfg) r (ref_of_task t)) st1 (\<lambda>_.
         if qr_hash r \<noteq> hash_task (dc_sha cfg) t
         then then_none (quarantine_message cfg env m None ''unknown or mismatched durable dispatch record'' st1)
         else if terminal_dispatch (qr_status r)
         then drop_message env m (Some (lease_of t m (terminal_owner r) (qr_generation r))) st1
         else if max_dequeues < qm_dequeues m
         then then_none (quarantine_message cfg env m (Some r) ''maximum dequeue count exceeded'' st1)
         else if held_by_another (xe_now env) m r then drop_message env m None st1
         else swapping cfg env 2 (ref_of_task t) (identity_of r)
           (claim_record (xe_now env) (xe_later env) vis (xe_uuid env) (qr_generation r + 1) m) st1 (\<lambda>w st2.
             case w of None \<Rightarrow> drop_message env m None st2
             | Some _ \<Rightarrow> (st2, [], Inr (Some (lease_of t m (xe_uuid env) (qr_generation r + 1)))))))"

definition lease_next ::
  "dispatch_cfg \<Rightarrow> dispatch_env \<Rightarrow> int \<Rightarrow> int \<Rightarrow> dispatch_error + queue_message option \<Rightarrow> dispatch_store
     \<Rightarrow> lease option outcome" where
  "lease_next cfg env vis max_dequeues received st =
     (if \<not> valid_visibility vis then (st, [], Inl DInvalid)
      else with_answer received st (\<lambda>v. case v of None \<Rightarrow> (st, [], Inr None)
      | Some m \<Rightarrow> (case parse_message cfg env (qm_text m) st of
            (st', Inl DMigrationUnavailable) \<Rightarrow>
              calling env (UpdateMessage (qm_id m) (qm_pop m) 1) st' (\<lambda>st. (st, [], Inr None))
          | (st', Inl e) \<Rightarrow> with_answer (safe_message cfg e) st' (\<lambda>why.
              then_none (quarantine_message cfg env m None why st'))
          | (st', Inr t) \<Rightarrow> lease_task cfg env vis max_dequeues m t (xe_others env 1 st'))))"

section \<open>The holder of a lease\<close>

definition lease_holds :: "lease \<Rightarrow> dispatch_record \<Rightarrow> bool" where
  "lease_holds l r \<longleftrightarrow> value_of (qr_owner r) = Some (dl_owner l) \<and> qr_generation r = dl_generation l"

definition validate_lease :: "lease \<Rightarrow> dispatch_error + task_ref" where
  "validate_lease l = chain (canonical_task (raw_of_task (dl_task l))) (\<lambda>_. chain (require_text (Is (dl_message l))) (\<lambda>_.
     chain (require_text (Is (dl_pop l))) (\<lambda>_. chain (require_text (Is (dl_owner l))) (\<lambda>_.
     if \<not> safe_integer (dl_generation l) \<or> dl_generation l < 1 then Inl DInvalid
     else canonical_ref (ref_of_task (dl_task l))))))"

definition observed_invocation :: "dispatch_record \<Rightarrow> cli_receipt option" where
  "observed_invocation r = (case value_of (qr_checkpoint r) of None \<Rightarrow> None | Some c \<Rightarrow> ck_invocation c)"

text \<open>The checkpoint is the normalised one: text, tools and receipt checked and cut.\<close>

definition beat_record :: "lease \<Rightarrow> checkpoint \<Rightarrow> int \<Rightarrow> time \<Rightarrow> mutation" where
  "beat_record l c vis later r =
     (if \<not> lease_holds l r \<or> terminal_dispatch (qr_status r) then Inl DLeaseConflict
      else let earlier = observed_invocation r in
        if earlier \<noteq> None \<and> ck_invocation c \<noteq> None \<and> \<not> same_cli_receipt (the earlier) (ck_invocation c) then Inl DReceiptChanged
        else if \<not> date_range (later + vis * 1000) then Inl DInvalid
        else Inr (r\<lparr>qr_checkpoint := Given (c\<lparr>ck_recorded := Some later,
            ck_invocation := (case ck_invocation c of None \<Rightarrow> earlier | Some i \<Rightarrow> Some i)\<rparr>),
          qr_expires := Given (later + vis * 1000), qr_updated := later\<rparr>))"

definition normalize_checkpoint :: "dispatch_cfg \<Rightarrow> checkpoint \<Rightarrow> dispatch_error + checkpoint" where
  "normalize_checkpoint cfg c =
     (if ck_sequence c < 0 then Inl DInvalid
      else chain (sanitize_diagnostic (dc_scrub cfg) 1024 (ck_message c)) (\<lambda>m.
        let tools = merge_tools (dc_redact cfg) [] (ck_tools c) in
        chain (of_option (read_cli_receipt (ck_invocation c))) (\<lambda>i.
        if length tools \<noteq> length (ck_tools c) then Inl DInvalid
        else Inr (c\<lparr>ck_message := m, ck_tools := tools, ck_invocation := i\<rparr>))))"

definition heartbeat ::
  "dispatch_cfg \<Rightarrow> dispatch_env \<Rightarrow> lease \<Rightarrow> checkpoint \<Rightarrow> int \<Rightarrow> dispatch_store \<Rightarrow> lease outcome" where
  "heartbeat cfg env l c vis st = with_answer (validate_lease l) st (\<lambda>ref.
     if \<not> valid_visibility vis then (st, [], Inl DInvalid)
     else with_answer (normalize_checkpoint cfg c) st (\<lambda>c'.
       calling env (UpdateMessage (dl_message l) (dl_pop l) vis) st (\<lambda>st.
       swapping cfg env 1 ref (lease_identity l) (beat_record l c' vis (xe_later env)) st (\<lambda>v st'.
         case v of None \<Rightarrow> (st', [], Inl DLeaseConflict)
         | Some _ \<Rightarrow> with_answer (require_text (Is (xe_pop env))) st' (\<lambda>pop. (st', [], Inr (l\<lparr>dl_pop := pop\<rparr>)))))))"

text \<open>\<open>terminalUpdate\<close>: the change of a lease's own record, without an expiry, then the message is deleted.\<close>

definition end_record :: "lease \<Rightarrow> time \<Rightarrow> mutation \<Rightarrow> mutation" where
  "end_record l later m r = (if \<not> lease_holds l r then Inl DLeaseConflict
     else chain (m r) (\<lambda>r'. Inr (r'\<lparr>qr_expires := Undef, qr_updated := later\<rparr>)))"

definition terminal_update :: "dispatch_cfg \<Rightarrow> dispatch_env \<Rightarrow> lease \<Rightarrow> mutation \<Rightarrow> dispatch_store \<Rightarrow> unit outcome" where
  "terminal_update cfg env l m st = with_answer (validate_lease l) st (\<lambda>ref.
     swapping cfg env 1 ref (lease_identity l) (end_record l (xe_later env) m) st (\<lambda>v st'.
       case v of None \<Rightarrow> (st', [], Inl DLeaseConflict)
       | Some _ \<Rightarrow> calling env (DeleteMessage (dl_message l) (dl_pop l)) st' (\<lambda>st. (st, [], Inr ()))))"

definition completed_record :: "completion \<Rightarrow> time \<Rightarrow> mutation" where
  "completed_record p later r =
     (if value_of (qr_cancel r) = Some True then Inl DCancelRequested
      else let earlier = observed_invocation r;
               invocation = (case cp_invocation p of None \<Rightarrow> earlier | Some i \<Rightarrow> Some i)
      in if earlier \<noteq> None \<and> \<not> same_cli_receipt (the earlier) invocation then Inl DReceiptChanged
         else Inr (r\<lparr>qr_status := DsCompleted,
           qr_receipt := Given (p\<lparr>cp_finished := Some later, cp_invocation := invocation\<rparr>), qr_error := Undef\<rparr>))"

definition normalize_completion :: "dispatch_cfg \<Rightarrow> completion \<Rightarrow> dispatch_error + completion" where
  "normalize_completion cfg p = chain (sanitize_diagnostic (dc_scrub cfg) 4096 (cp_result p)) (\<lambda>x.
     chain (sanitize_diagnostic (dc_scrub cfg) 256 (cp_execution p)) (\<lambda>y.
     if (case cp_usage p of None \<Rightarrow> False | Some u \<Rightarrow> \<not> valid_tokens u) then Inl DInvalid
     else chain (of_option (read_exec_receipt (cp_observation p))) (\<lambda>ob.
       chain (of_option (read_cli_receipt (cp_invocation p))) (\<lambda>i.
       Inr (p\<lparr>cp_result := x, cp_execution := y, cp_observation := ob, cp_invocation := i\<rparr>)))))"

definition complete :: "dispatch_cfg \<Rightarrow> dispatch_env \<Rightarrow> lease \<Rightarrow> completion \<Rightarrow> dispatch_store \<Rightarrow> unit outcome" where
  "complete cfg env l p st = with_answer (normalize_completion cfg p) st (\<lambda>p'.
     terminal_update cfg env l (completed_record p' (xe_later env)) st)"

definition failed_record :: "string \<Rightarrow> string \<Rightarrow> time \<Rightarrow> mutation" where
  "failed_record code message later r =
     Inr (r\<lparr>qr_status := DsFailed, qr_error := Given \<lparr>fl_code = code, fl_message = message, fl_at = Some later\<rparr>\<rparr>)"

definition fail_task :: "dispatch_cfg \<Rightarrow> dispatch_env \<Rightarrow> lease \<Rightarrow> failure \<Rightarrow> dispatch_store \<Rightarrow> unit outcome" where
  "fail_task cfg env l f st = with_answer (sanitize_diagnostic (dc_scrub cfg) 128 (fl_code f)) st (\<lambda>x.
     with_answer (sanitize_diagnostic (dc_scrub cfg) 1024 (fl_message f)) st (\<lambda>y.
     terminal_update cfg env l (failed_record x y (xe_later env)) st))"

definition cancelled_record :: "string \<Rightarrow> mutation" where
  "cancelled_record reason r = Inr (r\<lparr>qr_status := DsCancelled, qr_cancel := Given True, qr_reason := Given reason\<rparr>)"

definition cancel_task :: "dispatch_cfg \<Rightarrow> dispatch_env \<Rightarrow> lease \<Rightarrow> string \<Rightarrow> dispatch_store \<Rightarrow> unit outcome" where
  "cancel_task cfg env l reason st = with_answer (sanitize_diagnostic (dc_scrub cfg) 512 reason) st (\<lambda>why.
     terminal_update cfg env l (cancelled_record why) st)"

section \<open>Cancellation\<close>

definition request_record :: "string \<Rightarrow> time \<Rightarrow> mutation" where
  "request_record reason later r = Inr (r\<lparr>qr_cancel := Given True, qr_reason := Given reason, qr_updated := later\<rparr>)"

text \<open>At most four attempts; the accesses of an attempt are its reading and its writing.\<close>

fun request_attempts :: "dispatch_cfg \<Rightarrow> dispatch_env \<Rightarrow> task_ref \<Rightarrow> string \<Rightarrow> nat \<Rightarrow> dispatch_store \<Rightarrow> unit outcome" where
  "request_attempts cfg env ref why 0 st = (st, [], Inl DLeaseConflict)"
| "request_attempts cfg env ref why (Suc n) st =
     (let st1 = xe_others env (2 * n + 1) st in
      with_answer (required_record cfg ref st1) st1 (\<lambda>r.
        if terminal_dispatch (qr_status r) then (st1, [], Inr ())
        else swapping cfg env (2 * n) ref (identity_of r) (request_record why (xe_later env)) st1 (\<lambda>v st2.
          case v of Some _ \<Rightarrow> (st2, [], Inr ()) | None \<Rightarrow> request_attempts cfg env ref why n st2)))"

definition request_cancellation :: "dispatch_cfg \<Rightarrow> dispatch_env \<Rightarrow> task_ref \<Rightarrow> string \<Rightarrow> dispatch_store \<Rightarrow> unit outcome" where
  "request_cancellation cfg env raw reason st = with_answer (canonical_ref raw) st (\<lambda>ref.
     with_answer (sanitize_diagnostic (dc_scrub cfg) 512 reason) st (\<lambda>why. request_attempts cfg env ref why 4 st))"

section \<open>Health\<close>

datatype dependency = Reachable | Unavailable | Unverified
datatype beat_state = BeatObserved | BeatStale | BeatMissing

text \<open>\<open>probeDependency\<close> of a probe that is missing, or whose answer is reachable, not reachable or an exception.\<close>

definition probe_dependency :: "(unit + bool) option \<Rightarrow> dependency" where
  "probe_dependency p = (case p of None \<Rightarrow> Unverified | Some (Inr True) \<Rightarrow> Reachable | Some _ \<Rightarrow> Unavailable)"

text \<open>A time text that does not parse is \<open>None\<close>.\<close>

definition classify_beat :: "(time option \<times> string) option \<Rightarrow> time \<Rightarrow> int \<Rightarrow> beat_state" where
  "classify_beat b now limit = (case b of None \<Rightarrow> BeatMissing
     | Some (None, _) \<Rightarrow> BeatStale
     | Some (Some t, _) \<Rightarrow> if now < t \<or> limit < now - t then BeatStale else BeatObserved)"

record dispatch_health =
  dh_queue :: dependency
  dh_state :: dependency
  dh_submission :: bool
  dh_observed :: time
  dh_beat :: beat_state
  dh_ready :: bool

text \<open>The beat is the caller's, or else the one read from the records; that reading may fail.\<close>

definition read_health ::
  "dispatch_cfg \<Rightarrow> time \<Rightarrow> (unit + bool) option \<Rightarrow> (unit + bool) option \<Rightarrow> (time option \<times> string) option
     \<Rightarrow> unit + (time option \<times> string) option \<Rightarrow> int option \<Rightarrow> dispatch_error + dispatch_health" where
  "read_health cfg now queue_probe state_probe given_beat durable_beat limit =
     (let lim = (case limit of None \<Rightarrow> 30000 | Some n \<Rightarrow> n);
          durable = (case durable_beat of Inl _ \<Rightarrow> None | Inr b \<Rightarrow> b);
          beat = (case given_beat of None \<Rightarrow> durable | Some b \<Rightarrow> Some b)
      in if lim < 1 \<or> 300000 < lim then Inl DInvalid
         else chain (case beat of None \<Rightarrow> Inr () | Some (_, src) \<Rightarrow>
             chain (sanitize_diagnostic (dc_scrub cfg) 128 src) (\<lambda>_. Inr ())) (\<lambda>_.
         let q = probe_dependency queue_probe; s = probe_dependency state_probe;
             submission = (q = Reachable \<and> s = Reachable); b = classify_beat beat now lim
         in Inr \<lparr>dh_queue = q, dh_state = s, dh_submission = submission, dh_observed = now, dh_beat = b,
              dh_ready = (submission \<and> \<not> isl durable_beat \<and> b = BeatObserved)\<rparr>))"

text \<open>\<open>latestDurableWorkerHeartbeat\<close>: the latest time among the checkpoints that renewed a lease.\<close>

fun latest_beat :: "dispatch_record list \<Rightarrow> time option \<Rightarrow> time option" where
  "latest_beat [] best = best"
| "latest_beat (r # rs) best = latest_beat rs (case value_of (qr_checkpoint r) of None \<Rightarrow> best
     | Some c \<Rightarrow> if ck_message c \<noteq> ''worker heartbeat'' then best
         else (case ck_recorded c of None \<Rightarrow> best
           | Some t \<Rightarrow> (case best of None \<Rightarrow> Some t | Some b \<Rightarrow> if t \<le> b then best else Some t)))"

text \<open>What \<open>CosmosRuntimeStore\<close> accepts as a value (\<open>server/storage/runtime-store.ts\<close>, \<open>stableRuntimeJson\<close>): no
  property with the value \<open>undefined\<close>. The size of the document is an argument.\<close>

definition no_undefined :: "dispatch_record \<Rightarrow> bool" where
  "no_undefined r \<longleftrightarrow> qr_owner r \<noteq> Undef \<and> qr_message r \<noteq> Undef \<and> qr_expires r \<noteq> Undef \<and> qr_cancel r \<noteq> Undef
     \<and> qr_reason r \<noteq> Undef \<and> qr_checkpoint r \<noteq> Undef \<and> qr_receipt r \<noteq> Undef \<and> qr_error r \<noteq> Undef \<and> qr_quarantine r \<noteq> Undef"

definition runtime_accepts :: "(dispatch_record \<Rightarrow> bool) \<Rightarrow> dispatch_record \<Rightarrow> bool" where
  "runtime_accepts bounded r \<longleftrightarrow> no_undefined r \<and> bounded r"

end
