(* ===== verification/DispatchHistory.thy ===== *)
theory DispatchHistory
  imports DispatchQueue
begin

text \<open>
  Histories of the durable dispatch records. The submitters, the workers and the cancelling requesters share
  the records; each touches them by creating one or by a conditional write, with the changes of
  \<open>server/azure-agent-dispatch-queue.ts\<close> and whatever identity it read or was given before. The step relation
  allows these in any order; every operation of the queue is a sequence of such steps when the others' are.
\<close>

section \<open>Steps\<close>

datatype dispatch_event = EvCreate task_ref | EvClaim task_ref int | EvBeat task_ref lease | EvEnd task_ref lease | EvNote task_ref

text \<open>The conditional writes of the program: what they expect and what they change.\<close>

inductive program_swap :: "task_ref \<Rightarrow> lease_identity \<Rightarrow> mutation \<Rightarrow> dispatch_event \<Rightarrow> bool" where
  swap_mark: "program_swap ref i (mark_enqueued now) (EvNote ref)"
| swap_claim: "program_swap ref i (claim_record now later vis ow (snd i + 1) m) (EvClaim ref (snd i + 1))"
| swap_quarantine: "program_swap ref i (quarantine_record later reason) (EvNote ref)"
| swap_beat: "program_swap ref (lease_identity l) (beat_record l c vis later) (EvBeat ref l)"
| swap_complete: "program_swap ref (lease_identity l) (end_record l later (completed_record p later)) (EvEnd ref l)"
| swap_fail: "program_swap ref (lease_identity l) (end_record l later (failed_record x y later)) (EvEnd ref l)"
| swap_cancel: "program_swap ref (lease_identity l) (end_record l later (cancelled_record why)) (EvEnd ref l)"
| swap_request: "program_swap ref i (request_record why later) (EvNote ref)"

inductive queue_step :: "dispatch_cfg \<Rightarrow> dispatch_store \<Rightarrow> dispatch_event \<Rightarrow> dispatch_store \<Rightarrow> bool" for cfg where
  step_create: "port_create cfg (new_record (dc_sha cfg) now t) st = (st', Inr True)
     \<Longrightarrow> queue_step cfg st (EvCreate (ref_of_task t)) st'"
| step_migrate: "port_create cfg (migrate_record (dc_sha cfg) l t) st = (st', Inr True)
     \<Longrightarrow> lq_generation l \<noteq> None \<longrightarrow> 0 \<le> the (lq_generation l)
     \<Longrightarrow> queue_step cfg st (EvCreate (ref_of_task t)) st'"
| step_swap: "compare_and_swap cfg lost ref i m st = (st', Inr (Some r)) \<Longrightarrow> program_swap ref i m ev
     \<Longrightarrow> queue_step cfg st ev st'"

inductive_cases queue_stepE: "queue_step cfg st ev st'"

type_synonym dispatch_history = "dispatch_event list"

abbreviation queue_steps :: "dispatch_cfg \<Rightarrow> dispatch_store \<Rightarrow> dispatch_history \<Rightarrow> dispatch_store \<Rightarrow> bool" where
  "queue_steps cfg \<equiv> steps_of (queue_step cfg)"

text \<open>What is stored is canonical, and filed under its own reference.\<close>

definition filed :: "(string \<Rightarrow> string) \<Rightarrow> task_ref \<Rightarrow> dispatch_record \<Rightarrow> bool" where
  "filed sha ref r \<longleftrightarrow> record_canonical sha r \<and> ref_of_task (qr_task r) = ref"

definition dispatch_good :: "dispatch_cfg \<Rightarrow> dispatch_store \<Rightarrow> bool" where
  "dispatch_good cfg st \<longleftrightarrow> (\<forall>ref r. st ref = Some r \<longrightarrow> filed (dc_sha cfg) ref r \<and> 0 \<le> qr_generation r)"

lemma dispatch_goodD:
  assumes "dispatch_good cfg st" and "st ref = Some r"
  shows "filed (dc_sha cfg) ref r" and "0 \<le> qr_generation r"
  using assms by (simp_all add: dispatch_good_def)

text \<open>How a record may change: its task never, its generation only upwards, its owner only with a new
  generation, a request for cancellation and the mark of the sent message never back.\<close>

definition follows :: "dispatch_record \<Rightarrow> dispatch_record \<Rightarrow> bool" where
  "follows r r' \<longleftrightarrow> immutable_identity r' = immutable_identity r \<and> qr_generation r \<le> qr_generation r'
     \<and> (qr_generation r' = qr_generation r \<longrightarrow> qr_owner r' = qr_owner r)
     \<and> (value_of (qr_cancel r) = Some True \<longrightarrow> value_of (qr_cancel r') = Some True)
     \<and> (qr_enqueued r \<longrightarrow> qr_enqueued r')"

definition store_follows :: "dispatch_store \<Rightarrow> dispatch_store \<Rightarrow> bool" where
  "store_follows st st' \<longleftrightarrow> (\<forall>ref r. st ref = Some r \<longrightarrow> (\<exists>r'. st' ref = Some r' \<and> follows r r'))"

lemma follows_refl [simp]: "follows r r"
  by (simp add: follows_def)

lemma follows_trans: "follows a b \<Longrightarrow> follows b c \<Longrightarrow> follows a c"
  unfolding follows_def by (metis order.trans order_antisym)

lemma store_follows_refl [simp]: "store_follows st st"
  by (simp add: store_follows_def)

lemma store_follows_trans: "store_follows a b \<Longrightarrow> store_follows b c \<Longrightarrow> store_follows a c"
  unfolding store_follows_def by (meson follows_trans)

lemma filed_canonical: "filed sha ref r \<Longrightarrow> record_canonical sha r"
  by (simp add: filed_def)

lemma filed_scope: "filed sha ref r \<Longrightarrow> assert_record_scope sha r ref = Inr ()"
  by (auto simp: filed_def assert_record_scope_def assert_canonical_def record_canonical_def ref_of_task_def)

lemma scope_filed: "assert_record_scope sha r ref = Inr () \<longleftrightarrow> filed sha ref r"
  by (auto simp: filed_def assert_record_scope_def assert_canonical_def record_canonical_def ref_of_task_def chain_Inr
      split: if_splits)

lemma assert_canonical_Inr: "assert_canonical sha r = Inr u \<longleftrightarrow> record_canonical sha r"
  by (simp add: assert_canonical_def)

lemma apply_mutation_Inr: "apply_mutation sha m cur = Inr r \<longleftrightarrow>
    record_canonical sha cur \<and> m cur = Inr r \<and> immutable_identity r = immutable_identity cur \<and> record_canonical sha r"
  by (cases "m cur") (auto simp: apply_mutation_def assert_canonical_def)

lemma apply_mutation_twice [simp]: "apply_mutation sha (apply_mutation sha m) cur = apply_mutation sha m cur"
  by (cases "m cur") (auto simp: apply_mutation_def assert_canonical_def)

lemma filed_same: "immutable_identity r' = immutable_identity r \<Longrightarrow> filed sha ref r' \<longleftrightarrow> filed sha ref r"
  by (auto simp: filed_def record_canonical_def immutable_identity_def)

lemma applied_in_scope:
  assumes "filed sha ref cur"
  shows "chain (apply_mutation sha m cur) (\<lambda>r. chain (assert_record_scope sha r ref) (\<lambda>_. Inr r)) = apply_mutation sha m cur"
proof (cases "apply_mutation sha m cur")
  case (Inr r)
  then have "filed sha ref r" using assms filed_same [of r cur] by (simp add: apply_mutation_Inr)
  then show ?thesis by (simp add: Inr filed_scope)
qed simp

text \<open>A conditional write, case by case.\<close>

lemma compare_and_swap_filed:
  assumes "st ref = Some cur" and "filed (dc_sha cfg) ref cur"
  shows "compare_and_swap cfg lost ref i m st =
    (if value_of (qr_owner cur) \<noteq> fst i \<or> qr_generation cur \<noteq> snd i then (st, Inr None)
     else case apply_mutation (dc_sha cfg) m cur of Inl e \<Rightarrow> (st, Inl e)
       | Inr r \<Rightarrow> if \<not> dc_accepts cfg r then (st, Inl DStoreRefused) else if lost then (st, Inr None)
           else (st(ref \<mapsto> r), Inr (Some r)))"
  by (simp add: compare_and_swap_def port_swap_def assms filed_scope applied_in_scope)

lemma compare_and_swap_None: "st ref = None \<Longrightarrow> compare_and_swap cfg lost ref i m st = (st, Inl DNoRecord)"
  by (simp add: compare_and_swap_def port_swap_def)

lemma compare_and_swap_misfiled:
  "st ref = Some cur \<Longrightarrow> \<not> filed (dc_sha cfg) ref cur \<Longrightarrow> \<exists>e. compare_and_swap cfg lost ref i m st = (st, Inl e)"
  by (cases "assert_record_scope (dc_sha cfg) cur ref") (auto simp: compare_and_swap_def port_swap_def scope_filed)

lemma swap_Some:
  "compare_and_swap cfg lost ref i m st = (st', Inr (Some r)) \<longleftrightarrow>
     (\<exists>cur. st ref = Some cur \<and> filed (dc_sha cfg) ref cur \<and> value_of (qr_owner cur) = fst i \<and> qr_generation cur = snd i
        \<and> m cur = Inr r \<and> immutable_identity r = immutable_identity cur \<and> dc_accepts cfg r \<and> \<not> lost
        \<and> st' = st(ref \<mapsto> r))"
proof (cases "st ref")
  case None
  then show ?thesis by (simp add: compare_and_swap_None)
next
  case (Some cur)
  show ?thesis
  proof (cases "filed (dc_sha cfg) ref cur")
    case False
    then show ?thesis using compare_and_swap_misfiled [where st = st and ref = ref, OF Some False, of lost i m] Some by auto
  next
    case True
    have "apply_mutation (dc_sha cfg) m cur = Inr x \<longleftrightarrow> m cur = Inr x \<and> immutable_identity x = immutable_identity cur" for x
      using True filed_same [of x cur "dc_sha cfg" ref] by (auto simp: apply_mutation_Inr filed_canonical)
    then show ?thesis
      using True Some by (auto simp: compare_and_swap_filed [where st = st and ref = ref, OF Some True] split: sum.splits)
  qed
qed

lemma swap_other: "compare_and_swap cfg lost ref i m st = (st', a) \<Longrightarrow> a = Inr None \<or> isl a \<Longrightarrow> st' = st"
  unfolding compare_and_swap_def port_swap_def by (auto split: option.splits sum.splits if_splits)

lemma swap_cases:
  assumes "compare_and_swap cfg lost ref i m st = (st', a)"
  obtains "st' = st" "a = Inr None" | e where "st' = st" "a = Inl e" | r where "a = Inr (Some r)"
proof (cases a)
  case (Inr v)
  then show ?thesis using swap_other [OF assms] that by (cases v) auto
qed (use swap_other [OF assms] that in auto)

lemma create_True:
  "port_create cfg r st = (st', Inr True) \<Longrightarrow>
     record_canonical (dc_sha cfg) r \<and> (st' = st \<and> st (ref_of_task (qr_task r)) = Some r
       \<or> st (ref_of_task (qr_task r)) = None \<and> st' = st(ref_of_task (qr_task r) \<mapsto> r) \<and> dc_accepts cfg r)"
  by (auto simp: port_create_def Let_def split: option.splits if_splits)

lemma create_other: "port_create cfg r st = (st', a) \<Longrightarrow> a \<noteq> Inr True \<Longrightarrow> st' = st"
  by (auto simp: port_create_def Let_def split: option.splits if_splits)

lemma record_scope_of_task: "record_canonical sha r \<Longrightarrow> filed sha (ref_of_task (qr_task r)) r"
  by (simp add: filed_def)

text \<open>The changes of the program respect the rules for records.\<close>

lemma program_swap_follows:
  assumes "program_swap ref i m ev" and "value_of (qr_owner r) = fst i" "qr_generation r = snd i" and "m r = Inr r'"
  shows "follows r r'"
  using assms
  by (cases rule: program_swap.cases)
    (auto simp: follows_def immutable_identity_def mark_enqueued_def claim_record_def quarantine_record_def beat_record_def
      end_record_def completed_record_def failed_record_def cancelled_record_def request_record_def chain_Inr Let_def
      value_of_def split: if_splits)

lemma program_swap_event: "program_swap ref i m ev \<Longrightarrow>
    (\<exists>n. ev = EvClaim ref n \<and> n = snd i + 1) \<or> (\<exists>l. (ev = EvBeat ref l \<or> ev = EvEnd ref l) \<and> i = lease_identity l) \<or> ev = EvNote ref"
  by (cases rule: program_swap.cases) auto

lemma create_good:
  assumes "port_create cfg r st = (st', Inr True)" and "dispatch_good cfg st" and "0 \<le> qr_generation r"
  shows "dispatch_good cfg st' \<and> store_follows st st'"
proof (cases "st' = st")
  case False
  define ref where "ref = ref_of_task (qr_task r)"
  have new: "record_canonical (dc_sha cfg) r" "st ref = None" "st' = st(ref \<mapsto> r)"
    using create_True [OF assms(1)] False by (auto simp: ref_def)
  have "filed (dc_sha cfg) ref r" using new(1) by (simp add: ref_def record_scope_of_task)
  then show ?thesis using new(2,3) assms(2,3) by (auto simp: dispatch_good_def store_follows_def)
qed (use assms in simp)

lemma queue_step_good:
  assumes "queue_step cfg st ev st'" and "dispatch_good cfg st"
  shows "dispatch_good cfg st' \<and> store_follows st st'"
  using assms(1)
proof (cases rule: queue_step.cases)
  case (step_create now t)
  from create_good [OF step_create(2) assms(2)] show ?thesis by (simp add: new_record_def)
next
  case (step_migrate l t)
  from create_good [OF step_migrate(2) assms(2)] step_migrate(3) show ?thesis
    by (cases "lq_generation l") (simp_all add: migrate_record_def)
next
  case (step_swap lost ref i m r)
  obtain cur where cur: "st ref = Some cur" "filed (dc_sha cfg) ref cur" "value_of (qr_owner cur) = fst i"
    "qr_generation cur = snd i" "m cur = Inr r" "immutable_identity r = immutable_identity cur" "st' = st(ref \<mapsto> r)"
    using step_swap(1) by (auto simp: swap_Some)
  have f: "follows cur r" using program_swap_follows [OF step_swap(2) cur(3,4,5)] .
  have "filed (dc_sha cfg) ref r"
    using cur(2,6) by (simp add: filed_def record_canonical_def immutable_identity_def)
  moreover have "0 \<le> qr_generation r"
    using f dispatch_goodD(2) [OF assms(2) cur(1)] by (simp add: follows_def)
  ultimately show ?thesis
    using f cur assms(2) by (auto simp: dispatch_good_def store_follows_def)
qed

lemma queue_steps_good:
  assumes "queue_steps cfg st evs st'" and "dispatch_good cfg st"
  shows "dispatch_good cfg st'" and "store_follows st st'"
proof -
  show "dispatch_good cfg st'"
    using steps_of_invariant [OF assms(1), of "dispatch_good cfg"] queue_step_good assms(2) by blast
  show "store_follows st st'"
    by (rule steps_of_relation [OF assms(1), where I = "dispatch_good cfg"])
      (use queue_step_good assms(2) in \<open>auto intro: store_follows_trans\<close>)
qed

lemma steps_record:
  assumes "queue_steps cfg st evs st'" and "dispatch_good cfg st" and "st ref = Some r"
  obtains r' where "st' ref = Some r'" "follows r r'" "filed (dc_sha cfg) ref r'"
  using queue_steps_good [OF assms(1,2)] assms(3) that unfolding store_follows_def dispatch_good_def by meson

section \<open>The operations as sequences of steps\<close>

definition dispatch_reaches :: "dispatch_cfg \<Rightarrow> dispatch_store \<Rightarrow> dispatch_store \<Rightarrow> bool" where
  "dispatch_reaches cfg st st' \<longleftrightarrow> (\<exists>evs. queue_steps cfg st evs st')"

text \<open>What is relied on: the others, too, only take steps.\<close>

definition others_step :: "dispatch_cfg \<Rightarrow> dispatch_env \<Rightarrow> bool" where
  "others_step cfg env \<longleftrightarrow> (\<forall>k st. dispatch_reaches cfg st (xe_others env k st))"

lemma reaches_refl [simp]: "dispatch_reaches cfg st st"
  unfolding dispatch_reaches_def by (rule exI [of _ "[]"]) simp

lemma reaches_trans: "dispatch_reaches cfg a b \<Longrightarrow> dispatch_reaches cfg b c \<Longrightarrow> dispatch_reaches cfg a c"
  unfolding dispatch_reaches_def by (meson steps_of_append)

lemma reaches_step: "dispatch_reaches cfg s st \<Longrightarrow> queue_step cfg st ev st' \<Longrightarrow> dispatch_reaches cfg s st'"
  using reaches_trans steps_one unfolding dispatch_reaches_def by metis

lemma reaches_others: "others_step cfg env \<Longrightarrow> dispatch_reaches cfg s st \<Longrightarrow> dispatch_reaches cfg s (xe_others env k st)"
  unfolding others_step_def using reaches_trans by blast

lemma reaches_good:
  assumes "dispatch_reaches cfg st st'" and "dispatch_good cfg st"
  shows "dispatch_good cfg st'" and "store_follows st st'"
  using assms queue_steps_good unfolding dispatch_reaches_def by blast+

lemma reaches_calling:
  "dispatch_reaches cfg s st \<Longrightarrow> dispatch_reaches cfg s (fst (next st)) \<Longrightarrow> dispatch_reaches cfg s (fst (calling env c st next))"
  by (auto simp: calling_def split: prod.splits)

lemma reaches_answer:
  "dispatch_reaches cfg s st \<Longrightarrow> (\<And>a. x = Inr a \<Longrightarrow> dispatch_reaches cfg s (fst (next a))) \<Longrightarrow>
     dispatch_reaches cfg s (fst (with_answer x st next))"
  by (auto simp: with_answer_def split: sum.splits)

lemma reaches_swap:
  assumes "dispatch_reaches cfg s st" and "program_swap ref i m ev"
  shows "dispatch_reaches cfg s (fst (compare_and_swap cfg lost ref i m st))"
proof -
  obtain st' a where run: "compare_and_swap cfg lost ref i m st = (st', a)" by fastforce
  then show ?thesis
    using assms(1) reaches_step [OF assms(1) step_swap [OF _ assms(2)]] by (cases rule: swap_cases [OF run]) auto
qed

lemma reaches_swapping:
  assumes "others_step cfg env" and "dispatch_reaches cfg s st" and "program_swap ref i m ev"
    and "\<And>v st2. dispatch_reaches cfg s st2 \<Longrightarrow> dispatch_reaches cfg s (fst (next v st2))"
  shows "dispatch_reaches cfg s (fst (swapping cfg env k ref i m st next))"
  using reaches_swap [OF reaches_others [OF assms(1,2)] assms(3), of "xe_contended env k" k] assms(4)
  unfolding swapping_def by (auto split: prod.splits sum.splits)

lemma reaches_create:
  assumes "dispatch_reaches cfg s st" and "port_create cfg r st = (st', a)"
    and "r = new_record (dc_sha cfg) now t \<or> r = migrate_record (dc_sha cfg) l t \<and> (lq_generation l \<noteq> None \<longrightarrow> 0 \<le> the (lq_generation l))"
  shows "dispatch_reaches cfg s st'"
proof (cases "a = Inr True")
  case True
  then show ?thesis using assms reaches_step [OF assms(1)] step_create step_migrate by metis
next
  case False
  then show ?thesis using assms(1) create_other [OF assms(2)] by simp
qed

lemmas reaches_rules = reaches_calling reaches_answer reaches_swapping reaches_others
lemmas swap_rules = program_swap.intros

lemma enqueue_reaches:
  assumes "others_step cfg env"
  shows "dispatch_reaches cfg st (fst (enqueue cfg env raw st))"
proof -
  have send: "dispatch_reaches cfg s (fst (send_task cfg env t st))" if "dispatch_reaches cfg s st" for s st t
    unfolding send_task_def Let_def
    by (intro reaches_calling reaches_answer that reaches_swapping [OF assms _ swap_mark] reaches_others [OF assms])
      (auto split: option.splits)
  show ?thesis
    unfolding enqueue_def Let_def
  proof (rule reaches_answer [OF reaches_refl])
    fix t
    obtain st0 a where c: "port_create cfg (new_record (dc_sha cfg) (xe_now env) t) st = (st0, a)" by fastforce
    note st0 = reaches_create [OF reaches_refl c disjI1 [OF refl]]
    have "dispatch_reaches cfg st (fst (with_answer (port_get cfg (ref_of_task t) (xe_others env 0 st0)) (xe_others env 0 st0) f))"
      if "\<And>v. dispatch_reaches cfg st (fst (f v))" for f :: "dispatch_record option \<Rightarrow> dispatch_record outcome"
      by (rule reaches_answer [OF reaches_others [OF assms st0] that])
    then show "dispatch_reaches cfg st (fst (case port_create cfg (new_record (dc_sha cfg) (xe_now env) t) st of
        (st0, Inl e) \<Rightarrow> (st0, [], Inl e)
      | (st0, Inr True) \<Rightarrow> send_task cfg env t st0
      | (st0, Inr False) \<Rightarrow>
          with_answer (port_get cfg (ref_of_task t) (xe_others env 0 st0)) (xe_others env 0 st0) (\<lambda>v. case v of
            None \<Rightarrow> (xe_others env 0 st0, [], Inl DConflict)
          | Some r \<Rightarrow>
              if qr_hash r \<noteq> hash_task (dc_sha cfg) t \<or> qr_key r \<noteq> dt_key t then (xe_others env 0 st0, [], Inl DConflict)
              else if qr_enqueued r \<or> terminal_dispatch (qr_status r) then (xe_others env 0 st0, [], sanitize_record cfg r)
              else send_task cfg env t (xe_others env 0 st0))))"
      using st0 send reaches_others [OF assms st0]
      by (simp add: c split: sum.splits bool.splits option.splits)
  qed
qed

lemma decided_legacy:
  assumes "decide_migration cfg env raw = Inr (Some l, t)"
  shows "lq_generation l \<noteq> None \<longrightarrow> 0 \<le> the (lq_generation l)"
  using assms unfolding decide_migration_def
  by (auto simp: chain_Inr matching_legacy_def split: option.splits if_splits)

lemma migrate_reaches:
  assumes "others_step cfg env" and "migrate_legacy cfg env raw st = (st', a)"
  shows "dispatch_reaches cfg st st'"
proof (cases "decide_migration cfg env raw")
  case (Inl e)
  then show ?thesis using assms(2) by (simp add: migrate_legacy_def)
next
  case (Inr lt)
  obtain l t where lt: "lt = (l, t)" by (cases lt)
  show ?thesis
  proof (cases "st' = st")
    case False
    with assms(2) Inr lt obtain lr x where "l = Some lr"
      and c: "port_create cfg (migrate_record (dc_sha cfg) lr t) (xe_others env 0 st) = (st', x)"
      by (auto simp: migrate_legacy_def Let_def split: sum.splits option.splits prod.splits bool.splits)
    then show ?thesis
      using reaches_create [OF reaches_others [OF assms(1) reaches_refl] c] decided_legacy [of cfg env raw lr t] Inr lt by blast
  qed simp
qed

lemma parse_reaches:
  assumes "others_step cfg env" and "parse_message cfg env text st = (st', a)"
  shows "dispatch_reaches cfg st st'"
  using assms migrate_reaches by (auto simp: parse_message_def split: message_body.splits if_splits)

lemma fst_then_none [simp]: "fst (then_none x) = fst x"
  by (auto simp: then_none_def split: prod.splits sum.splits)

lemma quarantine_reaches:
  assumes "others_step cfg env" and "dispatch_reaches cfg s st"
  shows "dispatch_reaches cfg s (fst (quarantine_message cfg env m known reason st))"
  unfolding quarantine_message_def Let_def
  by (intro reaches_answer reaches_calling assms(2))
    (auto split: option.splits intro!: reaches_calling reaches_swapping [OF assms(1) _ swap_quarantine] assms(2))

lemma drop_reaches: "dispatch_reaches cfg s st \<Longrightarrow> dispatch_reaches cfg s (fst (drop_message env m a st))"
  unfolding drop_message_def by (intro reaches_calling) simp_all

lemma lease_task_reaches:
  assumes "others_step cfg env" and "dispatch_reaches cfg s st"
  shows "dispatch_reaches cfg s (fst (lease_task cfg env vis n m t st))"
proof -
  have claim: "dispatch_reaches cfg s (fst (swapping cfg env k (ref_of_task t) (identity_of r)
      (claim_record now later vis ow (qr_generation r + 1) m) st next))"
    if "\<And>v st2. dispatch_reaches cfg s st2 \<Longrightarrow> dispatch_reaches cfg s (fst (next v st2))"
    for k r now later ow and "next" :: "dispatch_record option \<Rightarrow> dispatch_store \<Rightarrow> lease option outcome"
  proof -
    have "snd (identity_of r) = qr_generation r" by (simp add: identity_of_def split: option.splits)
    then show ?thesis using reaches_swapping [OF assms swap_claim [of _ "identity_of r"] that] by simp
  qed
  show ?thesis
    unfolding lease_task_def
    by (intro reaches_answer assms(2))
      (auto split: option.splits intro!: reaches_answer assms claim quarantine_reaches drop_reaches)
qed

lemma lease_reaches:
  assumes "others_step cfg env"
  shows "dispatch_reaches cfg st (fst (lease_next cfg env vis n received st))"
proof -
  have "dispatch_reaches cfg st (fst (case parse_message cfg env (qm_text m) st of
      (st', Inl DMigrationUnavailable) \<Rightarrow> calling env (UpdateMessage (qm_id m) (qm_pop m) 1) st' (\<lambda>st. (st, [], Inr None))
    | (st', Inl e) \<Rightarrow> with_answer (safe_message cfg e) st' (\<lambda>why. then_none (quarantine_message cfg env m None why st'))
    | (st', Inr t) \<Rightarrow> lease_task cfg env vis n m t (xe_others env 1 st')))" for m
  proof -
    obtain st' a where p: "parse_message cfg env (qm_text m) st = (st', a)" by fastforce
    note st' = parse_reaches [OF assms p]
    show ?thesis
    proof (cases a)
      case (Inr t)
      then show ?thesis by (simp add: p lease_task_reaches [OF assms reaches_others [OF assms st']])
    next
      case (Inl e)
      have "dispatch_reaches cfg st (fst (with_answer (safe_message cfg e) st' (\<lambda>why.
          then_none (quarantine_message cfg env m None why st'))))"
        by (intro reaches_answer st') (simp add: quarantine_reaches [OF assms st'])
      moreover have "dispatch_reaches cfg st (fst (calling env (UpdateMessage (qm_id m) (qm_pop m) 1) st'
          (\<lambda>st. (st, [], Inr (None :: lease option)))))"
        by (intro reaches_calling st') (simp add: st')
      ultimately show ?thesis by (cases e) (simp_all add: p Inl)
    qed
  qed
  then show ?thesis
    unfolding lease_next_def by (auto intro!: reaches_answer split: option.splits)
qed

lemma heartbeat_reaches:
  assumes "others_step cfg env"
  shows "dispatch_reaches cfg st (fst (heartbeat cfg env l c vis st))"
  unfolding heartbeat_def
  by (intro reaches_answer reaches_refl)
    (auto intro!: reaches_answer reaches_calling reaches_swapping [OF assms _ swap_beat] split: option.splits)

lemma terminal_reaches:
  assumes "others_step cfg env" and "\<And>ref. program_swap ref (lease_identity l) (end_record l (xe_later env) m) (EvEnd ref l)"
  shows "dispatch_reaches cfg st (fst (terminal_update cfg env l m st))"
  unfolding terminal_update_def
  by (intro reaches_answer reaches_refl)
    (auto intro!: reaches_calling reaches_swapping [OF assms(1) _ assms(2)] split: option.splits)

lemma ending_reaches:
  assumes "others_step cfg env"
  shows "dispatch_reaches cfg st (fst (complete cfg env l p st))"
    and "dispatch_reaches cfg st (fst (fail_task cfg env l f st))"
    and "dispatch_reaches cfg st (fst (cancel_task cfg env l reason st))"
  unfolding complete_def fail_task_def cancel_task_def
  by (intro reaches_answer reaches_refl terminal_reaches assms swap_rules)+

lemma request_attempts_reaches:
  assumes "others_step cfg env"
  shows "dispatch_reaches cfg s st \<Longrightarrow> dispatch_reaches cfg s (fst (request_attempts cfg env ref why n st))"
proof (induction n arbitrary: st)
  case 0
  then show ?case by simp
next
  case (Suc n)
  note st1 = reaches_others [OF assms Suc.prems, of "2 * n + 1"]
  show ?case
    unfolding request_attempts.simps Let_def
    by (intro reaches_answer st1)
      (auto intro!: reaches_swapping [OF assms _ swap_request] st1 [simplified] Suc.IH split: option.splits)
qed

lemma request_reaches:
  assumes "others_step cfg env"
  shows "dispatch_reaches cfg st (fst (request_cancellation cfg env raw reason st))"
  unfolding request_cancellation_def
  by (intro reaches_answer reaches_refl request_attempts_reaches assms)

section \<open>Fencing\<close>

text \<open>What the holder of a lease can ask for.\<close>

datatype holder_op = HoBeat checkpoint int | HoComplete completion | HoFail failure | HoCancel string

fun hold :: "dispatch_cfg \<Rightarrow> dispatch_env \<Rightarrow> lease \<Rightarrow> holder_op \<Rightarrow> dispatch_store \<Rightarrow> unit outcome" where
  "hold cfg env l (HoBeat c vis) st = (case heartbeat cfg env l c vis st of (st', cs, a) \<Rightarrow> (st', cs, map_sum id (\<lambda>_. ()) a))"
| "hold cfg env l (HoComplete p) st = complete cfg env l p st"
| "hold cfg env l (HoFail f) st = fail_task cfg env l f st"
| "hold cfg env l (HoCancel why) st = cancel_task cfg env l why st"

text \<open>The record has moved on from the lease.\<close>

definition stale :: "lease \<Rightarrow> dispatch_record \<Rightarrow> bool" where
  "stale l r \<longleftrightarrow> dl_generation l < qr_generation r
     \<or> dl_generation l = qr_generation r \<and> value_of (qr_owner r) \<noteq> Some (dl_owner l)"

lemma stale_follows: "stale l r \<Longrightarrow> follows r r' \<Longrightarrow> stale l r'"
  unfolding stale_def follows_def by (metis order_less_le_trans order_le_less)

text \<open>An operation was refused without any effect of its own on the records.\<close>

definition refused :: "dispatch_env \<Rightarrow> dispatch_store \<Rightarrow> 'a outcome \<Rightarrow> bool" where
  "refused env st x \<longleftrightarrow> (fst x = st \<or> fst x = xe_others env 1 st) \<and> isl (snd (snd x))
     \<and> (\<forall>c \<in> set (fst (snd x)). \<exists>i p v. c = UpdateMessage i p v)"

lemma refused_now [simp]: "refused env st (st, [], Inl e)"
  by (simp add: refused_def)

lemma refused_answer: "(\<And>a. x = Inr a \<Longrightarrow> refused env st (next a)) \<Longrightarrow> refused env st (with_answer x st next)"
  by (cases x) (simp_all add: with_answer_def)

lemma refused_update: "refused env st (next st) \<Longrightarrow> refused env st (calling env (UpdateMessage i p v) st next)"
  by (auto simp: calling_def refused_def split: prod.splits)

lemma refused_swapping:
  assumes "\<And>st2 w. compare_and_swap cfg (xe_contended env 1) ref i m (xe_others env 1 st) = (st2, Inr (Some w)) \<Longrightarrow> False"
    and "\<And>st2. \<exists>e. next None st2 = (st2, [], Inl e)"
  shows "refused env st (swapping cfg env 1 ref i m st next)"
proof -
  obtain st2 a where run: "compare_and_swap cfg (xe_contended env 1) ref i m (xe_others env 1 st) = (st2, a)" by fastforce
  show ?thesis
  proof (cases rule: swap_cases [OF run])
    case 1
    then show ?thesis using assms(2) [of st2] run by (auto simp: swapping_def refused_def)
  next
    case (2 e)
    then show ?thesis using run by (simp add: swapping_def refused_def)
  next
    case (3 r)
    then show ?thesis using assms(1) run by blast
  qed
qed

lemma validated_lease:
  assumes "validate_lease l = Inr ref"
  shows "task_canonical (dl_task l) \<or> canonical_ref (ref_of_task (dl_task l)) = Inr ref"
    and "dl_owner l \<noteq> []" and "1 \<le> dl_generation l" and "canonical_ref (ref_of_task (dl_task l)) = Inr ref"
  using assms by (auto simp: validate_lease_def chain_Inr require_text_Inr split: if_splits)

lemma refused_hold:
  assumes "\<And>i m ref st2 w. validate_lease l = Inr ref \<Longrightarrow> program_swap ref (lease_identity l) m i
      \<Longrightarrow> compare_and_swap cfg (xe_contended env 1) ref (lease_identity l) m (xe_others env 1 st) = (st2, Inr (Some w)) \<Longrightarrow> False"
  shows "refused env st (hold cfg env l op st)"
proof -
  have ending: "refused env st (terminal_update cfg env l m st)"
    if "\<And>ref. \<exists>i. program_swap ref (lease_identity l) (end_record l (xe_later env) m) i" for m
    unfolding terminal_update_def
    by (intro refused_answer refused_swapping) (use assms that in \<open>auto; blast\<close>)+
  show ?thesis
  proof (cases op)
    case (HoBeat c vis)
    have "refused env st (heartbeat cfg env l c vis st)"
      unfolding heartbeat_def
      by (intro refused_answer) (auto intro!: refused_answer refused_update refused_swapping [unfolded One_nat_def] dest: assms [OF _ swap_beat, unfolded One_nat_def])
    then show ?thesis
      using HoBeat by (auto simp: refused_def isl_map_sum split: prod.splits)
  qed (auto simp: complete_def fail_task_def cancel_task_def intro!: refused_answer ending intro: swap_rules)
qed

lemma stale_holder_refused:
  assumes "dispatch_good cfg st" and "others_step cfg env" and "st ref = Some r" and "validate_lease l = Inr ref" and "stale l r"
  shows "refused env st (hold cfg env l op st)"
proof (rule refused_hold)
  fix i m ref' st2 w
  assume ref: "validate_lease l = Inr ref'"
    and run: "compare_and_swap cfg (xe_contended env 1) ref' (lease_identity l) m (xe_others env 1 st) = (st2, Inr (Some w))"
  have "dispatch_reaches cfg st (xe_others env 1 st)" using assms(2) by (simp add: others_step_def)
  then obtain r' where r': "xe_others env 1 st ref = Some r'" "follows r r'"
    using reaches_good(2) [OF _ assms(1)] assms(3) unfolding store_follows_def by blast
  have "stale l r'" using stale_follows [OF assms(5) r'(2)] .
  moreover have "lease_holds l r'"
    using run r'(1) ref assms(4) validated_lease(2) [OF assms(4)] by (auto simp: swap_Some lease_identity_def lease_holds_def)
  ultimately show False by (auto simp: stale_def lease_holds_def)
qed

text \<open>A claim makes every earlier lease stale.\<close>

lemma claim_step:
  assumes "queue_step cfg st (EvClaim ref g) st'"
  obtains r r' where "st ref = Some r" "st' ref = Some r'" "g = qr_generation r + 1" "qr_generation r' = g"
  using assms
proof (cases rule: queue_step.cases)
  case (step_swap lost ref' i m r')
  from step_swap(2) obtain now later vis ow msg where
    "ref' = ref" "m = claim_record now later vis ow (snd i + 1) msg" "g = snd i + 1"
    by (cases rule: program_swap.cases) auto
  then show ?thesis using step_swap(1) that by (auto simp: swap_Some claim_record_def split: if_splits)
qed

lemma claim_in_history:
  assumes "queue_steps cfg st evs st'" and "dispatch_good cfg st" and "EvClaim ref g \<in> set evs" and "st ref = Some r"
  obtains r' where "st' ref = Some r'" "qr_generation r < g" "g \<le> qr_generation r'" "follows r r'"
proof -
  obtain xs ys where evs: "evs = xs @ EvClaim ref g # ys" using assms(3) by (auto simp: in_set_conv_decomp)
  then obtain s1 s2 where s: "queue_steps cfg st xs s1" "queue_step cfg s1 (EvClaim ref g) s2" "queue_steps cfg s2 ys st'"
    using assms(1) by (auto simp: steps_of_append)
  obtain r1 where r1: "s1 ref = Some r1" "follows r r1" using steps_record [OF s(1) assms(2,4)] by blast
  obtain r2 where r2: "s2 ref = Some r2" "g = qr_generation r1 + 1" "qr_generation r2 = g"
    using claim_step [OF s(2)] r1(1) by (metis option.inject)
  have g1: "dispatch_good cfg s1" using queue_steps_good(1) [OF s(1) assms(2)] .
  have good2: "dispatch_good cfg s2" "store_follows s1 s2" using queue_step_good [OF s(2) g1] by auto
  obtain r' where r': "st' ref = Some r'" "follows r2 r'" using steps_record [OF s(3) good2(1) r2(1)] by blast
  have "follows r1 r2" using good2(2) r1(1) r2(1) unfolding store_follows_def by (metis option.inject)
  then have "follows r r'" using r1(2) r'(2) follows_trans by blast
  moreover have "qr_generation r \<le> qr_generation r1" "qr_generation r2 \<le> qr_generation r'"
    using r1(2) r'(2) by (simp_all add: follows_def)
  ultimately show ?thesis using r'(1) r2(2,3) that by force
qed

lemma claims_increase:
  assumes "queue_steps cfg st evs st'" and "dispatch_good cfg st" and "i < k" and "k < length evs"
    and "evs ! i = EvClaim ref g" and "evs ! k = EvClaim ref h"
  shows "g < h"
proof -
  obtain s0 s1 s2 s3 where s: "queue_steps cfg st (take i evs) s0" "queue_step cfg s0 (evs ! i) s1"
    "queue_steps cfg s1 (drop (Suc i) (take k evs)) s2" "queue_step cfg s2 (evs ! k) s3"
    using steps_of_split_two [OF assms(1,3,4)] by blast
  obtain r1 where r1: "s1 ref = Some r1" "qr_generation r1 = g" using claim_step s(2) assms(5) by metis
  have "dispatch_good cfg s1"
    using queue_step_good [OF s(2)] queue_steps_good(1) [OF s(1) assms(2)] by blast
  then obtain r2 where "s2 ref = Some r2" "follows r1 r2" using steps_record [OF s(3) _ r1(1)] by blast
  moreover obtain r3 where "s2 ref = Some r3" "h = qr_generation r3 + 1" using claim_step s(4) assms(6) by metis
  ultimately show ?thesis using r1(2) by (simp add: follows_def)
qed

lemma hold_reaches:
  assumes "others_step cfg env"
  shows "dispatch_reaches cfg st (fst (hold cfg env l op st))"
proof (cases op)
  case (HoBeat c vis)
  then show ?thesis using heartbeat_reaches [OF assms, of st l c vis] by (auto split: prod.splits)
qed (simp_all add: ending_reaches [OF assms])

end
