(* ===== verification/DispatchRuns.thy ===== *)
theory DispatchRuns
  imports DispatchHistory
begin

text \<open>
  What the operations of the dispatch queue achieve: a submitted task is leased by whoever receives its
  message, a repeated submission changes nothing, a task whose cancellation was requested is not completed;
  and what they do not: ends refused by the runtime store, ends overwritten, ended tasks leased again, and
  the message of an open task deleted.
\<close>

section \<open>Undisturbed operations\<close>

text \<open>No others, no lost writes, every call accepted.\<close>

definition quiet :: "dispatch_env \<Rightarrow> bool" where
  "quiet env \<longleftrightarrow> (\<forall>k st. xe_others env k st = st) \<and> (\<forall>k. \<not> xe_contended env k) \<and> (\<forall>c. xe_accepts env c)"

lemma quiet_calling: "quiet env \<Longrightarrow> calling env c st next = (case next st of (st', cs, a) \<Rightarrow> (st', c # cs, a))"
  by (simp add: quiet_def calling_def)

lemma quiet_others_step: "quiet env \<Longrightarrow> others_step cfg env"
  by (simp add: quiet_def others_step_def)

lemma identity_of_fits: "has_owner r \<or> value_of (qr_owner r) = None \<Longrightarrow> identity_of r = (value_of (qr_owner r), qr_generation r)"
  by (auto simp: identity_of_def has_owner_def split: option.splits)

text \<open>An owner is a UUID, never the empty text.\<close>

definition named_owner :: "dispatch_record \<Rightarrow> bool" where
  "named_owner r \<longleftrightarrow> value_of (qr_owner r) \<noteq> Some []"

lemma named_identity: "named_owner r \<Longrightarrow> identity_of r = (value_of (qr_owner r), qr_generation r)"
  by (auto simp: identity_of_def named_owner_def split: option.splits)

lemma quiet_swapping:
  assumes "quiet env" and "st ref = Some r" and "filed (dc_sha cfg) ref r" and "m r = Inr r'"
    and "immutable_identity r' = immutable_identity r" and "dc_accepts cfg r'"
    and "i = (value_of (qr_owner r), qr_generation r)"
  shows "swapping cfg env k ref i m st next = next (Some r') (st(ref \<mapsto> r'))"
proof -
  have "compare_and_swap cfg (xe_contended env k) ref i m (xe_others env k st) = (st(ref \<mapsto> r'), Inr (Some r'))"
    using assms by (simp add: swap_Some quiet_def)
  then show ?thesis by (simp add: swapping_def)
qed

section \<open>Leasing a delivered task\<close>

definition leased_record :: "dispatch_env \<Rightarrow> int \<Rightarrow> queue_message \<Rightarrow> dispatch_record \<Rightarrow> dispatch_record" where
  "leased_record env vis m r = r\<lparr>qr_status := DsLeased, qr_dequeues := qm_dequeues m, qr_owner := Given (xe_uuid env),
     qr_generation := qr_generation r + 1, qr_message := Given (qm_id m),
     qr_expires := Given (xe_now env + vis * 1000), qr_updated := xe_later env\<rparr>"

lemma delivered_task:
  assumes "valid_visibility vis" and "dc_parse cfg (qm_text m) = Body (raw_of_task t)" and "task_canonical t"
  shows "lease_next cfg env vis n (Inr (Some m)) st = lease_task cfg env vis n m t (xe_others env 1 st)"
proof -
  have "rd_schema (raw_of_task t) \<noteq> Some 1" by (simp add: raw_of_task_def split: task_schema.splits)
  then show ?thesis
    using assms by (simp add: lease_next_def with_answer_def parse_message_def task_canonical_def)
qed

lemma port_get_filed: "st ref = Some r \<Longrightarrow> filed (dc_sha cfg) ref r \<Longrightarrow> port_get cfg ref st = Inr (Some r)"
  by (simp add: port_get_def filed_scope)

lemma filed_hash: "filed sha ref r \<Longrightarrow> ref_of_task t = ref \<Longrightarrow> qr_task r = t \<Longrightarrow> qr_hash r = hash_task sha t"
  by (simp add: filed_def record_canonical_def)

text \<open>The message of an open task that nobody holds gives a lease.\<close>

lemma open_task_is_leased:
  assumes env: "quiet env" and vis: "valid_visibility vis" "date_range (xe_now env + vis * 1000)"
    and msg: "dc_parse cfg (qm_text m) = Body (raw_of_task (qr_task r))" "qm_dequeues m \<le> n"
    and r: "st ref = Some r" "filed (dc_sha cfg) ref r" "named_owner r" "\<not> terminal_dispatch (qr_status r)"
    and free: "\<not> held_by_another (xe_now env) m r" and ok: "dc_accepts cfg (leased_record env vis m r)"
  shows "lease_next cfg env vis n (Inr (Some m)) st = (st(ref \<mapsto> leased_record env vis m r), [],
      Inr (Some (lease_of (qr_task r) m (xe_uuid env) (qr_generation r + 1))))"
    and "lease_holds (lease_of (qr_task r) m (xe_uuid env) (qr_generation r + 1)) (leased_record env vis m r)"
proof -
  let ?t = "qr_task r"
  have t: "task_canonical ?t" "ref_of_task ?t = ref" "qr_hash r = hash_task (dc_sha cfg) ?t"
    using r(2) by (simp_all add: filed_def record_canonical_def)
  have others: "xe_others env k st = st" for k using env by (simp add: quiet_def)
  have claim: "claim_record (xe_now env) (xe_later env) vis (xe_uuid env) (qr_generation r + 1) m r = Inr (leased_record env vis m r)"
    using free vis(2) by (simp add: claim_record_def leased_record_def)
  have same: "immutable_identity (leased_record env vis m r) = immutable_identity r"
    by (simp add: leased_record_def immutable_identity_def)
  have swap: "swapping cfg env k ref (value_of (qr_owner r), qr_generation r)
      (claim_record (xe_now env) (xe_later env) vis (xe_uuid env) (qr_generation r + 1) m) st next
    = next (Some (leased_record env vis m r)) (st(ref \<mapsto> leased_record env vis m r))"
    for k and "next" :: "dispatch_record option \<Rightarrow> dispatch_store \<Rightarrow> lease option outcome"
    by (rule quiet_swapping [where r = r]) (use env r(1,2) claim same ok in simp_all)
  show "lease_next cfg env vis n (Inr (Some m)) st = (st(ref \<mapsto> leased_record env vis m r), [],
      Inr (Some (lease_of ?t m (xe_uuid env) (qr_generation r + 1))))"
    using t msg(2) r free
    by (simp add: delivered_task [OF vis(1) msg(1) t(1)] others lease_task_def port_get_filed with_answer_def filed_scope
        swap named_identity)
  show "lease_holds (lease_of ?t m (xe_uuid env) (qr_generation r + 1)) (leased_record env vis m r)"
    by (simp add: lease_holds_def lease_of_def leased_record_def value_of_def)
qed

text \<open>The message of a task somebody else holds is dropped, without a lease and without a change.\<close>

lemma held_task_is_not_leased:
  assumes "valid_visibility vis" and "dc_parse cfg (qm_text m) = Body (raw_of_task (qr_task r))" "qm_dequeues m \<le> n"
    and "xe_others env 1 st ref = Some r" "filed (dc_sha cfg) ref r" "\<not> terminal_dispatch (qr_status r)"
    and "held_by_another (xe_now env) m r"
  shows "lease_next cfg env vis n (Inr (Some m)) st = drop_message env m None (xe_others env 1 st)"
proof -
  have t: "task_canonical (qr_task r)" "ref_of_task (qr_task r) = ref" "qr_hash r = hash_task (dc_sha cfg) (qr_task r)"
    using assms(5) by (simp_all add: filed_def record_canonical_def)
  show ?thesis
    using assms t
    by (simp add: delivered_task lease_task_def port_get_filed with_answer_def filed_scope)
qed

section \<open>Submission\<close>

lemma new_record_filed: "task_canonical t \<Longrightarrow> filed sha (ref_of_task t) (new_record sha now t)"
  by (simp add: filed_def record_canonical_def new_record_def)

lemma canonical_input: "canonical_task raw = Inr t \<Longrightarrow> task_canonical t"
  by (rule canonical_task_again)

text \<open>What a fresh submission leaves.\<close>

definition enqueued_record :: "dispatch_cfg \<Rightarrow> dispatch_env \<Rightarrow> dispatch_task \<Rightarrow> dispatch_record" where
  "enqueued_record cfg env t = (new_record (dc_sha cfg) (xe_now env) t)\<lparr>qr_enqueued := True, qr_updated := xe_later env\<rparr>"

lemma sanitize_enqueued: "sanitize_record cfg (enqueued_record cfg env t) = Inr (enqueued_record cfg env t)"
  by (simp add: sanitize_record_def enqueued_record_def new_record_def sanitize_entry_def sanitize_reason_def
      value_of_def keep_value_def)

lemma enqueued_facts:
  "qr_task (enqueued_record cfg env t) = t" "qr_status (enqueued_record cfg env t) = DsQueued"
  "qr_owner (enqueued_record cfg env t) = Missing" "qr_generation (enqueued_record cfg env t) = 0"
  "qr_enqueued (enqueued_record cfg env t)"
  by (simp_all add: enqueued_record_def new_record_def)

lemma enqueued_filed: "task_canonical t \<Longrightarrow> filed (dc_sha cfg) (ref_of_task t) (enqueued_record cfg env t)"
  by (simp add: enqueued_record_def filed_def record_canonical_def new_record_def)

lemma fresh_submission:
  assumes "quiet env" and "canonical_task raw = Inr t" and "st (ref_of_task t) = None"
    and "dc_accepts cfg (new_record (dc_sha cfg) (xe_now env) t)" "dc_accepts cfg (enqueued_record cfg env t)"
  shows "enqueue cfg env raw st = (st(ref_of_task t \<mapsto> enqueued_record cfg env t), [SendMessage (task_text t)],
      Inr (enqueued_record cfg env t))"
proof -
  let ?r = "new_record (dc_sha cfg) (xe_now env) t" and ?ref = "ref_of_task t"
  note t = canonical_input [OF assms(2)]
  have filed: "filed (dc_sha cfg) ?ref ?r" using t by (rule new_record_filed)
  have create: "port_create cfg ?r st = (st(?ref \<mapsto> ?r), Inr True)"
    using assms(3,4) filed by (simp add: port_create_def filed_def Let_def)
  have others: "xe_others env k s = s" for k s using assms(1) by (simp add: quiet_def)
  have req: "required_record cfg ?ref (st(?ref \<mapsto> ?r)) = Inr ?r"
    using filed by (simp add: required_record_def port_get_filed filed_scope)
  have mark: "mark_enqueued (xe_later env) ?r = Inr (enqueued_record cfg env t)"
    by (simp add: mark_enqueued_def enqueued_record_def)
  have same: "immutable_identity (enqueued_record cfg env t) = immutable_identity ?r"
    by (simp add: enqueued_record_def immutable_identity_def)
  have ident: "identity_of ?r = (value_of (qr_owner ?r), qr_generation ?r)"
    by (rule named_identity) (simp add: named_owner_def new_record_def value_of_def)
  have swap: "swapping cfg env k ?ref (identity_of ?r) (mark_enqueued (xe_later env)) (st(?ref \<mapsto> ?r)) next
    = next (Some (enqueued_record cfg env t)) (st(?ref \<mapsto> enqueued_record cfg env t))"
    for k and "next" :: "dispatch_record option \<Rightarrow> dispatch_store \<Rightarrow> dispatch_record outcome"
  proof -
    have "swapping cfg env k ?ref (identity_of ?r) (mark_enqueued (xe_later env)) (st(?ref \<mapsto> ?r)) next
      = next (Some (enqueued_record cfg env t)) (st(?ref \<mapsto> ?r, ?ref \<mapsto> enqueued_record cfg env t))"
      by (rule quiet_swapping [where r = ?r]) (use assms(1,5) filed mark same ident in simp_all)
    then show ?thesis by simp
  qed
  have "send_task cfg env t (st(?ref \<mapsto> ?r)) = (st(?ref \<mapsto> enqueued_record cfg env t), [SendMessage (task_text t)],
      Inr (enqueued_record cfg env t))"
    unfolding send_task_def Let_def others quiet_calling [OF assms(1)] req with_answer_def
    by (simp add: swap sanitize_enqueued)
  then show ?thesis by (simp add: enqueue_def assms(2) with_answer_def create Let_def)
qed

text \<open>A task that was sent once is not sent again, and another task does not take its place.\<close>

lemma repeated_submission:
  assumes "dispatch_good cfg st" and "others_step cfg env" and "st ref = Some r" and "qr_enqueued r"
    and "canonical_task raw = Inr t" and "ref_of_task t = ref" and "dc_accepts cfg (new_record (dc_sha cfg) (xe_now env) t)"
  obtains r' where "xe_others env 0 st ref = Some r'" "follows r r'"
    "enqueue cfg env raw st = (xe_others env 0 st, [],
       if qr_hash r \<noteq> hash_task (dc_sha cfg) t \<or> qr_key r \<noteq> dt_key t then Inl DConflict else sanitize_record cfg r')"
proof -
  have canonical: "record_canonical (dc_sha cfg) (new_record (dc_sha cfg) (xe_now env) t)"
    using new_record_filed [OF canonical_input [OF assms(5)]] by (simp add: filed_def)
  have "new_record (dc_sha cfg) (xe_now env) t \<noteq> r" using assms(4) by (auto simp: new_record_def)
  then have create: "port_create cfg (new_record (dc_sha cfg) (xe_now env) t) st = (st, Inr False)"
    using canonical assms(3,6,7) by (auto simp: port_create_def Let_def new_record_def)
  have "dispatch_reaches cfg st (xe_others env 0 st)" using assms(2) by (simp add: others_step_def)
  then obtain r' where r': "xe_others env 0 st ref = Some r'" "follows r r'" "filed (dc_sha cfg) ref r'"
    using steps_record [OF _ assms(1,3)] unfolding dispatch_reaches_def by blast
  moreover have "qr_enqueued r'" "qr_hash r' = qr_hash r" "qr_key r' = qr_key r"
    using r'(2) assms(4) by (simp_all add: follows_def immutable_identity_def)
  ultimately have "enqueue cfg env raw st = (xe_others env 0 st, [],
       if qr_hash r \<noteq> hash_task (dc_sha cfg) t \<or> qr_key r \<noteq> dt_key t then Inl DConflict else sanitize_record cfg r')"
    using assms(6) by (simp add: enqueue_def assms(5) with_answer_def create Let_def port_get_filed)
  with r' that show ?thesis by blast
qed

section \<open>Ending a task\<close>

lemma refused_ending:
  assumes "\<And>ref cur r'. validate_lease l = Inr ref \<Longrightarrow> xe_others env 1 st ref = Some cur \<Longrightarrow> lease_holds l cur
      \<Longrightarrow> end_record l (xe_later env) m cur = Inr r' \<Longrightarrow> dc_accepts cfg r' \<Longrightarrow> False"
  shows "refused env st (terminal_update cfg env l m st)"
  unfolding terminal_update_def
proof (rule refused_answer, rule refused_swapping)
  fix ref st2 w
  assume v: "validate_lease l = Inr ref"
    and "compare_and_swap cfg (xe_contended env 1) ref (lease_identity l) (end_record l (xe_later env) m) (xe_others env 1 st)
      = (st2, Inr (Some w))"
  then obtain cur where "xe_others env 1 st ref = Some cur" "end_record l (xe_later env) m cur = Inr w" "dc_accepts cfg w"
    by (auto simp: swap_Some)
  moreover from this(2) have "lease_holds l cur" by (auto simp: end_record_def split: if_splits)
  ultimately show False using assms v by blast
qed simp

text \<open>A task whose cancellation was requested is not completed, by no lease.\<close>

lemma cancelled_not_completed:
  assumes "dispatch_good cfg st" and "others_step cfg env" and "st ref = Some r" and "value_of (qr_cancel r) = Some True"
    and "validate_lease l = Inr ref"
  shows "refused env st (complete cfg env l p st)"
  unfolding complete_def
proof (intro refused_answer refused_ending)
  fix p' ref' cur r'
  assume a: "validate_lease l = Inr ref'" "xe_others env 1 st ref' = Some cur"
    "end_record l (xe_later env) (completed_record p' (xe_later env)) cur = Inr r'"
  have "dispatch_reaches cfg st (xe_others env 1 st)" using assms(2) by (simp add: others_step_def)
  then obtain r1 where "xe_others env 1 st ref = Some r1" "follows r r1"
    using steps_record [OF _ assms(1,3)] unfolding dispatch_reaches_def by blast
  then have "value_of (qr_cancel cur) = Some True" using a(1,2) assms(4,5) by (simp add: follows_def)
  then show False using a(3) by (simp add: end_record_def completed_record_def split: if_splits)
qed

text \<open>The holder's completion is written, and its message deleted.\<close>

definition completed_by :: "dispatch_env \<Rightarrow> completion \<Rightarrow> dispatch_record \<Rightarrow> dispatch_record" where
  "completed_by env p r = r\<lparr>qr_status := DsCompleted,
     qr_receipt := Given (p\<lparr>cp_finished := Some (xe_later env),
       cp_invocation := (case cp_invocation p of None \<Rightarrow> observed_invocation r | Some i \<Rightarrow> Some i)\<rparr>),
     qr_error := Undef, qr_expires := Undef, qr_updated := xe_later env\<rparr>"

lemma quiet_ending:
  assumes env: "quiet env" and l: "validate_lease l = Inr ref" "lease_holds l r"
    and r: "st ref = Some r" "filed (dc_sha cfg) ref r"
    and m: "end_record l (xe_later env) m r = Inr r'" "immutable_identity r' = immutable_identity r" "dc_accepts cfg r'"
  shows "terminal_update cfg env l m st = (st(ref \<mapsto> r'), [DeleteMessage (dl_message l) (dl_pop l)], Inr ())"
proof -
  have i: "lease_identity l = (value_of (qr_owner r), qr_generation r)"
    using l validated_lease(2) [OF l(1)] by (simp add: lease_identity_def lease_holds_def)
  have "swapping cfg env 1 ref (lease_identity l) (end_record l (xe_later env) m) st next = next (Some r') (st(ref \<mapsto> r'))"
    for "next" :: "dispatch_record option \<Rightarrow> dispatch_store \<Rightarrow> unit outcome"
    by (rule quiet_swapping [where r = r]) (use env r m i in simp_all)
  then show ?thesis by (simp add: terminal_update_def l(1) with_answer_def quiet_calling [OF env])
qed

lemma completion_takes_effect:
  assumes env: "quiet env" and p: "normalize_completion cfg p = Inr p'"
    and l: "validate_lease l = Inr ref" "lease_holds l r" and r: "st ref = Some r" "filed (dc_sha cfg) ref r"
    and open_: "value_of (qr_cancel r) \<noteq> Some True" "observed_invocation r = None \<or> cp_invocation p' \<in> {None, observed_invocation r}"
    and ok: "dc_accepts cfg (completed_by env p' r)"
  shows "complete cfg env l p st = (st(ref \<mapsto> completed_by env p' r), [DeleteMessage (dl_message l) (dl_pop l)], Inr ())"
proof -
  have "end_record l (xe_later env) (completed_record p' (xe_later env)) r = Inr (completed_by env p' r)"
    using l(2) open_
    by (cases "observed_invocation r"; cases "cp_invocation p'") (auto simp: end_record_def completed_record_def completed_by_def Let_def)
  moreover have "immutable_identity (completed_by env p' r) = immutable_identity r"
    by (simp add: completed_by_def immutable_identity_def)
  ultimately have "terminal_update cfg env l (completed_record p' (xe_later env)) st
      = (st(ref \<mapsto> completed_by env p' r), [DeleteMessage (dl_message l) (dl_pop l)], Inr ())"
    using ok by (rule quiet_ending [where r = r and ref = ref, rotated 5]) (use env l r in simp_all)
  then show ?thesis by (simp add: complete_def p with_answer_def)
qed

text \<open>The failure is written whatever the record says the outcome was.\<close>

lemma failure_takes_effect:
  assumes env: "quiet env" and f: "sanitize_diagnostic (dc_scrub cfg) 128 (fl_code f) = Inr x"
      "sanitize_diagnostic (dc_scrub cfg) 1024 (fl_message f) = Inr y"
    and l: "validate_lease l = Inr ref" "lease_holds l r" and r: "st ref = Some r" "filed (dc_sha cfg) ref r"
    and ok: "\<And>r. dc_accepts cfg r"
  obtains r' where "fail_task cfg env l f st = (st(ref \<mapsto> r'), [DeleteMessage (dl_message l) (dl_pop l)], Inr ())"
    "qr_status r' = DsFailed" "qr_receipt r' = qr_receipt r"
proof -
  let ?r = "r\<lparr>qr_status := DsFailed, qr_error := Given \<lparr>fl_code = x, fl_message = y, fl_at = Some (xe_later env)\<rparr>,
    qr_expires := Undef, qr_updated := xe_later env\<rparr>"
  have "end_record l (xe_later env) (failed_record x y (xe_later env)) r = Inr ?r"
    using l(2) by (simp add: end_record_def failed_record_def)
  then have "terminal_update cfg env l (failed_record x y (xe_later env)) st
      = (st(ref \<mapsto> ?r), [DeleteMessage (dl_message l) (dl_pop l)], Inr ())"
    by (rule quiet_ending [where r = r and ref = ref, rotated 5]) (use env l r in \<open>simp_all add: immutable_identity_def ok\<close>)
  then show ?thesis using that [of ?r] f by (simp add: fail_task_def with_answer_def)
qed

section \<open>Cancellation\<close>

lemma request_takes_effect:
  assumes env: "quiet env" and ref: "canonical_ref raw = Inr ref" and why: "sanitize_diagnostic (dc_scrub cfg) 512 reason = Inr w"
    and r: "st ref = Some r" "filed (dc_sha cfg) ref r" "named_owner r" "\<not> terminal_dispatch (qr_status r)"
    and ok: "dc_accepts cfg (r\<lparr>qr_cancel := Given True, qr_reason := Given w, qr_updated := xe_later env\<rparr>)"
  shows "request_cancellation cfg env raw reason st =
    (st(ref \<mapsto> r\<lparr>qr_cancel := Given True, qr_reason := Given w, qr_updated := xe_later env\<rparr>), [], Inr ())"
proof -
  have others: "xe_others env k s = s" for k s using env by (simp add: quiet_def)
  have req: "required_record cfg ref st = Inr r" using r by (simp add: required_record_def port_get_filed filed_scope)
  have "swapping cfg env k ref (identity_of r) (request_record w (xe_later env)) st next
      = next (Some (r\<lparr>qr_cancel := Given True, qr_reason := Given w, qr_updated := xe_later env\<rparr>))
          (st(ref \<mapsto> r\<lparr>qr_cancel := Given True, qr_reason := Given w, qr_updated := xe_later env\<rparr>))"
    for k and "next" :: "dispatch_record option \<Rightarrow> dispatch_store \<Rightarrow> unit outcome"
    by (rule quiet_swapping [where r = r])
      (use env r ok in \<open>simp_all add: request_record_def immutable_identity_def named_identity\<close>)
  then have "request_attempts cfg env ref w (Suc 3) st =
      (st(ref \<mapsto> r\<lparr>qr_cancel := Given True, qr_reason := Given w, qr_updated := xe_later env\<rparr>), [], Inr ())"
    using r(4) by (simp only: request_attempts.simps Let_def others req with_answer_def sum.case if_False option.case)
  then show ?thesis by (simp add: request_cancellation_def ref why with_answer_def)
qed

section \<open>Tasks of the first schema\<close>

text \<open>A task read from an old message runs with the execution the server resolved, never one of the message.\<close>

lemma legacy_execution:
  assumes "parse_message cfg env text st = (st', Inr t)" and "dc_parse cfg text = Body raw" and "rd_schema raw = Some 1"
  obtains resolve h where "dc_migration cfg = Some resolve" "hash_legacy (dc_sha cfg) raw = Inr h"
    "resolve raw h = Some (dt_execution t)"
proof -
  have "migrate_legacy cfg env raw st = (st', Inr t)" using assms by (simp add: parse_message_def)
  then obtain l t' where d: "decide_migration cfg env raw = Inr (l, t')" "t = t'"
    by (auto simp: migrate_legacy_def check_migrated_def Let_def chain_Inr
        split: sum.splits prod.splits option.splits bool.splits if_splits)
  from d(1) show ?thesis
    using that migrated_task_facts unfolding decide_migration_def d(2)
    by (auto simp: chain_Inr split: option.splits if_splits)
qed

section \<open>Responses\<close>

definition bounded_response :: "dispatch_record \<Rightarrow> bool" where
  "bounded_response r \<longleftrightarrow>
     (\<forall>c. qr_checkpoint r = Given c \<longrightarrow> byte_length (ck_message c) \<le> 1024)
     \<and> (\<forall>p. qr_receipt r = Given p \<longrightarrow> byte_length (cp_result p) \<le> 4096 \<and> byte_length (cp_execution p) \<le> 256)
     \<and> (\<forall>f. qr_error r = Given f \<longrightarrow> byte_length (fl_code f) \<le> 128 \<and> byte_length (fl_message f) \<le> 1024)
     \<and> (\<forall>s. qr_reason r = Given s \<longrightarrow> byte_length s \<le> 512) \<and> (\<forall>s. qr_quarantine r = Given s \<longrightarrow> byte_length s \<le> 512)"

lemma sanitize_entry_Given: "sanitize_entry f e = Inr (Given w) \<Longrightarrow> \<exists>v. f v = Inr w"
  by (auto simp: sanitize_entry_def chain_Inr split: option.splits)

lemma sanitize_reason_Given: "sanitize_reason cfg e = Inr (Given w) \<Longrightarrow> byte_length w \<le> 512"
  by (auto simp: sanitize_reason_def chain_Inr split: option.splits if_splits dest: sanitized_size)

lemma sanitized_bounded:
  assumes "sanitize_record cfg r = Inr s"
  shows "bounded_response s" and "immutable_identity s = immutable_identity r" and "qr_status s = qr_status r"
    and "qr_generation s = qr_generation r"
proof -
  obtain c p f w q where parts: "sanitize_entry (sanitize_checkpoint cfg) (qr_checkpoint r) = Inr c"
    "sanitize_entry (sanitize_completion cfg) (qr_receipt r) = Inr p" "sanitize_entry (sanitize_error_receipt cfg) (qr_error r) = Inr f"
    "sanitize_reason cfg (qr_reason r) = Inr w" "sanitize_reason cfg (qr_quarantine r) = Inr q"
    and s: "s = r\<lparr>qr_owner := keep_value (qr_owner r), qr_message := keep_value (qr_message r),
       qr_expires := keep_value (qr_expires r), qr_cancel := keep_value (qr_cancel r), qr_reason := w,
       qr_checkpoint := c, qr_receipt := p, qr_error := f, qr_quarantine := q\<rparr>"
    using assms by (auto simp: sanitize_record_def chain_Inr)
  show "bounded_response s"
    using parts unfolding bounded_response_def s
    by (auto dest!: sanitize_entry_Given sanitize_reason_Given sanitized_size
        simp: sanitize_checkpoint_def sanitize_completion_def sanitize_error_receipt_def chain_Inr)
  show "immutable_identity s = immutable_identity r" "qr_status s = qr_status r" "qr_generation s = qr_generation r"
    by (simp_all add: s immutable_identity_def)
qed

section \<open>What goes wrong\<close>

text \<open>The end of a task writes \<open>leaseExpiresAt: undefined\<close>, which \<open>CosmosRuntimeStore\<close> refuses.\<close>

lemma end_record_undefined: "end_record l later m r = Inr r' \<Longrightarrow> qr_expires r' = Undef"
  by (auto simp: end_record_def chain_Inr split: if_splits)

lemma runtime_store_refuses_ends:
  assumes "dc_accepts cfg = runtime_accepts bounded"
  shows "refused env st (complete cfg env l p st)" and "refused env st (fail_task cfg env l f st)"
    and "refused env st (cancel_task cfg env l reason st)"
proof -
  have "refused env st (terminal_update cfg env l m st)" for m
    by (rule refused_ending) (auto simp: assms runtime_accepts_def no_undefined_def dest: end_record_undefined)
  then show "refused env st (complete cfg env l p st)" "refused env st (fail_task cfg env l f st)"
    "refused env st (cancel_task cfg env l reason st)"
    by (auto simp: complete_def fail_task_def cancel_task_def intro!: refused_answer)
qed

text \<open>A claim that loses its conditional writes deletes the message, although nobody holds the task.\<close>

lemma lost_claim_drops_message:
  assumes env: "\<And>k st. xe_others env k st = st" "xe_contended env 2" "\<And>c. xe_accepts env c"
    and vis: "valid_visibility vis" "date_range (xe_now env + vis * 1000)"
    and msg: "dc_parse cfg (qm_text m) = Body (raw_of_task (qr_task r))" "qm_dequeues m \<le> n"
    and r: "st ref = Some r" "filed (dc_sha cfg) ref r" "named_owner r" "\<not> terminal_dispatch (qr_status r)"
    and free: "\<not> held_by_another (xe_now env) m r" and ok: "dc_accepts cfg (leased_record env vis m r)"
  shows "lease_next cfg env vis n (Inr (Some m)) st = (st, [DeleteMessage (qm_id m) (qm_pop m)], Inr None)"
proof -
  let ?t = "qr_task r"
  have t: "task_canonical ?t" "ref_of_task ?t = ref" "qr_hash r = hash_task (dc_sha cfg) ?t"
    using r(2) by (simp_all add: filed_def record_canonical_def)
  have claim: "claim_record (xe_now env) (xe_later env) vis (xe_uuid env) (qr_generation r + 1) m r = Inr (leased_record env vis m r)"
    using free vis(2) by (simp add: claim_record_def leased_record_def)
  have "immutable_identity (leased_record env vis m r) = immutable_identity r"
    by (simp add: leased_record_def immutable_identity_def)
  then have "apply_mutation (dc_sha cfg) (claim_record (xe_now env) (xe_later env) vis (xe_uuid env) (qr_generation r + 1) m) r
      = Inr (leased_record env vis m r)"
    using claim filed_same [of "leased_record env vis m r" r "dc_sha cfg" ref] r(2)
    by (simp add: apply_mutation_Inr filed_canonical)
  then have swap: "compare_and_swap cfg True ref (value_of (qr_owner r), qr_generation r)
      (claim_record (xe_now env) (xe_later env) vis (xe_uuid env) (qr_generation r + 1) m) st = (st, Inr None)"
    using compare_and_swap_filed [where st = st and ref = ref, OF r(1,2)] ok by simp
  show ?thesis
    using t msg(2) r free
    by (simp add: delivered_task [OF vis(1) msg(1) t(1)] env lease_task_def port_get_filed with_answer_def filed_scope
        swapping_def named_identity swap drop_message_def calling_def)
qed

text \<open>Between the reading of a record and the claim the expired holder may end the task; the claim tests only
  for a live lease, and an ended record has none: the task is leased again, its outcome still on record.\<close>

lemma claim_reopens_ended:
  assumes "quiet env" and "lease_holds l r" and "end_record l later m r = Inr r'" "date_range (now + vis * 1000)"
  shows "claim_record now later' vis ow gen msg r' = Inr (r'\<lparr>qr_status := DsLeased, qr_dequeues := qm_dequeues msg,
     qr_owner := Given ow, qr_generation := gen, qr_message := Given (qm_id msg), qr_expires := Given (now + vis * 1000),
     qr_updated := later'\<rparr>)"
proof -
  have "lease_expired now r'" using end_record_undefined [OF assms(3)] by (simp add: lease_expired_def value_of_def)
  then show ?thesis using assms(4) by (simp add: claim_record_def held_by_another_def)
qed

end
