(* ===== verification/DispatchSamples.thy ===== *)
theory DispatchSamples
  imports DispatchRuns Samples
begin

text \<open>
  A small dispatch queue: one task, submitted, leased by a first worker and, after its lease has run out, by a
  second one. The properties of the root theory are applied to it.
\<close>

section \<open>The task and the queue\<close>

definition sample_task :: dispatch_task where
  "sample_task = \<lparr>dt_schema = SchemaThree None, dt_id = ''job-1'', dt_key = ''agent-job:job-1'', dt_tenant = ''t'',
     dt_requester = ''ann'', dt_conversation = ''c'', dt_provider = ''codex'', dt_prompt = ''fix it'',
     dt_created = ''2026-01-01'', dt_execution = WriteExecution\<rparr>"

definition sample_ref :: task_ref where
  "sample_ref = \<lparr>rf_id = ''job-1'', rf_tenant = ''t'', rf_requester = ''ann'', rf_conversation = ''c''\<rparr>"

definition sample_legacy :: legacy_task where
  "sample_legacy = \<lparr>lt_id = ''job-0'', lt_key = ''agent-job:job-0'', lt_tenant = ''t'', lt_requester = ''ann'',
     lt_conversation = ''c'', lt_provider = ''codex'', lt_prompt = ''look'', lt_created = ''2025-01-01''\<rparr>"

lemma byte_length_twice: "byte_length s \<le> 2 * length s"
  by (induction s) (auto simp: byte_length_def utf8_size_def)

lemma sample_task_canonical: "task_canonical sample_task"
proof -
  have "length (task_text sample_task) \<le> 400" by code_simp
  then have "byte_length (task_text sample_task) \<le> max_task_bytes"
    using byte_length_twice [of "task_text sample_task"] by (simp add: max_task_bytes_def)
  moreover have "canonical_task_id (Is (dt_id sample_task)) = Inr (dt_id sample_task)"
    "require_text (Is (dt_key sample_task)) = Inr (dt_key sample_task)"
    "require_text (Is (dt_tenant sample_task)) = Inr (dt_tenant sample_task)"
    "require_text (Is (dt_requester sample_task)) = Inr (dt_requester sample_task)"
    "require_text (Is (dt_conversation sample_task)) = Inr (dt_conversation sample_task)"
    "require_text (Is (dt_provider sample_task)) = Inr (dt_provider sample_task)"
    "require_text (Is (dt_prompt sample_task)) = Inr (dt_prompt sample_task)"
    "require_text (Is (dt_created sample_task)) = Inr (dt_created sample_task)"
    "read_schema (raw_of_task sample_task) = Inr (dt_schema sample_task)"
    by code_simp+
  ultimately show ?thesis by (simp add: task_canonical_iff)
qed

lemma sample_task_ref: "ref_of_task sample_task = sample_ref"
  by (simp add: ref_of_task_def sample_task_def sample_ref_def)

text \<open>The digest of a text is the text itself, nothing is hidden in diagnostics, and messages are the texts of the
  two tasks.\<close>

definition sample_parse :: "string \<Rightarrow> message_body" where
  "sample_parse text = (if text = task_text sample_task then Body (raw_of_task sample_task)
     else if text = ''old'' then Body (raw_of_legacy sample_legacy) else NotJson)"

definition queue_cfg :: "(dispatch_record \<Rightarrow> bool) \<Rightarrow> dispatch_cfg" where
  "queue_cfg accepts = \<lparr>dc_sha = (\<lambda>s. s), dc_scrub = (\<lambda>s. s), dc_redact = (\<lambda>s. (s, False)), dc_parse = sample_parse,
     dc_accepts = accepts, dc_message = (\<lambda>_. ''refused''), dc_migration = Some (\<lambda>_ _. Some ReadOnlyExecution)\<rparr>"

abbreviation open_cfg :: dispatch_cfg where "open_cfg \<equiv> queue_cfg (\<lambda>_. True)"

definition quiet_at :: "time \<Rightarrow> string \<Rightarrow> dispatch_env" where
  "quiet_at now uuid = \<lparr>xe_now = now, xe_later = now + 1, xe_uuid = uuid, xe_accepts = (\<lambda>_. True), xe_pop = ''pop'',
     xe_others = (\<lambda>_ st. st), xe_contended = (\<lambda>_. False), xe_legacy = (\<lambda>_. Inr None)\<rparr>"

lemma quiet_at_fields [simp]:
  "xe_now (quiet_at now uuid) = now" "xe_later (quiet_at now uuid) = now + 1" "xe_uuid (quiet_at now uuid) = uuid"
  "xe_others (quiet_at now uuid) = (\<lambda>_ st. st)" "xe_contended (quiet_at now uuid) = (\<lambda>_. False)"
  "xe_accepts (quiet_at now uuid) = (\<lambda>_. True)"
  by (simp_all add: quiet_at_def)

lemma quiet_at_quiet [simp]: "quiet (quiet_at now uuid)"
  by (simp add: quiet_at_def quiet_def)

lemma quiet_at_steps [simp]: "others_step cfg (quiet_at now uuid)"
  by (rule quiet_others_step) simp

definition first_message :: queue_message where
  "first_message = \<lparr>qm_id = ''m1'', qm_pop = ''p1'', qm_text = task_text sample_task, qm_dequeues = 1\<rparr>"

definition second_message :: queue_message where
  "second_message = first_message\<lparr>qm_pop := ''p2'', qm_dequeues := 2\<rparr>"

lemma sample_cfg [simp]:
  "dc_accepts (queue_cfg a) = a" "dc_sha (queue_cfg a) = (\<lambda>s. s)" "dc_scrub (queue_cfg a) = (\<lambda>s. s)"
  "dc_parse (queue_cfg a) = sample_parse" "qm_text first_message = task_text sample_task"
  "qm_text second_message = task_text sample_task" "qm_dequeues first_message = 1" "qm_dequeues second_message = 2"
  by (simp_all add: queue_cfg_def first_message_def second_message_def)

lemma sample_parsed [simp]: "sample_parse (task_text sample_task) = Body (raw_of_task sample_task)"
  by (simp add: sample_parse_def)

section \<open>The records\<close>

text \<open>Submitted at 1000, leased at 2000 for 30 seconds, leased again at 60000.\<close>

definition sample_queued :: dispatch_record where
  "sample_queued = enqueued_record open_cfg (quiet_at 1000 ''w0'') sample_task"

definition sample_leased :: dispatch_record where
  "sample_leased = leased_record (quiet_at 2000 ''w1'') 30 first_message sample_queued"

definition sample_released :: dispatch_record where
  "sample_released = leased_record (quiet_at 60000 ''w2'') 30 second_message sample_leased"

definition filed_at :: "dispatch_record \<Rightarrow> dispatch_store" where
  "filed_at r = [sample_ref \<mapsto> r]"

lemma filed_at_ref [simp]: "filed_at r sample_ref = Some r"
  by (simp add: filed_at_def)

lemma filed_at_update [simp]: "(filed_at r)(sample_ref \<mapsto> r') = filed_at r'"
  by (simp add: filed_at_def)

lemma sample_filed:
  "filed (\<lambda>s. s) sample_ref sample_queued" "filed (\<lambda>s. s) sample_ref sample_leased" "filed (\<lambda>s. s) sample_ref sample_released"
  using sample_task_canonical sample_task_ref
  by (simp_all add: sample_queued_def sample_leased_def sample_released_def leased_record_def enqueued_record_def
      new_record_def filed_def record_canonical_def)

lemma sample_fields:
  "qr_task sample_queued = sample_task" "qr_task sample_leased = sample_task" "qr_generation sample_queued = 0"
  "qr_generation sample_leased = 1" "qr_generation sample_released = 2" "qr_status sample_queued = DsQueued"
  "qr_status sample_leased = DsLeased" "qr_owner sample_leased = Given ''w1''" "qr_owner sample_released = Given ''w2''"
  "qr_owner sample_queued = Missing" "qr_expires sample_leased = Given 32000" "qr_cancel sample_leased = Missing"
  "qr_checkpoint sample_leased = Missing" "qr_enqueued sample_queued" "qr_receipt sample_leased = Missing"
  "qr_key sample_queued = dt_key sample_task" "qr_hash sample_queued = task_text sample_task"
  by (simp_all add: sample_queued_def sample_leased_def sample_released_def leased_record_def enqueued_record_def
      new_record_def hash_task_def)

lemma sample_good: "filed (\<lambda>s. s) sample_ref r \<Longrightarrow> 0 \<le> qr_generation r \<Longrightarrow> dispatch_good (queue_cfg a) (filed_at r)"
  by (simp add: dispatch_good_def filed_at_def)

lemma sample_stores_good: "dispatch_good (queue_cfg a) (filed_at sample_queued)"
    "dispatch_good (queue_cfg a) (filed_at sample_leased)"
  using sample_good sample_filed sample_fields by auto

lemma sample_submitted:
  "enqueue open_cfg (quiet_at 1000 ''w0'') (raw_of_task sample_task) (\<lambda>_. None) =
     (filed_at sample_queued, [SendMessage (task_text sample_task)], Inr sample_queued)"
  using fresh_submission [where env = "quiet_at 1000 ''w0''" and cfg = open_cfg and raw = "raw_of_task sample_task"
      and t = sample_task and st = "\<lambda>_. None"]
    sample_task_canonical
  by (simp add: task_canonical_def sample_task_ref sample_queued_def filed_at_def)

definition first_lease :: lease where
  "first_lease = lease_of sample_task first_message ''w1'' 1"

definition second_lease :: lease where
  "second_lease = lease_of sample_task second_message ''w2'' 2"

lemma sample_first_lease:
  "lease_next open_cfg (quiet_at 2000 ''w1'') 30 5 (Inr (Some first_message)) (filed_at sample_queued) =
     (filed_at sample_leased, [], Inr (Some first_lease))"
  using open_task_is_leased(1) [where env = "quiet_at 2000 ''w1''" and vis = 30 and cfg = open_cfg and m = first_message
      and r = sample_queued and n = 5 and st = "filed_at sample_queued" and ref = sample_ref]
    sample_filed(1)
  by (simp add: sample_fields valid_visibility_def date_range_def named_owner_def value_of_def
      terminal_dispatch_def held_by_another_def has_owner_def first_lease_def
      sample_leased_def)

lemma sample_second_lease:
  "lease_next open_cfg (quiet_at 60000 ''w2'') 30 5 (Inr (Some second_message)) (filed_at sample_leased) =
     (filed_at sample_released, [], Inr (Some second_lease))"
  using open_task_is_leased(1) [where env = "quiet_at 60000 ''w2''" and vis = 30 and cfg = open_cfg and m = second_message
      and r = sample_leased and n = 5 and st = "filed_at sample_leased" and ref = sample_ref]
    sample_filed(2)
  by (simp add: sample_fields valid_visibility_def date_range_def named_owner_def value_of_def
      terminal_dispatch_def held_by_another_def has_owner_def second_lease_def lease_expired_def
      sample_released_def)

lemma sample_leases_valid:
  "validate_lease first_lease = Inr sample_ref" "validate_lease second_lease = Inr sample_ref"
  "lease_holds first_lease sample_leased" "lease_holds second_lease sample_released"
proof -
  have "validate_lease (lease_of sample_task m ow g) = Inr sample_ref"
    if "m = first_message \<or> m = second_message" "ow = ''w1'' \<or> ow = ''w2''" "g = 1 \<or> g = 2" for m ow g
  proof -
    have "require_text (Is (qm_id m)) = Inr (qm_id m)" "require_text (Is (qm_pop m)) = Inr (qm_pop m)"
      "require_text (Is ow) = Inr ow"
      using that by (auto simp: first_message_def second_message_def require_text_def blank_def js_trim_def js_space_def code_unit_def)
    then show ?thesis
      using that(3) sample_task_canonical canonical_ref_of_task [OF sample_task_canonical]
      by (auto simp: validate_lease_def lease_of_def task_canonical_def sample_task_ref safe_integer_def)
  qed
  then show "validate_lease first_lease = Inr sample_ref" "validate_lease second_lease = Inr sample_ref"
    by (simp_all add: first_lease_def second_lease_def)
  show "lease_holds first_lease sample_leased" "lease_holds second_lease sample_released"
    by (simp_all add: lease_holds_def first_lease_def second_lease_def lease_of_def sample_fields value_of_def)
qed

text \<open>The second lease as a step of the records.\<close>

lemma sample_second_claim: "queue_step (queue_cfg (\<lambda>_. True)) (filed_at sample_leased) (EvClaim sample_ref 2) (filed_at sample_released)"
proof (rule step_swap)
  show "program_swap sample_ref (Some ''w1'', 1) (claim_record 60000 60001 30 ''w2'' (snd (Some ''w1'', 1) + 1) second_message)
      (EvClaim sample_ref 2)"
    using swap_claim [of sample_ref "(Some ''w1'', 1)" 60000 60001 30 "''w2''" second_message] by simp
  have "claim_record 60000 60001 30 ''w2'' 2 second_message sample_leased = Inr sample_released"
    by (simp add: claim_record_def held_by_another_def lease_expired_def sample_fields value_of_def date_range_def
        sample_released_def leased_record_def)
  moreover have "immutable_identity sample_released = immutable_identity sample_leased"
    by (simp add: sample_released_def leased_record_def immutable_identity_def)
  ultimately show "compare_and_swap open_cfg False sample_ref (Some ''w1'', 1)
      (claim_record 60000 60001 30 ''w2'' (snd (Some ''w1'', 1) + 1) second_message) (filed_at sample_leased)
      = (filed_at sample_released, Inr (Some sample_released))"
    using sample_filed(2) by (simp add: swap_Some sample_fields value_of_def)
qed

lemma sample_claim_history:
  "queue_steps (queue_cfg (\<lambda>_. True)) (filed_at sample_leased) [EvClaim sample_ref 2] (filed_at sample_released)"
  by (auto intro: sample_second_claim)

section \<open>Ends\<close>

definition sample_result :: completion where
  "sample_result = \<lparr>cp_result = ''ok'', cp_execution = ''x1'', cp_finished = None, cp_usage = None, cp_observation = None,
     cp_invocation = None\<rparr>"

definition sample_failure :: failure where
  "sample_failure = \<lparr>fl_code = ''E'', fl_message = ''boom'', fl_at = None\<rparr>"

definition sample_done :: dispatch_record where
  "sample_done = completed_by (quiet_at 3000 ''w1'') sample_result sample_leased"

lemma sample_result_normal: "normalize_completion open_cfg sample_result = Inr sample_result"
  by code_simp

lemma sample_diagnostics:
  "sanitize_diagnostic (\<lambda>s. s) 128 ''E'' = Inr ''E''" "sanitize_diagnostic (\<lambda>s. s) 1024 ''boom'' = Inr ''boom''"
  "sanitize_diagnostic (\<lambda>s. s) 512 ''stop'' = Inr ''stop''"
  by code_simp+

lemma sample_completed:
  "complete open_cfg (quiet_at 3000 ''w1'') first_lease sample_result (filed_at sample_leased) =
     (filed_at sample_done, [DeleteMessage ''m1'' ''p1''], Inr ())"
  using completion_takes_effect [where env = "quiet_at 3000 ''w1''" and cfg = open_cfg and p = sample_result
      and p' = sample_result and l = first_lease and ref = sample_ref and r = sample_leased and st = "filed_at sample_leased"] sample_leases_valid(1,3) sample_filed(2)
  by (simp add: sample_result_normal sample_fields value_of_def sample_done_def observed_invocation_def
      first_lease_def lease_of_def first_message_def)

lemma sample_done_filed: "filed (\<lambda>s. s) sample_ref sample_done" "lease_holds first_lease sample_done"
    "qr_status sample_done = DsCompleted" "qr_receipt sample_done \<noteq> Missing"
  using sample_filed(2) sample_leases_valid(3)
  by (simp_all add: sample_done_def completed_by_def filed_def record_canonical_def lease_holds_def)

definition sample_requested :: dispatch_record where
  "sample_requested = sample_leased\<lparr>qr_cancel := Given True, qr_reason := Given ''stop'', qr_updated := 2501\<rparr>"

lemma sample_ref_canonical: "canonical_ref sample_ref = Inr sample_ref"
  using canonical_ref_of_task [OF sample_task_canonical] by (simp add: sample_task_ref)

lemma sample_cancellation:
  "request_cancellation open_cfg (quiet_at 2500 ''q'') sample_ref ''stop'' (filed_at sample_leased) = (filed_at sample_requested, [], Inr ())"
  using request_takes_effect [where env = "quiet_at 2500 ''q''" and raw = sample_ref and ref = sample_ref and cfg = open_cfg
      and reason = "''stop''" and w = "''stop''" and st = "filed_at sample_leased" and r = sample_leased]
    sample_filed(2)
  by (simp add: sample_ref_canonical sample_diagnostics sample_fields named_owner_def value_of_def terminal_dispatch_def
      sample_requested_def)

lemma sample_requested_good: "dispatch_good (queue_cfg a) (filed_at sample_requested)"
    "value_of (qr_cancel sample_requested) = Some True"
  using sample_filed(2) sample_fields
  by (simp_all add: sample_good sample_requested_def filed_def record_canonical_def value_of_def)

text \<open>The first worker ends the task between the reading and the claim of the second one.\<close>

definition racing_at :: "time \<Rightarrow> string \<Rightarrow> dispatch_env" where
  "racing_at now uuid = (quiet_at now uuid)\<lparr>xe_others := (\<lambda>k st. if k = 2
     then fst (complete open_cfg (quiet_at 3000 ''w1'') first_lease sample_result st) else st)\<rparr>"

definition contended_at :: "time \<Rightarrow> string \<Rightarrow> dispatch_env" where
  "contended_at now uuid = (quiet_at now uuid)\<lparr>xe_contended := (\<lambda>k. k = 2)\<rparr>"


lemma sample_hash: "qr_hash sample_leased = task_text sample_task"
  using sample_filed(2) by (simp add: filed_def record_canonical_def sample_fields hash_task_def)

lemma race_outcome:
  "\<exists>st' r l. lease_next open_cfg (racing_at 60000 ''w2'') 30 5 (Inr (Some second_message)) (filed_at sample_leased) = (st', [], Inr (Some l))
    \<and> st' sample_ref = Some r \<and> qr_status r = DsLeased \<and> qr_receipt r = qr_receipt sample_done"
proof -
  let ?r = "leased_record (quiet_at 60000 ''w2'') 30 second_message (sample_done\<lparr>qr_generation := 1\<rparr>)"
  have gen: "qr_generation sample_done = 1" "qr_owner sample_done = Given ''w1''" "qr_expires sample_done = Undef"
    by (simp_all add: sample_done_def completed_by_def sample_fields)
  have claim: "claim_record 60000 60001 30 ''w2'' 2 second_message sample_done = Inr ?r"
    by (simp add: claim_record_def held_by_another_def lease_expired_def gen value_of_def date_range_def leased_record_def)
  have "immutable_identity ?r = immutable_identity sample_done"
    by (simp add: leased_record_def immutable_identity_def)
  then have swap: "compare_and_swap open_cfg False sample_ref (Some ''w1'', 1) (claim_record 60000 60001 30 ''w2'' 2 second_message)
      (filed_at sample_done) = (filed_at ?r, Inr (Some ?r))"
    using claim sample_done_filed(1) by (simp add: swap_Some gen value_of_def)
  have env: "xe_others (racing_at 60000 ''w2'') 2 (filed_at sample_leased) = filed_at sample_done"
    "xe_others (racing_at 60000 ''w2'') (Suc 0) (filed_at sample_leased) = filed_at sample_leased"
    "xe_now (racing_at 60000 ''w2'') = 60000" "xe_later (racing_at 60000 ''w2'') = 60001" "xe_uuid (racing_at 60000 ''w2'') = ''w2''"
    "xe_contended (racing_at 60000 ''w2'') k = False" for k
    by (simp_all add: racing_at_def sample_completed)
  have ref: "ref_of_task sample_task = sample_ref" by (rule sample_task_ref)
  have "lease_next open_cfg (racing_at 60000 ''w2'') 30 5 (Inr (Some second_message)) (filed_at sample_leased)
      = (filed_at ?r, [], Inr (Some (lease_of sample_task second_message ''w2'' 2)))"
    using sample_filed(2) delivered_task [where cfg = open_cfg and t = sample_task and m = second_message and vis = 30] sample_task_canonical
    by (simp add: valid_visibility_def env lease_task_def port_get_filed with_answer_def filed_scope ref sample_fields hash_task_def
        terminal_dispatch_def held_by_another_def lease_expired_def value_of_def swapping_def identity_of_def swap sample_hash)
  moreover have "qr_receipt ?r = qr_receipt sample_done" "qr_status ?r = DsLeased" by (simp_all add: leased_record_def)
  ultimately show ?thesis by (intro exI conjI) (assumption | simp)+
qed

lemma contended_outcome:
  "lease_next open_cfg (contended_at 2000 ''w1'') 30 5 (Inr (Some first_message)) (filed_at sample_queued)
     = (filed_at sample_queued, [DeleteMessage ''m1'' ''p1''], Inr None)"
  using lost_claim_drops_message [where env = "contended_at 2000 ''w1''" and vis = 30 and cfg = open_cfg and m = first_message
      and r = sample_queued and n = 5 and st = "filed_at sample_queued" and ref = sample_ref] sample_filed(1)
  by (simp add: contended_at_def sample_fields valid_visibility_def date_range_def named_owner_def value_of_def
      terminal_dispatch_def held_by_another_def has_owner_def first_message_def)

lemma resubmitted_outcome:
  "fst (snd (enqueue open_cfg (quiet_at 3000 ''w0'') (raw_of_task sample_task) (filed_at sample_queued))) = []"
proof -
  have "canonical_task (raw_of_task sample_task) = Inr sample_task" using sample_task_canonical by (simp add: task_canonical_def)
  then obtain a where "enqueue open_cfg (quiet_at 3000 ''w0'') (raw_of_task sample_task) (filed_at sample_queued)
      = (xe_others (quiet_at 3000 ''w0'') 0 (filed_at sample_queued), [], a)"
    using repeated_submission [OF sample_stores_good(1) quiet_at_steps filed_at_ref sample_fields(14) _ sample_task_ref]
    by (metis sample_cfg(1))
  then show ?thesis by simp
qed

lemma sample_first_claim: "queue_step (queue_cfg (\<lambda>_. True)) (filed_at sample_queued) (EvClaim sample_ref 1) (filed_at sample_leased)"
proof (rule step_swap)
  show "program_swap sample_ref (None, 0) (claim_record 2000 2001 30 ''w1'' (snd (None :: string option, 0) + 1) first_message)
      (EvClaim sample_ref 1)"
    using swap_claim [of sample_ref "(None, 0)" 2000 2001 30 "''w1''" first_message] by simp
  have "claim_record 2000 2001 30 ''w1'' 1 first_message sample_queued = Inr sample_leased"
    by (simp add: claim_record_def held_by_another_def has_owner_def sample_fields value_of_def date_range_def
        sample_leased_def leased_record_def)
  moreover have "immutable_identity sample_leased = immutable_identity sample_queued"
    by (simp add: sample_leased_def leased_record_def immutable_identity_def)
  ultimately show "compare_and_swap open_cfg False sample_ref (None, 0)
      (claim_record 2000 2001 30 ''w1'' (snd (None :: string option, 0) + 1) first_message) (filed_at sample_queued)
      = (filed_at sample_leased, Inr (Some sample_leased))"
    using sample_filed(1) by (simp add: swap_Some sample_fields value_of_def)
qed

lemma sample_observed: "observe open_cfg sample_ref (filed_at sample_queued) = Inr (Some sample_queued)"
  using sample_filed(1) sanitize_enqueued [of open_cfg "quiet_at 1000 ''w0''" sample_task]
  by (simp add: observe_def sample_ref_canonical port_get_filed filed_scope sample_queued_def [symmetric])

section \<open>An old message\<close>

text \<open>Of a job that may only read, under a digest of 64 digits.\<close>

definition old_digest :: string where "old_digest = replicate 64 (CHR ''a'')"

definition old_job :: job where
  "old_job = sample_job\<lparr>job_id := ''job-0'', job_prompt := ''look'', job_tenant := Some ''t'', job_requester := ''ann'',
     job_conversation := ''c'', job_provider := Some Codex, job_mode := ReadOnly\<rparr>"

definition old_jobs :: "string \<Rightarrow> job option" where
  "old_jobs i = (if i = ''job-0'' then Some old_job else None)"

definition old_cfg :: dispatch_cfg where
  "old_cfg = (queue_cfg (\<lambda>_. True))\<lparr>dc_sha := (\<lambda>_. old_digest), dc_migration := Some (\<lambda>raw h.
     case resolve_from_jobs (\<lambda>_. old_digest) old_jobs raw h of Inr x \<Rightarrow> x | Inl _ \<Rightarrow> None)\<rparr>"

definition old_record :: legacy_record where
  "old_record = \<lparr>lq_id = ''job-0'', lq_key = ''agent-job:job-0'', lq_hash = old_digest, lq_status = DsQueued,
     lq_task = raw_of_legacy sample_legacy, lq_enqueued = True, lq_dequeues = 0, lq_updated = 10, lq_owner = Missing,
     lq_generation = None, lq_message = Missing, lq_expires = Missing, lq_cancel = Missing, lq_reason = Missing,
     lq_checkpoint = Missing, lq_receipt = Missing, lq_error = Missing, lq_quarantine = Missing\<rparr>"

definition old_env :: dispatch_env where
  "old_env = (quiet_at 1000 ''w1'')\<lparr>xe_legacy := (\<lambda>_. Inr (Some old_record))\<rparr>"

definition old_migrated :: dispatch_task where
  "old_migrated = \<lparr>dt_schema = SchemaTwo, dt_id = ''job-0'', dt_key = ''agent-job:job-0'', dt_tenant = ''t'',
     dt_requester = ''ann'', dt_conversation = ''c'', dt_provider = ''codex'', dt_prompt = ''look'',
     dt_created = ''2025-01-01'', dt_execution = ReadOnlyExecution\<rparr>"

lemma old_texts:
  "canonical_task_id (Is ''job-0'') = Inr ''job-0''" "task_id_text ''job-0''"
  "require_text (Is ''agent-job:job-0'') = Inr ''agent-job:job-0''" "require_legacy_text (Is ''agent-job:job-0'') = Inr ''agent-job:job-0''"
  "require_text (Is ''t'') = Inr ''t''" "require_legacy_text (Is ''t'') = Inr ''t''" "require_legacy_text (Is ''job-0'') = Inr ''job-0''"
  "require_text (Is ''ann'') = Inr ''ann''" "require_legacy_text (Is ''ann'') = Inr ''ann''"
  "require_text (Is ''c'') = Inr ''c''" "require_legacy_text (Is ''c'') = Inr ''c''"
  "require_text (Is ''codex'') = Inr ''codex''" "require_legacy_text (Is ''codex'') = Inr ''codex''"
  "require_text (Is ''look'') = Inr ''look''" "require_legacy_text (Is ''look'') = Inr ''look''"
  "require_text (Is ''2025-01-01'') = Inr ''2025-01-01''" "require_legacy_text (Is ''2025-01-01'') = Inr ''2025-01-01''"
  by code_simp+

lemma old_sizes: "byte_length (task_text old_migrated) \<le> max_task_bytes" "byte_length (legacy_text sample_legacy) \<le> max_task_bytes"
proof -
  have "length (task_text old_migrated) \<le> 400" "length (legacy_text sample_legacy) \<le> 400" by code_simp+
  then show "byte_length (task_text old_migrated) \<le> max_task_bytes" "byte_length (legacy_text sample_legacy) \<le> max_task_bytes"
    using byte_length_twice [of "task_text old_migrated"] byte_length_twice [of "legacy_text sample_legacy"]
    by (simp_all add: max_task_bytes_def)
qed

lemma old_migrated_canonical: "task_canonical old_migrated"
proof -
  have "read_schema (raw_of_task old_migrated) = Inr (dt_schema old_migrated)" by code_simp
  then show ?thesis using old_sizes(1) old_texts by (simp add: task_canonical_iff old_migrated_def)
qed

lemma old_task_migrates: "migrated_task sample_legacy ReadOnlyExecution = Inr old_migrated"
proof -
  have "migrated_task sample_legacy ReadOnlyExecution = canonical_task (raw_of_task old_migrated)"
    by (simp add: migrated_task_def raw_of_legacy_def raw_of_task_def sample_legacy_def old_migrated_def legacy_names_def)
  then show ?thesis using old_migrated_canonical by (simp add: task_canonical_def)
qed

lemma old_legacy_canonical: "canonical_legacy (raw_of_legacy sample_legacy) = Inr sample_legacy"
  using old_sizes(2) old_texts by (simp add: canonical_legacy_def raw_of_legacy_def sample_legacy_def)

lemma old_cfg_facts:
  "dc_parse old_cfg ''old'' = Body (raw_of_legacy sample_legacy)" "rd_schema (raw_of_legacy sample_legacy) = Some 1"
  "dc_migration old_cfg = Some (\<lambda>raw h. case resolve_from_jobs (dc_sha old_cfg) old_jobs raw h of Inr x \<Rightarrow> x | Inl _ \<Rightarrow> None)"
proof -
  have "''old'' \<noteq> task_text sample_task" by (simp add: task_text_def object_text_def)
  then show "dc_parse old_cfg ''old'' = Body (raw_of_legacy sample_legacy)" by (simp add: old_cfg_def sample_parse_def)
qed (simp_all add: old_cfg_def raw_of_legacy_def)

lemma old_cfg_jobs: "old_jobs i = Some j \<Longrightarrow> job_mode j = ReadOnly"
  by (auto simp: old_jobs_def old_job_def split: if_splits)

lemma old_message_resolves:
  "resolve_from_jobs (\<lambda>_. old_digest) old_jobs (raw_of_legacy sample_legacy) old_digest = Inr (Some ReadOnlyExecution)"
proof -
  have "hex_text 64 old_digest" by (simp add: hex_text_def old_digest_def list_all_iff hex_char_def)
  moreover have "job_agrees old_job sample_legacy" by (simp add: job_agrees_def old_job_def sample_legacy_def)
  ultimately show ?thesis
    by (simp add: resolve_from_jobs_def hash_legacy_def old_legacy_canonical old_jobs_def mode_execution_def)
      (simp add: sample_legacy_def old_job_def mode_execution_def)
qed

lemma old_message_decided:
  "decide_migration old_cfg old_env (raw_of_legacy sample_legacy) = Inr (Some old_record, old_migrated)"
proof -
  have "matching_legacy (\<lambda>_. old_digest) old_record (raw_of_legacy sample_legacy) old_digest"
    by (simp add: matching_legacy_def same_value_def old_record_def hash_legacy_def old_legacy_canonical safe_integer_def)
      (simp add: raw_of_legacy_def sample_legacy_def)
  moreover have "rd_id (raw_of_legacy sample_legacy) = Is ''job-0''" "rd_tenant (raw_of_legacy sample_legacy) = Is ''t''"
    "rd_requester (raw_of_legacy sample_legacy) = Is ''ann''" "rd_conversation (raw_of_legacy sample_legacy) = Is ''c''"
    by (simp_all add: raw_of_legacy_def sample_legacy_def)
  ultimately show ?thesis
    by (simp add: decide_migration_def old_cfg_def old_texts hash_legacy_def old_legacy_canonical or_unavailable_def old_env_def
        old_message_resolves old_task_migrates)
qed

lemma old_env_others: "xe_others old_env k st = st"
  by (simp add: old_env_def)

lemma old_message_parses: "\<exists>st' t. parse_message old_cfg old_env ''old'' (\<lambda>_. None) = (st', Inr t)"
proof -
  let ?r = "migrate_record (dc_sha old_cfg) old_record old_migrated"
  have "record_canonical (dc_sha old_cfg) ?r" using old_migrated_canonical by (simp add: record_canonical_def migrate_record_def)
  then have "port_create old_cfg ?r (\<lambda>_. None) = ((\<lambda>_. None)(ref_of_task old_migrated \<mapsto> ?r), Inr True)"
    and filed: "filed (dc_sha old_cfg) (ref_of_task old_migrated) ?r"
    by (simp_all add: port_create_def old_cfg_def migrate_record_def filed_def Let_def)
  moreover have "qr_hash ?r = hash_task (dc_sha old_cfg) old_migrated" "qr_key ?r = dt_key old_migrated"
    by (simp_all add: migrate_record_def)
  ultimately show ?thesis
    by (simp add: parse_message_def old_cfg_facts migrate_legacy_def old_message_decided port_get_def or_unavailable_def
        check_migrated_def filed_scope [OF filed] old_env_others Let_def)
qed

end
