(* ===== verification/Spec2Isabelle.thy ===== *)
theory Spec2Isabelle
  imports AgentSamples CollaborationSamples DispatchSamples
begin

text \<open>
  A verification development for the server of the Teams app: the parts that keep durable state and
  decide who may do what with it. Each theory is the translation of the TypeScript modules it names,
  operation by operation; this theory states the properties of the whole.

  The program. Users of a Teams tenant submit jobs to command line agents. A submission goes through the
  agent service (\<open>src/src/server/agent-service.ts\<close>), which asks the admission controller
  (\<open>agent-admission-controller.ts\<close>) for capacity and puts the job in the job store
  (\<open>agent-job-store.ts\<close>). A job that writes to the workspace waits for the approval of its owner
  (\<open>core-approval-recovery.ts\<close>). Jobs run outside the server: a dispatcher hands them to a queue, or a
  worker pulls them (\<open>pull-worker.ts\<close>); the service observes what the worker reports, merges its tool
  observations (\<open>agent-tool-observation.ts\<close>), sends cards and releases the capacity. The text of a
  completed job is published to its conversation after a preview (\<open>core-result-publication.ts\<close>).
  Cards carry one-time grants for their actions (\<open>genui-action-store.ts\<close>). Work items
  (\<open>work-item-service.ts\<close> on \<open>work-item-store.ts\<close>) are shared within a conversation. Users follow
  projects, goals, topics and work items, and are notified at once or by digest
  (\<open>collaboration-service.ts\<close> on \<open>collaboration-store.ts\<close>). In the hosted deployment jobs become tasks of
  the dispatch queue (\<open>azure-agent-dispatch-queue.ts\<close>): a message carries the task to one of several workers,
  and a durable record decides which of them holds it.

  The theories, in the order of their imports, all for files under \<open>src/src/server\<close> unless another
  directory is given:

  \<^item> HubPrelude: the string functions of JavaScript, \<open>findIndex\<close> and \<open>slice\<close>, sequences of operations that
    throw (\<open>chain\<close>), the contract of a durable store (locale \<open>durable_mutation\<close>), runs of a step relation
    (\<open>steps_of\<close>) and effects that happen at most once (locale \<open>one_shot\<close>).
  \<^item> JobModel: the job record of \<open>agent-job-store.ts\<close> with the types of \<open>shared/core-orchestration.ts\<close>, the
    patches of an update, the validation of receipts, token counts, selections and keys.
  \<^item> ToolObservation: \<open>mergeObservedToolUsage\<close> and the command executions it keeps.
  \<^item> Approval, Publication: the state machines of durable approvals and of result publications.
  \<^item> JobStore, JobLoad: the mutations and readers of the job store with its keyset paging, and its loader.
  \<^item> JobHistory: the mutations as one type of operations, histories of the store, what each keeps.
  \<^item> Admission: reservations with their limits, the journal, reconstruction after a restart.
  \<^item> PullWorker: the ledger of tasks that are leased to pull workers.
  \<^item> ActionGrants: one-time grants.
  \<^item> ModelCatalog: \<open>codex-model-catalog.ts\<close> and \<open>shared/teams-cli-agent-policy.ts\<close>.
  \<^item> AgentService, AgentLifecycle: the agent service in the configuration with an external worker.
    AgentRuns relates every operation to runs of the two stores, AgentSubmission follows a submission,
    AgentFollowUp the walk over ancestors, AgentSoundness carries the invariants of the parts over.
  \<^item> WorkItemStore, WorkItems, WorkItemQueries: work items, their eight operations and their queries;
    WorkItemHistory and WorkItemRuns: histories across restarts.
  \<^item> CalendarDates: the UTC calendar of \<open>Date\<close>, the text \<open>toISOString\<close> gives and its reader.
  \<^item> CollaborationStore, Collaboration, CollaborationQueries: the collaboration store with the two moments
    of a mutation (in memory, then on disk), the seven mutations as requests to it, notifications and
    digests; CollaborationRuns: what an action does and that it validates; CollaborationHistory: turns,
    ends of writes and restarts.
  \<^item> DispatchTask: the tasks of the dispatch queue (\<open>queue/agent-dispatch-queue.ts\<close>), their canonical forms,
    hashes and references, the tasks of the first schema, the cutting of diagnostics to a number of bytes.
    DispatchQueue: the records, the state port with its conditional write
    (\<open>storage/agent-dispatch-state-port.ts\<close>) and every operation of \<open>azure-agent-dispatch-queue.ts\<close>. Each takes
    what others write between two of its accesses as an argument, and returns the store, the calls
    it made to the message service, and its answer. DispatchHistory: the conditional writes as a
    step relation, what they keep of a record, and fencing; DispatchRuns: what an operation does when
    nobody disturbs it, and faults.
  \<^item> Samples, AgentSamples, WorkItemSamples, CollaborationSamples, DispatchSamples: the concrete values of
    the witnesses.

  Conventions. Records are the source's objects with the source's properties; an optional property is an
  option, and a record read from disk has a raw field that is absent, of the wrong type, or a value. Strings
  are lists of code units below 256, on which every pattern of the source is translated. Times are
  milliseconds, where the source stores the canonical ISO text; where it compares such texts, so does the
  model (\<open>iso_text\<close>). The clock, random identifiers, the
  outcome of a write and the answers of a worker are arguments. Copies (\<open>structuredClone\<close>) are equal values.
  SHA-256 of a JSON text is a function of the tuple the text is built from, of which nothing is assumed
  but, where a digest is written and read back, that it is 64 hexadecimal digits. The redaction of texts, the
  check of service URLs, \<open>localeCompare\<close>, \<open>JSON.parse\<close> of a message and the values the record store refuses
  are function arguments. Texts in Korean appear in English.
  An operation that throws is a left value of a sum and leaves the state as the source leaves it. The
  promise chains that serialise operations are the sequence of a run.

  The abstract specifications. \<open>durable_mutation\<close>: a failed operation or write changes nothing, a
  successful one shows its state after it is on disk; the job store and the admission controller are
  instances. \<open>one_shot\<close>: dispatching a job, sending a result, consuming a grant. The admission controller
  refines a multiset of scopes (\<open>usage\<close>), its journal restores its reservations. The agent service refines
  the two stores run beside each other. The dispatch queue is stated against a rely: between two accesses of
  an operation the store changes by any run of the conditional writes the program makes
  (\<open>others_step\<close>), and each operation is again such a run (\<open>dispatch_reaches\<close>).

  The properties, by part: the histories of the job store, its approvals and publications; tool
  observations; admission; pull workers; grants; the loader; work items; the agent service; collaboration;
  the dispatch queue.
  The section before them states further facts of the same parts, among them faults found on the way.

  Bounds and fuel. The walk over ancestors is the only loop of the source translated by a partial function;
  it is proved to return. All other recursions are structural. The limits are those of the source.

  Not modelled. The execution of agents by local runners, sandboxes and child processes; HTTP routes and the
  composition root (\<open>index.ts\<close>); the browser client; connectors to Atlassian, Bitbucket and model providers;
  A2A federation; the file primitives under the stores, which appear as writes that succeed or fail as
  a whole; regular expressions of the redaction; the interleaving of a local reader between the
  steps of one operation.

  Plan. Next the write of the record store with its entity tags and idempotency keys and the retries of
  the state port around it (one atomic conditional write here), the process of the queue worker, the
  process lease, the A2A plan and store.
\<close>

section \<open>Further facts\<close>

text \<open>
  Submission is idempotent: once a request with an idempotency key has created a job, the same
  request repeated creates nothing; the error it gets carries the stored job, so the caller
  resolves the retry to it.
\<close>

theorem resubmission_replays:
  assumes "create_job sha url_ok i new_id uuid now initialized ok st = (st', Inr j)" and "present (ci_key i)"
    and "build_job sha url_ok i other_id other_uuid later = Inr j'"
  shows "create_job sha url_ok i other_id other_uuid later True ok' st' = (st', Inl (ReplayOf j))"
proof -
  obtain b where b: "build_job sha url_ok i new_id uuid now = Inr b"
    "enqueue_mutation initialized ok (insert_job i b) st = (st', Inr j)"
    using assms(1) by (auto simp: create_job_def split: sum.splits)
  then have "j = b" "js_jobs st' = b # js_jobs st"
    by (auto simp: enqueue_mutation_def insert_job_Inr split: if_split_asm sum.splits)
  moreover have "same_key (ci_scope i) (ci_key i) b" "job_hash b = ci_hash i"
    using build_job_fields [OF b(1)] assms(2) by (auto simp: same_key_def)
  ultimately show ?thesis
    using assms(2,3) by (simp add: create_job_def enqueue_mutation_def insert_job_def)
qed

theorem resubmission_replays_witness:
  "create_job (h_sha sample_host) (h_url sample_host) sample_input ''j1'' uuid_a 100 True False sample_store
     = (sample_store, Inl (ReplayOf sample_job))"
  by (rule resubmission_replays [where st = "\<lparr>js_jobs = [], js_disk = []\<rparr>" and ok = True and initialized = True
        and new_id = "''j1''" and uuid = uuid_a and now = 100, OF _ _ sample_job_built])
    (simp_all add: create_job_def sample_job_built enqueue_mutation_def insert_job_def sample_store_def present_def)

text \<open>
  No two jobs of one scope ever carry the same idempotency key.
\<close>

theorem keys_stay_unique:
  assumes "steps_of (store_step h) st evs st'" and "keys_unique (js_jobs st)"
    and "i < length (js_jobs st')" and "k < length (js_jobs st')" and "present key"
    and "same_key sc key (js_jobs st' ! i)" and "same_key sc key (js_jobs st' ! k)"
  shows "i = k"
  using keys_uniqueD [OF store_steps_keys [OF assms(1,2)] assms(3-7)] .

theorem keys_stay_unique_witness: "(0::nat) = 0 \<and> same_key sample_scope (Some ''k1'') (js_jobs decided_store ! 0)"
  using keys_stay_unique [OF sample_decision_run, of 0 0 "Some ''k1''" sample_scope]
  by (simp add: sample_store_def decided_store_def sample_decision_def keys_unique_def same_key_def matches_scope_def
      sample_defs present_def)

text \<open>
  A cursor stays valid while new jobs are created: the page behind it is the same one.
\<close>

theorem pages_are_stable:
  assumes "pq_cursor q = Some c" and "create_job sha url_ok i new_id uuid now True ok st = (st', Inr j)"
    and "new_id \<noteq> cu_after c"
  shows "list_page p q (js_jobs st') = list_page p q (js_jobs st)"
proof -
  obtain b where b: "build_job sha url_ok i new_id uuid now = Inr b"
    "enqueue_mutation True ok (insert_job i b) st = (st', Inr j)"
    using assms(2) by (auto simp: create_job_def split: sum.splits)
  then have "js_jobs st' = [b] @ js_jobs st"
    by (auto simp: enqueue_mutation_def insert_job_Inr split: if_split_asm sum.splits)
  then show ?thesis
    using list_page_insert [OF assms(1), of "[b]"] build_job_id [OF b(1)] assms(3) by simp
qed

theorem pages_are_stable_witness:
  "list_page sample_principal (sample_page\<lparr>pq_cursor := Some (encode_cursor ''j2'')\<rparr>) (js_jobs \<lparr>js_jobs = [sample_job, read_only_job], js_disk = [sample_job, read_only_job]\<rparr>)
   = list_page sample_principal (sample_page\<lparr>pq_cursor := Some (encode_cursor ''j2'')\<rparr>) (js_jobs \<lparr>js_jobs = [read_only_job], js_disk = [read_only_job]\<rparr>)"
  by (rule pages_are_stable [where c = "encode_cursor ''j2''" and i = sample_input and new_id = "''j1''" and uuid = uuid_a
        and now = 100 and ok = True and sha = "h_sha sample_host" and url_ok = "h_url sample_host" and j = sample_job])
    (simp_all add: encode_cursor_def create_job_def sample_job_built enqueue_mutation_def insert_job_def
      same_key_def matches_scope_def read_only_job_def initial_job_def present_def)

text \<open>
  After a restart, recovery of a valid store whose timestamps lie in the past succeeds and
  leaves no job queued or running, and keeps every other job as it was.
\<close>

theorem recovery_completes:
  assumes "date_range now" and "\<forall>j \<in> set jobs. job_valid sha j \<and> job_created j \<le> now
      \<and> (\<forall>a \<in> set_option (job_approval j). \<forall>d \<in> set_option (ap_decided a). d \<le> now)"
  shows "\<exists>jobs'. recover_interrupted sha now jobs = Inr (jobs', ())
    \<and> (\<forall>u \<in> set jobs'. job_status u \<noteq> JQueued \<and> job_status u \<noteq> JRunning)
    \<and> list_all2 (\<lambda>j u. if job_status j = JQueued \<or> job_status j = JRunning
        then job_status u = JFailed \<and> job_error u = Some interrupted_text \<and> job_extends j u else u = j) jobs jobs'"
proof -
  have "\<forall>j \<in> set jobs. \<exists>u. recover_job sha now j = Inr u"
    using assms recover_job_succeeds by blast
  then obtain jobs' where js: "map_throw (recover_job sha now) jobs = Inr jobs'"
    using map_throw_succeeds by blast
  have "list_all2 (\<lambda>j u. if job_status j = JQueued \<or> job_status j = JRunning
        then job_status u = JFailed \<and> job_error u = Some interrupted_text \<and> job_extends j u else u = j) jobs jobs'"
    using map_throw_all2 [OF js] by (rule list_all2_mono) (use recover_job_shape in auto)
  moreover have "job_status u \<noteq> JQueued \<and> job_status u \<noteq> JRunning" if u: "u \<in> set jobs'" for u
  proof -
    obtain j where "recover_job sha now j = Inr u" using map_throw_mem [OF js u] by blast
    from recover_job_shape [OF this] show ?thesis by (auto split: if_split_asm)
  qed
  ultimately show ?thesis using js by (auto simp: recover_interrupted_def)
qed

theorem recovery_completes_witness:
  "\<exists>jobs'. recover_interrupted (h_sha sample_host) 500 [read_only_job] = Inr (jobs', ())
    \<and> (\<forall>u \<in> set jobs'. job_status u \<noteq> JQueued \<and> job_status u \<noteq> JRunning)
    \<and> list_all2 (\<lambda>j u. if job_status j = JQueued \<or> job_status j = JRunning
        then job_status u = JFailed \<and> job_error u = Some interrupted_text \<and> job_extends j u else u = j) [read_only_job] jobs'"
  by (rule recovery_completes) (simp_all add: date_range_def job_valid_def sample_defs)

text \<open>
  What is sent is what the owner previewed and confirmed: the claim names the operation and the
  revision of the stored preview of the owner's completed job, and the text it returns is the
  rendering of the job's current result, whose digest is the previewed one.
\<close>

theorem sent_text_was_previewed:
  assumes "store_step h st (OpClaim i p operation rvn now, Inr (RClaim (Some c))) st'" and "cl_send c"
  shows "\<exists>j \<in> set (js_jobs st). \<exists>q text. job_id j = i \<and> matches_principal j p \<and> job_status j = JCompleted
    \<and> job_publication j = Some q \<and> pub_state q = PubPreview \<and> pub_operation q = operation
    \<and> pub_result_revision q = rvn \<and> job_result j = Some text \<and> cl_text c = render_text text
    \<and> dg_text (h_digests h) (cl_text c) = pub_text_digest q
    \<and> dg_revision (h_digests h) (job_id j, dg_result (h_digests h) text, job_finished j) = rvn"
  using assms(1)
proof (cases rule: store_step_cases)
  case (committed v)
  then have "mutate_publication (h_url h) i p (claim_reducer (h_digests h) (h_url h) p operation rvn now) (js_jobs st)
      = Inr (js_jobs st', Some c)"
    by (auto split: if_split_asm)
  then obtain k q' where k: "k < length (js_jobs st)" "job_id (js_jobs st ! k) = i" "matches_principal (js_jobs st ! k) p"
    and red: "claim_reducer (h_digests h) (h_url h) p operation rvn now (js_jobs st ! k) = Inr (q', c)"
    by (rule mutate_publication_Some)
  from claim_reducer_sends [OF red assms(2)] show ?thesis using k nth_mem [OF k(1)] by blast
qed simp

theorem sent_text_was_previewed_witness:
  "\<exists>j \<in> set (js_jobs published_store). \<exists>q text. job_id j = ''j2'' \<and> matches_principal j sample_principal
    \<and> job_status j = JCompleted \<and> job_publication j = Some q \<and> pub_state q = PubPreview
    \<and> pub_operation q = ''publication-'' @ uuid_a
    \<and> pub_result_revision q = hex64 \<and> job_result j = Some text \<and> cl_text sample_claim = render_text text
    \<and> dg_text (h_digests sample_host) (cl_text sample_claim) = pub_text_digest q
    \<and> dg_revision (h_digests sample_host) (job_id j, dg_result (h_digests sample_host) text, job_finished j) = hex64"
  by (rule sent_text_was_previewed [OF sample_claim_step [unfolded sample_claim_event_def]])
    (simp add: sample_claim_def)

text \<open>
  The rendered text is a prefix of the result that with its notice fits 24,000 bytes; it is cut
  exactly when the result does not fit, and then the first character left out would not have
  fitted.
\<close>

theorem rendered_text_fits:
  "rendered_bytes (render_text s) \<le> max_bytes \<and> snd (render_text s) = (max_bytes < byte_length s)
   \<and> (\<exists>rest. s = fst (render_text s) @ rest
        \<and> (rest = [] \<or> max_bytes < rendered_bytes (render_text s) + utf8_size (hd rest)))"
proof (cases "byte_length s \<le> max_bytes")
  case True
  then show ?thesis by (simp add: render_text_def rendered_bytes_def)
next
  case False
  let ?b = "max_bytes - notice_bytes"
  have nb: "notice_bytes \<le> max_bytes" by (simp add: notice_bytes_def max_bytes_def)
  obtain rest where r: "s = take_bytes ?b 0 s @ rest" using take_bytes_prefix by blast
  have "rest = [] \<or> ?b < byte_length (take_bytes ?b 0 s) + utf8_size (hd rest)"
  proof (cases rest)
    case (Cons c zs)
    then show ?thesis using take_bytes_maximal [of s ?b 0 c zs] r by simp
  qed simp
  moreover have "byte_length (take_bytes ?b 0 s) \<le> ?b" using take_bytes_bound [of 0 ?b s] by simp
  ultimately show ?thesis
    using False r nb unfolding render_text_def rendered_bytes_def by (auto intro!: exI [of _ rest])
qed

text \<open>
  The merged tool usage of a job has at most 32 entries with names of at most 120 characters, no
  two of which describe the same execution or the same tool, and merging in what is observed
  later keeps the entries already there in their places.
\<close>

theorem tool_usage_is_bounded:
  "merge_ok (merge_tools redact existing incoming)
   \<and> (\<exists>zs. map slot (merge_tools redact existing incoming) = map slot (merge_tools redact existing []) @ zs)"
  using merge_tools_ok merge_fold_prefix [of redact incoming] by (simp add: merge_tools_def)

text \<open>
  A reservation is granted exactly when admission is open and the requester, its tenant and the
  process each have room for one more; otherwise the state is unchanged.
\<close>

theorem admission_granted_iff:
  "((\<exists>s' tok. try_acquire lim sc uuid s = Inr (s', Inr tok)) \<longleftrightarrow>
      \<not> ad_closing s \<and> snapshot_requesters s sc < lm_requester lim
      \<and> snapshot_tenants s (as_tenant sc) < lm_tenant lim \<and> length (ad_res s) < lm_global lim)
   \<and> ((\<exists>s' tok. try_acquire lim sc uuid s = Inr (s', Inr tok)) \<or> (\<exists>rj. try_acquire lim sc uuid s = Inr (s, Inl rj)))"
  by (auto simp: try_acquire_def snapshot_tenants_def snapshot_requesters_def)

text \<open>
  The index from jobs to leases and the leases agree through every history: a job's token names
  the one live reservation that is bound to that job.
\<close>

theorem job_index_is_exact:
  assumes "steps_of (adm_step lim) c evs c'" and "adm_inv (adm_live c)"
  shows "token_of_job jid (adm_live c') = Some tok
    \<longleftrightarrow> (\<exists>r. map_of (ad_res (adm_live c')) tok = Some r \<and> rs_job r = Some jid)"
proof -
  have inv: "adm_inv (adm_live c')" using adm_steps_inv [OF assms] .
  then have "linked (map_of (ad_res (adm_live c'))) (ad_jobs (adm_live c'))" by (simp add: adm_inv_def)
  from linkedD(1,2) [OF this] show ?thesis
    unfolding token_of_job_inv [OF inv] by blast
qed

theorem job_index_is_exact_witness:
  "token_of_job ''j1'' (adm_live one_admission) = Some ''x''
    \<longleftrightarrow> (\<exists>r. map_of (ad_res (adm_live one_admission)) ''x'' = Some r \<and> rs_job r = Some ''j1'')"
  by (rule job_index_is_exact [OF sample_admission_run])
    (simp add: start_admission_def empty_admission_inv)

text \<open>
  After a restart every active job of the job store holds a bound reservation in its owner's
  name, and no reservation of a job that is not active stays bound.
\<close>

theorem restart_reconciles:
  assumes "adm_inv s" and "distinct (map rc_id records)" and "reconstruct records retry now s = Inr (s', v)"
  shows "adm_inv s' \<and> (\<forall>rc \<in> set records. record_ok rc \<longrightarrow> covered rc s') \<and> bound_within (active_ids records) s'"
  using reconstruct_inv [OF assms] reconstruct_bound [OF assms(1,3)] by blast

theorem restart_reconciles_witness:
  "covered \<lparr>rc_id = ''j1'', rc_tenant = ''t1'', rc_requester = ''ann'', rc_status = JRunning\<rparr>
     (reconstruct_one \<lparr>rc_id = ''j1'', rc_tenant = ''t1'', rc_requester = ''ann'', rc_status = JRunning\<rparr> empty_admission)"
proof -
  let ?rc = "\<lparr>rc_id = ''j1'', rc_tenant = ''t1'', rc_requester = ''ann'', rc_status = JRunning\<rparr>"
  have "adm_inv (reconstruct_one ?rc empty_admission)
   \<and> (\<forall>rc \<in> set [?rc]. record_ok rc \<longrightarrow> covered rc (reconstruct_one ?rc empty_admission))
   \<and> bound_within (active_ids [?rc]) (reconstruct_one ?rc empty_admission)"
    by (rule restart_reconciles [where s = empty_admission and retry = 30000 and now = 0 and v = "()"])
      (rule empty_admission_inv(1), simp_all add: reconstruct_def empty_admission_def)
  moreover have "record_ok ?rc" by code_simp
  ultimately show ?thesis by simp
qed

text \<open>
  A job is started under one lease only: any two successful starts of the same job in a history,
  however far apart and whatever expired in between, named the same lease.
\<close>

theorem started_under_one_lease:
  assumes "steps_of (pull_step h) st evs st'" and "pull_inv (ps_live st)" and "i < k" and "k < length evs"
    and "evs ! i = (n1, PoBegin w1 jid l1, Inr v1)" and "evs ! k = (n2, PoBegin w2 jid l2, Inr v2)"
  shows "l1 = l2"
  using pull_one_lease [OF assms] .

theorem started_under_one_lease_witness: "''l1'' = ''l1'' \<and> steps_of (pull_step sample_pull_host) pull_leased
  [(10, PoBegin ann_worker ''j1'' ''l1'', Inr (AnClaim (Some (claim_for (ann_record PLeased (Some ''l1'') (Some 1000) None))))),
   (10, PoBegin ann_worker ''j1'' ''l1'', Inr (AnClaim (Some (claim_for (ann_record PRunning (Some ''l1'') (Some 1010) None)))))]
  pull_running"
proof -
  have again: "pull_step sample_pull_host pull_running (10, PoBegin ann_worker ''j1'' ''l1'',
     Inr (AnClaim (Some (claim_for (ann_record PRunning (Some ''l1'') (Some 1010) None))))) pull_running"
  proof (rule pull_step.pull_queued)
    have "owned_record sample_pull_host ann_worker ''j1'' ''l1'' [ann_record PRunning (Some ''l1'') (Some 1010) None] = Inr 0"
      by (simp add: owned_record_def lease_ref_ok_def identifier_text_def code_unit_def record_of_job_def same_owner_def
          sample_pull_defs)
    then show "transaction False 10 True (exec_pull sample_pull_host 10 (PoBegin ann_worker ''j1'' ''l1'')) pull_running
        = (pull_running, Inr (AnClaim (Some (claim_for (ann_record PRunning (Some ''l1'') (Some 1010) None)))))"
      by (simp add: transaction_def pull_write_def pull_at_def expire_record_def pull_begin_def active_record_def
          ann_record_def claim_for_def sample_pull_host_def)
  qed
  have run: "steps_of (pull_step sample_pull_host) pull_leased
  [(10, PoBegin ann_worker ''j1'' ''l1'', Inr (AnClaim (Some (claim_for (ann_record PLeased (Some ''l1'') (Some 1000) None))))),
   (10, PoBegin ann_worker ''j1'' ''l1'', Inr (AnClaim (Some (claim_for (ann_record PRunning (Some ''l1'') (Some 1010) None)))))]
  pull_running"
    using ann_begins again by auto
  show ?thesis
    by (intro conjI run started_under_one_lease [OF run pull_leased_inv, of 0 1]) simp_all
qed

text \<open>
  A task in the ledger is never altered or lost: its request and digest stay, a cancellation
  mark stays, a started one is never queued again and keeps its lease, and a finished record
  never changes.
\<close>

theorem pull_records_evolve:
  assumes "steps_of (pull_step h) st evs st'" and "pull_inv (ps_live st)" and "r \<in> set (ps_live st)"
  shows "\<exists>r' \<in> set (ps_live st'). pw_task r' = pw_task r \<and> pw_hash r' = pw_hash r \<and> (pw_cancel r \<longrightarrow> pw_cancel r')
    \<and> (pull_terminal (pw_state r) \<longrightarrow> r' = r)
    \<and> (pw_state r = PRunning \<or> pw_state r = PQuarantined \<longrightarrow>
        pw_state r' \<noteq> PQueued \<and> pw_state r' \<noteq> PLeased \<and> pw_lease r' = pw_lease r)"
  using pull_steps_evolves [OF assms]
  by (auto simp: record_evolves_def begun_def pull_terminal_def)

theorem pull_records_evolve_witness:
  "\<exists>r' \<in> set (ps_live pull_done). pw_task r' = ann_task \<and> pw_state r' \<noteq> PQueued \<and> pw_lease r' = Some ''l1''"
proof -
  have inv: "pull_inv (ps_live pull_running)" using pull_step_inv [OF ann_begins pull_leased_inv] .
  show ?thesis
    using pull_records_evolve [OF steps_one [where step = "pull_step sample_pull_host", OF ann_finishes] inv,
        of "ann_record PRunning (Some ''l1'') (Some 1010) None"]
    by (auto simp: pull_at_def ann_record_def)
qed

text \<open>
  A worker's report of an outcome that is accepted is recorded for good under its lease: the
  record is final and its result has the digest of what was reported.
\<close>

theorem finish_is_recorded:
  assumes "pull_step h st (now, PoFinish w jid lease x, Inr v) st'" and "pull_inv (ps_live st)"
  shows "\<exists>r \<in> set (ps_live st'). pt_job (pw_task r) = jid \<and> pw_lease r = Some lease \<and> same_owner h w r
    \<and> pull_terminal (pw_state r) \<and> (\<exists>y. pw_result r = Some y \<and> ph_result_hash h y = ph_result_hash h x)"
  using finish_effect [OF assms] .

theorem finish_is_recorded_witness:
  "\<exists>r \<in> set (ps_live pull_done). pt_job (pw_task r) = ''j1'' \<and> pw_lease r = Some ''l1''
    \<and> same_owner sample_pull_host ann_worker r \<and> pull_terminal (pw_state r)
    \<and> (\<exists>y. pw_result r = Some y \<and> ph_result_hash sample_pull_host y = ph_result_hash sample_pull_host done_result)"
  by (rule finish_is_recorded [OF ann_finishes pull_step_inv [OF ann_begins pull_leased_inv]])

text \<open>
  A consumption succeeds exactly when the store holds an unconsumed grant for the token that has
  not expired and was issued for the same action, entity, correlation, conversation, requester
  and tenant.
\<close>

theorem grant_consumed_iff:
  assumes "distinct (map gr_hash (gst_live st))" and "consumable_input token i"
  shows "(\<exists>st' x. consume hash ttl token i now True st = (st', Inr (Inr x)))
    \<longleftrightarrow> (\<exists>g \<in> set (gst_live st). gr_hash g = hash token \<and> gr_consumed g = None \<and> now < gr_expires g \<and> gr_scope g = i)"
proof -
  have "(\<exists>st' x. consume hash ttl token i now True st = (st', Inr (Inr x)))
      \<longleftrightarrow> (\<exists>gs' x. consume_grant hash ttl token i now (gst_live st) = Inr (gs', Inr x))"
    using assms(2) by (auto simp: consume_def grant_commit_def split: sum.splits)
  then show ?thesis using consume_ok_iff [OF assms(1)] by simp
qed

theorem grant_consumed_iff_witness:
  "(\<exists>st' x. consume (\<lambda>_. hex64) 1000 ''tok'' sample_grant_scope 10 True (fst (grant_at sample_grant)) = (st', Inr (Inr x)))
    \<longleftrightarrow> (\<exists>g \<in> set (gst_live (fst (grant_at sample_grant))). gr_hash g = hex64 \<and> gr_consumed g = None \<and> 10 < gr_expires g
       \<and> gr_scope g = sample_grant_scope)"
  by (rule grant_consumed_iff) (simp_all add: grant_at_def consumable_input_def sample_grant_texts)

text \<open>
  Grants survive a restart: a valid stored list is read back as it was written, so a consumed
  grant stays consumed, and only the grants whose time is over are dropped.
\<close>

theorem grants_survive_restart:
  assumes "\<forall>g \<in> set gs. grant_valid g" and "distinct (map gr_hash gs)"
  shows "parse_grants [] (map raw_of_grant gs) = Inr (gs, 0)
    \<and> (\<forall>g \<in> set gs. \<forall>c. gr_consumed g = Some c \<longrightarrow> gr_expires g \<le> c + ttl \<longrightarrow> cutoff < gr_expires g
        \<longrightarrow> g \<in> set (prune_grants cutoff ttl gs))"
  using parse_grants_saved [OF assms, of "[]"] prune_keeps_consumed by (auto simp: prune_grants_def)

theorem grants_survive_restart_witness:
  "parse_grants [] (map raw_of_grant [sample_grant]) = Inr ([sample_grant], 0)"
proof -
  have "parse_grants [] (map raw_of_grant [sample_grant]) = Inr ([sample_grant], 0)
    \<and> (\<forall>g \<in> set [sample_grant]. \<forall>c. gr_consumed g = Some c \<longrightarrow> gr_expires g \<le> c + 1000 \<longrightarrow> 5 < gr_expires g
        \<longrightarrow> g \<in> set (prune_grants 5 1000 [sample_grant]))"
    using sample_grant_texts hex64_ok
    by (intro grants_survive_restart) (simp_all add: grant_valid_def sample_grant_def date_range_def)
  then show ?thesis ..
qed

text \<open>
  The store accepts a text that its own loader refuses: an update with an error text of more
  than 10,000 characters succeeds, but the written record no longer loads, whatever the other
  records are.
\<close>

theorem oversized_error_blocks_restart:
  assumes "update_job sha j [PError (Some e)] now = Inr u" and "job_tenant j \<noteq> None" and "10000 < length e"
  shows "\<exists>fault. load_jobs sha url_ok redact lp (Is (before @ Is (raw_of_job u) # after)) = Inl fault"
proof -
  have u: "job_error u = Some e" "job_tenant u \<noteq> None"
    using assms(1,2) by (auto elim!: update_job_Inr)
  have "load_jobs sha url_ok redact lp (Is (before @ Is (raw_of_job u) # after)) \<noteq> Inr r" for r
    using load_jobs_bad [OF u(2) _ ] u(1) assms(3) by (cases r) (auto simp: opt_ok_def text_ok_def)
  then show ?thesis by (metis obj_sumE)
qed

theorem oversized_error_blocks_restart_witness:
  "\<exists>fault. load_jobs (h_sha sample_host) (h_url sample_host) (h_redact sample_host) None
     (Is ([] @ Is (raw_of_job (failed_read_only (replicate 10001 (CHR ''x'')))) # [])) = Inl fault"
  by (rule oversized_error_blocks_restart [OF failed_read_only_update])
    (simp_all add: read_only_job_def initial_job_def)

text \<open>
  No history of commands and restarts loses a work item or rewrites its past: an item lives on
  under its id with the same tenant, conversation, creator, link, linked job and creation time,
  its comments are only appended to, and once it is deleted it stays deleted.
\<close>

theorem work_items_are_kept:
  assumes "steps_of wi_step st evs st'" and "wi_good st" and "i \<in> set (wt_items st)"
  shows "\<exists>u \<in> set (wt_items st'). wi_id u = wi_id i \<and> wi_tenant u = wi_tenant i
    \<and> wi_conversation u = wi_conversation i \<and> wi_creator u = wi_creator i \<and> wi_link u = wi_link i
    \<and> wi_job u = wi_job i \<and> wi_created u = wi_created i \<and> (\<exists>cs. wi_comments u = wi_comments i @ cs)
    \<and> (wi_deleted i \<noteq> None \<longrightarrow> wi_deleted u = wi_deleted i)"
  using wi_steps_extend [OF assms(1,2)] assms(3) unfolding wi_extends_def item_evolves_def by blast

theorem work_items_are_kept_witness:
  "\<exists>u \<in> set (wt_items wi_unwatched). wi_id u = wi_id watched_item \<and> wi_creator u = ''ann''"
  using work_items_are_kept [OF steps_one [where step = wi_step, OF wi_step_run [OF unwatch_runs]] wi_watched_good,
      of watched_item]
  by (auto simp: wi_watched_def watched_item_def ship_item_def)

text \<open>
  Only a command from an item's own tenant and conversation changes it. Commenting and
  unwatching need a requester who sees the item, editing, changing the status, assigning and
  deleting one who created it or has it assigned; watching alone is open to everyone in the
  conversation.
\<close>

theorem item_changes_are_authorised:
  assumes "c \<in> set (wt_items st)" and "c \<notin> set (wt_items (fst (exec_wi env raw cmd st)))"
  shows "\<exists>sc. normalize_wi_scope raw = Inr sc \<and> same_conversation sc c
    \<and> ((\<exists>iid k. cmd = CmdWatch iid k) \<or> visible_to (ws_requester sc) c)
    \<and> ((\<exists>iid k. cmd = CmdWatch iid k) \<or> (\<exists>iid k. cmd = CmdUnwatch iid k) \<or> (\<exists>iid k b. cmd = CmdComment iid k b)
       \<or> wi_creator c = ws_requester sc \<or> wi_assignee c = Some (ws_requester sc))"
proof -
  obtain sc where "normalize_wi_scope raw = Inr sc" "same_conversation sc c"
    "(\<exists>iid k. cmd = CmdWatch iid k) \<or> visible_to (ws_requester sc) c"
    "(\<exists>iid k. cmd = CmdWatch iid k) \<or> (\<exists>iid k. cmd = CmdUnwatch iid k) \<or> (\<exists>iid k b. cmd = CmdComment iid k b)
       \<or> can_manage (ws_requester sc) c"
    using assms by (rule exec_changes)
  then show ?thesis unfolding can_manage_def by blast
qed

theorem item_changes_are_authorised_witness:
  "\<exists>sc. normalize_wi_scope wi_bob = Inr sc \<and> same_conversation sc watched_item
    \<and> visible_to (ws_requester sc) watched_item"
proof -
  have "watched_item \<in> set (wt_items wi_watched)"
    "watched_item \<notin> set (wt_items (fst (exec_wi (wi_env_at 9) wi_bob (CmdUnwatch ship_id ''u1'') wi_watched)))"
    unfolding unwatch_runs by (simp_all add: wi_watched_def wi_unwatched_def watched_item_def unwatched_item_def ship_item_def)
  from item_changes_are_authorised [OF this] show ?thesis by auto
qed

text \<open>
  A search answers exactly the items of the requester's conversation that the requester may see
  and that match the query, each once, the last active first, cut at the limit.
\<close>

theorem search_is_exact:
  assumes "wi_good st" and "normalize_wi_scope raw = Inr sc" and "normalize_query q = Inr n" and "consistent loc"
  shows "\<exists>full. wi_search loc raw q (wt_items st) = Inr (take (nq_limit n) full) \<and> distinct full
    \<and> set full = {i \<in> set (wt_items st). same_conversation sc i \<and> visible_to (ws_requester sc) i \<and> matches_query n i}
    \<and> sorted_wrt (\<lambda>a b. seq_of b \<le> seq_of a) full"
proof -
  have "distinct (map wi_id (wt_items st))" using assms(1) by (simp add: wi_good_def)
  with assms(2-4) obtain full where "wi_search loc raw q (wt_items st) = Inr (take (nq_limit n) full)" "distinct full"
    "set full = {i \<in> set (wt_items st). same_conversation sc i \<and> visible_to (ws_requester sc) i \<and> matches_query n i}"
    "sorted_wrt (\<lambda>a b. compare_updated loc a b \<le> 0) full"
    by (rule wi_search_result)
  moreover from this(4) have "sorted_wrt (\<lambda>a b. seq_of b \<le> seq_of a) full"
    by (rule sorted_wrt_mono_rel [rotated]) (rule seq_of_first [OF assms(4)])
  ultimately show ?thesis by blast
qed

theorem search_is_exact_witness:
  "\<exists>full. wi_search (\<lambda>_ _. 0) wi_bob no_query (wt_items wi_watched) = Inr (take 100 full) \<and> set full = {watched_item}"
proof -
  have n: "normalize_query no_query = Inr \<lparr>nq_text = None, nq_statuses = None, nq_assignee = None, nq_watcher = None,
      nq_labels = None, nq_from = None, nq_to = None, nq_limit = 100\<rparr>" (is "_ = Inr ?n")
    by (simp add: normalize_query_def no_query_def optionally_def range_refused_def or_else_def normalize_limit_def)
  have c: "consistent (\<lambda>_ _. 0 :: int)" by (simp add: consistent_def)
  have "{i \<in> set (wt_items wi_watched). same_conversation wi_bob i \<and> visible_to (ws_requester wi_bob) i \<and> matches_query ?n i}
      = {watched_item}"
    by (auto simp: wi_watched_def same_conversation_def visible_to_def wi_bob_def watched_item_def ship_item_def
        matches_query_def matches_text_def due_from_def due_to_def)
  with search_is_exact [OF wi_watched_good wi_scopes_normal(2) n c] show ?thesis by auto
qed

text \<open>
  The calendar between two dates, of which at least one is given, lists the items a search by
  due date between the same dates finds: before the limit cuts them, both show the same items
  the same number of times, in their own orders.
\<close>

theorem calendar_lists_what_search_finds:
  assumes "normalize_wi_scope raw = Inr sc" and "optionally normalize_date a = Inr x"
    and "optionally normalize_date b = Inr y" and "\<not> range_refused x y"
    and "normalize_limit (or_else limit 100) = Inr n" and "a \<noteq> None \<or> b \<noteq> None"
  shows "\<exists>found listed. wi_search loc raw (no_query\<lparr>qy_from := a, qy_to := b, qy_limit := limit\<rparr>) items = Inr (take n found)
    \<and> wi_calendar loc raw a b limit items = Inr (take n listed)
    \<and> (\<forall>i. count_list listed i = count_list found i)"
  using calendar_search [OF assms, of loc items] by metis

theorem calendar_lists_what_search_finds_witness:
  "\<exists>found listed. wi_search (\<lambda>_ _. 0) wi_ann (no_query\<lparr>qy_from := Some ''2024-02-29'', qy_to := None, qy_limit := None\<rparr>)
      [ship_item\<lparr>wi_due := Some ''2024-03-01''\<rparr>] = Inr (take 100 found)
    \<and> wi_calendar (\<lambda>_ _. 0) wi_ann (Some ''2024-02-29'') None None [ship_item\<lparr>wi_due := Some ''2024-03-01''\<rparr>]
      = Inr (take 100 listed) \<and> (\<forall>i. count_list listed i = count_list found i)"
proof -
  have d: "normalize_date ''2024-02-29'' = Inr ''2024-02-29''" by code_simp
  show ?thesis
    by (rule calendar_lists_what_search_finds [OF wi_scopes_normal(1), where x = "Some ''2024-02-29''" and y = None])
      (simp_all add: optionally_def d range_refused_def or_else_def normalize_limit_def)
qed

text \<open>
  The retry of an unwatch by someone who only watched the item is refused as not found, although
  its first run succeeded and its result is recorded under the key: the check that precedes the
  recorded answer looks for an item the requester no longer sees (deleting, which hides an item
  too, looks it up in the whole conversation instead).
\<close>

theorem unwatch_retry_is_refused:
  assumes "normalize_wi_scope raw = Inr sc" and "normalize_target iid mkey = Inr (i, k)"
    and "wi_unwatch env raw iid mkey st = (st', Inr r)" and "wi_good st'"
    and "wi_creator r \<noteq> ws_requester sc" "wi_assignee r \<noteq> Some (ws_requester sc)"
    and "\<exists>c. wi_get sc i (wt_items st) = Some c \<and> ws_requester sc \<in> set (wi_watchers c)"
    and "find_mutation sc k (wt_mutations st) = None"
  shows "wi_unwatch env' raw iid mkey st' = (st', Inl (WiNotFound i))"
  using unwatch_replay [of raw sc iid mkey i k env st st' r env'] assms by simp

theorem unwatch_retry_is_refused_witness:
  "wi_unwatch (wi_env_at 10) wi_bob ship_id ''u1'' wi_unwatched = (wi_unwatched, Inl (WiNotFound ship_id))"
proof (rule unwatch_retry_is_refused [OF wi_scopes_normal(2) unwatch_target])
  show run: "wi_unwatch (wi_env_at 9) wi_bob ship_id ''u1'' wi_watched = (wi_unwatched, Inr unwatched_item)"
    using unwatch_runs by simp
  show "wi_good wi_unwatched"
    using exec_wi_good [OF wi_watched_good, of "wi_env_at 9" wi_bob "CmdUnwatch ship_id ''u1''"] unwatch_runs by simp
  show "\<exists>c. wi_get wi_bob ship_id (wt_items wi_watched) = Some c \<and> ws_requester wi_bob \<in> set (wi_watchers c)"
    by (simp add: wi_get_def wi_watched_def watched_item_def ship_item_def same_conversation_def visible_to_def wi_bob_def)
qed (simp_all add: unwatched_item_def ship_item_def wi_bob_def find_mutation_def wi_watched_def)

text \<open>
  The submission accepts prompts the loader of the store refuses: the check of the prompt leaves
  out the control characters 128 to 159, which the loader rejects, so a submitted prompt that
  contains one is stored and from then on no restart can load the store.
\<close>

theorem control_prompt_blocks_restart:
  assumes "fresh_env en s" and "ad_jobs (adm_live (sv_adm s)) (en_job_id en) = None" and "sv_writes s = []"
    and "submit_once cf en x s = (s', Inr j)" and "c \<in> set (js_trim (si_prompt x))"
    and "128 \<le> code_unit c" and "code_unit c \<le> 159" and "sha_hex cf" and "store_good (sv_jobs s)"
  shows "load_jobs sha url_ok redact lp (Is (map (Is \<circ> raw_of_job) (js_disk (sv_jobs s')))) \<noteq> Inr (jobs, m)"
proof -
  have c: "text_control c" using assms(6,7) by (simp add: text_control_def)
  have kept: "jobs_of s' = j # jobs_of s" "job_tenant j \<noteq> None" "list_ex text_control (job_prompt j)"
    using control_prompt_kept [OF assms(1-5) c] by auto
  have "svc_rel cf True s s'" using specD [OF spec_submit [OF assms(8)] assms(1)] assms(4) by (metis fst_conv)
  then have "js_disk (sv_jobs s') = jobs_of s'"
    using svc_rel_good assms(9) by (auto simp: store_good_def jobs_of_def)
  then show ?thesis
    using load_jobs_refuses [of sha url_ok redact lp j "[]", OF load_job_control_prompt [OF kept(2,3)]] kept(1) by simp
qed

theorem control_prompt_blocks_restart_witness:
  "load_jobs (h_sha sample_host) (h_url sample_host) (h_redact sample_host) None
     (Is (map (Is \<circ> raw_of_job) (js_disk (sv_jobs (fst (submitted [CHR ''a'', CHR 0x85])))))) \<noteq> Inr ([], False)"
proof -
  obtain s' r where e: "submitted [CHR ''a'', CHR 0x85] = (s', r)" by (cases "submitted [CHR ''a'', CHR 0x85]")
  obtain j where j: "r = Inr j" using submitted_control e by (cases r) auto
  have run: "submit_once sample_config sample_env (sample_submission [CHR ''a'', CHR 0x85]) empty_svc = (s', Inr j)"
    using e j by (simp add: submitted_def)
  have "CHR 0x85 \<in> set (js_trim (si_prompt (sample_submission [CHR ''a'', CHR 0x85])))" by code_simp
  then show ?thesis
    using control_prompt_blocks_restart [OF empty_svc_fresh _ _ run _ _ _ sample_config_hex empty_svc_good] e
    by (simp add: empty_svc_def sample_env_def empty_admission_def code_unit_def)
qed

text \<open>
  An update or a reminder that leaves its time to the service cannot be retried: sent again
  under its key once the service's clock has moved, it is refused as a conflict, since the time
  the service filled in is part of the fingerprint that tells a retry from another mutation.
\<close>

theorem untimed_retry_conflicts:
  assumes "exec_co env raw cmd True st = (st1, Inr r)" and "co_good st" "cs_pending st = None"
    and "cmd = RecordUpdate x \<or> cmd = RecordReminder x" and "no_when x = None"
    and "\<And>q. co_ask env raw cmd = Inr q \<Longrightarrow> find_co_mutation (cq_scope q) (cq_key q) (cd_mutations (cs_data st)) = None"
    and "ce_collation env' = ce_collation env" "date_range (ce_now env')" "date_range (ce_then env')"
    and "ce_now env' \<noteq> ce_now env"
  shows "\<exists>k. co_begin env' raw cmd st1 = (st1, Some (Inl (CoConflict k)))"
  using untimed_conflict [OF assms] .

theorem untimed_retry_conflicts_witness:
  "\<exists>st k. co_begin (co_env_at 7) wi_ann (RecordUpdate untimed_update) st = (st, Some (Inl (CoConflict k)))"
proof -
  obtain st r where run: "exec_co (co_env_at 6) wi_ann (RecordUpdate untimed_update) True co_followed = (st, Inr r)"
    using untimed_runs by blast
  have "\<exists>k. co_begin (co_env_at 7) wi_ann (RecordUpdate untimed_update) st = (st, Some (Inl (CoConflict k)))"
    by (rule untimed_retry_conflicts [OF run co_followed_good _ disjI1 [OF refl]])
      (use ask_untimed in \<open>auto simp: co_followed_def co_followed_data_def follow_record_def find_co_mutation_def
        untimed_update_def date_range_def\<close>)
  then show ?thesis by blast
qed

text \<open>
  Following under a new key takes effect: when the id the service makes is not in use, the call
  succeeds, afterwards the subscription of that identity is active and the requester's list has
  it, every other subscription and every binding, preference and notification is as before, and
  the file holds what memory holds.
\<close>

theorem following_takes_effect:
  assumes "co_good st" "cs_pending st = None" "co_env_ok env" "ids_fresh env (cd_context (cs_data st))"
    and "normalize_co_scope raw = Inr sc" "normalize_follow x = Inr (k, tg, dl, ch)" "date_range (ce_now env)"
    and "find_co_mutation sc k (cd_mutations (cs_data st)) = None"
  shows "\<exists>st' s. exec_co env raw (Follow x) True st = (st', Inr (SubscriptionResult s)) \<and> co_good st'
    \<and> find_subscription sc tg dl ch (cd_context (cs_data st')) = Some s
    \<and> s \<in> set (list_subscriptions sc (cd_context (cs_data st')))
    \<and> {y \<in> set (cc_subscriptions (cd_context (cs_data st'))). \<not> same_subscription sc tg dl ch y}
      = {y \<in> set (cc_subscriptions (cd_context (cs_data st))). \<not> same_subscription sc tg dl ch y}
    \<and> cc_bindings (cd_context (cs_data st')) = cc_bindings (cd_context (cs_data st))
    \<and> cc_preferences (cd_context (cs_data st')) = cc_preferences (cd_context (cs_data st))
    \<and> cc_notifications (cd_context (cs_data st')) = cc_notifications (cd_context (cs_data st))
    \<and> cs_disk st' = cs_data st'"
proof -
  obtain st' s where r: "exec_co env raw (Follow x) True st = (st', Inr (SubscriptionResult s))"
    "sb_active s" "same_subscription sc tg dl ch s" "co_good st'" "cs_pending st' = None" "cs_disk st' = cs_data st'"
    "find_subscription sc tg dl ch (cd_context (cs_data st')) = Some s"
    "\<forall>y. \<not> same_subscription sc tg dl ch y \<longrightarrow> (y \<in> set (cc_subscriptions (cd_context (cs_data st')))
       \<longleftrightarrow> y \<in> set (cc_subscriptions (cd_context (cs_data st))))"
    "cc_bindings (cd_context (cs_data st')) = cc_bindings (cd_context (cs_data st))"
    "cc_preferences (cd_context (cs_data st')) = cc_preferences (cd_context (cs_data st))"
    "cc_notifications (cd_context (cs_data st')) = cc_notifications (cd_context (cs_data st))"
    using assms by (rule follow_outcome_lemma)
  moreover have "s \<in> set (list_subscriptions sc (cd_context (cs_data st')))"
    using r(2,3) find_Some_mem [OF r(7) [unfolded find_subscription_def]]
    by (simp add: list_subscriptions_def in_conversation_def same_subscription_def)
  ultimately show ?thesis by (intro exI [of _ st'] exI [of _ s]) auto
qed

theorem following_takes_effect_witness:
  "\<exists>st' s. exec_co (co_env_at 6) wi_bob (Follow (follow_goal ''k1'')) True co_followed = (st', Inr (SubscriptionResult s))
    \<and> s \<in> set (list_subscriptions wi_bob (cd_context (cs_data st')))"
proof -
  have "ids_fresh (co_env_at 6) (cd_context (cs_data co_followed))"
    "find_co_mutation wi_bob ''k1'' (cd_mutations (cs_data co_followed)) = None" "cs_pending co_followed = None"
    by (simp_all add: ids_fresh_def co_followed_def co_followed_data_def sample_id ann_follows_def new_subscription_def
        find_co_mutation_def follow_record_def same_co_scope_def wi_ann_def wi_bob_def)
  from following_takes_effect [OF co_followed_good this(3) co_env_at_ok this(1) co_ann_normal(2) follow_goal_normal(1) _ this(2)]
  show ?thesis by (auto simp: date_range_def)
qed

text \<open>
  The store's own validation, which runs on the whole state after every change, refuses a change
  the service has accepted for one reason only: the fingerprint of the input is longer than
  20,000 code units, which happens to bindings, updates and reminders within all the service's
  limits and never to the other four mutations. (The id the service makes must not be in use.)
\<close>

theorem store_refuses_only_long_fingerprints:
  assumes "co_begin env raw cmd st = (st', Some (Inl CoRefused))"
    and "co_good st" "co_env_ok env" "ids_fresh env (cd_context (cs_data st))"
  shows "\<exists>q. co_ask env raw cmd = Inr q \<and> 20000 < length (co_fingerprint (cq_operation q) (cq_payload q))
    \<and> cq_operation q \<in> {CoBind, CoUpdate, CoReminder}"
proof -
  have "validate_store (cs_data st)" using assms(2) by (simp add: co_good_def)
  from refused_turn [OF assms(1) this assms(3,4)] obtain q where q: "co_ask env raw cmd = Inr q"
    "20000 < length (co_fp q)" "\<not> sized_command cmd" by blast
  then have "cq_operation q \<in> {CoBind, CoUpdate, CoReminder}"
    by (cases cmd) (auto simp: bind_request_def update_request_def reminder_request_def chain_Inr)
  then show ?thesis using q by (auto simp: co_fp_def)
qed

theorem store_refuses_only_long_fingerprints_witness:
  "\<exists>q. co_ask (co_env_at 6) wi_ann (BindChannel quoted_bind) = Inr q
    \<and> 20000 < length (co_fingerprint (cq_operation q) (cq_payload q))"
proof -
  have "ids_fresh (co_env_at 6) (cd_context (cs_data co_followed))"
    by (simp add: ids_fresh_def co_followed_def co_followed_data_def sample_id ann_follows_def new_subscription_def)
  from store_refuses_only_long_fingerprints [OF bind_is_refused co_followed_good co_env_at_ok this]
  show ?thesis by auto
qed

text \<open>
  The canonical text of a time is read back as that time, and no other text is read: the
  program's canonical timestamps are exactly the texts of \<open>toISOString\<close>, and in the
  years 0 to 9999 they are ordered as the times they stand for.
\<close>

theorem timestamps_read_back:
  "canonical_time v = Some t \<longleftrightarrow> date_range t \<and> v = iso_text t"
  "four_digit_year t \<Longrightarrow> four_digit_year u \<Longrightarrow> iso_text t < iso_text u \<longleftrightarrow> t < u"
  using canonical_time_iff iso_text_order(1) by auto

text \<open>
  A digest asked for at an instant of the years 0 to 99 has a window that lies after the
  instant.
\<close>

theorem old_years_miss_their_window:
  assumes "old_year t" and "digest_window p t = Inr (a, b)"
  shows "t < a"
  using old_year_window [OF assms] .

text \<open>
  A change is seen by readers while its write is under way, and taken back when the write fails:
  ann's subscription is listed after her turn, and gone when the write has failed.
\<close>

theorem unwritten_subscription_is_listed:
  "list_subscriptions wi_ann (cd_context (cs_data (fst (co_begin (co_env_at 5) wi_ann (Follow (follow_goal ''k1'')) co_empty)))) = [ann_follows]
   \<and> fst (settle False (fst (co_begin (co_env_at 5) wi_ann (Follow (follow_goal ''k1'')) co_empty))) = co_empty"
  unfolding follow_begins
  by (simp add: settle_def co_following_def co_followed_data_def co_empty_def list_subscriptions_def in_conversation_def
      ann_follows_def new_subscription_def wi_ann_def)

text \<open>
  The cap of 5,000 notifications is one for all tenants: once it is reached, an event of any
  conversation drops the oldest notification of whatever tenant.
\<close>

theorem notification_cap_is_shared:
  assumes "length (cc_notifications c) = 5000"
  shows "map_sum id (\<lambda>(c', _). cc_notifications c') (note_action n c) = Inr (n # butlast (cc_notifications c))"
  using shared_cap [OF assms] .

text \<open>
  An ended task can be ended again by the same lease: a completed task becomes a failed one, its
  result still on record.
\<close>

theorem ended_task_ends_again:
  "\<exists>r. fst (fail_task open_cfg (quiet_at 4000 ''w1'') first_lease sample_failure (filed_at sample_done)) = filed_at r
    \<and> qr_status sample_done = DsCompleted \<and> qr_status r = DsFailed \<and> qr_receipt r = qr_receipt sample_done"
  using failure_takes_effect [where env = "quiet_at 4000 ''w1''" and cfg = open_cfg and f = sample_failure and l = first_lease
      and ref = sample_ref and r = sample_done and st = "filed_at sample_done"] sample_done_filed sample_leases_valid(1) sample_diagnostics
  by (fastforce simp: sample_failure_def)

text \<open>
  A task completed between the reading and the claim of a second worker is leased again: the
  claim tests only for a live lease, and the completion has removed the expiry.
\<close>

theorem completed_task_is_leased_again:
  "\<exists>st' r l. lease_next open_cfg (racing_at 60000 ''w2'') 30 5 (Inr (Some second_message)) (filed_at sample_leased) = (st', [], Inr (Some l))
    \<and> st' sample_ref = Some r \<and> qr_status r = DsLeased \<and> qr_receipt r = qr_receipt sample_done"
  by (rule race_outcome)

text \<open>
  A claim that loses its conditional writes deletes the message although nobody holds the task;
  the task stays queued, and submitting it again sends no message.
\<close>

theorem lost_claim_loses_the_task:
  "lease_next open_cfg (contended_at 2000 ''w1'') 30 5 (Inr (Some first_message)) (filed_at sample_queued)
     = (filed_at sample_queued, [DeleteMessage ''m1'' ''p1''], Inr None)
   \<and> qr_status sample_queued = DsQueued
   \<and> fst (snd (enqueue open_cfg (quiet_at 3000 ''w0'') (raw_of_task sample_task) (filed_at sample_queued))) = []"
  by (intro conjI contended_outcome sample_fields(6) resubmitted_outcome)

section \<open>The properties\<close>

text \<open>
  C1 (safety). In any history of the job store, with failing writes, recoveries, updates and
  concurrent decisions in any order, accepting the approval of one job in one scope dispatches
  its work at most once.
\<close>

theorem dispatch_at_most_once:
  assumes "store_good st" and "steps_of (store_step h) st evs st'"
  shows "length (filter (dispatches i sc) evs) \<le> 1"
  using dispatch_once.fires_once [OF assms(2,1)] .

theorem dispatch_at_most_once_witness:
  "length (filter (dispatches ''j1'' sample_scope) [sample_decision_event]) \<le> 1
   \<and> dispatches ''j1'' sample_scope sample_decision_event"
  using dispatch_at_most_once [OF sample_store_good sample_decision_run, of "''j1''" sample_scope]
  by (simp add: sample_decision_event_def sample_decision_def)

text \<open>
  C2 (safety). A decision that dispatches work was an acceptance by the job's own requester in
  its tenant, naming the identifier and the revision of a pending approval, before the deadline,
  and that revision is the digest of the job as it is stored.
\<close>

theorem dispatch_is_authorised:
  assumes "store_step h st (OpDecide i sc rq d now, Inr (RDecision (Some res))) st'" and "dr_dispatch res"
  shows "\<exists>j \<in> set (js_jobs st). \<exists>a. job_id j = i \<and> matches_scope j sc \<and> job_approval j = Some a
    \<and> ap_state a = ApPending \<and> ap_approver a = sc_requester sc \<and> ap_tenant a = sc_tenant sc
    \<and> ap_id a = rq_id rq \<and> ap_revision a = rq_revision rq \<and> ap_revision a = revision (h_sha h) j
    \<and> d = Accept \<and> now < ap_deadline a"
  using assms(1)
proof (cases rule: store_step_cases)
  case (committed v)
  then obtain k where k: "scoped_index i sc (js_jobs st) = Some k"
    and res: "decide_job (h_sha h) (js_jobs st ! k) sc rq d now = Inr res"
    by (auto simp: decide_approval_def split: option.splits sum.splits)
  note at = scoped_index_Some [OF k]
  from decide_job_dispatch [OF res assms(2)] show ?thesis
    using at nth_mem [of k "js_jobs st"] by (fastforce simp: matches_request_def approval_ok_defs)
qed simp

theorem dispatch_is_authorised_witness:
  "\<exists>j \<in> set (js_jobs sample_store). \<exists>a. job_id j = ''j1'' \<and> matches_scope j sample_scope \<and> job_approval j = Some a
    \<and> ap_state a = ApPending \<and> ap_approver a = sc_requester sample_scope \<and> ap_tenant a = sc_tenant sample_scope
    \<and> ap_id a = rq_id sample_request \<and> ap_revision a = rq_revision sample_request
    \<and> ap_revision a = revision (h_sha sample_host) j \<and> Accept = Accept \<and> 200 < ap_deadline a"
  by (rule dispatch_is_authorised [OF sample_decision_step [unfolded sample_decision_event_def]])
    (simp add: sample_decision_def)

text \<open>
  C3 (liveness). An acceptance by the owner of a pending approval before its deadline, with the
  identifier and the revision on record, always succeeds: the job is queued, its approval is
  accepted and the caller is told to dispatch.
\<close>

theorem owner_acceptance_dispatches:
  assumes "scoped_index i sc jobs = Some k" and "job_approval (jobs ! k) = Some a"
    and "approval_ok sha a (jobs ! k)" and "ap_state a = ApPending" and "job_status (jobs ! k) = JAwaiting"
    and "rq_id rq = ap_id a" and "rq_revision rq = ap_revision a"
    and "now < ap_deadline a" and "job_created (jobs ! k) \<le> now" and "date_range now"
  shows "\<exists>jobs' res. decide_approval sha i sc rq Accept now jobs = Inr (jobs', Some res) \<and> dr_dispatch res
    \<and> job_status (dr_job res) = JQueued \<and> jobs' = jobs[k := dr_job res]
    \<and> job_approval (dr_job res) = Some (a\<lparr>ap_state := ApAccepted, ap_decided := Some now\<rparr>)"
proof -
  let ?j = "jobs ! k"
  have sc: "matches_scope ?j sc" using scoped_index_Some [OF assms(1)] by simp
  define t where "t = \<lparr>tr_patch = [PStatus JQueued, PError None,
      PApproval (Some (a\<lparr>ap_state := ApAccepted, ap_decided := Some now\<rparr>))], tr_dispatch = True, tr_replayed = False\<rparr>"
  have t: "transition_approval sha ?j sc rq Accept now = Inr t"
    using assms sc
    by (auto simp: t_def transition_approval_def assert_identity_def read_approval_def approval_ok_defs matches_scope_def
        terminal_status_def split: option.splits)
  let ?u = "apply_patch (tr_patch t @ [PUpdated (Some now)]) ?j"
  have "approval_ok sha (a\<lparr>ap_state := ApAccepted, ap_decided := Some now\<rparr>) (apply_patch (tr_patch t) ?j)"
    using transition_patch_ok [OF t assms(9)] by (auto simp: t_def)
  then have "approval_ok sha (a\<lparr>ap_state := ApAccepted, ap_decided := Some now\<rparr>) ?u"
    using approval_ok_cong [of ?u "apply_patch (tr_patch t) ?j"] by (simp add: t_def revision_input_def)
  then have "decide_job sha ?j sc rq Accept now
      = Inr \<lparr>dr_job = ?u, dr_replayed = False, dr_dispatch = True\<rparr>"
    using t by (simp add: t_def decide_job_def Let_def read_approval_def)
  then show ?thesis using assms(1) by (simp add: t_def decide_approval_def)
qed

theorem owner_acceptance_dispatches_witness:
  "\<exists>jobs' res. decide_approval (h_sha sample_host) ''j1'' sample_scope sample_request Accept 200 [sample_job]
      = Inr (jobs', Some res) \<and> dr_dispatch res
    \<and> job_status (dr_job res) = JQueued \<and> jobs' = [sample_job][0 := dr_job res]
    \<and> job_approval (dr_job res) = Some (sample_approval\<lparr>ap_state := ApAccepted, ap_decided := Some 200\<rparr>)"
  using sample_job_approval
  by (intro owner_acceptance_dispatches)
    (simp_all add: scoped_index_def matches_scope_def sample_defs date_range_def)

text \<open>
  C4 (invariant). Through any history no job is lost and none changes its owner, its provider,
  model, effort, catalogue, environment or origin, an execution receipt, a token count or a
  cancellation request once recorded, the terms of its approval or a decision on it, nor does
  its publication go back a stage.
\<close>

theorem job_history_kept:
  assumes "steps_of (store_step h) st evs st'" and "j \<in> set (js_jobs st)"
  shows "\<exists>u \<in> set (js_jobs st'). job_id u = job_id j \<and> job_extends j u"
  using history_extends [OF assms] by (auto simp: same_ids_def)

theorem job_history_kept_witness:
  "\<exists>u \<in> set (js_jobs decided_store). job_id u = job_id sample_job \<and> job_extends sample_job u"
  by (rule job_history_kept [OF sample_decision_run]) (simp add: sample_store_def)

text \<open>
  C5 (invariant). Every job of the store stays valid through any history: an approval, when
  there is one, is well formed and consistent with the job's owner, revision, times and status,
  so a job that needs consent is queued or running only with an accepted approval; and a
  completed job has a text that is not blank.
\<close>

theorem jobs_stay_valid:
  assumes "steps_of (store_step h) st evs st'" and "\<forall>ev \<in> set evs. good_random h (fst ev)"
    and "\<forall>j \<in> set (js_jobs st). job_valid (h_sha h) j" and "j \<in> set (js_jobs st')"
  shows "job_valid (h_sha h) j \<and> (active_status (job_status j) \<and> job_status j \<noteq> JAwaiting \<longrightarrow>
      (\<forall>a \<in> set_option (job_approval j). ap_state a = ApAccepted))"
proof -
  have "job_valid (h_sha h) j" using store_steps_valid [OF assms(1-3)] assms(4) by blast
  then show ?thesis
    using approval_ok_active by (auto simp: job_valid_def active_status_def)
qed

theorem jobs_stay_valid_witness:
  "job_valid (h_sha sample_host) (dr_job sample_decision) \<and> active_status (job_status (dr_job sample_decision))
    \<and> map_option ap_state (job_approval (dr_job sample_decision)) = Some ApAccepted"
proof -
  have "job_valid (h_sha sample_host) sample_job"
    using sample_job_approval by (simp add: job_valid_def sample_job_def initial_job_def sample_input_def)
  then have v: "\<forall>j \<in> set (js_jobs sample_store). job_valid (h_sha sample_host) j" by (simp add: sample_store_def)
  have "job_valid (h_sha sample_host) (dr_job sample_decision)
      \<and> (active_status (job_status (dr_job sample_decision)) \<and> job_status (dr_job sample_decision) \<noteq> JAwaiting \<longrightarrow>
        (\<forall>a \<in> set_option (job_approval (dr_job sample_decision)). ap_state a = ApAccepted))"
    by (rule jobs_stay_valid [OF sample_decision_run _ v])
      (simp_all add: sample_decision_event_def decided_store_def)
  then show ?thesis by (simp add: sample_decision_def active_status_def)
qed



text \<open>
  C7 (safety). Operations of other principals leave the jobs of a principal exactly as they
  were, in the same order.
\<close>

theorem owners_are_isolated:
  assumes "steps_of (store_step h) st evs st'"
    and "\<forall>ev \<in> set evs. \<exists>q. op_principal (fst ev) = Some q \<and> q \<noteq> p"
  shows "filter (\<lambda>j. matches_principal j p) (js_jobs st') = filter (\<lambda>j. matches_principal j p) (js_jobs st)"
  using store_steps_isolated [OF assms] by (simp add: owned_by_def)

theorem owners_are_isolated_witness:
  "filter (\<lambda>j. matches_principal j (scope_principal other_scope)) (js_jobs decided_store)
     = filter (\<lambda>j. matches_principal j (scope_principal other_scope)) (js_jobs sample_store)"
  by (rule owners_are_isolated [OF sample_decision_run])
    (simp add: sample_decision_event_def scope_principal_def sample_scope_def other_scope_def)

text \<open>
  C8 (functional). Reading a listing page by page with the returned cursors gives exactly the
  principal's jobs that match the request, each once and in order, whatever the page size.
\<close>

theorem pages_are_complete:
  assumes "page_request_ok q" and "pq_cursor q = None" and "page_ids_ok jobs" and "length jobs < fuel"
  shows "read_pages fuel p q jobs = Inr (filter (\<lambda>j. matches_principal j p \<and> page_query q j) jobs)"
proof -
  have "filter (page_query q) (filter (\<lambda>j. matches_principal j p) jobs)
      = filter (\<lambda>j. matches_principal j p \<and> page_query q j) jobs"
    by (simp add: conj_commute)
  moreover have "length (filter (\<lambda>j. matches_principal j p \<and> page_query q j) jobs) < fuel"
    using assms(4) length_filter_le order_le_less_trans by blast
  ultimately show ?thesis
    using assms by (intro read_pages_candidates) (simp_all add: page_candidates_def)
qed

theorem pages_are_complete_witness:
  "read_pages 3 sample_principal sample_page [sample_job, read_only_job]
     = Inr (filter (\<lambda>j. matches_principal j sample_principal \<and> page_query sample_page j) [sample_job, read_only_job])
   \<and> filter (\<lambda>j. matches_principal j sample_principal \<and> page_query sample_page j) [sample_job, read_only_job]
     = [sample_job, read_only_job]"
  by (intro conjI pages_are_complete) code_simp+

text \<open>
  C9 (safety). The text of a completed job is sent to its conversation at most once: over any
  history at most one claim of its publication is told to send, also when writes fail, the
  settlement is lost or previews are repeated.
\<close>

theorem publication_sent_at_most_once:
  assumes "store_good st" and "steps_of (store_step h) st evs st'"
  shows "length (filter (sends i p) evs) \<le> 1"
  using send_once.fires_once [OF assms(2,1)] .

theorem publication_sent_at_most_once_witness:
  "length (filter (sends ''j2'' sample_principal) [sample_claim_event]) \<le> 1
   \<and> sends ''j2'' sample_principal sample_claim_event"
  using publication_sent_at_most_once [OF published_store_good sample_claim_run, of "''j2''" sample_principal]
  by (simp add: sample_claim_event_def sample_claim_def)

text \<open>
  C10 (bounds). Whatever is acquired, bound, settled, released or closed, and whichever journal
  writes fail, the live reservations never exceed the limit of the process, of any tenant or of
  any requester.
\<close>

theorem capacity_is_respected:
  assumes "steps_of (adm_step lim) c evs c'" and "adm_inv (adm_live c)" and "within lim (usage (adm_live c))"
    and "\<forall>ev \<in> set evs. \<not> is_reconstruct (fst ev)"
  shows "length (ad_res (adm_live c')) \<le> lm_global lim \<and> snapshot_tenants (adm_live c') t \<le> lm_tenant lim
    \<and> snapshot_requesters (adm_live c') sc \<le> lm_requester lim"
  using adm_steps_within [OF assms]
  by (simp add: within_def snapshot_tenants_def snapshot_requesters_def count_res_tenant count_res_requester)

theorem capacity_is_respected_witness:
  "length (ad_res (adm_live one_admission)) \<le> lm_global sample_limits
    \<and> snapshot_tenants (adm_live one_admission) ''t1'' \<le> lm_tenant sample_limits
    \<and> snapshot_requesters (adm_live one_admission) ann_scope \<le> lm_requester sample_limits"
  by (rule capacity_is_respected [OF sample_admission_run])
    (simp_all add: start_admission_def empty_admission_inv)

text \<open>
  C11 (roundtrip). A process that starts from the journal of its predecessor holds exactly the
  predecessor's reservations, in the same order and with the same bindings, and admits again.
\<close>

theorem journal_restores_reservations:
  assumes "adm_inv s" and "failures_ok s" and "length (ad_res s) < 2000"
  shows "load_journal (Some (persist_journal now releasing s)) = s\<lparr>ad_closing := False\<rparr>"
  using journal_roundtrip [OF assms] by (simp add: load_journal_def Let_def)

theorem journal_restores_reservations_witness:
  "load_journal (Some (persist_journal 7 (Some ''gone'') ann_reserved)) = ann_reserved\<lparr>ad_closing := False\<rparr>"
proof (rule journal_restores_reservations)
  show "adm_inv ann_reserved"
    using adm_steps_inv [OF sample_admission_run] by (simp add: start_admission_def empty_admission_inv one_admission_def)
  show "failures_ok ann_reserved"
    by (simp add: failures_ok_def ann_reserved_def empty_admission_def)
  show "length (ad_res ann_reserved) < 2000"
    by (simp add: ann_reserved_def empty_admission_def)
qed



text \<open>
  C13 (safety). A one-time action token is consumed at most once in any history of issues,
  consumptions, pruning and failed writes, given that fresh tokens have fresh digests.
\<close>

theorem grant_consumed_at_most_once:
  assumes "grant_good s" and "steps_of (grant_step hash ttl) s evs s'"
  shows "length (filter (consumes token) evs) \<le> 1"
  using consume_once.fires_once [OF assms(2,1)] .

theorem grant_consumed_at_most_once_witness:
  "length (filter (consumes ''tok'')
     [(GoConsume ''tok'' sample_grant_scope, Inr (GaConsumed (Inr (sample_grant_scope, 1000))))]) \<le> 1"
  using grant_consumed_at_most_once [OF sample_grant_good sample_grant_run] .

text \<open>
  C14 (type). A persisted list that loads starts the store in the state the other guarantees
  need: unique identifiers, unique idempotency keys, valid approvals and results, and no job
  whose parent in the store belongs to another scope; and every job of a tenant keeps the limits
  on its texts and lists.
\<close>

theorem loaded_store_is_well_formed:
  assumes "load_jobs sha url_ok redact lp v = Inr (jobs, m)"
  shows "distinct (map job_id jobs) \<and> keys_unique jobs
    \<and> (\<forall>j \<in> set jobs. job_valid sha j \<and> parent_fault jobs j = None
        \<and> (job_tenant j \<noteq> None \<longrightarrow> stored_ok sha url_ok lp j))"
proof -
  obtain rs where "load_each sha url_ok redact lp [] rs = Inr (jobs, m)"
    and "\<forall>j \<in> set jobs. parent_fault jobs j = None" and "distinct (keyed jobs)"
    using assms unfolding load_jobs_Inr by blast
  then show ?thesis using load_each_sound keyed_unique by blast
qed

theorem loaded_store_is_well_formed_witness:
  "keys_unique [sample_job] \<and> job_valid (h_sha sample_host) sample_job
    \<and> stored_ok (h_sha sample_host) (h_url sample_host) None sample_job"
  using loaded_store_is_well_formed [OF sample_loads] by (simp add: sample_job_def initial_job_def sample_input_def sample_scope_def)





text \<open>
  C17 (safety). A command takes effect once: after it has answered, running it again under the
  same key, after any history of commands and restarts and with whatever clock, changes nothing,
  and answers the recorded item if it answers an item at all.
\<close>

theorem retried_command_is_harmless:
  assumes "exec_wi env raw cmd st = (st1, Inr i)" and "wi_good st1" and "steps_of wi_step st1 evs st2"
  shows "fst (exec_wi env' raw cmd st2) = st2 \<and> (\<forall>r. snd (exec_wi env' raw cmd st2) = Inr r \<longrightarrow> r = i)"
  using exec_retry [OF assms] .

theorem retried_command_is_harmless_witness:
  "fst (exec_wi (wi_env_at 77) wi_ann (CmdCreate ship_input) wi_shipped) = wi_shipped"
  using retried_command_is_harmless [OF ship_stored wi_shipped_good(1) steps_nil] by simp



text \<open>
  C19 (functional). A submission of the agent service holds one reservation exactly for the job
  it creates: when it returns the job, the job is the newest of the store and a reservation of
  its scope is added, bound to it; when it throws, for whatever reason, the reservations are as
  they were and no job is added, except that a failed hand-over to the worker leaves the job
  behind as failed. The identifiers drawn are new and the writes succeed.
\<close>

theorem submission_reserves_once:
  assumes "fresh_env en s" and "ad_jobs (adm_live (sv_adm s)) (en_job_id en) = None" and "sv_writes s = []"
    and "submit_once cf en x s = (s', r)"
  shows "case r of
      Inr j \<Rightarrow> jobs_of s' = j # jobs_of s \<and> job_id j = en_job_id en \<and> matches_scope j (si_scope x)
        \<and> adm_live (sv_adm s') = (adm_live (sv_adm s))\<lparr>
            ad_res := ad_res (adm_live (sv_adm s)) @ [(admission_token (en_uuid en), bound_entry (si_scope x) (en_job_id en))],
            ad_jobs := (ad_jobs (adm_live (sv_adm s)))(en_job_id en \<mapsto> admission_token (en_uuid en))\<rparr>
    | Inl e \<Rightarrow> adm_live (sv_adm s') = adm_live (sv_adm s)
        \<and> (jobs_of s' = jobs_of s
           \<or> (\<exists>m u. e = SeDispatcher m \<and> jobs_of s' = u # jobs_of s \<and> job_id u = en_job_id en \<and> job_status u = JFailed))"
  using assms by (rule submission_cases)

theorem submission_reserves_once_witness:
  "\<exists>j. snd (submitted ''look'') = Inr j \<and> jobs_of (fst (submitted ''look'')) = [j] \<and> job_id j = ''j9''
     \<and> ad_jobs (adm_live (sv_adm (fst (submitted ''look'')))) ''j9'' = Some (admission_token uuid_a)"
proof -
  obtain s' r where e: "submitted ''look'' = (s', r)" by (cases "submitted ''look''")
  obtain j where j: "r = Inr j" using submitted_ok e by (cases r) auto
  have "submit_once sample_config sample_env (sample_submission ''look'') empty_svc = (s', Inr j)"
    using e j by (simp add: submitted_def)
  from submission_reserves_once [OF empty_svc_fresh _ _ this] e j show ?thesis
    by (simp add: empty_svc_def sample_env_def empty_admission_def jobs_of_def)
qed

text \<open>
  C20 (safety). Whatever provider, model, effort and catalog revision a caller asks for, a job
  the service creates runs Codex with the policy's model at the policy's effort, under the
  revision of the catalog the worker's observer reported, narrowed to that model; its prompt is
  the trimmed text of at most 2,000 characters, and a job that writes to the workspace was asked
  for by a scope that may do so. This holds for every outcome of the writes.
\<close>

theorem jobs_run_the_policy_model:
  assumes "submit_once cf en x s = (s', Inr j)"
  shows "job_provider j = Some Codex \<and> job_model j = Some ''gpt-6-luna'' \<and> job_effort j = Some EffXhigh
    \<and> job_env j = Some ExternalWorker \<and> job_status j \<in> {JQueued, JAwaiting}
    \<and> (\<exists>v w. en_catalog en = Some v \<and> constrain_catalog (cf_catalog_sha cf) v = Inr w \<and> job_catalog j = Some (mc_revision w))
    \<and> job_prompt j = js_trim (si_prompt x) \<and> length (job_prompt j) \<le> 2000
    \<and> (if job_mode j = WorkspaceWrite then job_approval j \<noteq> None \<and> cf_can_mutate cf (si_scope x) else cf_can_read cf (si_scope x))"
  using assms
proof (rule submit_once_Inr)
  fix prompt p m e c
  assume a: "admit cf en x s = (s, Inr (prompt, p, (m, e, c)))"
    and b: "build_job (h_sha (cf_host cf)) (h_url (cf_host cf)) (created_input x prompt p (m, e, c))
       (en_job_id en) (en_uuid en) (en_now en) = Inr j"
  note f = build_job_fields [OF b] and g = build_job_choices [OF b] and r = resolved_selection [OF admit_Inr(3) [OF a]]
  have "prompt = js_trim (si_prompt x) \<and> length prompt \<le> 2000"
    using admit_Inr(2) [OF a] by (rule normalize_prompt_bound)
  moreover have "if job_mode j = WorkspaceWrite then job_approval j \<noteq> None \<and> cf_can_mutate cf (si_scope x) else cf_can_read cf (si_scope x)"
    using admit_Inr(4,5) [OF a] build_job_writing [OF b] f(6) by (cases "si_mode x") (auto simp: created_input_def)
  ultimately show ?thesis
    using f(5,7,8) g r by (auto simp: created_input_def policy_model_def policy_effort_def)
qed

theorem jobs_run_the_policy_model_witness:
  "\<exists>j. snd (submitted ''look'') = Inr j \<and> job_model j = Some ''gpt-6-luna'' \<and> job_effort j = Some EffXhigh"
proof -
  obtain s' r where e: "submitted ''look'' = (s', r)" by (cases "submitted ''look''")
  obtain j where j: "r = Inr j" using submitted_ok e by (cases r) auto
  have "submit_once sample_config sample_env (sample_submission ''look'') empty_svc = (s', Inr j)"
    using e j by (simp add: submitted_def)
  from jobs_run_the_policy_model [OF this] e j show ?thesis by simp
qed

text \<open>
  C21 (refinement). The agent service refines the composition of its two stores: every run of
  its operations (submission, continuation, retry, decisions, expiry, observation, poll,
  cancellation, reconciliation, commit, start), with any outcome of the writes and any answers
  of the worker, is a run of mutations of the job store beside a run of operations of the
  admission controller. Reservations are rebuilt only by a start.
\<close>

theorem service_refines_its_stores:
  assumes "steps_of (svc_step cf) s evs s'" and "sha_hex cf" and "store_good (sv_jobs s)"
  shows "\<exists>jobs adms. steps_of (store_step (cf_host cf)) (sv_jobs s) jobs (sv_jobs s')
    \<and> steps_of (adm_step (cf_limits cf)) (sv_adm s) adms (sv_adm s')
    \<and> (EvStart \<notin> snd ` set evs \<longrightarrow> list_all (\<lambda>ev. \<not> is_reconstruct (fst ev)) adms)"
  using svc_steps_rel [OF assms] unfolding svc_rel_def list_all_iff by blast

theorem service_refines_its_stores_witness:
  "\<exists>jobs adms. steps_of (store_step (cf_host sample_config)) (sv_jobs empty_svc) jobs (sv_jobs (fst (submitted ''look'')))
    \<and> steps_of (adm_step (cf_limits sample_config)) (sv_adm empty_svc) adms (sv_adm (fst (submitted ''look'')))"
  using service_refines_its_stores [OF submitted_run sample_config_hex empty_svc_good] by auto

text \<open>
  C22 (invariant). In every run of the service without a restart, with any outcome of the writes
  and any answers of the worker: the jobs on disk are those readers see, their identifiers and
  request keys are unique, every approval is one the loader accepts and every completed job has
  a result, the two indexes of the reservations agree, and the reservations stay within the
  limits per requester, per tenant and for the process.
\<close>

theorem running_service_is_sound:
  assumes "steps_of (svc_step cf) s evs s'" and "sha_hex cf" and "EvStart \<notin> snd ` set evs" and "svc_sound cf s"
  shows "svc_sound cf s'"
proof -
  have rel: "svc_rel cf False s s'"
    using svc_steps_rel [OF assms(1,2)] assms(3,4) by (simp add: svc_sound_def)
  show ?thesis using rel assms(4) by (rule svc_rel_sound)
qed

theorem running_service_is_sound_witness:
  "svc_sound sample_config (fst (submitted ''look''))"
  using running_service_is_sound [OF submitted_run sample_config_hex _ empty_svc_sound] by simp




text \<open>
  C25 (invariant). Whatever turns, ends of writes (failed ones too) and restarts in the middle
  of a write the collaboration store has been through, what is in memory and what is in the file
  are valid, the file loads back to exactly what it holds, and memory differs from the file only
  while a write is under way, whose failure would restore exactly the contents of the file.
\<close>

theorem collaboration_store_is_sound:
  assumes "steps_of co_step st evs st'" and "co_good st"
  shows "validate_store (cs_data st') \<and> validate_store (cs_disk st')
    \<and> load_co_store 1 (cs_disk st') = Inr (cs_disk st')
    \<and> (case cs_pending st' of None \<Rightarrow> cs_data st' = cs_disk st'
       | Some (snapshot, r) \<Rightarrow> cs_data (fst (settle False st')) = cs_disk st')"
proof -
  have "co_good st'" using co_steps_good [OF assms] .
  then show ?thesis by (auto simp: co_good_def load_valid settle_def split: option.splits)
qed

theorem collaboration_store_is_sound_witness:
  "load_co_store 1 (cs_disk co_followed) = Inr (cs_disk co_followed) \<and> cs_data co_followed = cs_disk co_followed"
  using collaboration_store_is_sound [OF follow_steps co_empty_good] by (simp add: co_followed_def)

text \<open>
  C26 (safety). A collaboration mutation takes effect once: after it has answered, the same
  input under the same key finds its recorded result, after any history of turns, failed writes
  and restarts and at any later time, and changes nothing. (An update or a reminder has to say
  for itself when it occurred.)
\<close>

theorem collaboration_retry_is_harmless:
  assumes "exec_co env raw cmd True st = (st1, Inr r)" and "co_good st" "cs_pending st = None"
    and "steps_of co_step st1 evs st2" and "timed cmd"
    and "ce_collation env' = ce_collation env" "date_range (ce_now env')" "date_range (ce_then env')"
  shows "co_begin env' raw cmd st2 = (st2, Some (Inr r))"
  using co_retry [OF assms] .

theorem collaboration_retry_is_harmless_witness:
  "co_begin (co_env_at 77) wi_ann (Follow (follow_goal ''k1'')) co_followed = (co_followed, Some (Inr (SubscriptionResult ann_follows)))"
  by (rule collaboration_retry_is_harmless [OF follow_runs co_empty_good _ steps_nil])
    (simp_all add: co_empty_def date_range_def)

text \<open>
  C27 (safety). A turn changes or removes only what is the requester's own: a subscription or a
  preference that is no longer there as it was belonged to the requester in the request's tenant
  and conversation, and a channel binding was bound by the requester there.
\<close>

theorem collaboration_changes_are_owned:
  assumes "co_begin env raw cmd st = (st', a)"
  shows "(\<forall>s \<in> set (cc_subscriptions (cd_context (cs_data st))) - set (cc_subscriptions (cd_context (cs_data st'))).
      \<exists>sc. normalize_co_scope raw = Inr sc \<and> sb_tenant s = ws_tenant sc \<and> sb_conversation s = ws_conversation sc \<and> sb_requester s = ws_requester sc)
    \<and> (\<forall>b \<in> set (cc_bindings (cd_context (cs_data st))) - set (cc_bindings (cd_context (cs_data st'))).
      \<exists>sc. normalize_co_scope raw = Inr sc \<and> cb_tenant b = ws_tenant sc \<and> cb_conversation b = ws_conversation sc \<and> cb_bound_by b = ws_requester sc)
    \<and> (\<forall>p \<in> set (cc_preferences (cd_context (cs_data st))) - set (cc_preferences (cd_context (cs_data st'))).
      \<exists>sc. normalize_co_scope raw = Inr sc \<and> np_tenant p = ws_tenant sc \<and> np_conversation p = ws_conversation sc \<and> np_requester p = ws_requester sc)"
  using begin_owner [OF assms] unfolding owned_subscription_def owned_binding_def owned_preference_def
  by (intro conjI ballI) blast+

theorem collaboration_changes_are_owned_witness:
  "\<exists>sc. normalize_co_scope wi_ann = Inr sc \<and> sb_requester ann_follows = ws_requester sc"
proof -
  obtain st' where "co_begin (co_env_at 6) wi_ann (Unfollow (follow_goal ''k2'')) co_followed = (st', None)"
    "ann_follows \<in> set (cc_subscriptions (cd_context (cs_data co_followed)))"
    "ann_follows \<notin> set (cc_subscriptions (cd_context (cs_data st')))"
    using unfollow_changes by blast
  with collaboration_changes_are_owned [OF this(1), THEN conjunct1] show ?thesis by blast
qed

text \<open>
  C28 (functional). Asking for notifications answers exactly those of the requester's
  conversation that occurred in the asked interval and that an active subscription of the
  requester covers without a preference, with one for everything, or with one for mentions that
  mention the requester: each as often as it is stored, the latest first, cut at the limit. The
  code compares texts of timestamps; this is the order of the times when the years have four
  digits.
\<close>

theorem notifications_are_exact:
  assumes "normalize_co_scope raw = Inr sc" and "normalize_note_query from to limit = Inr (f, t, n)"
    and "collates_dates loc" and "dated c" "pred_option four_digit_year f" "pred_option four_digit_year t"
  shows "\<exists>full. co_notifications loc raw from to limit c = Inr (take n full)
    \<and> mset full = filter_mset (\<lambda>x. nt_tenant x = ws_tenant sc \<and> nt_conversation x = ws_conversation sc
         \<and> (\<forall>a. f = Some a \<longrightarrow> a \<le> nt_occurred x) \<and> (\<forall>b. t = Some b \<longrightarrow> nt_occurred x < b)
         \<and> wants sc c (\<lambda>l. l = AllLevel \<or> (l = MentionsLevel \<and> ws_requester sc \<in> set (nt_mentions x))) x)
       (mset (cc_notifications c))
    \<and> sorted_wrt (\<lambda>a b. nt_occurred b \<le> nt_occurred a) full"
  using notifications_answer [OF assms] by blast

theorem notifications_are_exact_witness:
  "\<exists>full. co_notifications code_unit_order wi_ann None None None (week_context []) = Inr (take 100 full)
    \<and> mset full = {#note_at ''n1'' 9, note_at ''n2'' 7, note_at ''n3'' 345600000#}"
proof -
  have q: "normalize_note_query None None None = Inr (None, None, 100)" by code_simp
  obtain full where "co_notifications code_unit_order wi_ann None None None (week_context []) = Inr (take 100 full)"
    "mset full = filter_mset (\<lambda>x. nt_tenant x = ws_tenant wi_ann \<and> nt_conversation x = ws_conversation wi_ann
         \<and> (\<forall>a. None = Some a \<longrightarrow> a \<le> nt_occurred x) \<and> (\<forall>b. None = Some b \<longrightarrow> nt_occurred x < b)
         \<and> wants wi_ann (week_context []) (\<lambda>l. l = AllLevel \<or> (l = MentionsLevel \<and> ws_requester wi_ann \<in> set (nt_mentions x))) x)
       (mset (cc_notifications (week_context [])))"
    using notifications_are_exact [OF co_ann_normal(1) q code_unit_order week_dated(1)] by auto
  moreover have "nt_tenant (note_at i t) = ws_tenant wi_ann" "nt_conversation (note_at i t) = ws_conversation wi_ann" for i t
    by (simp_all add: note_at_def wi_ann_def)
  moreover have "cc_notifications (week_context []) = [note_at ''n1'' 9, note_at ''n2'' 7, note_at ''n3'' 345600000]"
    by (simp add: week_context_def)
  ultimately show ?thesis by (intro exI [of _ full]) (simp add: week_wants)
qed

text \<open>
  C29 (equivalence). A digest is the selection by window and preference, summed up: its total is
  the number of events of the requester's conversation that occurred in the window and that an
  active subscription of the requester with a digest preference covers, its entries list the ids
  of these events and no others, each once, every event in the entry of its own target and kind,
  and the counts of the entries add up to the total.
\<close>

theorem digest_accounts_for_events:
  assumes "normalize_co_scope raw = Inr sc" and "date_range now" and "normalize_digest_query pt at now = Inr (p, a, b)"
    and "dated c" "four_digit_year a" "four_digit_year b" and "\<forall>n \<in> set (cc_notifications c). assert_target (nt_target n)"
    and "events = filter_mset (\<lambda>n. nt_tenant n = ws_tenant sc \<and> nt_conversation n = ws_conversation sc
       \<and> a \<le> nt_occurred n \<and> nt_occurred n < b \<and> wants sc c (\<lambda>l. l = DigestLevel) n) (mset (cc_notifications c))"
  shows "\<exists>d. collaboration_digest loc now raw pt at c = Inr d \<and> dg_from d = a \<and> dg_to d = b \<and> dg_total d = size events
    \<and> sum_list (map de_count (dg_entries d)) = dg_total d
    \<and> mset (concat (map de_ids (dg_entries d))) = image_mset nt_id events
    \<and> (\<forall>e \<in> set (dg_entries d). mset (de_ids e) =
        image_mset nt_id (filter_mset (\<lambda>n. nt_target n = de_target e \<and> nt_kind n = de_kind e) events))"
  unfolding assms(8) by (rule digest_answer [OF assms(1-7), of loc]) (intro exI conjI; assumption)

theorem digest_accounts_for_events_witness:
  "\<exists>d. collaboration_digest code_unit_order 5 wi_ann ''weekly'' None (week_context [weekly]) = Inr d
    \<and> dg_total d = 2 \<and> mset (concat (map de_ids (dg_entries d))) = {#''n1'', ''n2''#}"
proof -
  have w: "co_enum period_name [Daily, Weekly, Monthly] ''weekly'' = Inr Weekly" by code_simp
  have q: "normalize_digest_query ''weekly'' None 5 = Inr (Weekly, - 259200000, 345600000)"
    by (simp add: normalize_digest_query_def w sample_week_window)
  have the_notes: "cc_notifications (week_context [weekly]) = [note_at ''n1'' 9, note_at ''n2'' 7, note_at ''n3'' 345600000]"
    by (simp add: week_context_def)
  have fields: "nt_tenant (note_at i t) = ws_tenant wi_ann" "nt_conversation (note_at i t) = ws_conversation wi_ann"
    "nt_occurred (note_at i t) = t" "nt_id (note_at i t) = i" "nt_target (note_at i t) = goal" for i t
    by (simp_all add: note_at_def wi_ann_def)
  have goal_ok: "assert_target goal" by code_simp
  have valid: "\<forall>n \<in> set (cc_notifications (week_context [weekly])). assert_target (nt_target n)"
    by (simp add: the_notes fields goal_ok)
  have events: "{#note_at ''n1'' 9, note_at ''n2'' 7#} = filter_mset (\<lambda>n. nt_tenant n = ws_tenant wi_ann
      \<and> nt_conversation n = ws_conversation wi_ann \<and> - 259200000 \<le> nt_occurred n \<and> nt_occurred n < 345600000
      \<and> wants wi_ann (week_context [weekly]) (\<lambda>l. l = DigestLevel) n) (mset (cc_notifications (week_context [weekly])))"
    by (simp add: the_notes fields week_wants)
  have range: "date_range 5" by (simp add: date_range_def)
  from digest_accounts_for_events [OF co_ann_normal(1) range q week_dated valid events, of code_unit_order]
  show ?thesis by (auto simp: fields)
qed

text \<open>
  C30 (functional). The windows of digests divide time: the window of an instant contains it,
  every other instant it contains has the same window, the window of a day is one day, that of a
  week seven days from a Monday, and that of a month goes from its first day through its last.
  (For instants outside the years 0 to 99, which \<open>Date.UTC\<close> takes for years of the
  twentieth century.)
\<close>

theorem digest_windows_divide_time:
  assumes "\<not> old_year t" and "digest_window p t = Inr (a, b)"
  shows "a \<le> t \<and> t < b
    \<and> (\<forall>u. a \<le> u \<longrightarrow> u < b \<longrightarrow> \<not> old_year u \<longrightarrow> digest_window p u = Inr (a, b))
    \<and> (p = Daily \<longrightarrow> b = a + ms_per_day)
    \<and> (p = Weekly \<longrightarrow> b = a + 7 * ms_per_day \<and> week_day (a div ms_per_day) = 1)
    \<and> (p = Monthly \<longrightarrow> (\<exists>y m. civil (a div ms_per_day) = (y, m, 1) \<and> b = a + month_length (leap y) m * ms_per_day))"
proof -
  define s where "s = window_start p t"
  note day = day_window [OF assms(1), of p, folded s_def]
  have ab: "a = s * ms_per_day" "b = window_end p s * ms_per_day" and range: "date_range a" "date_range b"
    using assms(2) by (auto simp: digest_window_def s_def Let_def split: if_splits)
  have "a \<le> t \<and> t < b" unfolding ab time_within_days using day(1) .
  moreover have "digest_window p u = Inr (a, b)" if "a \<le> u" "u < b" "\<not> old_year u" for u
  proof -
    have "s \<le> u div ms_per_day \<and> u div ms_per_day < window_end p s"
      using that(1,2) unfolding ab time_within_days [symmetric] by simp
    then have "window_start p u = s" using day(2) that(3) by blast
    then show ?thesis using ab range by (simp add: digest_window_def Let_def)
  qed
  ultimately show ?thesis
    using day(3,4) by (auto simp: ab window_end_def algebra_simps)
qed

theorem digest_windows_divide_time_witness:
  "digest_window Weekly (- 259200000) = Inr (- 259200000, 345600000) \<and> week_day (- 3) = 1"
proof -
  have "\<not> old_year (- 259200000)" by (simp add: old_year_def sample_years)
  with digest_windows_divide_time [OF not_old_1970 sample_week_window] show ?thesis by auto
qed

text \<open>
  C31 (invariant). Whatever the operations of the dispatch queue do, and whatever others do
  between their accesses, every stored record stays canonical, filed under its own reference
  with the hash of its own task; no record disappears, none changes its task, its generation
  never falls, its owner changes only with a new generation, and neither a request for
  cancellation nor the mark of a sent message is taken back.
\<close>

theorem dispatch_records_are_kept:
  assumes "dispatch_good cfg st" and "others_step cfg env"
    and "st' = fst (enqueue cfg env raw st) \<or> st' = fst (lease_next cfg env vis n received st)
      \<or> st' = fst (hold cfg env l op st) \<or> st' = fst (request_cancellation cfg env ref reason st)"
  shows "dispatch_good cfg st' \<and> (\<forall>ref r. st ref = Some r \<longrightarrow> (\<exists>r'. st' ref = Some r' \<and> qr_task r' = qr_task r
    \<and> qr_generation r \<le> qr_generation r' \<and> (qr_generation r' = qr_generation r \<longrightarrow> qr_owner r' = qr_owner r)
    \<and> (value_of (qr_cancel r) = Some True \<longrightarrow> value_of (qr_cancel r') = Some True) \<and> (qr_enqueued r \<longrightarrow> qr_enqueued r')))"
proof -
  have "dispatch_reaches cfg st st'"
    using assms(3) enqueue_reaches [OF assms(2)] lease_reaches [OF assms(2)] hold_reaches [OF assms(2)] request_reaches [OF assms(2)]
    by blast
  from reaches_good [OF this assms(1)] show ?thesis
    unfolding store_follows_def follows_def immutable_identity_def by fastforce
qed

theorem dispatch_records_are_kept_witness:
  "dispatch_good open_cfg (fst (hold open_cfg (quiet_at 3000 ''w1'') first_lease (HoComplete sample_result) (filed_at sample_leased)))"
  using dispatch_records_are_kept [OF sample_stores_good(2) quiet_at_steps disjI2 [OF disjI2 [OF disjI1 [OF refl]]]] by blast

text \<open>
  C32 (safety). A lease that was superseded is fenced off: once another claim of the task has
  happened, at any later time and with any other steps in between, everything its holder tries
  (renewing the lease, completing, failing, cancelling) is refused, changes no record, and
  deletes no message.
\<close>

theorem superseded_lease_is_fenced:
  assumes "dispatch_good cfg st" and "st ref = Some r" and "lease_holds l r" and "validate_lease l = Inr ref"
    and "queue_steps cfg st evs st'" and "EvClaim ref g \<in> set evs" and "others_step cfg env"
  shows "(fst (hold cfg env l op st') = st' \<or> fst (hold cfg env l op st') = xe_others env 1 st')
    \<and> isl (snd (snd (hold cfg env l op st'))) \<and> (\<forall>i p. DeleteMessage i p \<notin> set (fst (snd (hold cfg env l op st'))))"
proof -
  obtain r' where r': "st' ref = Some r'" "qr_generation r < g" "g \<le> qr_generation r'"
    using claim_in_history [OF assms(5,1,6,2)] by blast
  then have "stale l r'" using assms(3) by (simp add: stale_def lease_holds_def)
  with stale_holder_refused [OF queue_steps_good(1) [OF assms(5,1)] assms(7) r'(1) assms(4)]
  have "refused env st' (hold cfg env l op st')" .
  then show ?thesis unfolding refused_def by blast
qed

theorem superseded_lease_is_fenced_witness:
  "isl (snd (snd (hold open_cfg (quiet_at 61000 ''w1'') first_lease (HoComplete sample_result) (filed_at sample_released))))
    \<and> isl (snd (snd (hold open_cfg (quiet_at 61000 ''w1'') first_lease (HoFail sample_failure) (filed_at sample_released))))"
proof -
  have "isl (snd (snd (hold open_cfg (quiet_at 61000 ''w1'') first_lease op (filed_at sample_released))))" for op
    using superseded_lease_is_fenced [OF sample_stores_good(2) filed_at_ref sample_leases_valid(3,1) sample_claim_history _ quiet_at_steps,
        of 2 61000 "''w1''" op] by simp
  then show ?thesis by blast
qed

text \<open>
  C33 (safety). No two leases of a task are the same: in every history of the records, whoever
  takes part, the generations that claims of one task give grow strictly.
\<close>

theorem claims_get_growing_generations:
  assumes "queue_steps cfg st evs st'" and "dispatch_good cfg st" and "i < k" and "k < length evs"
    and "evs ! i = EvClaim ref g" and "evs ! k = EvClaim ref h"
  shows "g < h"
  using claims_increase [OF assms] .

theorem claims_get_growing_generations_witness: "(1::int) < 2"
proof -
  have "queue_steps open_cfg (filed_at sample_queued) [EvClaim sample_ref 1, EvClaim sample_ref 2] (filed_at sample_released)"
    using sample_first_claim sample_second_claim by auto
  from claims_get_growing_generations [OF this sample_stores_good(1), of 0 1 sample_ref] show ?thesis by simp
qed



text \<open>
  C35 (safety). Submitting again changes nothing: once a task was sent, at any later time a
  submission under the same reference sends no message and writes no record; it answers with the
  record as it then is, or with a conflict when it is not the same request.
\<close>

theorem resubmission_sends_nothing:
  assumes "dispatch_good cfg st" and "st ref = Some r" and "qr_enqueued r" and "queue_steps cfg st evs st'" and "others_step cfg env"
    and "canonical_task raw = Inr t" and "ref_of_task t = ref" and "dc_accepts cfg (new_record (dc_sha cfg) (xe_now env) t)"
  shows "\<exists>r'. xe_others env 0 st' ref = Some r' \<and> enqueue cfg env raw st' = (xe_others env 0 st', [],
     if qr_hash r \<noteq> hash_task (dc_sha cfg) t \<or> qr_key r \<noteq> dt_key t then Inl DConflict else sanitize_record cfg r')"
proof -
  obtain r1 where r1: "st' ref = Some r1" "follows r r1" using steps_record [OF assms(4,1,2)] by blast
  then have "qr_enqueued r1" "qr_hash r1 = qr_hash r" "qr_key r1 = qr_key r"
    using assms(3) by (simp_all add: follows_def immutable_identity_def)
  with repeated_submission [OF queue_steps_good(1) [OF assms(4,1)] assms(5) r1(1) _ assms(6,7,8)] show ?thesis by metis
qed

theorem resubmission_sends_nothing_witness:
  "fst (snd (enqueue open_cfg (quiet_at 70000 ''w0'') (raw_of_task sample_task) (filed_at sample_released))) = []"
proof -
  have "canonical_task (raw_of_task sample_task) = Inr sample_task" using sample_task_canonical by (simp add: task_canonical_def)
  moreover have "qr_enqueued sample_leased" by (simp add: sample_leased_def leased_record_def sample_fields)
  ultimately show ?thesis
    using resubmission_sends_nothing [OF sample_stores_good(2) filed_at_ref _ sample_claim_history quiet_at_steps _ sample_task_ref,
        of "raw_of_task sample_task" 70000 "''w0''"] by auto
qed

text \<open>
  C36 (safety). A task whose cancellation was requested is never completed: whatever happened
  since, and whatever lease is presented, completing it is refused, changes no record and
  deletes no message.
\<close>

theorem cancelled_task_is_not_completed:
  assumes "dispatch_good cfg st" and "st ref = Some r" and "value_of (qr_cancel r) = Some True" and "queue_steps cfg st evs st'"
    and "others_step cfg env" and "validate_lease l = Inr ref"
  shows "(fst (complete cfg env l p st') = st' \<or> fst (complete cfg env l p st') = xe_others env 1 st')
    \<and> isl (snd (snd (complete cfg env l p st'))) \<and> (\<forall>i q. DeleteMessage i q \<notin> set (fst (snd (complete cfg env l p st'))))"
proof -
  obtain r1 where r1: "st' ref = Some r1" "follows r r1" using steps_record [OF assms(4,1,2)] by blast
  then have "value_of (qr_cancel r1) = Some True" using assms(3) by (simp add: follows_def)
  with cancelled_not_completed [OF queue_steps_good(1) [OF assms(4,1)] assms(5) r1(1)] assms(6)
  have "refused env st' (complete cfg env l p st')" by blast
  then show ?thesis unfolding refused_def by blast
qed

theorem cancelled_task_is_not_completed_witness:
  "isl (snd (snd (complete open_cfg (quiet_at 3000 ''w1'') first_lease sample_result
      (fst (request_cancellation open_cfg (quiet_at 2500 ''q'') sample_ref ''stop'' (filed_at sample_leased))))))"
proof -
  have "queue_steps open_cfg (filed_at sample_requested) [] (filed_at sample_requested)" by simp
  from cancelled_task_is_not_completed [OF sample_requested_good(1) filed_at_ref sample_requested_good(2) this quiet_at_steps
      sample_leases_valid(1)]
  show ?thesis by (simp add: sample_cancellation)
qed

text \<open>
  C37 (safety). A message of the first schema gains no access: when it is turned into a task,
  the task runs with the mode of the job the server keeps under its id, a job with the same
  prompt and the same owner, so a job accepted for reading only never comes back as one that may
  write.
\<close>

theorem old_messages_gain_no_access:
  assumes "parse_message cfg env text st = (st', Inr t)" and "dc_parse cfg text = Body raw" and "rd_schema raw = Some 1"
    and "dc_migration cfg = Some (\<lambda>raw h. case resolve_from_jobs (dc_sha cfg) jobs raw h of Inr x \<Rightarrow> x | Inl _ \<Rightarrow> None)"
  shows "\<exists>old j. canonical_legacy raw = Inr old \<and> jobs (lt_id old) = Some j \<and> job_agrees j old
    \<and> dt_execution t = mode_execution (job_mode j) \<and> (job_mode j = ReadOnly \<longrightarrow> dt_execution t \<noteq> WriteExecution)"
proof -
  obtain h where "(case resolve_from_jobs (dc_sha cfg) jobs raw h of Inr x \<Rightarrow> x | Inl _ \<Rightarrow> None) = Some (dt_execution t)"
    using legacy_execution [OF assms(1-3)] assms(4) by auto
  then have "resolve_from_jobs (dc_sha cfg) jobs raw h = Inr (Some (dt_execution t))" by (simp split: sum.splits)
  then obtain old j where "canonical_legacy raw = Inr old" "jobs (lt_id old) = Some j" "job_agrees j old"
    "dt_execution t = mode_execution (job_mode j)"
    by (rule resolve_from_jobs_mode)
  then show ?thesis by (auto simp: mode_execution_def)
qed

theorem old_messages_gain_no_access_witness:
  "\<exists>st' t. parse_message old_cfg old_env ''old'' (\<lambda>_. None) = (st', Inr t) \<and> dt_execution t = ReadOnlyExecution"
proof -
  obtain st' t where p: "parse_message old_cfg old_env ''old'' (\<lambda>_. None) = (st', Inr t)" using old_message_parses by blast
  from old_messages_gain_no_access [OF p old_cfg_facts] show ?thesis
    using p old_cfg_jobs by (auto simp: mode_execution_def)
qed

text \<open>
  C38 (bounds). What the queue answers about a task is bounded: every diagnostic text of an
  observed record fits its limit in bytes, whatever the record holds, and the record's task,
  status and generation are the stored ones.
\<close>

theorem answers_are_bounded:
  assumes "observe cfg ref st = Inr (Some s)"
  shows "bounded_response s \<and> (\<exists>ref' r. canonical_ref ref = Inr ref' \<and> st ref' = Some r \<and> qr_task s = qr_task r
    \<and> qr_status s = qr_status r \<and> qr_generation s = qr_generation r)"
proof -
  obtain ref' r where r: "canonical_ref ref = Inr ref'" "port_get cfg ref' st = Inr (Some r)" "sanitize_record cfg r = Inr s"
    using assms by (auto simp: observe_def chain_Inr split: option.splits)
  then have "st ref' = Some r" by (auto simp: port_get_def chain_Inr split: option.splits)
  with sanitized_bounded [OF r(3)] r(1) show ?thesis by (auto simp: immutable_identity_def)
qed

theorem answers_are_bounded_witness:
  "\<exists>s. observe open_cfg sample_ref (filed_at sample_queued) = Inr (Some s) \<and> bounded_response s \<and> qr_status s = DsQueued"
proof -
  have "observe open_cfg sample_ref (filed_at sample_queued) = Inr (Some sample_queued)" by (rule sample_observed)
  with answers_are_bounded [OF this] show ?thesis by (auto simp: sample_fields)
qed


text \<open>
  C40 (error). With the store the program is deployed with, no task ever ends: the end of a task
  writes the property \<open>leaseExpiresAt\<close> with the value \<open>undefined\<close>,
  which the runtime store refuses, so completing, failing and cancelling always raise, write
  nothing and leave the message to be delivered again.
\<close>

theorem ends_are_refused_by_the_runtime_store:
  assumes "dc_accepts cfg = runtime_accepts bounded"
    and "x = complete cfg env l p st \<or> x = fail_task cfg env l f st \<or> x = cancel_task cfg env l reason st"
  shows "isl (snd (snd x)) \<and> (fst x = st \<or> fst x = xe_others env 1 st) \<and> (\<forall>i q. DeleteMessage i q \<notin> set (fst (snd x)))"
proof -
  have "refused env st x" using runtime_store_refuses_ends [OF assms(1)] assms(2) by blast
  then show ?thesis unfolding refused_def by blast
qed

theorem ends_are_refused_by_the_runtime_store_witness:
  "isl (snd (snd (complete (queue_cfg (runtime_accepts (\<lambda>_. True))) (quiet_at 3000 ''w1'') first_lease sample_result (filed_at sample_leased))))"
  using ends_are_refused_by_the_runtime_store [of "queue_cfg (runtime_accepts (\<lambda>_. True))" "\<lambda>_. True"
      _ "quiet_at 3000 ''w1''" first_lease sample_result "filed_at sample_leased"] by simp

end
